(* ===== verification/Prelude.thy ===== *)
theory Prelude
  imports Main "HOL-Library.Word" "HOL-Library.Multiset"
begin

text \<open>
  What every component of the model shares: the names of the machine integer types, C++
  exceptions as values, decimal printing and \<open>std::from_chars\<close>, and sorting by a C++
  comparator with its correctness (multiset, length, order, uniqueness of the result), stated in
  two locales for the orders that \<open>std::sort\<close> asks for.
\<close>

named_theorems sort_facts \<open>what a sort by a comparator keeps\<close>
named_theorems show_facts \<open>printing numbers and reading them back\<close>

section \<open>Machine integers\<close>

text \<open>
  64-bit identifiers are words: \<open>uint64_t\<close> is read with \<open>unat\<close> and compared unsigned,
  \<open>int64_t\<close> is read with \<open>sint\<close>; \<open>static_cast\<close> between the two keeps the bits. The
  32-bit \<open>int\<close> of counts and positions is \<open>int\<close>: the source only compares these values
  and adds to them inside list lengths, so they never wrap; where a conversion to \<open>int\<close> can
  overflow the model says so.
\<close>

type_synonym uint64 = "64 word"
type_synonym int64 = "64 word"

definition int_max :: int where "int_max = 2147483647"
definition int_min :: int where "int_min = - 2147483648"

section \<open>Exceptions as values\<close>

datatype cpp_error =
    InvalidArgument string
  | RuntimeError string
  | OutOfRange string

type_synonym 'a throws = "cpp_error + 'a"

fun what :: "cpp_error \<Rightarrow> string" where
  "what (InvalidArgument m) = m"
| "what (RuntimeError m) = m"
| "what (OutOfRange m) = m"

text \<open>Sequencing: an exception leaves the rest of the block unexecuted.\<close>

fun bindE :: "'a throws \<Rightarrow> ('a \<Rightarrow> 'b throws) \<Rightarrow> 'b throws" where
  "bindE (Inl e) f = Inl e"
| "bindE (Inr x) f = f x"

lemma bindE_Inr_iff [simp]: "bindE m f = Inr y \<longleftrightarrow> (\<exists>x. m = Inr x \<and> f x = Inr y)"
  by (cases m) auto

lemma bindE_Inl_iff:
  "bindE m f = Inl e \<longleftrightarrow> m = Inl e \<or> (\<exists>x. m = Inr x \<and> f x = Inl e)"
  by (cases m) auto

lemma bindE_cong [fundef_cong]:
  "m = m' \<Longrightarrow> (\<And>x. m' = Inr x \<Longrightarrow> f x = f' x) \<Longrightarrow> bindE m f = bindE m' f'"
  by (cases m') auto

text \<open>A loop that pushes one result per element and is left by the first exception.\<close>

fun mapE :: "('a \<Rightarrow> 'b throws) \<Rightarrow> 'a list \<Rightarrow> 'b list throws" where
  "mapE f [] = Inr []"
| "mapE f (x # xs) = bindE (f x) (\<lambda>y. bindE (mapE f xs) (\<lambda>ys. Inr (y # ys)))"

lemma mapE_Inr_iff: "mapE f xs = Inr ys \<longleftrightarrow> list_all2 (\<lambda>x y. f x = Inr y) xs ys"
proof (induction xs arbitrary: ys)
  case Nil
  then show ?case by auto
next
  case (Cons x xs)
  then show ?case by (auto simp: list_all2_Cons1)
qed

lemma mapE_length: "mapE f xs = Inr ys \<Longrightarrow> length ys = length xs"
  by (auto simp: mapE_Inr_iff dest: list_all2_lengthD)

lemma mapE_total: "(\<And>x. x \<in> set xs \<Longrightarrow> f x = Inr (g x)) \<Longrightarrow> mapE f xs = Inr (map g xs)"
  by (induction xs) auto

lemma mapE_append:
  "mapE f (xs @ ys) = bindE (mapE f xs) (\<lambda>a. bindE (mapE f ys) (\<lambda>b. Inr (a @ b)))"
proof (induction xs)
  case Nil
  then show ?case by (cases "mapE f ys") auto
next
  case (Cons x xs)
  then show ?case by (cases "f x"; cases "mapE f xs"; cases "mapE f ys") auto
qed

lemma mapE_map: "mapE f (map g xs) = mapE (\<lambda>x. f (g x)) xs"
  by (induction xs) auto

section \<open>Decimal text\<close>

definition digit_char :: "nat \<Rightarrow> char" where
  "digit_char d = char_of (48 + d)"

definition is_digit :: "char \<Rightarrow> bool" where
  "is_digit c \<longleftrightarrow> 48 \<le> (of_char c :: nat) \<and> (of_char c :: nat) \<le> 57"

definition digit_val :: "char \<Rightarrow> nat" where
  "digit_val c = of_char c - 48"

lemma digit_val_digit_char [simp]: "d < 10 \<Longrightarrow> digit_val (digit_char d) = d"
  by (simp add: digit_val_def digit_char_def)

lemma is_digit_digit_char [simp]: "d < 10 \<Longrightarrow> is_digit (digit_char d)"
  by (simp add: is_digit_def digit_char_def)

text \<open>\<open>std::to_string\<close> and the \<open>{}\<close> of \<open>std::format\<close> on integers.\<close>

fun show_nat :: "nat \<Rightarrow> string" where
  "show_nat n = (if n < 10 then [digit_char n] else show_nat (n div 10) @ [digit_char (n mod 10)])"

declare show_nat.simps [simp del]

definition show_int :: "int \<Rightarrow> string" where
  "show_int i = (if i < 0 then CHR ''-'' # show_nat (nat (- i)) else show_nat (nat i))"

definition digits_val :: "string \<Rightarrow> nat" where
  "digits_val cs = foldl (\<lambda>n c. 10 * n + digit_val c) 0 cs"

lemma digits_val_snoc [simp]: "digits_val (cs @ [c]) = 10 * digits_val cs + digit_val c"
  by (simp add: digits_val_def)

lemma show_nat_nonempty [simp]: "show_nat n \<noteq> []"
  by (subst show_nat.simps) simp

lemma show_nat_digits [show_facts]: "\<forall>c \<in> set (show_nat n). is_digit c"
proof (induction n rule: show_nat.induct)
  case (1 n)
  then show ?case by (subst show_nat.simps) auto
qed

lemma digits_val_show_nat [show_facts]: "digits_val (show_nat n) = n"
proof (induction n rule: show_nat.induct)
  case (1 n)
  then show ?case
    by (subst show_nat.simps) (auto simp: digits_val_def)
qed

lemma show_nat_inject [simp]: "show_nat m = show_nat n \<longleftrightarrow> m = n"
  by (metis digits_val_show_nat)

lemma hd_show_nat_not_minus: "hd (show_nat n) \<noteq> CHR ''-''"
proof
  assume "hd (show_nat n) = CHR ''-''"
  then have "is_digit (CHR ''-'')"
    using show_nat_digits [of n] by (metis hd_in_set show_nat_nonempty)
  then show False by (simp add: is_digit_def)
qed

lemma show_int_inject [simp]: "show_int i = show_int j \<longleftrightarrow> i = j"
proof
  assume eq: "show_int i = show_int j"
  show "i = j"
    using eq hd_show_nat_not_minus [of "nat i"] hd_show_nat_not_minus [of "nat j"]
    by (auto simp: show_int_def split: if_splits dest: arg_cong [of _ _ hd])
qed simp

text \<open>
  \<open>std::from_chars\<close> in base 10: the unread rest (\<open>ptr\<close>), the error code and the value.
  It takes the longest prefix of digits, no leading blank and no plus sign, a minus sign only
  for a signed type, and reports overflow after having read all the digits; on an error the
  output keeps its initial value 0.
\<close>

datatype errc = Ok | InvalidArg | ResultOutOfRange

fun from_chars_unsigned :: "nat \<Rightarrow> string \<Rightarrow> string \<times> errc \<times> nat" where
  "from_chars_unsigned bound cs =
     (let ds = takeWhile is_digit cs; rest = dropWhile is_digit cs
      in if ds = [] then (cs, InvalidArg, 0)
         else if bound \<le> digits_val ds then (rest, ResultOutOfRange, 0)
         else (rest, Ok, digits_val ds))"

fun from_chars_signed :: "int \<Rightarrow> int \<Rightarrow> string \<Rightarrow> string \<times> errc \<times> int" where
  "from_chars_signed lo hi cs =
     (let neg = (\<exists>cs'. cs = CHR ''-'' # cs');
          body = (if neg then tl cs else cs);
          ds = takeWhile is_digit body; rest = dropWhile is_digit body;
          v = (if neg then - int (digits_val ds) else int (digits_val ds))
      in if ds = [] then (cs, InvalidArg, 0)
         else if v < lo \<or> hi < v then (rest, ResultOutOfRange, 0)
         else (rest, Ok, v))"

text \<open>The test for a first character, for evaluation.\<close>

lemma ex_Cons_eq: "(\<exists>r. cs = c # r) \<longleftrightarrow> (case cs of [] \<Rightarrow> False | d # _ \<Rightarrow> d = c)"
  by (cases cs) auto

lemmas from_chars_signed_code [code] = from_chars_signed.simps [unfolded ex_Cons_eq]

text \<open>The reading of a whole text, as every caller of \<open>from_chars\<close> in the source does it.\<close>

definition parse_uint64 :: "string \<Rightarrow> uint64 option" where
  "parse_uint64 cs =
     (case from_chars_unsigned (2 ^ 64) cs of
        (rest, ec, n) \<Rightarrow> if ec \<noteq> Ok \<or> rest \<noteq> [] then None else Some (of_nat n))"

lemma takeWhile_show_nat [simp]: "takeWhile is_digit (show_nat n) = show_nat n"
  using show_nat_digits by (simp add: takeWhile_eq_all_conv)

lemma dropWhile_show_nat [simp]: "dropWhile is_digit (show_nat n) = []"
  using show_nat_digits by (simp add: dropWhile_eq_Nil_conv)

lemma from_chars_unsigned_show [show_facts]:
  "from_chars_unsigned b (show_nat n) = (if n < b then ([], Ok, n) else ([], ResultOutOfRange, 0))"
  by (simp add: digits_val_show_nat)

declare from_chars_unsigned.simps [simp del]

lemma parse_uint64_show [show_facts]: "parse_uint64 (show_nat (unat w)) = Some w"
proof -
  have "unat w < 2 ^ 64" using unsigned_less [of w] by simp
  then show ?thesis by (simp add: parse_uint64_def from_chars_unsigned_show)
qed

lemma from_chars_signed_show [show_facts]:
  assumes "lo \<le> i" "i \<le> hi"
  shows "from_chars_signed lo hi (show_int i) = ([], Ok, i)"
proof (cases "i < 0")
  case True
  then show ?thesis using assms by (simp add: show_int_def digits_val_show_nat Let_def)
next
  case False
  then have "\<nexists>cs'. show_nat (nat i) = CHR ''-'' # cs'"
    using hd_show_nat_not_minus [of "nat i"] by (metis list.sel(1))
  with False show ?thesis using assms by (simp add: show_int_def digits_val_show_nat Let_def)
qed

declare from_chars_signed.simps [simp del]

section \<open>Sorting by a C++ comparator\<close>

text \<open>
  \<open>std::stable_sort\<close> (and \<open>std::sort\<close>, \<open>std::partial_sort\<close> where the comparator
  decides every pair) with comparator \<open>lt\<close>: insertion from the right, an element going before
  the first one that is not less than it, so equivalent elements keep their order.
\<close>

fun insort_by :: "('a \<Rightarrow> 'a \<Rightarrow> bool) \<Rightarrow> 'a \<Rightarrow> 'a list \<Rightarrow> 'a list" where
  "insort_by lt x [] = [x]"
| "insort_by lt x (y # ys) = (if lt y x then y # insort_by lt x ys else x # y # ys)"

definition sort_by :: "('a \<Rightarrow> 'a \<Rightarrow> bool) \<Rightarrow> 'a list \<Rightarrow> 'a list" where
  "sort_by lt xs = foldr (insort_by lt) xs []"

lemma sort_by_simps [simp]:
  "sort_by lt [] = []" "sort_by lt (x # xs) = insort_by lt x (sort_by lt xs)"
  by (simp_all add: sort_by_def)

lemma mset_insort_by [simp]: "mset (insort_by lt x xs) = {#x#} + mset xs"
  by (induction xs) auto

lemma mset_sort_by [sort_facts]: "mset (sort_by lt xs) = mset xs"
  by (induction xs) auto

lemma set_sort_by [sort_facts]: "set (sort_by lt xs) = set xs"
  using mset_sort_by by (metis set_mset_mset)

lemma length_sort_by [sort_facts]: "length (sort_by lt xs) = length xs"
  using mset_sort_by by (metis size_mset)

lemma distinct_map_sort_by [sort_facts]: "distinct (map f (sort_by lt xs)) = distinct (map f xs)"
  by (metis mset_map mset_sort_by mset_eq_imp_distinct_iff)

lemma distinct_sort_by [sort_facts]: "distinct (sort_by lt xs) = distinct xs"
  by (metis mset_sort_by mset_eq_imp_distinct_iff)

text \<open>
  What \<open>std::sort\<close> requires of a comparator on the elements it is given (\<open>A\<close>): a strict weak
  order. A comparator on doubles is one only away from NaN, so the carrier matters.
\<close>

locale strict_weak_order =
  fixes lt :: "'a \<Rightarrow> 'a \<Rightarrow> bool" and A :: "'a set"
  assumes irreflexive: "x \<in> A \<Longrightarrow> \<not> lt x x"
    and transitive: "\<lbrakk>x \<in> A; y \<in> A; z \<in> A; lt x y; lt y z\<rbrakk> \<Longrightarrow> lt x z"
    and negatively_transitive:
      "\<lbrakk>x \<in> A; y \<in> A; z \<in> A; \<not> lt y x; \<not> lt z y\<rbrakk> \<Longrightarrow> \<not> lt z x"
begin

lemma asymmetric: "\<lbrakk>x \<in> A; y \<in> A; lt x y\<rbrakk> \<Longrightarrow> \<not> lt y x"
  using irreflexive transitive by blast

lemma sorted_insort_by:
  assumes "x \<in> A" "set ys \<subseteq> A" "sorted_wrt (\<lambda>a b. \<not> lt b a) ys"
  shows "sorted_wrt (\<lambda>a b. \<not> lt b a) (insort_by lt x ys)"
  using assms
proof (induction ys)
  case Nil
  then show ?case by simp
next
  case (Cons y ys)
  have sub: "set ys \<subseteq> A" "y \<in> A" using Cons.prems by auto
  show ?case
  proof (cases "lt y x")
    case True
    have "set (insort_by lt x ys) = insert x (set ys)"
      using mset_insort_by by (metis set_mset_mset set_mset_add_mset_insert add_mset_add_single
          add.commute)
    with True Cons sub show ?thesis by (auto dest: asymmetric)
  next
    case False
    have "\<not> lt z x" if "z \<in> set ys" for z
      using that False Cons.prems sub negatively_transitive [of x y z] by auto
    with False Cons.prems show ?thesis by auto
  qed
qed

lemma sorted_sort_by: "set xs \<subseteq> A \<Longrightarrow> sorted_wrt (\<lambda>a b. \<not> lt b a) (sort_by lt xs)"
  by (induction xs) (auto intro!: sorted_insort_by simp: set_sort_by)

end

text \<open>
  When the comparator also tells apart any two elements that differ in a key (the id the source
  falls back to when the scores are equal), the result does not depend on the order of the input:
  every correct sort of elements with distinct keys returns the same list. That is what makes the
  source's sorts of the entries of a hash map deterministic.
\<close>

locale keyed_order = strict_weak_order +
  fixes key :: "'a \<Rightarrow> 'k"
  assumes key_total: "\<lbrakk>x \<in> A; y \<in> A; key x \<noteq> key y\<rbrakk> \<Longrightarrow> lt x y \<or> lt y x"
begin

lemma sorted_unique:
  assumes "mset xs = mset ys" "set xs \<subseteq> A" "inj_on key (set xs)"
    "sorted_wrt (\<lambda>a b. \<not> lt b a) xs" "sorted_wrt (\<lambda>a b. \<not> lt b a) ys"
  shows "xs = ys"
  using assms
proof (induction xs arbitrary: ys)
  case Nil
  then show ?case by simp
next
  case (Cons x xs)
  then obtain y ys' where ys: "ys = y # ys'" by (metis list.exhaust mset_zero_iff neq_Nil_conv)
  have sets: "set (x # xs) = set ys" using Cons.prems(1) by (metis set_mset_mset)
  have in_A: "x \<in> A" "y \<in> A" using Cons.prems(2) sets ys by auto
  have "x = y"
  proof (rule ccontr)
    assume "x \<noteq> y"
    then have "y \<in> set xs" "x \<in> set ys'" using sets ys by auto
    then have "\<not> lt y x" "\<not> lt x y" using Cons.prems(4,5) ys by auto
    moreover have "key x \<noteq> key y"
      using Cons.prems(3) \<open>x \<noteq> y\<close> \<open>y \<in> set xs\<close> by (simp add: inj_on_def) metis
    ultimately show False using key_total in_A by blast
  qed
  with Cons ys show ?case by simp
qed

lemma sort_by_unique:
  "\<lbrakk>mset xs = mset ys; set xs \<subseteq> A; inj_on key (set xs); sorted_wrt (\<lambda>a b. \<not> lt b a) ys\<rbrakk> \<Longrightarrow>
    sort_by lt xs = ys"
  by (rule sorted_unique) (auto simp: mset_sort_by set_sort_by intro: sorted_sort_by)

lemma sort_by_perm:
  assumes "mset xs = mset ys" "set xs \<subseteq> A" "inj_on key (set xs)"
  shows "sort_by lt xs = sort_by lt ys"
proof -
  have "set ys \<subseteq> A" using assms by (metis set_mset_mset)
  then show ?thesis
    using assms by (intro sort_by_unique) (auto simp: mset_sort_by intro: sorted_sort_by)
qed

lemma strictly_sorted:
  "\<lbrakk>set xs \<subseteq> A; distinct (map key xs); sorted_wrt (\<lambda>a b. \<not> lt b a) xs\<rbrakk> \<Longrightarrow> sorted_wrt lt xs"
proof (induction xs)
  case (Cons x xs)
  have "lt x y" if "y \<in> set xs" for y
    using that Cons.prems key_total [of x y] by (force simp: image_iff)
  with Cons show ?case by simp
qed simp

lemma sort_by_strictly_sorted:
  "\<lbrakk>set xs \<subseteq> A; distinct (map key xs)\<rbrakk> \<Longrightarrow> sorted_wrt lt (sort_by lt xs)"
  by (rule strictly_sorted)
    (simp_all add: set_sort_by distinct_map_sort_by sorted_sort_by)

end

end
