(* ===== verification/Binary64.thy ===== *)
theory Binary64
  imports Complex_Main Prelude
begin

text \<open>
  The C++ \<open>double\<close>: IEEE 754 binary64 with round-to-nearest, ties to even, computed on exact
  rationals. A finite value of \<open>float64\<close> is the rational it denotes: the comparisons and the arithmetic
  of the source cannot tell the two zeros apart (no division by a computed value, no \<open>signbit\<close>).
  What can is text: a double that is read from text or printed as text, by \<open>std::to_string\<close> or
  \<open>operator<<\<close>, is a \<open>double\<close>, which has the negative zero as a value of its own. NaN and the infinities are values of their own, so
  the comparisons that the source relies on behave as the hardware's: every ordered comparison
  with NaN is false. A protobuf \<open>float\<close> widens to \<open>double\<close> exactly and is modelled by that value.
\<close>

section \<open>The position of the leading bit\<close>

function blen :: "int \<Rightarrow> int" where
  "blen n = (if n \<le> 0 then 0 else 1 + blen (n div 2))"
  by pat_completeness auto
termination
  by (relation "measure nat") auto

declare blen.simps [simp del]

lemma blen_simps [simp]:
  "blen 0 = 0" "blen 1 = 1"
  "blen (numeral (Num.Bit0 m)) = 1 + blen (numeral m)"
  "blen (numeral (Num.Bit1 m)) = 1 + blen (numeral m)"
  by (subst blen.simps; simp add: blen.simps)+

lemma blen_nonneg: "0 \<le> blen n"
proof (induction n rule: blen.induct)
  case (1 n)
  then show ?case by (subst blen.simps) auto
qed

lemma blen_bounds: "0 < n \<Longrightarrow> 2 ^ nat (blen n) \<le> 2 * n \<and> n < 2 ^ nat (blen n)"
proof (induction n rule: blen.induct)
  case (1 n)
  show ?case
  proof (cases "n = 1")
    case True
    then show ?thesis by simp
  next
    case False
    with 1 have IH: "2 ^ nat (blen (n div 2)) \<le> 2 * (n div 2)" "n div 2 < 2 ^ nat (blen (n div 2))"
      by auto
    define p :: int where "p = 2 ^ nat (blen (n div 2))"
    have "nat (blen n) = Suc (nat (blen (n div 2)))"
      using "1.prems" blen_nonneg [of "n div 2"] by (subst blen.simps) simp
    then have "2 ^ nat (blen n) = 2 * p" by (simp add: p_def)
    moreover have "p \<le> n" "n < 2 * p" using IH unfolding p_def [symmetric] by presburger+
    ultimately show ?thesis by simp
  qed
qed

text \<open>The exponent \<open>e\<close> with \<open>2\<^sup>e \<le> x < 2\<^sup>e\<^sup>+\<^sup>1\<close>, for positive \<open>x\<close>.\<close>

definition ilog2 :: "rat \<Rightarrow> int" where
  "ilog2 x = (if 1 \<le> x then blen \<lfloor>x\<rfloor> - 1 else - blen (\<lceil>1 / x\<rceil> - 1))"

lemma ilog2_bounds:
  assumes "0 < x"
  shows "2 powi ilog2 x \<le> x \<and> x < 2 powi (ilog2 x + 1)"
proof (cases "1 \<le> x")
  case True
  then have pos: "0 < \<lfloor>x\<rfloor>" by simp
  define n where "n = nat (blen \<lfloor>x\<rfloor>)"
  have b: "2 ^ n \<le> 2 * \<lfloor>x\<rfloor>" "\<lfloor>x\<rfloor> < 2 ^ n"
    using blen_bounds [OF pos] by (simp_all add: n_def)
  have n: "blen \<lfloor>x\<rfloor> = int n" by (simp add: n_def blen_nonneg)
  have "n \<noteq> 0" using b pos by (cases n) auto
  then have e: "ilog2 x = int (n - 1)" using True n by (simp add: ilog2_def of_nat_diff)
  have "2 ^ (n - 1) \<le> \<lfloor>x\<rfloor>" using b(1) \<open>n \<noteq> 0\<close> by (cases n) auto
  then have lo: "2 ^ (n - 1) \<le> x" by (metis le_floor_iff of_int_numeral of_int_power)
  have "x < 2 ^ n" using b(2) by (metis floor_less_iff of_int_numeral of_int_power)
  moreover have "ilog2 x + 1 = int n" using e \<open>n \<noteq> 0\<close> by simp
  ultimately show ?thesis using lo e by (simp only: power_int_of_nat)
next
  case False
  define m where "m = \<lceil>1 / x\<rceil> - 1"
  have "1 < 1 / x" using assms False by simp
  then have pos: "0 < m" by (simp add: m_def less_ceiling_iff)
  define n where "n = nat (blen m)"
  have b: "2 ^ n \<le> 2 * m" "m < 2 ^ n" using blen_bounds [OF pos] by (simp_all add: n_def)
  have e: "ilog2 x = - int n" using False by (simp add: ilog2_def m_def n_def blen_nonneg)
  have "n \<noteq> 0" using b pos by (cases n) auto
  have "\<lceil>1 / x\<rceil> \<le> 2 ^ n" using b(2) by (simp add: m_def)
  then have "1 / x \<le> 2 ^ n" by (metis ceiling_le_iff of_int_numeral of_int_power)
  then have lo: "1 / 2 ^ n \<le> x" using assms by (simp add: field_simps)
  have "2 ^ (n - 1) < \<lceil>1 / x\<rceil>" using b(1) \<open>n \<noteq> 0\<close> by (cases n) (auto simp: m_def)
  then have "2 ^ (n - 1) < 1 / x" by (metis less_ceiling_iff of_int_numeral of_int_power)
  then have hi: "x < 1 / 2 ^ (n - 1)" using assms by (simp add: field_simps)
  have "ilog2 x + 1 = - int (n - 1)" using e \<open>n \<noteq> 0\<close> by simp
  then have "(2 :: rat) powi (ilog2 x + 1) = 1 / 2 ^ (n - 1)"
    by (simp only: power_int_minus power_int_of_nat divide_inverse mult_1)
  moreover have "(2 :: rat) powi ilog2 x = 1 / 2 ^ n"
    by (simp add: e power_int_minus divide_inverse)
  ultimately show ?thesis using lo hi by simp
qed

section \<open>Rounding to the nearest integer, ties to even\<close>

definition rint :: "rat \<Rightarrow> int" where
  "rint q =
     (let f = \<lfloor>q\<rfloor>; d = q - of_int f
      in if d < 1 / 2 then f else if 1 / 2 < d then f + 1 else if even f then f else f + 1)"

lemma rint_close: "\<bar>q - of_int (rint q)\<bar> \<le> 1 / 2"
proof -
  have "of_int \<lfloor>q\<rfloor> \<le> q" "q < of_int \<lfloor>q\<rfloor> + 1" by linarith+
  then show ?thesis by (auto simp: rint_def Let_def abs_le_iff field_simps)
qed

lemma rint_tie: "\<bar>q - of_int (rint q)\<bar> = 1 / 2 \<Longrightarrow> even (rint q)"
  unfolding rint_def Let_def by (auto split: if_splits simp: abs_if; linarith)

lemma rint_mono: "x \<le> y \<Longrightarrow> rint x \<le> rint y"
proof (rule ccontr)
  assume le: "x \<le> y" and "\<not> rint x \<le> rint y"
  then have gt: "rint y + 1 \<le> rint x" by simp
  then have gt': "of_int (rint y) + 1 \<le> (of_int (rint x) :: rat)" by linarith
  with rint_close [of x] rint_close [of y] le
  have eq: "x = y" "\<bar>x - of_int (rint x)\<bar> = 1 / 2" "\<bar>y - of_int (rint y)\<bar> = 1 / 2"
    by linarith+
  then show False using gt by simp
qed

lemma rint_of_int [simp]: "rint (of_int n) = n"
  by (simp add: rint_def)

lemma rint_minus: "rint (- x) = - rint x"
proof -
  have c: "\<bar>- x - of_int (rint (- x))\<bar> \<le> 1 / 2" "\<bar>x - of_int (rint x)\<bar> \<le> 1 / 2"
    by (rule rint_close)+
  show ?thesis
  proof (rule ccontr)
    assume ne: "rint (- x) \<noteq> - rint x"
    then have "\<bar>rint (- x) + rint x\<bar> \<ge> 1" by linarith
    then have "\<bar>of_int (rint (- x)) + (of_int (rint x) :: rat)\<bar> \<ge> 1" by linarith
    with c have "\<bar>- x - of_int (rint (- x))\<bar> = 1 / 2" "\<bar>x - of_int (rint x)\<bar> = 1 / 2"
      and one: "\<bar>of_int (rint (- x)) + (of_int (rint x) :: rat)\<bar> = 1"
      by linarith+
    then have "even (rint (- x))" "even (rint x)" by (blast dest: rint_tie)+
    moreover from one have "\<bar>rint (- x) + rint x\<bar> = 1" by linarith
    ultimately show False by presburger
  qed
qed

section \<open>Rounding to 53 significant bits\<close>

text \<open>The spacing of the doubles around \<open>x\<close>: 53 bits, and never below the subnormal spacing.\<close>

definition quantum :: "rat \<Rightarrow> int" where
  "quantum x = max (ilog2 \<bar>x\<bar> - 52) (- 1074)"

definition round53 :: "rat \<Rightarrow> rat" where
  "round53 x = (if x = 0 then 0 else of_int (rint (x / 2 powi quantum x)) * 2 powi quantum x)"

lemma powi2_pos [simp]: "0 < (2 :: rat) powi k"
  by (simp add: zero_less_power_int)

lemma powi2_add: "(2 :: rat) powi (a + b) = 2 powi a * 2 powi b"
  by (simp add: power_int_add)

lemma powi2_mono: "a \<le> b \<Longrightarrow> (2 :: rat) powi a \<le> 2 powi b"
  by (simp add: power_int_increasing)

lemma powi2_less_iff: "(2 :: rat) powi a < 2 powi b \<longleftrightarrow> a < b"
  by (meson not_le powi2_mono power_int_strict_increasing one_less_numeral_iff semiring_norm(76))

lemma ilog2_mono: "0 < x \<Longrightarrow> x \<le> y \<Longrightarrow> ilog2 x \<le> ilog2 y"
proof -
  assume "0 < x" "x \<le> y"
  then have "(2 :: rat) powi ilog2 x < 2 powi (ilog2 y + 1)"
    using ilog2_bounds [of x] ilog2_bounds [of y] by linarith
  then show ?thesis by (simp add: powi2_less_iff)
qed

lemma quantum_minus [simp]: "quantum (- x) = quantum x"
  by (simp add: quantum_def)

lemma round53_minus: "round53 (- x) = - round53 x"
  by (simp add: round53_def rint_minus)

lemma round53_0 [simp]: "round53 0 = 0"
  by (simp add: round53_def)

lemma quantum_mono: "0 < x \<Longrightarrow> x \<le> y \<Longrightarrow> quantum x \<le> quantum y"
  using ilog2_mono [of x y] by (simp add: quantum_def max.coboundedI1)

lemma round53_mono_pos:
  assumes "0 < x" "x \<le> y"
  shows "round53 x \<le> round53 y"
proof (cases "quantum x = quantum y")
  case True
  have "x / 2 powi quantum y \<le> y / 2 powi quantum y" using assms by (simp add: divide_right_mono)
  then have "rint (x / 2 powi quantum y) \<le> rint (y / 2 powi quantum y)" by (rule rint_mono)
  then show ?thesis using assms True by (simp add: round53_def mult_right_mono)
next
  case False
  define k l where "k = quantum x" and "l = quantum y"
  have kl: "k + 1 \<le> l" using False quantum_mono [OF assms] by (simp add: k_def l_def)
  have l: "l = ilog2 y - 52" using kl assms by (simp add: l_def k_def quantum_def max_def split: if_splits)
  have k: "ilog2 x \<le> k + 52" using assms by (simp add: k_def quantum_def)
  have "x < 2 powi (ilog2 x + 1)" using ilog2_bounds assms by blast
  also have "\<dots> \<le> 2 powi (k + 53)" using k by (intro powi2_mono) simp
  finally have "x / 2 powi k \<le> of_int (2 ^ 53)"
    by (simp add: powi2_add field_simps)
  then have "rint (x / 2 powi k) \<le> 2 ^ 53" using rint_mono rint_of_int by metis
  then have "of_int (rint (x / 2 powi k)) \<le> (2 ^ 53 :: rat)"
    by (metis of_int_le_iff of_int_numeral of_int_power)
  then have "round53 x \<le> 2 ^ 53 * 2 powi k" using assms by (simp add: round53_def k_def)
  also have "\<dots> = 2 powi (k + 53)" by (simp add: powi2_add)
  also have "\<dots> \<le> 2 powi (l + 52)" using kl by (intro powi2_mono) simp
  also have "\<dots> = 2 ^ 52 * 2 powi l" by (simp add: powi2_add)
  also have "\<dots> \<le> round53 y"
  proof -
    have "2 powi (l + 52) \<le> y" using ilog2_bounds [of y] assms by (simp add: l)
    then have "of_int (2 ^ 52) \<le> y / 2 powi l" by (simp add: powi2_add field_simps)
    then have "2 ^ 52 \<le> rint (y / 2 powi l)" using rint_mono rint_of_int by metis
    then have "(2 ^ 52 :: rat) \<le> of_int (rint (y / 2 powi l))"
      by (metis of_int_le_iff of_int_numeral of_int_power)
    then show ?thesis using assms by (simp add: round53_def l_def)
  qed
  finally show ?thesis .
qed

lemma round53_nonneg: "0 \<le> x \<Longrightarrow> 0 \<le> round53 x"
proof (cases "x = 0")
  case False
  assume "0 \<le> x"
  then have "of_int 0 \<le> x / 2 powi quantum x" by simp
  then have "0 \<le> rint (x / 2 powi quantum x)" by (metis rint_mono rint_of_int)
  then show ?thesis by (simp add: round53_def)
qed simp

lemma round53_mono: "x \<le> y \<Longrightarrow> round53 x \<le> round53 y"
proof -
  assume le: "x \<le> y"
  consider "0 < x" | "x \<le> 0" "0 \<le> y" | "y < 0" by linarith
  then show ?thesis
  proof cases
    case 1
    then show ?thesis using le by (rule round53_mono_pos)
  next
    case 2
    then have "0 \<le> round53 (- x)" "0 \<le> round53 y" by (simp_all add: round53_nonneg)
    then show ?thesis by (simp add: round53_minus)
  next
    case 3
    then have "round53 (- y) \<le> round53 (- x)" using le by (intro round53_mono_pos) simp_all
    then show ?thesis by (simp add: round53_minus)
  qed
qed

text \<open>A number with at most 53 significant bits above the subnormal spacing is not changed.\<close>

lemma round53_exact_pos:
  assumes "0 < m" "m \<le> 2 ^ 53" "- 1074 \<le> k"
  shows "round53 (of_int m * 2 powi k) = of_int m * 2 powi k"
proof -
  define x :: rat where "x = of_int m * 2 powi k"
  define q where "q = quantum x"
  have pos: "0 < x" using assms by (simp add: x_def)
  have "\<exists>n. x = of_int n * 2 powi q"
  proof (cases "q \<le> k")
    case True
    have "x = of_int m * (2 powi (k - q) * 2 powi q)" by (simp add: x_def flip: powi2_add)
    moreover have "(2 :: rat) powi (k - q) = of_int (2 ^ nat (k - q))"
      using True by (simp add: power_int_def)
    ultimately show ?thesis by (metis mult.assoc of_int_mult)
  next
    case False
    then have q: "q = ilog2 x - 52" using assms pos by (auto simp: q_def quantum_def max_def split: if_splits)
    have "2 powi ilog2 x \<le> x" using ilog2_bounds pos by blast
    also have "x \<le> 2 ^ 53 * 2 powi k"
      using assms(2) by (simp add: x_def)
    also have "\<dots> = 2 powi (k + 53)" by (simp add: powi2_add)
    finally have le: "ilog2 x \<le> k + 53"
      by (meson linorder_not_le powi2_less_iff)
    with False q have e: "ilog2 x = k + 53" "q = k + 1" by auto
    have "2 powi (k + 53) \<le> x" using ilog2_bounds [OF pos] e by simp
    then have "2 ^ 53 \<le> (of_int m :: rat)" by (simp add: x_def powi2_add)
    then have "2 ^ 53 \<le> m" by (metis of_int_le_iff of_int_numeral of_int_power)
    with assms have "m = 2 ^ 53" by simp
    then have "x = of_int (2 ^ 52) * 2 powi q" by (simp add: x_def e powi2_add)
    then show ?thesis by blast
  qed
  then obtain n where n: "x = of_int n * 2 powi q" by blast
  have "x / 2 powi q = of_int n" by (simp add: n)
  then have "round53 x = of_int n * 2 powi q" using pos by (simp add: round53_def flip: q_def)
  then show ?thesis using n by (simp add: x_def)
qed

lemma round53_exact:
  assumes "\<bar>m\<bar> \<le> 2 ^ 53" "- 1074 \<le> k"
  shows "round53 (of_int m * 2 powi k) = of_int m * 2 powi k"
proof -
  consider "m = 0" | "0 < m" | "m < 0" by linarith
  then show ?thesis
  proof cases
    case 3
    then have "round53 (of_int (- m) * 2 powi k) = of_int (- m) * 2 powi k"
      using assms by (intro round53_exact_pos) auto
    then show ?thesis using round53_minus [of "of_int m * 2 powi k"] by simp
  qed (use assms in \<open>auto intro: round53_exact_pos\<close>)
qed

lemma round53_form: "\<exists>m k. round53 x = of_int m * 2 powi k \<and> \<bar>m\<bar> \<le> 2 ^ 53 \<and> - 1074 \<le> k"
proof (cases "x = 0")
  case True
  then show ?thesis by (intro exI [of _ 0]) auto
next
  case False
  define q where "q = quantum x"
  have "\<bar>x\<bar> < 2 powi (ilog2 \<bar>x\<bar> + 1)" using ilog2_bounds [of "\<bar>x\<bar>"] False by simp
  also have "\<dots> \<le> 2 powi (q + 53)" by (intro powi2_mono) (simp add: q_def quantum_def)
  finally have "\<bar>x\<bar> / 2 powi q \<le> 2 ^ 53" by (simp add: powi2_add field_simps)
  then have "x / 2 powi q \<le> of_int (2 ^ 53)" "of_int (- (2 ^ 53)) \<le> x / 2 powi q"
    by (auto simp: abs_le_iff abs_divide field_simps)
  then have "rint (x / 2 powi q) \<le> 2 ^ 53" "- (2 ^ 53) \<le> rint (x / 2 powi q)"
    using rint_mono rint_of_int by metis+
  moreover have "- 1074 \<le> q" by (simp add: q_def quantum_def)
  ultimately show ?thesis
    using False by (intro exI [of _ "rint (x / 2 powi q)"] exI [of _ q])
      (auto simp: round53_def q_def)
qed

lemma round53_idem [simp]: "round53 (round53 x) = round53 x"
  using round53_form [of x] round53_exact by metis

section \<open>The values and their comparisons\<close>

datatype float64 = NaN | PInf | NInf | Fin rat

text \<open>The C++ operators \<open><\<close>, \<open><=\<close> and \<open>==\<close>; \<open>!=\<close> is the negation of \<open>feq\<close>.\<close>

fun flt :: "float64 \<Rightarrow> float64 \<Rightarrow> bool" where
  "flt (Fin a) (Fin b) = (a < b)"
| "flt (Fin a) PInf = True"
| "flt NInf (Fin b) = True"
| "flt NInf PInf = True"
| "flt _ _ = False"

fun feq :: "float64 \<Rightarrow> float64 \<Rightarrow> bool" where
  "feq NaN _ = False"
| "feq x y = (x = y)"

definition fle :: "float64 \<Rightarrow> float64 \<Rightarrow> bool" where
  "fle x y \<longleftrightarrow> flt x y \<or> feq x y"

text \<open>
  A linear order on all values, NaN below everything, that agrees with the operators away from
  NaN: the proofs about scores then use the order lemmas of the library.
\<close>

fun rank64 :: "float64 \<Rightarrow> nat" where
  "rank64 NaN = 0"
| "rank64 NInf = 1"
| "rank64 (Fin _) = 2"
| "rank64 PInf = 3"

instantiation float64 :: linorder
begin

definition less_eq_float64 :: "float64 \<Rightarrow> float64 \<Rightarrow> bool" where
  "less_eq_float64 x y \<longleftrightarrow>
     (case (x, y) of (Fin a, Fin b) \<Rightarrow> a \<le> b | _ \<Rightarrow> rank64 x \<le> rank64 y)"

definition less_float64 :: "float64 \<Rightarrow> float64 \<Rightarrow> bool" where
  "less_float64 x y \<longleftrightarrow> x \<le> y \<and> \<not> y \<le> (x :: float64)"

instance
proof
  fix x y z :: float64
  show "x < y \<longleftrightarrow> x \<le> y \<and> \<not> y \<le> x" by (rule less_float64_def)
  show "x \<le> x" by (cases x) (auto simp: less_eq_float64_def)
  show "x \<le> y \<Longrightarrow> y \<le> z \<Longrightarrow> x \<le> z"
    by (cases x; cases y; cases z) (auto simp: less_eq_float64_def)
  show "x \<le> y \<Longrightarrow> y \<le> x \<Longrightarrow> x = y"
    by (cases x; cases y) (auto simp: less_eq_float64_def)
  show "x \<le> y \<or> y \<le> x"
    by (cases x; cases y) (auto simp: less_eq_float64_def)
qed




end

lemma float64_le_simps [simp]:
  "Fin a \<le> Fin b \<longleftrightarrow> a \<le> b" "NaN \<le> x" "x \<le> PInf" "x \<le> NaN \<longleftrightarrow> x = NaN"
  "PInf \<le> x \<longleftrightarrow> x = PInf" "NInf \<le> Fin a" "\<not> Fin a \<le> NInf"
  by (cases x; simp add: less_eq_float64_def)+

lemma float64_less_simps [simp]:
  "Fin a < Fin b \<longleftrightarrow> a < b" "Fin a < PInf" "NInf < Fin a" "NInf < PInf"
  "NaN < x \<longleftrightarrow> x \<noteq> NaN" "\<not> x < NaN" "\<not> PInf < x" "\<not> Fin a < NInf"
  by (cases x; auto simp: less_float64_def less_eq_float64_def)+

lemma flt_less: "flt x y \<longleftrightarrow> x \<noteq> NaN \<and> x < y"
  by (cases x; cases y) (auto simp: less_float64_def less_eq_float64_def)

lemma feq_eq: "feq x y \<longleftrightarrow> x \<noteq> NaN \<and> x = y"
  by (cases x) auto

lemma fle_le: "fle x y \<longleftrightarrow> x \<noteq> NaN \<and> x \<le> y"
  by (auto simp: fle_def flt_less feq_eq)

lemma fpos_cases: "Fin 0 < x \<longleftrightarrow> x = PInf \<or> (\<exists>q. x = Fin q \<and> 0 < q)"
  by (cases x) auto

section \<open>The two zeros\<close>

text \<open>
  The doubles with both zeros, for the places where text is made of them: \<open>Plain (Fin 0)\<close> is the zero
  without a sign. \<open>double_value\<close> is what comparisons and arithmetic see.
\<close>

datatype double = NegativeZero | Plain float64

fun double_value :: "double \<Rightarrow> float64" where
  "double_value NegativeZero = Fin 0"
| "double_value (Plain x) = x"

section \<open>Arithmetic\<close>

definition rnd :: "rat \<Rightarrow> float64" where
  "rnd x = (let r = round53 x in if 2 ^ 1024 \<le> r then PInf else if r \<le> - (2 ^ 1024) then NInf else Fin r)"

fun fadd :: "float64 \<Rightarrow> float64 \<Rightarrow> float64" where
  "fadd NaN _ = NaN"
| "fadd _ NaN = NaN"
| "fadd PInf NInf = NaN"
| "fadd NInf PInf = NaN"
| "fadd PInf _ = PInf"
| "fadd _ PInf = PInf"
| "fadd NInf _ = NInf"
| "fadd _ NInf = NInf"
| "fadd (Fin a) (Fin b) = rnd (a + b)"

definition signed_inf :: "rat \<Rightarrow> float64" where
  "signed_inf q = (if q = 0 then NaN else if 0 < q then PInf else NInf)"

fun fmul :: "float64 \<Rightarrow> float64 \<Rightarrow> float64" where
  "fmul NaN _ = NaN"
| "fmul _ NaN = NaN"
| "fmul PInf PInf = PInf"
| "fmul PInf NInf = NInf"
| "fmul NInf PInf = NInf"
| "fmul NInf NInf = PInf"
| "fmul PInf (Fin b) = signed_inf b"
| "fmul (Fin a) PInf = signed_inf a"
| "fmul NInf (Fin b) = signed_inf (- b)"
| "fmul (Fin a) NInf = signed_inf (- a)"
| "fmul (Fin a) (Fin b) = rnd (a * b)"

text \<open>Division by a double of positive finite value \<open>d\<close>, the only kind of division in the source.\<close>

fun fdiv :: "float64 \<Rightarrow> rat \<Rightarrow> float64" where
  "fdiv (Fin a) d = rnd (a / d)"
| "fdiv x d = x"

fun isfinite :: "float64 \<Rightarrow> bool" where
  "isfinite (Fin _) = True"
| "isfinite _ = False"

fun fceil :: "float64 \<Rightarrow> float64" where
  "fceil (Fin q) = Fin (of_int \<lceil>q\<rceil>)"
| "fceil x = x"

fun ffloor :: "float64 \<Rightarrow> float64" where
  "ffloor (Fin q) = Fin (of_int \<lfloor>q\<rfloor>)"
| "ffloor x = x"

text \<open>Integer to double, and back: the conversion to an integer type truncates, and its behaviour
  is undefined (\<open>None\<close>) when the truncated value is not one of the type.\<close>

definition to_double :: "int \<Rightarrow> float64" where
  "to_double n = rnd (of_int n)"

fun double_to :: "int \<Rightarrow> int \<Rightarrow> float64 \<Rightarrow> int option" where
  "double_to lo hi (Fin q) =
     (let t = (if 0 \<le> q then \<lfloor>q\<rfloor> else \<lceil>q\<rceil>) in if lo \<le> t \<and> t \<le> hi then Some t else None)"
| "double_to lo hi _ = None"

section \<open>Facts about rounded arithmetic\<close>

named_theorems float_facts \<open>signs, bounds and monotonicity of rounded arithmetic\<close>

lemma rnd_not_NaN [simp]: "rnd x \<noteq> NaN"
  by (simp add: rnd_def Let_def)

lemma rnd_0 [simp]: "rnd 0 = Fin 0"
  by (simp add: rnd_def)

lemma rnd_mono: "x \<le> y \<Longrightarrow> rnd x \<le> rnd y"
  using round53_mono [of x y] by (auto simp: rnd_def Let_def)

lemma rnd_nonneg [float_facts]: "0 \<le> x \<Longrightarrow> Fin 0 \<le> rnd x"
  using rnd_mono [of 0 x] by simp

text \<open>The values a \<open>double\<close> can hold.\<close>

fun representable :: "float64 \<Rightarrow> bool" where
  "representable (Fin q) = (rnd q = Fin q)"
| "representable _ = True"

lemma representable_rnd [simp]: "representable (rnd x)"
  by (simp add: rnd_def Let_def)

lemma representable_fadd [simp]: "representable (fadd x y)"
  by (cases x; cases y) auto

lemma representable_fmul [simp]: "representable (fmul x y)"
  by (cases x; cases y) (auto simp: signed_inf_def)

lemma representable_fdiv [simp]: "representable x \<Longrightarrow> representable (fdiv x d)"
  by (cases x) auto

lemma rnd_exact:
  assumes "\<bar>m\<bar> \<le> 2 ^ 53" "- 1074 \<le> k" "k \<le> 900"
  shows "rnd (of_int m * 2 powi k) = Fin (of_int m * 2 powi k)"
proof -
  have "\<bar>of_int m :: rat\<bar> \<le> 2 ^ 53"
    using assms(1) by (metis of_int_abs of_int_le_iff of_int_numeral of_int_power)
  moreover have "(2 :: rat) powi k \<le> 2 powi 900" using assms(3) by (rule powi2_mono)
  ultimately have "\<bar>of_int m\<bar> * 2 powi k \<le> (2 ^ 53 :: rat) * 2 powi 900"
    by (intro mult_mono) simp_all
  also have "\<dots> < 2 ^ 1024" by simp
  finally have "\<bar>of_int m * 2 powi k :: rat\<bar> < 2 ^ 1024" by (simp add: abs_mult)
  then show ?thesis
    using round53_exact [OF assms(1,2)] by (auto simp: rnd_def Let_def abs_less_iff)
qed

lemma to_double_exact: "\<bar>n\<bar> \<le> 2 ^ 53 \<Longrightarrow> to_double n = Fin (of_int n)"
  using rnd_exact [of n 0] by (simp add: to_double_def)

text \<open>Evaluation of closed terms: a number with few binary digits rounds to itself.\<close>

lemma rnd_eval:
  assumes "of_int \<lfloor>q * 2 ^ 40\<rfloor> = q * 2 ^ 40" "\<bar>q\<bar> \<le> 8192"
  shows "rnd q = Fin q"
proof -
  have "q = (q * 2 ^ 40) * 2 powi (- 40)" by (simp add: power_int_minus)
  then have q: "q = of_int \<lfloor>q * 2 ^ 40\<rfloor> * 2 powi (- 40)" by (simp only: assms(1))
  have "\<bar>q * 2 ^ 40\<bar> \<le> 8192 * 2 ^ 40" using assms(2) by (simp add: abs_mult)
  then have "of_int \<bar>\<lfloor>q * 2 ^ 40\<rfloor>\<bar> \<le> (of_int (2 ^ 53) :: rat)"
    by (simp only: of_int_abs assms(1)) simp
  then have "\<bar>\<lfloor>q * 2 ^ 40\<rfloor>\<bar> \<le> 2 ^ 53" by (simp only: of_int_le_iff)
  then show ?thesis using rnd_exact [of "\<lfloor>q * 2 ^ 40\<rfloor>" "- 40"] q by simp
qed

lemma fadd_pos [float_facts]:
  assumes "Fin 0 \<le> x" "representable x" "Fin 0 \<le> y"
  shows "x \<le> fadd x y"
proof (cases x)
  case (Fin a)
  show ?thesis
  proof (cases y)
    case (Fin b)
    have "rnd a \<le> rnd (a + b)" using assms Fin \<open>x = Fin a\<close> by (intro rnd_mono) simp
    then show ?thesis using assms Fin \<open>x = Fin a\<close> by simp
  qed (use assms Fin in auto)
qed (use assms in \<open>cases y; auto\<close>)+

lemma fadd_0_left [simp]: "representable y \<Longrightarrow> fadd (Fin 0) y = y"
  by (cases y) auto

lemma fmul_nonneg [float_facts]: "Fin 0 < x \<Longrightarrow> Fin 0 < y \<Longrightarrow> Fin 0 \<le> fmul x y"
  by (cases x; cases y) (auto simp: signed_inf_def intro!: rnd_nonneg)

lemma fmul_mono_left:
  "\<lbrakk>Fin 0 < x; x \<le> y; Fin 0 < c\<rbrakk> \<Longrightarrow> fmul x c \<le> fmul y c"
  by (cases x; cases y; cases c) (auto simp: signed_inf_def intro!: rnd_mono mult_right_mono)

lemma nonneg_not_NaN [float_facts]: "Fin q \<le> x \<Longrightarrow> x \<noteq> NaN"
  by auto

lemma pos_not_NaN [float_facts]: "Fin q < x \<Longrightarrow> x \<noteq> NaN"
  by auto

text \<open>Evaluation of closed terms, for the concrete runs.\<close>

named_theorems float_eval \<open>rewriting a closed rounding to its value\<close>

lemma floor_rat_eval [float_eval]:
  "\<lfloor>numeral a / numeral b :: rat\<rfloor> = numeral a div numeral b"
  "\<lfloor>- numeral a / numeral b :: rat\<rfloor> = - numeral a div numeral b"
  "\<lfloor>1 / numeral b :: rat\<rfloor> = 1 div numeral b"
  using floor_divide_of_int_eq [of "numeral a" "numeral b", where ?'a = rat]
    floor_divide_of_int_eq [of "- numeral a" "numeral b", where ?'a = rat]
    floor_divide_of_int_eq [of 1 "numeral b", where ?'a = rat]
  by simp_all

lemma ceiling_rat_eval [float_eval]:
  "\<lceil>numeral a / numeral b :: rat\<rceil> = - (- numeral a div numeral b)"
  "\<lceil>1 / numeral b :: rat\<rceil> = 1"
proof -
  show "\<lceil>numeral a / numeral b :: rat\<rceil> = - (- numeral a div numeral b)"
    using floor_rat_eval(2) [of a b] by (simp add: ceiling_def)
  show "\<lceil>1 / numeral b :: rat\<rceil> = 1" by (rule ceiling_unique) simp_all
qed

lemmas rnd_unfold [float_eval] =
  rnd_def round53_def quantum_def ilog2_def rint_def power_int_def Let_def power_one_over

text \<open>The literal \<open>0.3\<close> of the source is not three tenths but the double nearest to it.\<close>

lemma rnd_three_tenths: "rnd (3 / 10) = Fin (5404319552844595 / 18014398509481984)"
  by (simp add: float_eval)

end
