(* ===== verification/Messages.thy ===== *)
theory Messages
  imports Prelude Binary64
begin

text \<open>
  The protobuf messages of src/protos/recommendation_engine as records, with the field names
  prefixed by the message. A message field whose presence the code tests (\<open>has_profile\<close>) is
  an option; of the others an absent message reads as its default instance, so they are plain
  fields. Repeated fields are lists, proto3 \<open>float\<close> fields are the doubles they widen to
  exactly, \<open>int64\<close> and \<open>uint64\<close> are 64-bit words and \<open>int32\<close> is \<open>int\<close>.
  A handler's \<open>grpc::Status\<close> is \<open>StatusOK\<close> or an error with its code and message.
\<close>

section \<open>gRPC status\<close>

datatype StatusCode =
    CANCELLED | UNKNOWN | INVALID_ARGUMENT | DEADLINE_EXCEEDED | NOT_FOUND | ALREADY_EXISTS
  | PERMISSION_DENIED | RESOURCE_EXHAUSTED | FAILED_PRECONDITION | ABORTED | OUT_OF_RANGE
  | UNIMPLEMENTED | INTERNAL | UNAVAILABLE | DATA_LOSS | UNAUTHENTICATED

datatype grpc_status = StatusOK | StatusError StatusCode string

fun error_message :: "grpc_status \<Rightarrow> string" where
  "error_message StatusOK = []"
| "error_message (StatusError c m) = m"

fun status_ok :: "grpc_status \<Rightarrow> bool" where
  "status_ok StatusOK = True"
| "status_ok (StatusError c m) = False"

lemma status_ok_iff: "status_ok s \<longleftrightarrow> s = StatusOK"
  by (cases s) auto

section \<open>profile.proto\<close>

datatype ProfileServiceStatus =
    PROFILE_SUCCESS | PROFILE_INVALID_REQUEST | PROFILE_USER_NOT_FOUND | PROFILE_SYSTEM_ERROR

fun ProfileServiceStatus_int :: "ProfileServiceStatus \<Rightarrow> int" where
  "ProfileServiceStatus_int PROFILE_SUCCESS = 0"
| "ProfileServiceStatus_int PROFILE_INVALID_REQUEST = 1"
| "ProfileServiceStatus_int PROFILE_USER_NOT_FOUND = 2"
| "ProfileServiceStatus_int PROFILE_SYSTEM_ERROR = 3"

datatype WeightedItemSource = WEIGHTED_ITEM_SOURCE_UNSPECIFIED | WEIGHTED_ITEM_SOURCE_RATING

record WeightedItem =
  wi_item_id :: int64
  wi_weight :: float64
  wi_event_time :: int64
  wi_source :: WeightedItemSource
  wi_confidence :: float64
  wi_raw_score :: float64

record GenreInterest =
  gi_genre :: string
  gi_weight :: float64
  gi_confidence :: float64
  gi_update_time :: int64

record TagInterest =
  ti_tag :: string
  ti_weight :: float64
  ti_confidence :: float64
  ti_update_time :: int64

record Demographics =
  de_username :: string
  de_display_name :: string
  de_birth_year :: int
  de_gender :: string
  de_location_id :: int

record SocialInfo =
  so_following :: "int64 list"
  so_followers :: "int64 list"

record Interests =
  in_genres :: "GenreInterest list"
  in_tags :: "TagInterest list"

record NegativeFeedback =
  nf_items :: "WeightedItem list"
  nf_genres :: "GenreInterest list"
  nf_tags :: "TagInterest list"

record Behaviors =
  be_liked_items :: "WeightedItem list"
  be_recent_liked_items :: "WeightedItem list"
  be_interested_items :: "WeightedItem list"
  be_rated_items :: "int64 list"

record EmbeddingSet =
  em_embedding_id :: string
  em_description :: string
  em_vector :: "float64 list"
  em_active :: bool

record ProfileStats =
  ps_rating_count :: int
  ps_positive_rating_count :: int
  ps_weak_positive_rating_count :: int
  ps_negative_rating_count :: int
  ps_avg_rating :: float64
  ps_rating_stddev :: float64
  ps_first_event_time :: int64
  ps_last_event_time :: int64
  ps_active_timeframe :: int64
  ps_profile_confidence :: double
  ps_interest_entropy :: float64

record Profile =
  pf_user_id :: int64
  pf_demographics :: Demographics
  pf_social :: SocialInfo
  pf_interests :: Interests
  pf_negative_feedbacks :: NegativeFeedback
  pf_behaviors :: Behaviors
  pf_embedding_sets :: "EmbeddingSet list"
  pf_stats :: ProfileStats

definition Profile_default :: Profile where
  "Profile_default =
     \<lparr>pf_user_id = 0,
      pf_demographics = \<lparr>de_username = [], de_display_name = [], de_birth_year = 0, de_gender = [],
                         de_location_id = 0\<rparr>,
      pf_social = \<lparr>so_following = [], so_followers = []\<rparr>,
      pf_interests = \<lparr>in_genres = [], in_tags = []\<rparr>,
      pf_negative_feedbacks = \<lparr>nf_items = [], nf_genres = [], nf_tags = []\<rparr>,
      pf_behaviors = \<lparr>be_liked_items = [], be_recent_liked_items = [], be_interested_items = [],
                      be_rated_items = []\<rparr>,
      pf_embedding_sets = [],
      pf_stats = \<lparr>ps_rating_count = 0, ps_positive_rating_count = 0, ps_weak_positive_rating_count = 0,
                  ps_negative_rating_count = 0, ps_avg_rating = Fin 0, ps_rating_stddev = Fin 0,
                  ps_first_event_time = 0, ps_last_event_time = 0, ps_active_timeframe = 0,
                  ps_profile_confidence = Plain (Fin 0), ps_interest_entropy = Fin 0\<rparr>\<rparr>"

record GetProfileRequest =
  gpq_trace_id :: string
  gpq_request_id :: string
  gpq_user_id :: int

record GetProfileResponse =
  gps_status :: ProfileServiceStatus
  gps_msg :: string
  gps_profile :: Profile

record BatchGetUserCfProfilesRequest =
  bgq_trace_id :: string
  bgq_request_id :: string
  bgq_user_ids :: "int64 list"

record UserCfProfile =
  ucf_user_id :: int64
  ucf_recent_liked_items :: "WeightedItem list"
  ucf_liked_items :: "WeightedItem list"
  ucf_interested_items :: "WeightedItem list"

definition UserCfProfile_default :: UserCfProfile where
  "UserCfProfile_default =
     \<lparr>ucf_user_id = 0, ucf_recent_liked_items = [], ucf_liked_items = [], ucf_interested_items = []\<rparr>"

record UserCfProfileResult =
  upr_status :: ProfileServiceStatus
  upr_user_id :: int64
  upr_profile :: UserCfProfile

record BatchGetUserCfProfilesResponse =
  bgs_status :: ProfileServiceStatus
  bgs_msg :: string
  bgs_results :: "UserCfProfileResult list"

section \<open>retrieval.proto\<close>

datatype RetrievalServiceStatus =
    RETRIEVAL_SUCCESS | RETRIEVAL_INVALID_REQUEST | RETRIEVAL_USER_NOT_FOUND
  | RETRIEVAL_SYSTEM_ERROR

datatype ItemType = ITEM_TYPE_UNSPECIFIED | ITEM_TYPE_VIDEO | ITEM_TYPE_IMAGE_TEXT

datatype EntityType =
    ENTITY_TYPE_UNSPECIFIED | ENTITY_TYPE_ITEM | ENTITY_TYPE_AUTHOR | ENTITY_TYPE_QUERY
  | ENTITY_TYPE_TAG | ENTITY_TYPE_TOPIC | ENTITY_TYPE_USER

datatype ReasonType =
    REASON_TYPE_UNSPECIFIED | REASON_TYPE_USER_CF | REASON_TYPE_ITEM_CF | REASON_TYPE_EMBEDDING
  | REASON_TYPE_HOT | REASON_TYPE_FOLLOW

record TriggerEntity =
  te_entity_type :: EntityType
  te_entity_id :: uint64

record RetrievalReason =
  rr_reason_type :: ReasonType
  rr_trigger :: TriggerEntity
  rr_reason_score :: float64
  rr_description :: string

record RetrievalSignal =
  rs_retriever :: string
  rs_retrieve_score :: float64
  rs_reasons :: "RetrievalReason list"

record CandidateItem =
  ci_item_id :: uint64
  ci_item_type :: ItemType
  ci_author_id :: uint64
  ci_retriever :: string
  ci_retrieve_score :: float64
  ci_reasons :: "RetrievalReason list"
  ci_retrieval_signals :: "RetrievalSignal list"

definition CandidateItem_default :: CandidateItem where
  "CandidateItem_default =
     \<lparr>ci_item_id = 0, ci_item_type = ITEM_TYPE_UNSPECIFIED, ci_author_id = 0, ci_retriever = [],
      ci_retrieve_score = Fin 0, ci_reasons = [], ci_retrieval_signals = []\<rparr>"

record RetrieveRequest =
  rtq_trace_id :: string
  rtq_request_id :: string
  rtq_user_id :: int64
  rtq_profile :: "Profile option"
  rtq_max_candidate_count :: int

record RetrieveResponse =
  rts_status :: RetrievalServiceStatus
  rts_msg :: string
  rts_candidate_count :: int
  rts_candidates :: "CandidateItem list"

definition RetrieveResponse_default :: RetrieveResponse where
  "RetrieveResponse_default =
     \<lparr>rts_status = RETRIEVAL_SUCCESS, rts_msg = [], rts_candidate_count = 0, rts_candidates = []\<rparr>"

section \<open>retriever.proto\<close>

datatype RetrieverServiceStatus =
    RETRIEVER_SUCCESS | RETRIEVER_INVALID_REQUEST | RETRIEVER_USER_NOT_FOUND
  | RETRIEVER_SYSTEM_ERROR | RETRIEVER_EMPTY_TRIGGER_SEEDS

fun RetrieverServiceStatus_int :: "RetrieverServiceStatus \<Rightarrow> int" where
  "RetrieverServiceStatus_int RETRIEVER_SUCCESS = 0"
| "RetrieverServiceStatus_int RETRIEVER_INVALID_REQUEST = 1"
| "RetrieverServiceStatus_int RETRIEVER_USER_NOT_FOUND = 2"
| "RetrieverServiceStatus_int RETRIEVER_SYSTEM_ERROR = 3"
| "RetrieverServiceStatus_int RETRIEVER_EMPTY_TRIGGER_SEEDS = 4"

record RetrieverRequest =
  rvq_trace_id :: string
  rvq_request_id :: string
  rvq_user_id :: int64
  rvq_profile :: "Profile option"
  rvq_max_candidate_count :: int

record RetrieverResponse =
  rvs_status :: RetrieverServiceStatus
  rvs_msg :: string
  rvs_candidate_count :: int
  rvs_candidates :: "CandidateItem list"

definition RetrieverResponse_default :: RetrieverResponse where
  "RetrieverResponse_default =
     \<lparr>rvs_status = RETRIEVER_SUCCESS, rvs_msg = [], rvs_candidate_count = 0, rvs_candidates = []\<rparr>"

section \<open>ranking.proto\<close>

datatype RankingServiceStatus =
    RANKING_SUCCESS | RANKING_INVALID_REQUEST | RANKING_USER_NOT_FOUND | RANKING_SYSTEM_ERROR
  | RANKING_EMPTY_CANDIDATES

datatype RankingScoreFactorType =
    RANKING_SCORE_FACTOR_TYPE_UNSPECIFIED | RANKING_SCORE_FACTOR_TYPE_RETRIEVAL
  | RANKING_SCORE_FACTOR_TYPE_INTEREST | RANKING_SCORE_FACTOR_TYPE_NEGATIVE_FEEDBACK
  | RANKING_SCORE_FACTOR_TYPE_QUALITY | RANKING_SCORE_FACTOR_TYPE_DIVERSITY
  | RANKING_SCORE_FACTOR_TYPE_FRESHNESS | RANKING_SCORE_FACTOR_TYPE_EXPLORATION

record RankingOptions =
  ro_ranker :: string
  ro_include_score_factors :: bool
  ro_include_item_features :: bool

record RankRequest =
  rkq_trace_id :: string
  rkq_request_id :: string
  rkq_user_id :: int64
  rkq_profile :: "Profile option"
  rkq_candidates :: "CandidateItem list"
  rkq_max_results :: int
  rkq_options :: RankingOptions

record RankingScoreFactor =
  sf_factor_type :: RankingScoreFactorType
  sf_name :: string
  sf_raw_value :: float64
  sf_weight :: float64
  sf_contribution :: float64
  sf_description :: string

record RankingWeightedTag =
  wt_tag :: string
  wt_weight :: float64

record RankingRatingFeatures =
  rf_avg :: float64
  rf_count :: int

record RankingItemFeatures =
  if_item_id :: uint64
  if_title :: string
  if_year :: int
  if_genres :: "string list"
  if_top_tags :: "RankingWeightedTag list"
  if_rating :: RankingRatingFeatures

record RankedCandidateItem =
  rc_candidate :: CandidateItem
  rc_rank_score :: float64
  rc_rank_position :: int
  rc_ranker :: string
  rc_score_factors :: "RankingScoreFactor list"
  rc_item_features :: "RankingItemFeatures option"
  rc_retrieval_signals :: "RetrievalSignal list"

record RankResponse =
  rks_status :: RankingServiceStatus
  rks_msg :: string
  rks_input_candidate_count :: int
  rks_ranked_candidate_count :: int
  rks_ranked_candidates :: "RankedCandidateItem list"

definition RankResponse_default :: RankResponse where
  "RankResponse_default =
     \<lparr>rks_status = RANKING_SUCCESS, rks_msg = [], rks_input_candidate_count = 0,
      rks_ranked_candidate_count = 0, rks_ranked_candidates = []\<rparr>"

section \<open>recommendation_engine.proto\<close>

datatype RecommendationStatus = SUCCESS | INVALID_REQUEST | USER_NOT_FOUND | SYSTEM_ERROR

record RecommendRequest =
  req_trace_id :: string
  req_request_id :: string
  req_user_id :: int
  req_max_results :: int

record RecommendResponse =
  res_status :: RecommendationStatus
  res_msg :: string
  res_candidates :: "CandidateItem list"

definition RecommendResponse_default :: RecommendResponse where
  "RecommendResponse_default = \<lparr>res_status = SUCCESS, res_msg = [], res_candidates = []\<rparr>"

end
