(* ===== verification/CandidateMerge.thy ===== *)
theory CandidateMerge
  imports Messages
begin

text \<open>
  Normalising and merging candidates: the helpers at the head of
  src/src/recommendation_engine/retrieval/orchestrator/retrieval_orchestrator.cpp and the copies of
  them in src/src/recommendation_engine/ranking/heuristic_ranker.cpp (prefixed \<open>Ranker_\<close>).
  A candidate's \<open>retrieval_signals\<close> are the truth; its \<open>retriever\<close>,
  \<open>retrieve_score\<close> and \<open>reasons\<close> are rebuilt from them.
\<close>

section \<open>The orchestrator's helpers\<close>

fun JoinRetrieverNames_from :: "string \<Rightarrow> string list \<Rightarrow> string" where
  "JoinRetrieverNames_from joined [] = joined"
| "JoinRetrieverNames_from joined (retriever_name # retriever_names) =
     (if retriever_name = [] then JoinRetrieverNames_from joined retriever_names
      else JoinRetrieverNames_from
             ((if joined \<noteq> [] then joined @ '','' else joined) @ retriever_name) retriever_names)"

definition JoinRetrieverNames :: "string list \<Rightarrow> string" where
  "JoinRetrieverNames retriever_names = JoinRetrieverNames_from [] retriever_names"

definition EnsureRetrievalSignals :: "CandidateItem \<Rightarrow> CandidateItem" where
  "EnsureRetrievalSignals candidate =
     (if 0 < length (ci_retrieval_signals candidate) then candidate
      else candidate\<lparr>ci_retrieval_signals :=
        [\<lparr>rs_retriever = ci_retriever candidate, rs_retrieve_score = ci_retrieve_score candidate,
          rs_reasons = ci_reasons candidate\<rparr>]\<rparr>)"

fun rebuild_from ::
  "RetrievalSignal list \<Rightarrow> float64 \<Rightarrow> string list \<Rightarrow> string set \<Rightarrow> RetrievalReason list \<Rightarrow>
     float64 \<times> string list \<times> RetrievalReason list" where
  "rebuild_from [] score names seen reasons = (score, names, reasons)"
| "rebuild_from (signal # signals) score names seen reasons =
     (if rs_retriever signal \<noteq> [] \<and> rs_retriever signal \<notin> seen
      then rebuild_from signals (fadd score (rs_retrieve_score signal)) (names @ [rs_retriever signal])
             (insert (rs_retriever signal) seen) (reasons @ rs_reasons signal)
      else rebuild_from signals (fadd score (rs_retrieve_score signal)) names seen
             (reasons @ rs_reasons signal))"

definition RebuildLegacyCandidateFields :: "CandidateItem \<Rightarrow> CandidateItem" where
  "RebuildLegacyCandidateFields candidate =
     (let (aggregate_retrieve_score, retriever_names, reasons) =
            rebuild_from (ci_retrieval_signals candidate) (Fin 0) [] {} []
      in candidate\<lparr>ci_reasons := reasons, ci_retriever := JoinRetrieverNames retriever_names,
                   ci_retrieve_score := aggregate_retrieve_score\<rparr>)"

definition NormalizeCandidate :: "CandidateItem \<Rightarrow> CandidateItem" where
  "NormalizeCandidate candidate = RebuildLegacyCandidateFields (EnsureRetrievalSignals candidate)"

fun merge_signals :: "RetrievalSignal \<Rightarrow> RetrievalSignal list \<Rightarrow> RetrievalSignal list" where
  "merge_signals source_signal [] = [source_signal]"
| "merge_signals source_signal (target_signal # target_signals) =
     (if rs_retriever target_signal \<noteq> rs_retriever source_signal
      then target_signal # merge_signals source_signal target_signals
      else target_signal\<lparr>rs_retrieve_score :=
               fadd (rs_retrieve_score target_signal) (rs_retrieve_score source_signal),
             rs_reasons := rs_reasons target_signal @ rs_reasons source_signal\<rparr> # target_signals)"

definition MergeRetrievalSignal :: "RetrievalSignal \<Rightarrow> CandidateItem \<Rightarrow> CandidateItem" where
  "MergeRetrievalSignal source_signal target_candidate =
     target_candidate\<lparr>ci_retrieval_signals :=
       merge_signals source_signal (ci_retrieval_signals target_candidate)\<rparr>"

definition MergeCandidate :: "CandidateItem \<Rightarrow> CandidateItem \<Rightarrow> CandidateItem" where
  "MergeCandidate source_candidate target_candidate =
     (let normalized_source = NormalizeCandidate source_candidate;
          target = target_candidate;
          target = (if ci_item_type target = ITEM_TYPE_UNSPECIFIED \<and>
                       ci_item_type normalized_source \<noteq> ITEM_TYPE_UNSPECIFIED
                    then target\<lparr>ci_item_type := ci_item_type normalized_source\<rparr> else target);
          target = (if ci_author_id target = 0 \<and> ci_author_id normalized_source \<noteq> 0
                    then target\<lparr>ci_author_id := ci_author_id normalized_source\<rparr> else target);
          target = foldl (\<lambda>t s. MergeRetrievalSignal s t) target (ci_retrieval_signals normalized_source)
      in RebuildLegacyCandidateFields target)"

section \<open>The ranker's copies\<close>

fun Ranker_JoinRetrieverNames_from :: "string \<Rightarrow> string list \<Rightarrow> string" where
  "Ranker_JoinRetrieverNames_from joined [] = joined"
| "Ranker_JoinRetrieverNames_from joined (name # names) =
     (if name = [] then Ranker_JoinRetrieverNames_from joined names
      else Ranker_JoinRetrieverNames_from
             ((if joined \<noteq> [] then joined @ '','' else joined) @ name) names)"

definition Ranker_JoinRetrieverNames :: "string list \<Rightarrow> string" where
  "Ranker_JoinRetrieverNames names = Ranker_JoinRetrieverNames_from [] names"

definition Ranker_EnsureRetrievalSignals :: "CandidateItem \<Rightarrow> CandidateItem" where
  "Ranker_EnsureRetrievalSignals candidate =
     (if 0 < length (ci_retrieval_signals candidate) then candidate
      else candidate\<lparr>ci_retrieval_signals :=
        [\<lparr>rs_retriever = ci_retriever candidate, rs_retrieve_score = ci_retrieve_score candidate,
          rs_reasons = ci_reasons candidate\<rparr>]\<rparr>)"

text \<open>Here the names already seen are the keys of a map.\<close>

fun Ranker_rebuild_from ::
  "RetrievalSignal list \<Rightarrow> float64 \<Rightarrow> string list \<Rightarrow> (string \<rightharpoonup> bool) \<Rightarrow> RetrievalReason list \<Rightarrow>
     float64 \<times> string list \<times> RetrievalReason list" where
  "Ranker_rebuild_from [] score names seen reasons = (score, names, reasons)"
| "Ranker_rebuild_from (signal # signals) score names seen reasons =
     (if rs_retriever signal \<noteq> [] \<and> seen (rs_retriever signal) = None
      then Ranker_rebuild_from signals (fadd score (rs_retrieve_score signal))
             (names @ [rs_retriever signal]) (seen(rs_retriever signal \<mapsto> True))
             (reasons @ rs_reasons signal)
      else Ranker_rebuild_from signals (fadd score (rs_retrieve_score signal)) names seen
             (reasons @ rs_reasons signal))"

definition Ranker_RebuildLegacyCandidateFields :: "CandidateItem \<Rightarrow> CandidateItem" where
  "Ranker_RebuildLegacyCandidateFields candidate =
     (let (retrieve_score, retriever_names, reasons) =
            Ranker_rebuild_from (ci_retrieval_signals candidate) (Fin 0) [] Map.empty []
      in candidate\<lparr>ci_reasons := reasons, ci_retriever := Ranker_JoinRetrieverNames retriever_names,
                   ci_retrieve_score := retrieve_score\<rparr>)"

definition Ranker_NormalizeCandidate :: "CandidateItem \<Rightarrow> CandidateItem" where
  "Ranker_NormalizeCandidate candidate =
     Ranker_RebuildLegacyCandidateFields (Ranker_EnsureRetrievalSignals candidate)"

fun Ranker_merge_signals :: "RetrievalSignal \<Rightarrow> RetrievalSignal list \<Rightarrow> RetrievalSignal list" where
  "Ranker_merge_signals source_signal [] = [source_signal]"
| "Ranker_merge_signals source_signal (target_signal # target_signals) =
     (if rs_retriever target_signal \<noteq> rs_retriever source_signal
      then target_signal # Ranker_merge_signals source_signal target_signals
      else target_signal\<lparr>rs_retrieve_score :=
               fadd (rs_retrieve_score target_signal) (rs_retrieve_score source_signal),
             rs_reasons := rs_reasons target_signal @ rs_reasons source_signal\<rparr> # target_signals)"

definition Ranker_MergeRetrievalSignal :: "RetrievalSignal \<Rightarrow> CandidateItem \<Rightarrow> CandidateItem" where
  "Ranker_MergeRetrievalSignal source_signal target_candidate =
     target_candidate\<lparr>ci_retrieval_signals :=
       Ranker_merge_signals source_signal (ci_retrieval_signals target_candidate)\<rparr>"

definition Ranker_MergeCandidate :: "CandidateItem \<Rightarrow> CandidateItem \<Rightarrow> CandidateItem" where
  "Ranker_MergeCandidate source_candidate target_candidate =
     (let source = Ranker_NormalizeCandidate source_candidate;
          target = target_candidate;
          target = (if ci_item_type target = ITEM_TYPE_UNSPECIFIED \<and>
                       ci_item_type source \<noteq> ITEM_TYPE_UNSPECIFIED
                    then target\<lparr>ci_item_type := ci_item_type source\<rparr> else target);
          target = (if ci_author_id target = 0 \<and> ci_author_id source \<noteq> 0
                    then target\<lparr>ci_author_id := ci_author_id source\<rparr> else target);
          target = foldl (\<lambda>t s. Ranker_MergeRetrievalSignal s t) target (ci_retrieval_signals source)
      in Ranker_RebuildLegacyCandidateFields target)"

section \<open>The copies agree\<close>

lemma Ranker_JoinRetrieverNames_eq: "Ranker_JoinRetrieverNames = JoinRetrieverNames"
proof
  fix names
  have "Ranker_JoinRetrieverNames_from joined names = JoinRetrieverNames_from joined names" for joined
    by (induction joined names rule: JoinRetrieverNames_from.induct) simp_all
  then show "Ranker_JoinRetrieverNames names = JoinRetrieverNames names"
    by (simp add: Ranker_JoinRetrieverNames_def JoinRetrieverNames_def)
qed

lemma Ranker_rebuild_from_eq:
  "dom m = seen \<Longrightarrow> Ranker_rebuild_from signals score names m reasons =
    rebuild_from signals score names seen reasons"
  by (induction signals score names seen reasons arbitrary: m rule: rebuild_from.induct) auto

lemma Ranker_NormalizeCandidate_eq:
  "Ranker_RebuildLegacyCandidateFields c = RebuildLegacyCandidateFields c"
  "Ranker_NormalizeCandidate c = NormalizeCandidate c"
proof -
  show 1: "Ranker_RebuildLegacyCandidateFields c = RebuildLegacyCandidateFields c" for c
    by (simp add: Ranker_RebuildLegacyCandidateFields_def RebuildLegacyCandidateFields_def
        Ranker_rebuild_from_eq [of Map.empty "{}"] Ranker_JoinRetrieverNames_eq)
  show "Ranker_NormalizeCandidate c = NormalizeCandidate c"
    by (simp add: Ranker_NormalizeCandidate_def NormalizeCandidate_def 1
        Ranker_EnsureRetrievalSignals_def EnsureRetrievalSignals_def)
qed

lemma Ranker_MergeRetrievalSignal_eq: "Ranker_MergeRetrievalSignal s = MergeRetrievalSignal s"
proof -
  have "Ranker_merge_signals s ts = merge_signals s ts" for ts
    by (induction ts) auto
  then show ?thesis by (intro ext) (simp add: Ranker_MergeRetrievalSignal_def MergeRetrievalSignal_def)
qed

text \<open>
  The helpers that the ranker copied from the orchestrator, one of which keeps a map where the
  other keeps a set, compute the same functions: a candidate is normalised and merged alike on both
  sides of the wire.
\<close>

theorem ranker_merge_agrees:
  "Ranker_MergeCandidate source target = MergeCandidate source target \<and>
   Ranker_NormalizeCandidate target = NormalizeCandidate target"
  by (simp add: Ranker_MergeCandidate_def MergeCandidate_def Ranker_NormalizeCandidate_eq
      Ranker_MergeRetrievalSignal_eq Let_def)

section \<open>What merging keeps\<close>

definition signal_reasons :: "CandidateItem \<Rightarrow> RetrievalReason list" where
  "signal_reasons c = concat (map rs_reasons (ci_retrieval_signals c))"

definition signal_retrievers :: "CandidateItem \<Rightarrow> string set" where
  "signal_retrievers c = rs_retriever ` set (ci_retrieval_signals c)"

text \<open>The legacy fields are those rebuilt from the signals, and there is a signal.\<close>

definition consistent_candidate :: "CandidateItem \<Rightarrow> bool" where
  "consistent_candidate c \<longleftrightarrow>
     ci_retrieval_signals c \<noteq> [] \<and> RebuildLegacyCandidateFields c = c"

lemma rebuild_from_reasons:
  "snd (snd (rebuild_from signals score names seen reasons)) = reasons @ concat (map rs_reasons signals)"
  by (induction signals score names seen reasons rule: rebuild_from.induct) auto

lemma rebuild_from_score:
  "fst (rebuild_from signals score names seen reasons) = foldl fadd score (map rs_retrieve_score signals)"
  by (induction signals score names seen reasons rule: rebuild_from.induct) auto

lemma Rebuild_fields [simp]:
  "ci_item_id (RebuildLegacyCandidateFields c) = ci_item_id c"
  "ci_item_type (RebuildLegacyCandidateFields c) = ci_item_type c"
  "ci_author_id (RebuildLegacyCandidateFields c) = ci_author_id c"
  "ci_retrieval_signals (RebuildLegacyCandidateFields c) = ci_retrieval_signals c"
  "ci_reasons (RebuildLegacyCandidateFields c) = signal_reasons c"
  "ci_retrieve_score (RebuildLegacyCandidateFields c) =
     foldl fadd (Fin 0) (map rs_retrieve_score (ci_retrieval_signals c))"
  using rebuild_from_reasons [of "ci_retrieval_signals c" "Fin 0" "[]" "{}" "[]"]
    rebuild_from_score [of "ci_retrieval_signals c" "Fin 0" "[]" "{}" "[]"]
  by (simp_all add: RebuildLegacyCandidateFields_def signal_reasons_def case_prod_beta)

lemma Rebuild_idem [simp]:
  "RebuildLegacyCandidateFields (RebuildLegacyCandidateFields c) = RebuildLegacyCandidateFields c"
  by (simp add: RebuildLegacyCandidateFields_def case_prod_beta)

lemma Ensure_fields [simp]:
  "ci_item_id (EnsureRetrievalSignals c) = ci_item_id c"
  "ci_retrieval_signals (EnsureRetrievalSignals c) \<noteq> []"
  by (simp_all add: EnsureRetrievalSignals_def)

lemma Normalize_item_id [simp]: "ci_item_id (NormalizeCandidate c) = ci_item_id c"
  by (simp add: NormalizeCandidate_def)

lemma consistent_Normalize [simp]: "consistent_candidate (NormalizeCandidate c)"
  by (simp add: consistent_candidate_def NormalizeCandidate_def)

lemma Normalize_consistent: "consistent_candidate c \<Longrightarrow> NormalizeCandidate c = c"
  by (simp add: consistent_candidate_def NormalizeCandidate_def EnsureRetrievalSignals_def)

lemma consistent_reasons: "consistent_candidate c \<Longrightarrow> ci_reasons c = signal_reasons c"
  unfolding consistent_candidate_def using Rebuild_fields(5) [of c] by simp

lemma merge_signals_props:
  "mset (concat (map rs_reasons (merge_signals s ts))) = mset (rs_reasons s) + mset (concat (map rs_reasons ts))"
  "rs_retriever ` set (merge_signals s ts) = insert (rs_retriever s) (rs_retriever ` set ts)"
  "distinct (map rs_retriever ts) \<Longrightarrow> distinct (map rs_retriever (merge_signals s ts))"
  "merge_signals s ts \<noteq> []"
proof -
  show set: "rs_retriever ` set (merge_signals s ts) = insert (rs_retriever s) (rs_retriever ` set ts)" for ts
    by (induction ts) auto
  show "mset (concat (map rs_reasons (merge_signals s ts))) = mset (rs_reasons s) + mset (concat (map rs_reasons ts))"
    by (induction ts) auto
  show "distinct (map rs_retriever ts) \<Longrightarrow> distinct (map rs_retriever (merge_signals s ts))"
  proof (induction ts)
    case (Cons t ts)
    then show ?case using set [of ts] by auto
  qed simp
  show "merge_signals s ts \<noteq> []" by (cases ts) auto
qed

lemma MergeSignals_run:
  "ci_item_id (foldl (\<lambda>t s. MergeRetrievalSignal s t) t ss) = ci_item_id t"
  "ci_item_type (foldl (\<lambda>t s. MergeRetrievalSignal s t) t ss) = ci_item_type t"
  "ci_author_id (foldl (\<lambda>t s. MergeRetrievalSignal s t) t ss) = ci_author_id t"
  "mset (signal_reasons (foldl (\<lambda>t s. MergeRetrievalSignal s t) t ss)) =
     mset (signal_reasons t) + mset (concat (map rs_reasons ss))"
  "signal_retrievers (foldl (\<lambda>t s. MergeRetrievalSignal s t) t ss) =
     signal_retrievers t \<union> rs_retriever ` set ss"
  "ss \<noteq> [] \<or> ci_retrieval_signals t \<noteq> [] \<Longrightarrow>
     ci_retrieval_signals (foldl (\<lambda>t s. MergeRetrievalSignal s t) t ss) \<noteq> []"
  by (induction ss arbitrary: t)
    (simp_all add: MergeRetrievalSignal_def signal_reasons_def signal_retrievers_def merge_signals_props)

lemma MergeCandidate_unfold:
  obtains t' where "MergeCandidate s t = RebuildLegacyCandidateFields
      (foldl (\<lambda>t s. MergeRetrievalSignal s t) t' (ci_retrieval_signals (NormalizeCandidate s)))"
    "ci_retrieval_signals t' = ci_retrieval_signals t"
  by (rule that [OF MergeCandidate_def [unfolded Let_def]]) simp

lemma signals_Rebuild [simp]:
  "signal_reasons (RebuildLegacyCandidateFields c) = signal_reasons c"
  "signal_retrievers (RebuildLegacyCandidateFields c) = signal_retrievers c"
  by (simp_all add: signal_reasons_def signal_retrievers_def)

lemma MergeCandidate_item_id [simp]: "ci_item_id (MergeCandidate s t) = ci_item_id t"
  by (simp add: MergeCandidate_def Let_def MergeSignals_run)

lemma MergeCandidate_consistent [simp]: "consistent_candidate (MergeCandidate s t)"
proof -
  have "ci_retrieval_signals (NormalizeCandidate s) \<noteq> []"
    using consistent_Normalize [of s] by (simp add: consistent_candidate_def)
  then show ?thesis
    unfolding consistent_candidate_def MergeCandidate_def Let_def
    by (intro conjI) (simp_all add: MergeSignals_run(6))
qed

text \<open>
  Normalising and merging lose nothing and leave a consistent candidate: the legacy fields are
  those its signals give (normalising it again changes nothing), its id is the target's, its
  retrievers are those of both, and its reasons are, counted with multiplicity, those of both.
\<close>

theorem merge_keeps_everything:
  assumes "consistent_candidate target"
  shows "consistent_candidate (MergeCandidate source target) \<and>
    NormalizeCandidate (MergeCandidate source target) = MergeCandidate source target \<and>
    ci_item_id (MergeCandidate source target) = ci_item_id target \<and>
    signal_retrievers (MergeCandidate source target) =
      signal_retrievers target \<union> signal_retrievers (NormalizeCandidate source) \<and>
    mset (ci_reasons (MergeCandidate source target)) =
      mset (ci_reasons target) + mset (ci_reasons (NormalizeCandidate source)) \<and>
    ci_retrieve_score (MergeCandidate source target) =
      foldl fadd (Fin 0) (map rs_retrieve_score (ci_retrieval_signals (MergeCandidate source target)))"
proof -
  let ?m = "MergeCandidate source target"
  obtain t' where t': "?m = RebuildLegacyCandidateFields
      (foldl (\<lambda>t s. MergeRetrievalSignal s t) t' (ci_retrieval_signals (NormalizeCandidate source)))"
    "ci_retrieval_signals t' = ci_retrieval_signals target"
    by (rule MergeCandidate_unfold)
  have same: "signal_reasons t' = signal_reasons target" "signal_retrievers t' = signal_retrievers target"
    by (simp_all add: signal_reasons_def signal_retrievers_def t'(2))
  have "signal_retrievers ?m = signal_retrievers target \<union> signal_retrievers (NormalizeCandidate source)"
    by (simp add: t'(1) MergeSignals_run(5) same) (simp add: signal_retrievers_def)
  moreover have "mset (signal_reasons ?m) = mset (signal_reasons target) + mset (signal_reasons (NormalizeCandidate source))"
    by (simp add: t'(1) MergeSignals_run(4) same) (simp add: signal_reasons_def)
  moreover have "ci_retrieve_score ?m = foldl fadd (Fin 0) (map rs_retrieve_score (ci_retrieval_signals ?m))"
    using MergeCandidate_consistent [of source target] Rebuild_fields(6) [of ?m]
    by (simp add: consistent_candidate_def)
  ultimately show ?thesis
    using Normalize_consistent [of ?m] consistent_reasons [OF assms]
      consistent_reasons [OF consistent_Normalize, of source]
      consistent_reasons [OF MergeCandidate_consistent, of source target] by simp
qed

theorem merge_keeps_everything_witness:
  "consistent_candidate (MergeCandidate
     (CandidateItem_default\<lparr>ci_item_id := 4, ci_retriever := ''user_cf''\<rparr>)
     (NormalizeCandidate (CandidateItem_default\<lparr>ci_item_id := 4, ci_retriever := ''item_cf''\<rparr>)))"
  using merge_keeps_everything [OF consistent_Normalize] by blast

end
