(* ===== verification/TextLines.thy ===== *)
theory TextLines
  imports Prelude
begin

text \<open>
  Text as the loaders of the source read it: blank characters, trimming, and the lines that
  \<open>std::getline\<close> takes from a stream, with the round trip between lines and text.
\<close>

definition newline :: char where "newline = CHR 0x0A"

definition is_blank_char :: "char \<Rightarrow> bool" where
  "is_blank_char c \<longleftrightarrow> c = CHR 0x20 \<or> c = CHR 0x09 \<or> c = CHR 0x0D \<or> c = CHR 0x0A"

text \<open>\<open>find_first_not_of(" \t\r\n") == npos\<close>\<close>

definition IsBlank :: "string \<Rightarrow> bool" where
  "IsBlank s \<longleftrightarrow> list_all is_blank_char s"

text \<open>The first character that is not blank, NUL when there is none.\<close>

definition FirstNonBlankChar :: "string \<Rightarrow> char" where
  "FirstNonBlankChar s = (case dropWhile is_blank_char s of [] \<Rightarrow> CHR 0x00 | c # cs \<Rightarrow> c)"

lemma FirstNonBlankChar_blank: "IsBlank s \<Longrightarrow> FirstNonBlankChar s = CHR 0x00"
proof -
  assume "IsBlank s"
  then have "dropWhile is_blank_char s = []"
    by (simp add: IsBlank_def list_all_iff)
  then show ?thesis unfolding FirstNonBlankChar_def by (simp only: list.case)
qed

lemma FirstNonBlankChar_Cons:
  "\<not> is_blank_char c \<Longrightarrow> FirstNonBlankChar (c # cs) = c"
  by (simp add: FirstNonBlankChar_def)

text \<open>The lines of \<open>while (std::getline(stream, line))\<close>: a final line needs no newline.\<close>

function getlines :: "string \<Rightarrow> string list" where
  "getlines [] = []"
| "getlines (c # cs) =
     takeWhile (\<lambda>x. x \<noteq> newline) (c # cs) # getlines (tl (dropWhile (\<lambda>x. x \<noteq> newline) (c # cs)))"
  by pat_completeness auto
termination
proof (relation "measure length")
  fix c :: char and cs
  show "(tl (dropWhile (\<lambda>x. x \<noteq> newline) (c # cs)), c # cs) \<in> measure length"
    by (cases "c = newline") (auto simp: less_Suc_eq_le intro: le_trans [OF diff_le_self length_dropWhile_le])
qed simp

definition unlines :: "string list \<Rightarrow> string" where
  "unlines ls = concat (map (\<lambda>l. l @ [newline]) ls)"

lemma getlines_line: "newline \<notin> set l \<Longrightarrow> getlines (l @ newline # rest) = l # getlines rest"
proof (cases l)
  case Nil
  then show ?thesis by simp
next
  case (Cons c cs)
  moreover assume "newline \<notin> set l"
  ultimately have "takeWhile (\<lambda>x. x \<noteq> newline) (l @ newline # rest) = l"
    "dropWhile (\<lambda>x. x \<noteq> newline) (l @ newline # rest) = newline # rest"
    by (auto simp: takeWhile_append dropWhile_append)
  with Cons show ?thesis by (simp del: takeWhile.simps dropWhile.simps)
qed

lemma getlines_last: "newline \<notin> set l \<Longrightarrow> l \<noteq> [] \<Longrightarrow> getlines l = [l]"
proof (cases l)
  case (Cons c cs)
  moreover assume "newline \<notin> set l"
  ultimately have "takeWhile (\<lambda>x. x \<noteq> newline) l = l" "dropWhile (\<lambda>x. x \<noteq> newline) l = []"
    by (auto simp: takeWhile_eq_all_conv dropWhile_eq_Nil_conv)
  then show ?thesis unfolding Cons by (simp only: getlines.simps list.sel)
qed simp

lemma getlines_unlines:
  "(\<And>l. l \<in> set ls \<Longrightarrow> newline \<notin> set l) \<Longrightarrow> getlines (unlines ls @ rest) = ls @ getlines rest"
  by (induction ls) (simp_all add: unlines_def getlines_line)

lemma getlines_no_newline: "l \<in> set (getlines s) \<Longrightarrow> newline \<notin> set l"
proof (induction s rule: getlines.induct)
  case (2 c cs)
  then show ?case by (auto dest: set_takeWhileD simp del: takeWhile.simps)
qed simp

text \<open>A \<open>const char*\<close> ends at the first NUL.\<close>

definition c_str :: "string \<Rightarrow> string" where
  "c_str s = takeWhile (\<lambda>c. c \<noteq> CHR 0x00) s"

text \<open>Trimming a set of characters at both ends, as the configuration code does it.\<close>

definition trim_left :: "(char \<Rightarrow> bool) \<Rightarrow> string \<Rightarrow> string" where
  "trim_left p s = dropWhile p s"

definition trim_right :: "(char \<Rightarrow> bool) \<Rightarrow> string \<Rightarrow> string" where
  "trim_right p s = rev (dropWhile p (rev s))"

definition trim_both :: "(char \<Rightarrow> bool) \<Rightarrow> string \<Rightarrow> string" where
  "trim_both p s = trim_right p (trim_left p s)"

lemma trim_both_id:
  "s = [] \<or> (\<not> p (hd s) \<and> \<not> p (last s)) \<Longrightarrow> trim_both p s = s"
proof -
  assume a: "s = [] \<or> (\<not> p (hd s) \<and> \<not> p (last s))"
  then have "dropWhile p s = s" "dropWhile p (rev s) = rev s"
    by (auto simp: dropWhile_eq_self_iff hd_rev)
  then show ?thesis by (simp add: trim_both_def trim_left_def trim_right_def)
qed

lemma trim_both_idem [simp]: "trim_both p (trim_both p s) = trim_both p s"
proof -
  have hd_right: "t \<noteq> [] \<Longrightarrow> \<not> p (hd t) \<Longrightarrow> trim_right p t \<noteq> [] \<and> \<not> p (hd (trim_right p t))" for t
  proof -
    assume t: "t \<noteq> []" "\<not> p (hd t)"
    have "takeWhile p (rev t) @ dropWhile p (rev t) = rev t" by simp
    then have eq: "t = trim_right p t @ rev (takeWhile p (rev t))"
      by (metis rev_append rev_rev_ident trim_right_def)
    have "dropWhile p (rev t) \<noteq> []"
      using t by (metis dropWhile_eq_Nil_conv hd_in_set set_rev)
    then have "trim_right p t \<noteq> []" by (simp add: trim_right_def)
    with eq t show ?thesis by (metis hd_append2)
  qed
  show ?thesis
  proof (cases "trim_left p s = []")
    case False
    then have h: "\<not> p (hd (trim_left p s))" by (metis hd_dropWhile trim_left_def)
    from hd_right [OF False h] have "trim_both p s \<noteq> []" "\<not> p (hd (trim_both p s))"
      by (simp_all add: trim_both_def)
    moreover have "\<not> p (last (trim_both p s))"
    proof -
      have "dropWhile p (rev (trim_left p s)) \<noteq> []"
        using hd_right [OF False h] by (simp add: trim_right_def)
      then show ?thesis by (simp add: trim_both_def trim_right_def last_rev hd_dropWhile)
    qed
    ultimately show ?thesis by (intro trim_both_id) simp
  next
    case True
    then have "trim_both p s = []" by (simp only: trim_both_def trim_right_def rev.simps dropWhile.simps)
    moreover have "trim_both p [] = []" by (simp add: trim_both_def trim_right_def trim_left_def)
    ultimately show ?thesis by simp
  qed
qed

end
