(* ===== verification/Orchestrator.thy ===== *)
theory Orchestrator
  imports CandidateMerge TextLines
begin

text \<open>
  \<open>RetrievalOrchestrator\<close> (src/src/recommendation_engine/retrieval/orchestrator): every retriever
  is asked for a few more candidates than wanted, failures are tolerated as long as one retriever
  answers, and the answers are interleaved in rounds, an item met again being merged into the one
  already taken. A stub is a function of the request; the generated request id is an argument. The
  conversion of an expanded count that does not fit \<open>int\<close> is undefined behaviour: \<open>None\<close>.
\<close>

section \<open>State\<close>

type_synonym retriever_stub = "RetrieverRequest \<Rightarrow> grpc_status \<times> RetrieverResponse"

record RetrievalOrchestrator =
  or_retriever_stubs :: "(string \<times> retriever_stub option) list"
  or_recall_candidate_expand_ratio :: float64

fun check_stubs :: "(string \<times> retriever_stub option) list \<Rightarrow> unit throws" where
  "check_stubs [] = Inr ()"
| "check_stubs ((retriever_name, retriever_stub) # rest) =
     (if retriever_name = []
      then Inl (InvalidArgument ''RetrievalOrchestrator retriever name must not be empty.'')
      else if retriever_stub = None
      then Inl (InvalidArgument
             (''RetrievalOrchestrator '' @ retriever_name @ '' retriever_stub must not be null.''))
      else check_stubs rest)"

definition RetrievalOrchestrator_new ::
  "(string \<times> retriever_stub option) list \<Rightarrow> float64 \<Rightarrow> RetrievalOrchestrator throws" where
  "RetrievalOrchestrator_new retriever_stubs recall_candidate_expand_ratio =
     (if retriever_stubs = []
      then Inl (InvalidArgument ''RetrievalOrchestrator retriever_stubs must not be empty.'')
      else if fle recall_candidate_expand_ratio (Fin 0)
      then Inl (InvalidArgument
             ''RetrievalOrchestrator recall_candidate_expand_ratio must be positive.'')
      else bindE (check_stubs retriever_stubs) (\<lambda>_.
             Inr \<lparr>or_retriever_stubs = retriever_stubs,
                  or_recall_candidate_expand_ratio = recall_candidate_expand_ratio\<rparr>))"

text \<open>The stubs of the deployment, in the order \<open>Create\<close> adds them.\<close>

definition RetrievalOrchestrator_Create ::
  "retriever_stub \<Rightarrow> retriever_stub \<Rightarrow> float64 \<Rightarrow> RetrievalOrchestrator throws" where
  "RetrievalOrchestrator_Create item_cf_stub user_cf_stub recall_candidate_expand_ratio =
     RetrievalOrchestrator_new [(''item_cf'', Some item_cf_stub), (''user_cf'', Some user_cf_stub)]
       recall_candidate_expand_ratio"

section \<open>Asking the retrievers\<close>

fun IsRetrieverResponseStatusAccepted :: "RetrieverServiceStatus \<Rightarrow> bool" where
  "IsRetrieverResponseStatusAccepted status \<longleftrightarrow>
     status = RETRIEVER_SUCCESS \<or> status = RETRIEVER_EMPTY_TRIGGER_SEEDS"

definition ComputeRetrieverMaxCandidateCount :: "int \<Rightarrow> float64 \<Rightarrow> int option" where
  "ComputeRetrieverMaxCandidateCount max_results expand_ratio =
     (if max_results \<le> 0 then Some max_results
      else
        (case double_to int_min int_max (fceil (fmul (to_double max_results) expand_ratio)) of
           None \<Rightarrow> None
         | Some expanded_count \<Rightarrow> Some (max max_results expanded_count)))"

definition FetchCandidatesFromRetriever ::
  "string \<Rightarrow> retriever_stub option \<Rightarrow> RetrieverRequest \<Rightarrow> grpc_status \<times> RetrieverResponse" where
  "FetchCandidatesFromRetriever retriever_name retriever_stub retriever_request =
     (case retriever_stub of
        None \<Rightarrow> (StatusError INTERNAL (retriever_name @ '' retriever client is not initialized.''),
                 RetrieverResponse_default)
      | Some stub \<Rightarrow>
          (let (retriever_status, retriever_response) = stub retriever_request
           in if \<not> status_ok retriever_status
              then (StatusError INTERNAL (''Failed to retrieve candidates from '' @ retriever_name @
                      '': '' @ error_message retriever_status), retriever_response)
              else if \<not> IsRetrieverResponseStatusAccepted (rvs_status retriever_response)
              then (StatusError INTERNAL
                      (retriever_name @ '' retriever returned non-success status '' @
                       show_int (RetrieverServiceStatus_int (rvs_status retriever_response)) @ ''.'' @
                       (if rvs_msg retriever_response \<noteq> []
                        then '' reason: '' @ rvs_msg retriever_response else [])),
                    retriever_response)
              else (StatusOK, retriever_response)))"

fun fetch_all ::
  "(string \<times> retriever_stub option) list \<Rightarrow> RetrieverRequest \<Rightarrow> string list \<Rightarrow> RetrieverResponse list \<Rightarrow>
     string list \<times> RetrieverResponse list" where
  "fetch_all [] retriever_request failure_messages retriever_responses =
     (failure_messages, retriever_responses)"
| "fetch_all ((retriever_name, retriever_stub) # rest) retriever_request failure_messages
     retriever_responses =
     (let (retriever_status, retriever_response) =
            FetchCandidatesFromRetriever (c_str retriever_name) retriever_stub retriever_request
      in if \<not> status_ok retriever_status
         then fetch_all rest retriever_request
                (failure_messages @ [retriever_name @ '': '' @ error_message retriever_status])
                retriever_responses
         else fetch_all rest retriever_request failure_messages
                (retriever_responses @ [retriever_response]))"

section \<open>The rounds\<close>

text \<open>
  The loop's state: the candidates of the response and \<open>candidate_index_by_item_id\<close>. A cursor is
  a retriever's candidates with its entry of \<open>next_candidate_indices\<close>.
\<close>

type_synonym merge_state = "CandidateItem list \<times> (uint64 \<rightharpoonup> nat)"
type_synonym cursor = "CandidateItem list \<times> nat"

fun take_candidate :: "int \<Rightarrow> merge_state \<Rightarrow> CandidateItem \<Rightarrow> merge_state" where
  "take_candidate max_candidate_count (candidates, index_by_item_id) candidate =
     (if ci_item_id candidate = 0 then (candidates, index_by_item_id)
      else
        (case index_by_item_id (ci_item_id candidate) of
           Some j \<Rightarrow> (candidates[j := MergeCandidate candidate (candidates ! j)], index_by_item_id)
         | None \<Rightarrow>
             if int (length candidates) < max_candidate_count
             then (candidates @ [NormalizeCandidate candidate],
                   index_by_item_id(ci_item_id candidate \<mapsto> length candidates))
             else (candidates, index_by_item_id)))"

fun merge_round :: "int \<Rightarrow> cursor list \<Rightarrow> merge_state \<Rightarrow> cursor list \<times> merge_state \<times> bool" where
  "merge_round max_candidate_count [] state = ([], state, False)"
| "merge_round max_candidate_count ((candidates, candidate_index) # cursors) state =
     (if length candidates \<le> candidate_index
      then (let (cursors', state', advanced) = merge_round max_candidate_count cursors state
            in ((candidates, candidate_index) # cursors', state', advanced))
      else (let (cursors', state', advanced) =
                  merge_round max_candidate_count cursors
                    (take_candidate max_candidate_count state (candidates ! candidate_index))
            in ((candidates, Suc candidate_index) # cursors', state', True)))"

definition remaining :: "cursor list \<Rightarrow> nat" where
  "remaining cursors = sum_list (map (\<lambda>(cs, i). length cs - i) cursors)"

lemma merge_round_remaining:
  "merge_round m cursors state = (cursors', state', advanced) \<Longrightarrow>
    remaining cursors' \<le> remaining cursors \<and> (advanced \<longrightarrow> remaining cursors' < remaining cursors)"
proof (induction m cursors state arbitrary: cursors' state' advanced rule: merge_round.induct)
  case (2 m cs i cursors state)
  then show ?case
    by (fastforce simp: remaining_def Let_def split: if_splits prod.splits)
qed (simp add: remaining_def)

function merge_rounds :: "int \<Rightarrow> cursor list \<Rightarrow> merge_state \<Rightarrow> merge_state" where
  "merge_rounds max_candidate_count cursors state =
     (let (cursors', state', advanced) = merge_round max_candidate_count cursors state
      in if advanced then merge_rounds max_candidate_count cursors' state' else state')"
  by pat_completeness auto
termination
  by (relation "measure (\<lambda>(m, cursors, state). remaining cursors)")
    (auto dest: merge_round_remaining [OF sym])

declare merge_rounds.simps [simp del]

section \<open>The handler\<close>

definition DispatchToRetrievers ::
  "RetrievalOrchestrator \<Rightarrow> string \<Rightarrow> RetrieveRequest \<Rightarrow> RetrieveResponse \<Rightarrow>
     (grpc_status \<times> RetrieveResponse) option" where
  "DispatchToRetrievers this guid request response =
     (case ComputeRetrieverMaxCandidateCount (rtq_max_candidate_count request)
             (or_recall_candidate_expand_ratio this) of
        None \<Rightarrow> None
      | Some max_candidate_count \<Rightarrow>
          (let retriever_request =
                 \<lparr>rvq_trace_id = rtq_trace_id request, rvq_request_id = guid,
                  rvq_user_id = rtq_user_id request,
                  rvq_profile = Some (case rtq_profile request of None \<Rightarrow> Profile_default | Some p \<Rightarrow> p),
                  rvq_max_candidate_count = max_candidate_count\<rparr>;
               (failure_messages, retriever_responses) =
                 fetch_all (or_retriever_stubs this) retriever_request [] []
           in if retriever_responses = []
              then
                (let response = response\<lparr>rts_status := RETRIEVAL_SYSTEM_ERROR\<rparr>
                 in if failure_messages = []
                    then Some (StatusError INTERNAL ''No retrievers configured.'',
                               response\<lparr>rts_msg := ''No retrievers configured.''\<rparr>)
                    else
                      (let error = foldl (\<lambda>error failure_message. error @ '' '' @ failure_message)
                             ''Failed to retrieve candidates from all retrievers.'' failure_messages
                       in Some (StatusError INTERNAL error, response\<lparr>rts_msg := error\<rparr>)))
              else
                (let cursors = map (\<lambda>r. (rvs_candidates r, 0)) retriever_responses;
                     (candidates, _) = merge_rounds (rtq_max_candidate_count request) cursors
                       (rts_candidates response, Map.empty)
                 in Some (StatusOK,
                      response\<lparr>rts_candidates := candidates,
                               rts_candidate_count := int (length candidates),
                               rts_status := RETRIEVAL_SUCCESS, rts_msg := []\<rparr>))))"

definition Orchestrator_Retrieve ::
  "RetrievalOrchestrator \<Rightarrow> string \<Rightarrow> RetrieveRequest \<Rightarrow> RetrieveResponse \<Rightarrow>
     (grpc_status \<times> RetrieveResponse) option" where
  "Orchestrator_Retrieve this guid request response =
     (let response = response\<lparr>rts_msg := [], rts_candidate_count := 0\<rparr>
      in if sint (rtq_user_id request) \<le> 0
         then (let m = ''Invalid user_id '' @ show_int (sint (rtq_user_id request)) @ ''.''
               in Some (StatusError INVALID_ARGUMENT m,
                        response\<lparr>rts_status := RETRIEVAL_INVALID_REQUEST, rts_msg := m\<rparr>))
         else if rtq_profile request = None
         then (let m = ''Profile is required for user '' @ show_int (sint (rtq_user_id request)) @ ''.''
               in Some (StatusError INVALID_ARGUMENT m,
                        response\<lparr>rts_status := RETRIEVAL_INVALID_REQUEST, rts_msg := m\<rparr>))
         else
           (case DispatchToRetrievers this guid request response of
              None \<Rightarrow> None
            | Some (status, response) \<Rightarrow>
                Some (status,
                  if \<not> status_ok status \<and> rts_msg response = []
                  then response\<lparr>rts_msg := error_message status\<rparr> else response)))"

section \<open>The rounds as one list\<close>

lemma sum_length_tl:
  "\<exists>xs \<in> set xss. xs \<noteq> [] \<Longrightarrow> (\<Sum>xs\<leftarrow>xss. length (tl xs)) < (\<Sum>xs\<leftarrow>xss. length xs)"
proof (induction xss)
  case (Cons xs xss)
  have "(\<Sum>xs\<leftarrow>xss. length (tl xs)) \<le> (\<Sum>xs\<leftarrow>xss. length xs)"
    by (intro sum_list_mono) simp
  with Cons show ?case by (cases xs) (auto simp del: length_tl)
qed simp

text \<open>The order in which the rounds visit the candidates: the heads, then the heads of the rest.\<close>

function round_robin :: "'a list list \<Rightarrow> 'a list" where
  "round_robin xss =
     (if \<forall>xs \<in> set xss. xs = [] then []
      else map hd (filter (\<lambda>xs. xs \<noteq> []) xss) @ round_robin (map tl xss))"
  by pat_completeness auto
termination
  by (relation "measure (\<lambda>xss. sum_list (map length xss))") (use sum_length_tl in \<open>auto simp: comp_def simp del: length_tl\<close>)

declare round_robin.simps [simp del]

lemma set_round_robin: "set (round_robin xss) = \<Union> (set ` set xss)"
proof (induction xss rule: round_robin.induct)
  case (1 xss)
  show ?case
  proof (cases "\<forall>xs \<in> set xss. xs = []")
    case True
    then show ?thesis by (subst round_robin.simps) auto
  next
    case False
    have "(\<Union>xs \<in> set xss. set xs) = hd ` {xs \<in> set xss. xs \<noteq> []} \<union> (\<Union>xs \<in> set xss. set (tl xs))"
    proof -
      have e: "set xs = (if xs = [] then {} else {hd xs}) \<union> set (tl xs)" for xs :: "'a list"
        by (cases xs) auto
      have "(\<Union>xs \<in> set xss. set xs) =
          (\<Union>xs \<in> set xss. (if xs = [] then {} else {hd xs}) \<union> set (tl xs))"
        by (intro SUP_cong refl e)
      also have "\<dots> = (\<Union>xs \<in> set xss. if xs = [] then {} else {hd xs}) \<union> (\<Union>xs \<in> set xss. set (tl xs))"
        by (rule UN_Un_distrib)
      also have "(\<Union>xs \<in> set xss. if xs = [] then {} else {hd xs}) = hd ` {xs \<in> set xss. xs \<noteq> []}"
        by (auto split: if_splits)
      finally show ?thesis .
    qed
    moreover have "round_robin xss = map hd (filter (\<lambda>xs. xs \<noteq> []) xss) @ round_robin (map tl xss)"
      using False by (subst round_robin.simps) (simp only: if_False)
    ultimately show ?thesis
      by (simp only: set_append set_map set_filter image_image 1 [OF False])
  qed
qed

fun rest_of :: "cursor \<Rightarrow> CandidateItem list" where
  "rest_of (cs, i) = drop i cs"

lemma merge_round_eq:
  "merge_round m cursors state = (cursors', state', advanced) \<Longrightarrow>
    map rest_of cursors' = map tl (map rest_of cursors) \<and>
    state' = foldl (take_candidate m) state (map hd (filter (\<lambda>xs. xs \<noteq> []) (map rest_of cursors))) \<and>
    (advanced \<longleftrightarrow> (\<exists>xs \<in> set (map rest_of cursors). xs \<noteq> []))"
proof (induction m cursors state arbitrary: cursors' state' advanced rule: merge_round.induct)
  case (2 m cs i cursors state)
  show ?case
  proof (cases "length cs \<le> i")
    case True
    obtain c s a where r: "merge_round m cursors state = (c, s, a)" by (metis prod_cases3)
    from True "2.IH"(1) [OF True r] show ?thesis using "2.prems" by (auto simp: r)
  next
    case False
    then have "drop i cs \<noteq> []" "hd (drop i cs) = cs ! i" "tl (drop i cs) = drop (Suc i) cs"
      by (simp_all add: hd_drop_conv_nth drop_Suc tl_drop)
    moreover obtain c s a where r: "merge_round m cursors (take_candidate m state (cs ! i)) = (c, s, a)"
      by (metis prod_cases3)
    moreover note "2.IH"(2) [OF False r]
    ultimately show ?thesis using "2.prems" False by (auto simp: r)
  qed
qed simp

lemma merge_rounds_eq:
  "merge_rounds m cursors state = foldl (take_candidate m) state (round_robin (map rest_of cursors))"
proof (induction m cursors state rule: merge_rounds.induct)
  case (1 m cursors state)
  obtain cursors' state' advanced where r: "merge_round m cursors state = (cursors', state', advanced)"
    by (metis prod_cases3)
  note eq = merge_round_eq [OF r]
  show ?case
  proof (cases advanced)
    case True
    then have "round_robin (map rest_of cursors) =
        map hd (filter (\<lambda>xs. xs \<noteq> []) (map rest_of cursors)) @ round_robin (map rest_of cursors')"
      using eq by (subst round_robin.simps) auto
    with True eq show ?thesis
      using 1 [OF refl r [symmetric] refl True] by (subst merge_rounds.simps) (simp add: r)
  next
    case False
    with eq have "round_robin (map rest_of cursors) = []" by (subst round_robin.simps) auto
    moreover have "filter (\<lambda>xs. xs \<noteq> []) (map rest_of cursors) = []"
      using False eq by (auto simp: filter_empty_conv)
    ultimately show ?thesis using False eq by (subst merge_rounds.simps) (simp add: r)
  qed
qed

section \<open>What the merge computes\<close>

definition firsts :: "'a list \<Rightarrow> 'a list" where
  "firsts xs = rev (remdups (rev xs))"

lemma firsts_simps [simp]:
  "firsts [] = []" "firsts (xs @ [x]) = firsts xs @ (if x \<in> set xs then [] else [x])"
  "set (firsts xs) = set xs" "distinct (firsts xs)"
  by (simp_all add: firsts_def)

text \<open>
  Specification: the items are the first ones of the list with an id, at most the wanted number; the
  candidate of an item is its first occurrence normalised, with every later one merged into it, those
  after the list is full included.
\<close>

definition chosen_ids :: "int \<Rightarrow> CandidateItem list \<Rightarrow> uint64 list" where
  "chosen_ids m cs = take (nat m) (firsts (filter (\<lambda>i. i \<noteq> 0) (map ci_item_id cs)))"

definition merged_candidate :: "CandidateItem list \<Rightarrow> uint64 \<Rightarrow> CandidateItem" where
  "merged_candidate cs i =
     (case filter (\<lambda>c. ci_item_id c = i) cs of
        [] \<Rightarrow> CandidateItem_default
      | c # later \<Rightarrow> foldl (\<lambda>t s. MergeCandidate s t) (NormalizeCandidate c) later)"

lemma chosen_ids_props:
  "distinct (chosen_ids m cs)" "0 \<notin> set (chosen_ids m cs)" "length (chosen_ids m cs) \<le> nat m"
  "set (chosen_ids m cs) \<subseteq> ci_item_id ` set cs"
  by (auto simp: chosen_ids_def distinct_take dest!: in_set_takeD)

lemma merged_candidate_snoc:
  "merged_candidate (cs @ [c]) i =
     (if ci_item_id c = i
      then (if i \<in> ci_item_id ` set cs then MergeCandidate c (merged_candidate cs i) else NormalizeCandidate c)
      else merged_candidate cs i)"
proof (cases "filter (\<lambda>c. ci_item_id c = i) cs")
  case Nil
  then show ?thesis by (auto simp: merged_candidate_def filter_empty_conv)
next
  case (Cons d later)
  then have "i \<in> ci_item_id ` set cs" by (metis (mono_tags) filter_eq_Cons_iff in_set_conv_decomp rev_image_eqI)
  with Cons show ?thesis by (simp add: merged_candidate_def)
qed

lemma chosen_ids_snoc:
  "chosen_ids m (cs @ [c]) =
     (if ci_item_id c = 0 \<or> ci_item_id c \<in> ci_item_id ` set cs \<or> nat m \<le> length (chosen_ids m cs)
      then chosen_ids m cs else chosen_ids m cs @ [ci_item_id c])"
  by (auto simp: chosen_ids_def min_def)

lemma chosen_all: "length (chosen_ids m cs) < nat m \<Longrightarrow> set (chosen_ids m cs) = ci_item_id ` set cs - {0}"
  by (auto simp: chosen_ids_def min_def split: if_splits)

definition positions :: "'a list \<Rightarrow> 'a \<rightharpoonup> nat" where
  "positions xs = map_of (zip xs [0..<length xs])"

lemma positions_snoc: "x \<notin> set xs \<Longrightarrow> positions (xs @ [x]) = (positions xs)(x \<mapsto> length xs)"
proof -
  assume x: "x \<notin> set xs"
  then have none: "map_of (zip xs [0..<length xs]) x = None" by (auto simp: map_of_eq_None_iff dest: set_zip_leftD)
  show ?thesis
  proof
    fix y
    show "positions (xs @ [x]) y = ((positions xs)(x \<mapsto> length xs)) y"
      using none by (cases "map_of (zip xs [0..<length xs]) y") (auto simp: positions_def map_add_def simp del: map_of_zip_is_None)
  qed
qed

lemma positions_Some: "distinct xs \<Longrightarrow> positions xs x = Some j \<longleftrightarrow> j < length xs \<and> xs ! j = x"
  by (auto simp: positions_def in_set_zip dest!: map_of_SomeD intro!: map_of_is_SomeI)

lemma positions_None: "positions xs x = None \<longleftrightarrow> x \<notin> set xs"
  by (auto simp: positions_def map_of_eq_None_iff in_set_conv_nth set_zip image_iff)

lemma take_candidates_spec:
  "foldl (take_candidate m) ([], Map.empty) cs =
     (map (merged_candidate cs) (chosen_ids m cs), positions (chosen_ids m cs))"
proof (induction cs rule: rev_induct)
  case Nil
  then show ?case by (simp add: chosen_ids_def positions_def)
next
  case (snoc c cs)
  let ?ids = "chosen_ids m cs" and ?i = "ci_item_id c"
  note props = chosen_ids_props [of m cs]
  have other: "map (merged_candidate (cs @ [c])) ?ids = map (merged_candidate cs) ?ids" if "?i \<notin> set ?ids"
    using that by (auto simp: merged_candidate_snoc)
  show ?case
  proof (cases "?i = 0 \<or> ?i \<in> set ?ids")
    case True
    show ?thesis
    proof (cases "?i = 0")
      case True
      then have "?i \<notin> set ?ids" using props(2) by simp
      with True show ?thesis using other by (simp add: snoc chosen_ids_snoc)
    next
      case False
      with True have mem: "?i \<in> set ?ids" by simp
      then obtain j where j: "j < length ?ids" "?ids ! j = ?i" by (meson in_set_conv_nth)
      have pos: "positions ?ids ?i = Some j" using j props(1) by (simp add: positions_Some)
      have old: "?i \<in> ci_item_id ` set cs" using mem props(4) by blast
      have "map (merged_candidate (cs @ [c])) ?ids =
          (map (merged_candidate cs) ?ids)[j := MergeCandidate c (merged_candidate cs ?i)]"
      proof (rule nth_equalityI)
        fix k
        assume "k < length (map (merged_candidate (cs @ [c])) ?ids)"
        then have k: "k < length ?ids" by simp
        have ne: "?ids ! k \<noteq> ?i" if "k \<noteq> j" using that k j props(1) nth_eq_iff_index_eq by metis
        show "map (merged_candidate (cs @ [c])) ?ids ! k =
            (map (merged_candidate cs) ?ids)[j := MergeCandidate c (merged_candidate cs ?i)] ! k"
        proof (cases "k = j")
          case True
          then show ?thesis using old j k by (simp add: merged_candidate_snoc)
        next
          case False
          then show ?thesis using ne [symmetric] k by (simp add: merged_candidate_snoc)
        qed
      qed simp
      then show ?thesis using False old pos j by (simp add: snoc chosen_ids_snoc)
    qed
  next
    case False
    then have none: "positions ?ids ?i = None" by (simp add: positions_None)
    show ?thesis
    proof (cases "int (length ?ids) < m")
      case True
      then have room: "length ?ids < nat m" by simp
      have new: "?i \<notin> ci_item_id ` set cs" using False unfolding chosen_all [OF room] by blast
      then have "merged_candidate (cs @ [c]) ?i = NormalizeCandidate c" by (simp add: merged_candidate_snoc)
      then show ?thesis
        using False none True new room other positions_snoc [of ?i ?ids]
        by (simp add: snoc chosen_ids_snoc fun_upd_def)
    next
      case full: False
      then have "nat m \<le> length ?ids" by simp
      then show ?thesis using full False none other by (simp add: snoc chosen_ids_snoc)
    qed
  qed
qed

lemma merged_candidate_props:
  "i \<in> ci_item_id ` set cs \<Longrightarrow>
    ci_item_id (merged_candidate cs i) = i \<and> consistent_candidate (merged_candidate cs i)"
proof (induction cs rule: rev_induct)
  case (snoc d cs)
  then show ?case by (cases "i \<in> ci_item_id ` set cs") (auto simp: merged_candidate_snoc)
qed simp

lemma merged_candidate_chosen:
  assumes "i \<in> set (chosen_ids m cs)"
  shows "ci_item_id (merged_candidate cs i) = i" "consistent_candidate (merged_candidate cs i)"
  using merged_candidate_props [of i cs] chosen_ids_props(4) [of m cs] assms by auto

section \<open>Answers of the retrievers\<close>

definition accepted_responses ::
  "(string \<times> retriever_stub option) list \<Rightarrow> RetrieverRequest \<Rightarrow> RetrieverResponse list" where
  "accepted_responses stubs q =
     map snd (filter (\<lambda>(st, _). status_ok st)
       (map (\<lambda>(name, stub). FetchCandidatesFromRetriever (c_str name) stub q) stubs))"

lemma fetch_all_eq:
  "fetch_all stubs q fs rs = (ms, qs) \<Longrightarrow>
    qs = rs @ accepted_responses stubs q \<and> length ms + length qs = length fs + length rs + length stubs"
proof (induction stubs q fs rs rule: fetch_all.induct)
  case (2 name stub rest q fs rs)
  obtain st r where "FetchCandidatesFromRetriever (c_str name) stub q = (st, r)" by fastforce
  then show ?case
    using "2.IH" [of "(st, r)" st r] "2.prems"
    by (cases "status_ok st") (fastforce simp: accepted_responses_def)+
qed (simp add: accepted_responses_def)

lemma FetchCandidates_ok:
  "FetchCandidatesFromRetriever name stub q = (StatusOK, r) \<longleftrightarrow>
    (\<exists>f. stub = Some f \<and> f q = (StatusOK, r) \<and> IsRetrieverResponseStatusAccepted (rvs_status r))"
  by (auto simp: FetchCandidatesFromRetriever_def status_ok_iff split: option.splits prod.splits if_splits)

lemma accepted_responses_iff:
  "r \<in> set (accepted_responses stubs q) \<longleftrightarrow>
     (\<exists>name f. (name, Some f) \<in> set stubs \<and> f q = (StatusOK, r) \<and>
        IsRetrieverResponseStatusAccepted (rvs_status r))"
proof -
  have "r \<in> set (accepted_responses stubs q) \<longleftrightarrow>
      (\<exists>x \<in> set stubs. (case x of (name, stub) \<Rightarrow>
        FetchCandidatesFromRetriever (c_str name) stub q = (StatusOK, r)))"
  proof (induction stubs)
    case (Cons x stubs)
    obtain name stub st r' where "x = (name, stub)"
      "FetchCandidatesFromRetriever (c_str name) stub q = (st, r')" by fastforce
    with Cons show ?case by (cases "status_ok st") (auto simp: accepted_responses_def status_ok_iff)
  qed (simp add: accepted_responses_def)
  then show ?thesis unfolding FetchCandidates_ok by (auto simp: Bex_def)
qed

definition retriever_request :: "string \<Rightarrow> RetrieveRequest \<Rightarrow> int \<Rightarrow> RetrieverRequest" where
  "retriever_request guid request n =
     \<lparr>rvq_trace_id = rtq_trace_id request, rvq_request_id = guid, rvq_user_id = rtq_user_id request,
      rvq_profile = Some (case rtq_profile request of None \<Rightarrow> Profile_default | Some p \<Rightarrow> p),
      rvq_max_candidate_count = n\<rparr>"

definition visited :: "(string \<times> retriever_stub option) list \<Rightarrow> RetrieverRequest \<Rightarrow> CandidateItem list" where
  "visited stubs q = round_robin (map rvs_candidates (accepted_responses stubs q))"

lemma DispatchToRetrievers_eq:
  assumes "ComputeRetrieverMaxCandidateCount (rtq_max_candidate_count request)
      (or_recall_candidate_expand_ratio this) = Some n" "rts_candidates response = []"
    "or_retriever_stubs this \<noteq> []"
  shows "\<exists>error. error \<noteq> [] \<and> DispatchToRetrievers this guid request response =
    (let q = retriever_request guid request n; cs = visited (or_retriever_stubs this) q;
         ids = chosen_ids (rtq_max_candidate_count request) cs
     in if accepted_responses (or_retriever_stubs this) q = []
        then Some (StatusError INTERNAL error,
                   response\<lparr>rts_status := RETRIEVAL_SYSTEM_ERROR, rts_msg := error\<rparr>)
        else Some (StatusOK,
                   response\<lparr>rts_candidates := map (merged_candidate cs) ids,
                            rts_candidate_count := int (length ids),
                            rts_status := RETRIEVAL_SUCCESS, rts_msg := []\<rparr>))"
proof -
  let ?q = "retriever_request guid request n"
  obtain ms qs where f: "fetch_all (or_retriever_stubs this) ?q [] [] = (ms, qs)" by fastforce
  have f': "fetch_all (or_retriever_stubs this)
     \<lparr>rvq_trace_id = rtq_trace_id request, rvq_request_id = guid, rvq_user_id = rtq_user_id request,
      rvq_profile = Some (case rtq_profile request of None \<Rightarrow> Profile_default | Some p \<Rightarrow> p),
      rvq_max_candidate_count = n\<rparr> [] [] = (ms, qs)"
    using f by (simp add: retriever_request_def)
  note qs = fetch_all_eq [OF f]
  define error where "error = foldl (\<lambda>error failure_message. error @ '' '' @ failure_message)
    ''Failed to retrieve candidates from all retrievers.'' ms"
  have "foldl (\<lambda>error failure_message. error @ '' '' @ failure_message) e ms \<noteq> []" if "e \<noteq> []" for e :: string
    using that by (induction ms arbitrary: e) auto
  then have "error \<noteq> []" by (simp add: error_def)
  moreover have "ms \<noteq> []" if "qs = []" using qs that assms(3) by auto
  moreover have "map (\<lambda>x. drop 0 (rvs_candidates x)) qs = map rvs_candidates qs" by simp
  ultimately show ?thesis
    using qs assms(1,2)
    by (intro exI [of _ error])
      (simp add: DispatchToRetrievers_def f' Let_def visited_def merge_rounds_eq comp_def
        take_candidates_spec error_def)
qed

section \<open>Theorems\<close>

lemma RetrievalOrchestrator_new_Inr:
  assumes "RetrievalOrchestrator_new stubs ratio = Inr this"
  shows "or_retriever_stubs this = stubs" "or_recall_candidate_expand_ratio this = ratio"
    "stubs \<noteq> []" "\<not> fle ratio (Fin 0)"
  using assms by (auto simp: RetrievalOrchestrator_new_def split: if_splits)

lemma Orchestrator_answer:
  assumes "RetrievalOrchestrator_new stubs ratio = Inr this"
    "0 < sint (rtq_user_id request)" "rtq_profile request = Some profile"
    "ComputeRetrieverMaxCandidateCount (rtq_max_candidate_count request) ratio = Some n"
    "q = retriever_request guid request n"
  shows "if accepted_responses stubs q = []
    then \<exists>msg. msg \<noteq> [] \<and> Orchestrator_Retrieve this guid request RetrieveResponse_default =
      Some (StatusError INTERNAL msg, \<lparr>rts_status = RETRIEVAL_SYSTEM_ERROR, rts_msg = msg,
              rts_candidate_count = 0, rts_candidates = []\<rparr>)
    else Orchestrator_Retrieve this guid request RetrieveResponse_default =
      (let cs = visited stubs q; ids = chosen_ids (rtq_max_candidate_count request) cs
       in Some (StatusOK, \<lparr>rts_status = RETRIEVAL_SUCCESS, rts_msg = [],
              rts_candidate_count = int (length ids), rts_candidates = map (merged_candidate cs) ids\<rparr>))"
proof -
  note new = RetrievalOrchestrator_new_Inr [OF assms(1)]
  let ?r0 = "RetrieveResponse_default\<lparr>rts_msg := [], rts_candidate_count := 0\<rparr>"
  obtain error where error: "error \<noteq> []" and run: "DispatchToRetrievers this guid request ?r0 =
    (let q = retriever_request guid request n; cs = visited (or_retriever_stubs this) q;
         ids = chosen_ids (rtq_max_candidate_count request) cs
     in if accepted_responses (or_retriever_stubs this) q = []
        then Some (StatusError INTERNAL error,
                   ?r0\<lparr>rts_status := RETRIEVAL_SYSTEM_ERROR, rts_msg := error\<rparr>)
        else Some (StatusOK,
                   ?r0\<lparr>rts_candidates := map (merged_candidate cs) ids,
                            rts_candidate_count := int (length ids),
                            rts_status := RETRIEVAL_SUCCESS, rts_msg := []\<rparr>))"
    using DispatchToRetrievers_eq [of request this n ?r0 guid] assms(4) new(1-3)
    by (auto simp: RetrieveResponse_default_def)
  show ?thesis
    using error assms(2,3,5) new(1) run
    by (auto simp: Orchestrator_Retrieve_def Let_def RetrieveResponse_default_def intro!: exI [of _ error])
qed

text \<open>
  C3. Functional correctness of the orchestrator. On a valid request the answer is a success as
  soon as one retriever answers, and it is then what the specification says: the items in the order
  of the rounds over the accepted answers, each merged from all its occurrences. With no accepted
  answer it is a system error with a message and no candidates.
\<close>

theorem orchestrator_merges_rounds:
  assumes "RetrievalOrchestrator_new stubs ratio = Inr this"
    "0 < sint (rtq_user_id request)" "rtq_profile request = Some profile"
    "ComputeRetrieverMaxCandidateCount (rtq_max_candidate_count request) ratio = Some n"
    "q = retriever_request guid request n"
  shows "if accepted_responses stubs q = []
    then \<exists>msg. msg \<noteq> [] \<and> Orchestrator_Retrieve this guid request RetrieveResponse_default =
      Some (StatusError INTERNAL msg, \<lparr>rts_status = RETRIEVAL_SYSTEM_ERROR, rts_msg = msg,
              rts_candidate_count = 0, rts_candidates = []\<rparr>)
    else Orchestrator_Retrieve this guid request RetrieveResponse_default =
      (let cs = visited stubs q; ids = chosen_ids (rtq_max_candidate_count request) cs
       in Some (StatusOK, \<lparr>rts_status = RETRIEVAL_SUCCESS, rts_msg = [],
              rts_candidate_count = int (length ids), rts_candidates = map (merged_candidate cs) ids\<rparr>))"
  by (rule Orchestrator_answer [OF assms])

text \<open>What an answer of the orchestrator holds.\<close>

lemma Orchestrator_candidates:
  assumes "RetrievalOrchestrator_new stubs ratio = Inr this"
    "Orchestrator_Retrieve this guid request RetrieveResponse_default = Some (st, resp)"
  shows "distinct (map ci_item_id (rts_candidates resp)) \<and>
    length (rts_candidates resp) \<le> nat (rtq_max_candidate_count request) \<and>
    (\<forall>c \<in> set (rts_candidates resp). ci_item_id c \<noteq> 0 \<and> consistent_candidate c \<and>
      (\<exists>name f q r. (name, Some f) \<in> set stubs \<and> rvq_user_id q = rtq_user_id request \<and>
         rvq_profile q = rtq_profile request \<and> f q = (StatusOK, r) \<and>
         IsRetrieverResponseStatusAccepted (rvs_status r) \<and>
         ci_item_id c \<in> ci_item_id ` set (rvs_candidates r)))"
proof (cases "rts_candidates resp = []")
  case True
  then show ?thesis by simp
next
  case False
  note new = RetrievalOrchestrator_new_Inr [OF assms(1)]
  have valid: "0 < sint (rtq_user_id request)" "rtq_profile request \<noteq> None"
    using False assms(2)
    by (auto simp: Orchestrator_Retrieve_def Let_def RetrieveResponse_default_def split: if_splits)
  then obtain profile where profile: "rtq_profile request = Some profile" by blast
  obtain n where n: "ComputeRetrieverMaxCandidateCount (rtq_max_candidate_count request) ratio = Some n"
    using assms(2) valid new(2)
    by (auto simp: Orchestrator_Retrieve_def DispatchToRetrievers_def Let_def split: option.splits)
  define q where "q = retriever_request guid request n"
  note run = Orchestrator_answer [OF assms(1) valid(1) profile n q_def]
  have acc: "accepted_responses stubs q \<noteq> []" using run False assms(2) by auto
  define cs where "cs = visited stubs q"
  define ids where "ids = chosen_ids (rtq_max_candidate_count request) cs"
  have cands: "rts_candidates resp = map (merged_candidate cs) ids"
    using run acc assms(2) by (simp add: cs_def ids_def Let_def)
  note props = chosen_ids_props [of "rtq_max_candidate_count request" cs, folded ids_def]
  note ok = merged_candidate_chosen [of _ "rtq_max_candidate_count request" cs, folded ids_def]
  have id: "map (\<lambda>i. ci_item_id (merged_candidate cs i)) ids = ids"
    using ok(1) by (simp add: map_idI)
  have source: "\<exists>name f r. (name, Some f) \<in> set stubs \<and> f q = (StatusOK, r) \<and>
      IsRetrieverResponseStatusAccepted (rvs_status r) \<and> i \<in> ci_item_id ` set (rvs_candidates r)"
    if "i \<in> set ids" for i
  proof -
    from that props(4) obtain c where "c \<in> set cs" "ci_item_id c = i" by blast
    then obtain r where "r \<in> set (accepted_responses stubs q)" "c \<in> set (rvs_candidates r)"
      by (auto simp: cs_def visited_def set_round_robin)
    then show ?thesis using \<open>ci_item_id c = i\<close> unfolding accepted_responses_iff by blast
  qed
  have "rvq_user_id q = rtq_user_id request" "rvq_profile q = rtq_profile request"
    by (simp_all add: q_def retriever_request_def profile)
  then have "\<forall>c \<in> set (rts_candidates resp). ci_item_id c \<noteq> 0 \<and> consistent_candidate c \<and>
      (\<exists>name f q r. (name, Some f) \<in> set stubs \<and> rvq_user_id q = rtq_user_id request \<and>
         rvq_profile q = rtq_profile request \<and> f q = (StatusOK, r) \<and>
         IsRetrieverResponseStatusAccepted (rvs_status r) \<and>
         ci_item_id c \<in> ci_item_id ` set (rvs_candidates r))"
    unfolding cands using ok props(2) source by (auto simp del: IsRetrieverResponseStatusAccepted.simps) metis+
  then show ?thesis using props(1,3) id by (simp add: cands comp_def)
qed

text \<open>
  C9. Safety of the orchestrator, for any retrievers: whatever it answers, its candidates have
  distinct ids, none 0, are at most as many as asked for, are consistent, and each one was returned,
  in an accepted answer, by some retriever that was sent the same user and profile.
\<close>

theorem orchestrator_candidates_safe:
  assumes "RetrievalOrchestrator_new stubs ratio = Inr this"
    "Orchestrator_Retrieve this guid request RetrieveResponse_default = Some (st, resp)"
  shows "distinct (map ci_item_id (rts_candidates resp)) \<and>
    length (rts_candidates resp) \<le> nat (rtq_max_candidate_count request) \<and>
    (\<forall>c \<in> set (rts_candidates resp). ci_item_id c \<noteq> 0 \<and> consistent_candidate c \<and>
      (\<exists>name f q r. (name, Some f) \<in> set stubs \<and> rvq_user_id q = rtq_user_id request \<and>
         rvq_profile q = rtq_profile request \<and> f q = (StatusOK, r) \<and>
         IsRetrieverResponseStatusAccepted (rvs_status r) \<and>
         ci_item_id c \<in> ci_item_id ` set (rvs_candidates r)))"
  by (rule Orchestrator_candidates [OF assms])

text \<open>
  How many candidates a retriever is asked for: never fewer than the caller wants, exactly as
  many when the ratio is at most 1, and the caller's own count when it is not positive. The
  conversion to \<open>int\<close> is defined for every ratio up to 1.
\<close>

theorem retriever_count_bounds:
  "(m \<le> 0 \<longrightarrow> ComputeRetrieverMaxCandidateCount m ratio = Some m) \<and>
   (\<forall>n. ComputeRetrieverMaxCandidateCount m ratio = Some n \<longrightarrow> m \<le> n) \<and>
   (0 < m \<and> m \<le> int_max \<and> Fin 0 < ratio \<and> ratio \<le> Fin 1 \<longrightarrow>
      ComputeRetrieverMaxCandidateCount m ratio = Some m)"
proof (intro conjI impI allI)
  show "m \<le> 0 \<Longrightarrow> ComputeRetrieverMaxCandidateCount m ratio = Some m"
    by (simp add: ComputeRetrieverMaxCandidateCount_def)
  show "m \<le> n" if "ComputeRetrieverMaxCandidateCount m ratio = Some n" for n
    using that by (auto simp: ComputeRetrieverMaxCandidateCount_def split: if_splits option.splits)
  assume a: "0 < m \<and> m \<le> int_max \<and> Fin 0 < ratio \<and> ratio \<le> Fin 1"
  then obtain r where r: "ratio = Fin r" "0 < r" "r \<le> 1" by (cases ratio) auto
  have m: "\<bar>m\<bar> \<le> 2 ^ 53" using a by (simp add: int_max_def)
  have "rnd (of_int m * r) \<le> rnd (of_int m)"
    using a r by (intro rnd_mono) (simp add: mult_left_le)
  also have "\<dots> = Fin (of_int m)" using to_double_exact [OF m] by (simp add: to_double_def)
  finally have up: "rnd (of_int m * r) \<le> Fin (of_int m)" .
  have lo: "Fin 0 \<le> rnd (of_int m * r)" using a r by (intro rnd_nonneg) simp
  from up lo obtain p where p: "rnd (of_int m * r) = Fin p" "0 \<le> p" "p \<le> of_int m"
    by (cases "rnd (of_int m * r)") auto
  then have "0 \<le> \<lceil>p\<rceil>" "\<lceil>p\<rceil> \<le> m" by (simp_all add: ceiling_le_iff)
  moreover have "p \<le> 2147483647"
  proof -
    have "rat_of_int m \<le> of_int 2147483647" using a unfolding of_int_le_iff by (simp add: int_max_def)
    then show ?thesis using p(3) by simp
  qed
  ultimately show "ComputeRetrieverMaxCandidateCount m ratio = Some m"
    using a p(1) to_double_exact [OF m]
    by (simp add: ComputeRetrieverMaxCandidateCount_def r(1) int_max_def int_min_def)
qed

text \<open>A concrete run: items 9 and 4 from one retriever, 4 and 3 from the other, two wanted.\<close>

definition demo_candidate :: "uint64 \<Rightarrow> string \<Rightarrow> CandidateItem" where
  "demo_candidate i name = CandidateItem_default\<lparr>ci_item_id := i, ci_retriever := name, ci_retrieve_score := Fin 1\<rparr>"

definition demo_retriever :: "uint64 list \<Rightarrow> string \<Rightarrow> retriever_stub" where
  "demo_retriever ids name q = (StatusOK, RetrieverResponse_default\<lparr>rvs_candidates := map (\<lambda>i. demo_candidate i name) ids\<rparr>)"

definition demo_stubs :: "(string \<times> retriever_stub option) list" where
  "demo_stubs = [(''item_cf'', Some (demo_retriever [9, 4] ''item_cf'')),
     (''user_cf'', Some (demo_retriever [4, 3] ''user_cf''))]"

definition demo_retrieve_request :: RetrieveRequest where
  "demo_retrieve_request = \<lparr>rtq_trace_id = [], rtq_request_id = [], rtq_user_id = 5,
     rtq_profile = Some Profile_default, rtq_max_candidate_count = 2\<rparr>"

lemma demo_orchestrator:
  "RetrievalOrchestrator_new demo_stubs (Fin 1) =
     Inr \<lparr>or_retriever_stubs = demo_stubs, or_recall_candidate_expand_ratio = Fin 1\<rparr>"
  by (simp add: RetrievalOrchestrator_new_def demo_stubs_def fle_def)

lemma demo_count: "ComputeRetrieverMaxCandidateCount (rtq_max_candidate_count demo_retrieve_request) (Fin 1) = Some 2"
  by (simp add: ComputeRetrieverMaxCandidateCount_def demo_retrieve_request_def to_double_def int_max_def int_min_def float_eval)

lemma demo_visited: "map ci_item_id (visited demo_stubs q) = [9, 4, 4, 3]"
  "accepted_responses demo_stubs q \<noteq> []"
  by (simp_all add: visited_def accepted_responses_def demo_stubs_def FetchCandidatesFromRetriever_def
      demo_retriever_def demo_candidate_def RetrieverResponse_default_def CandidateItem_default_def
      round_robin.simps)

theorem orchestrator_merges_rounds_witness:
  "\<exists>cs resp. Orchestrator_Retrieve \<lparr>or_retriever_stubs = demo_stubs, or_recall_candidate_expand_ratio = Fin 1\<rparr>
      ''g'' demo_retrieve_request RetrieveResponse_default = Some (StatusOK, resp) \<and>
    rts_candidates resp = map (merged_candidate cs) [9, 4]"
proof -
  let ?cs = "visited demo_stubs (retriever_request ''g'' demo_retrieve_request 2)"
  have "chosen_ids (rtq_max_candidate_count demo_retrieve_request) ?cs = [9, 4]"
    by (simp add: chosen_ids_def demo_visited demo_retrieve_request_def firsts_def)
  then show ?thesis
    using orchestrator_merges_rounds [OF demo_orchestrator _ _ demo_count refl, of Profile_default "''g''"]
    by (auto simp: demo_visited demo_retrieve_request_def Let_def)
qed

theorem orchestrator_candidates_safe_witness:
  "\<exists>st resp. Orchestrator_Retrieve \<lparr>or_retriever_stubs = demo_stubs, or_recall_candidate_expand_ratio = Fin 1\<rparr>
      ''g'' demo_retrieve_request RetrieveResponse_default = Some (st, resp) \<and>
    distinct (map ci_item_id (rts_candidates resp)) \<and> length (rts_candidates resp) \<le> 2"
proof -
  obtain st resp where run: "Orchestrator_Retrieve
      \<lparr>or_retriever_stubs = demo_stubs, or_recall_candidate_expand_ratio = Fin 1\<rparr>
      ''g'' demo_retrieve_request RetrieveResponse_default = Some (st, resp)"
    using Orchestrator_answer [OF demo_orchestrator _ _ demo_count refl, of Profile_default "''g''"]
    by (auto simp: demo_visited demo_retrieve_request_def Let_def)
  from orchestrator_candidates_safe [OF demo_orchestrator run] run show ?thesis
    by (auto simp: demo_retrieve_request_def)
qed

theorem retriever_count_bounds_witness:
  "ComputeRetrieverMaxCandidateCount 7 (Fin (1 / 2)) = Some 7"
  using retriever_count_bounds [of 7 "Fin (1 / 2)"] by (simp add: int_max_def)

end
