(* ===== verification/RetrieverBase.thy ===== *)
theory RetrieverBase
  imports Messages
begin

text \<open>
  \<open>RetrieverBase\<close> of src/src/recommendation_engine/retrieval/retrievers/base: the structs the
  retrievers share, the set of items a user has already consumed, and the \<open>Retrieve\<close> handler,
  final in the base class, around the virtual \<open>DoRetrieve\<close> (an argument here). The handler's
  response is passed in and returned updated, as the output parameter is.
\<close>

section \<open>Data\<close>

record TriggerSeed =
  ts_entity_id :: uint64
  ts_score :: float64

record ScoredItem =
  si_item_id :: uint64
  si_score :: float64

record CandidateScore =
  cs_item_id :: uint64
  cs_score :: float64
  cs_trigger_entity_id :: uint64
  cs_trigger_score :: float64
  cs_source_score :: float64
  cs_reason_score :: float64

definition CandidateScore_default :: CandidateScore where
  "CandidateScore_default =
     \<lparr>cs_item_id = 0, cs_score = Fin 0, cs_trigger_entity_id = 0, cs_trigger_score = Fin 0,
      cs_source_score = Fin 0, cs_reason_score = Fin 0\<rparr>"

section \<open>Consumed items\<close>

text \<open>The two overloads of \<open>AppendItemIdsToFilterOut\<close>, for weighted items and for plain ids.\<close>

fun AppendItemIdsToFilterOut :: "WeightedItem list \<Rightarrow> uint64 set \<Rightarrow> uint64 set" where
  "AppendItemIdsToFilterOut [] item_ids_to_filter_out = item_ids_to_filter_out"
| "AppendItemIdsToFilterOut (item # items) item_ids_to_filter_out =
     AppendItemIdsToFilterOut items
       (if 0 < sint (wi_item_id item)
        then insert (wi_item_id item) item_ids_to_filter_out
        else item_ids_to_filter_out)"

fun AppendRatedItemIdsToFilterOut :: "int64 list \<Rightarrow> uint64 set \<Rightarrow> uint64 set" where
  "AppendRatedItemIdsToFilterOut [] item_ids_to_filter_out = item_ids_to_filter_out"
| "AppendRatedItemIdsToFilterOut (item_id # items) item_ids_to_filter_out =
     AppendRatedItemIdsToFilterOut items
       (if 0 < sint item_id then insert item_id item_ids_to_filter_out
        else item_ids_to_filter_out)"

definition CollectItemIdsToFilterOut :: "Profile \<Rightarrow> uint64 set" where
  "CollectItemIdsToFilterOut profile =
     (let s = {};
          s = AppendItemIdsToFilterOut (be_recent_liked_items (pf_behaviors profile)) s;
          s = AppendItemIdsToFilterOut (be_liked_items (pf_behaviors profile)) s;
          s = AppendItemIdsToFilterOut (be_interested_items (pf_behaviors profile)) s;
          s = AppendRatedItemIdsToFilterOut (be_rated_items (pf_behaviors profile)) s;
          s = AppendItemIdsToFilterOut (nf_items (pf_negative_feedbacks profile)) s
      in s)"

text \<open>All the items a profile mentions: what its user has already met.\<close>

definition consumed_items :: "Profile \<Rightarrow> int64 list" where
  "consumed_items profile =
     map wi_item_id (be_recent_liked_items (pf_behaviors profile)) @
     map wi_item_id (be_liked_items (pf_behaviors profile)) @
     map wi_item_id (be_interested_items (pf_behaviors profile)) @
     be_rated_items (pf_behaviors profile) @
     map wi_item_id (nf_items (pf_negative_feedbacks profile))"

lemma AppendItemIdsToFilterOut_eq:
  "AppendItemIdsToFilterOut items s = s \<union> {i \<in> wi_item_id ` set items. 0 < sint i}"
  by (induction items s rule: AppendItemIdsToFilterOut.induct) auto

lemma AppendRatedItemIdsToFilterOut_eq:
  "AppendRatedItemIdsToFilterOut items s = s \<union> {i \<in> set items. 0 < sint i}"
  by (induction items s rule: AppendRatedItemIdsToFilterOut.induct) auto

lemma CollectItemIdsToFilterOut_eq:
  "CollectItemIdsToFilterOut profile = {i \<in> set (consumed_items profile). 0 < sint i}"
  by (auto simp: CollectItemIdsToFilterOut_def consumed_items_def AppendItemIdsToFilterOut_eq
      AppendRatedItemIdsToFilterOut_eq Let_def)

section \<open>The handler\<close>

definition IsRequestValid ::
  "RetrieverRequest \<Rightarrow> RetrieverResponse \<Rightarrow> grpc_status \<times> RetrieverResponse" where
  "IsRequestValid request response =
     (if sint (rvq_user_id request) \<le> 0
      then (StatusError INVALID_ARGUMENT
              (''Invalid user_id '' @ show_int (sint (rvq_user_id request)) @ ''.''),
            response\<lparr>rvs_status := RETRIEVER_INVALID_REQUEST\<rparr>)
      else if rvq_profile request = None
      then (StatusError INVALID_ARGUMENT
              (''Profile is required for user '' @ show_int (sint (rvq_user_id request)) @ ''.''),
            response\<lparr>rvs_status := RETRIEVER_INVALID_REQUEST\<rparr>)
      else (StatusOK, response))"

type_synonym do_retrieve =
  "RetrieverRequest \<Rightarrow> RetrieverResponse \<Rightarrow> grpc_status \<times> RetrieverResponse"

definition Retriever_Retrieve ::
  "int \<Rightarrow> do_retrieve \<Rightarrow> RetrieverRequest \<Rightarrow> RetrieverResponse \<Rightarrow> grpc_status \<times> RetrieverResponse" where
  "Retriever_Retrieve default_max_candidate_count DoRetrieve request response =
     (let response = response\<lparr>rvs_msg := [], rvs_candidate_count := 0\<rparr>;
          normalized_request =
            (if rvq_max_candidate_count request \<le> 0
             then request\<lparr>rvq_max_candidate_count := default_max_candidate_count\<rparr> else request);
          (request_status, response) = IsRequestValid normalized_request response
      in if \<not> status_ok request_status
         then (request_status, response\<lparr>rvs_msg := error_message request_status\<rparr>)
         else
           (let (retrieve_status, response) = DoRetrieve normalized_request response;
                response =
                  (if \<not> status_ok retrieve_status
                   then (if rvs_msg response = []
                         then response\<lparr>rvs_msg := error_message retrieve_status\<rparr> else response)
                   else if rvs_status response = RETRIEVER_SUCCESS
                   then response\<lparr>rvs_msg := [],
                                 rvs_candidate_count := int (length (rvs_candidates response))\<rparr>
                   else if rvs_msg response = []
                   then response\<lparr>rvs_msg := ''Retriever finished with status '' @
                          show_int (RetrieverServiceStatus_int (rvs_status response)) @ ''.''\<rparr>
                   else response)
            in (retrieve_status, response)))"

text \<open>
  What a handler promises its caller, for any \<open>DoRetrieve\<close>: it is called only on a request with
  a positive user, a profile and, when the default is positive, a positive candidate count; an
  invalid request is refused with the same text in the status and the response.
\<close>

definition valid_retriever_request :: "RetrieverRequest \<Rightarrow> bool" where
  "valid_retriever_request request \<longleftrightarrow>
     0 < sint (rvq_user_id request) \<and> rvq_profile request \<noteq> None"

definition normalized_retriever_request :: "int \<Rightarrow> RetrieverRequest \<Rightarrow> RetrieverRequest" where
  "normalized_retriever_request d request =
     (if rvq_max_candidate_count request \<le> 0 then request\<lparr>rvq_max_candidate_count := d\<rparr> else request)"

lemma Retriever_Retrieve_invalid:
  assumes "\<not> valid_retriever_request request"
  shows "\<exists>m. m \<noteq> [] \<and> Retriever_Retrieve d do request response =
    (StatusError INVALID_ARGUMENT m,
     response\<lparr>rvs_status := RETRIEVER_INVALID_REQUEST, rvs_msg := m, rvs_candidate_count := 0\<rparr>)"
  using assms
  by (auto simp: Retriever_Retrieve_def IsRequestValid_def valid_retriever_request_def Let_def)

lemma Retriever_Retrieve_valid:
  assumes "valid_retriever_request request"
    "do (normalized_retriever_request d request) (response\<lparr>rvs_msg := [], rvs_candidate_count := 0\<rparr>) =
      (st, resp)"
  shows "Retriever_Retrieve d do request response =
    (st, if \<not> status_ok st then (if rvs_msg resp = [] then resp\<lparr>rvs_msg := error_message st\<rparr> else resp)
         else if rvs_status resp = RETRIEVER_SUCCESS
         then resp\<lparr>rvs_msg := [], rvs_candidate_count := int (length (rvs_candidates resp))\<rparr>
         else if rvs_msg resp = []
         then resp\<lparr>rvs_msg := ''Retriever finished with status '' @
                show_int (RetrieverServiceStatus_int (rvs_status resp)) @ ''.''\<rparr>
         else resp)"
  using assms
  by (auto simp: Retriever_Retrieve_def IsRequestValid_def valid_retriever_request_def
      normalized_retriever_request_def Let_def)

lemma Retriever_Retrieve_cases:
  obtains (invalid) m where "\<not> valid_retriever_request request" "m \<noteq> []"
    "Retriever_Retrieve d do request response = (StatusError INVALID_ARGUMENT m,
       response\<lparr>rvs_status := RETRIEVER_INVALID_REQUEST, rvs_msg := m, rvs_candidate_count := 0\<rparr>)"
  | (valid) st resp resp' where "valid_retriever_request request"
    "do (normalized_retriever_request d request) (response\<lparr>rvs_msg := [], rvs_candidate_count := 0\<rparr>) =
      (st, resp)"
    "Retriever_Retrieve d do request response = (st, resp')"
    "rvs_status resp' = rvs_status resp" "rvs_candidates resp' = rvs_candidates resp"
    "status_ok st \<Longrightarrow> rvs_status resp = RETRIEVER_SUCCESS \<Longrightarrow>
       rvs_candidate_count resp' = int (length (rvs_candidates resp)) \<and> rvs_msg resp' = []"
proof (cases "valid_retriever_request request")
  case False
  then show ?thesis using Retriever_Retrieve_invalid invalid by blast
next
  case True
  obtain st resp where d: "do (normalized_retriever_request d request)
      (response\<lparr>rvs_msg := [], rvs_candidate_count := 0\<rparr>) = (st, resp)"
    by fastforce
  note r = Retriever_Retrieve_valid [where do = do and d = d, OF True d]
  show ?thesis by (rule valid [OF True d r]) simp_all
qed

end
