(* ===== verification/CandidatePool.thy ===== *)
theory CandidatePool
  imports RetrieverBase "HOL-Library.AList"
begin

text \<open>
  The scoring core that src/.../item_cf/retriever_item_cf.cpp and src/.../user_cf/retriever_user_cf.cpp
  each hold a copy of: trigger seeds (or candidate items) from weighted behaviour lists, the pool of
  candidates that accumulates contributions, and its sort. The pool, an \<open>unordered_map\<close> that
  the source iterates, is an association list with distinct keys whose order stands for the
  unspecified iteration order; \<open>SortCandidates_order_free\<close> shows that order is never visible.
\<close>

section \<open>Weighted behaviours to ranked scores\<close>

text \<open>
  The loop of \<open>AppendTriggerSeeds\<close> and of \<open>AppendNeighborCandidateItems\<close>: \<open>rank\<close> counts
  every item, skipped ones included.
\<close>

fun AppendTriggerSeeds ::
  "WeightedItem list \<Rightarrow> float64 \<Rightarrow> nat \<Rightarrow> uint64 set \<Rightarrow> TriggerSeed list \<Rightarrow>
     uint64 set \<times> TriggerSeed list" where
  "AppendTriggerSeeds [] base_score rank seen_triggers trigger_seeds = (seen_triggers, trigger_seeds)"
| "AppendTriggerSeeds (item # items) base_score rank seen_triggers trigger_seeds =
     (let rank = Suc rank in
      if sint (wi_item_id item) \<le> 0
      then AppendTriggerSeeds items base_score rank seen_triggers trigger_seeds
      else if wi_item_id item \<in> seen_triggers
      then AppendTriggerSeeds items base_score rank seen_triggers trigger_seeds
      else
        (let item_weight = (if flt (Fin 0) (wi_weight item) then wi_weight item else Fin 1)
         in AppendTriggerSeeds items base_score rank (insert (wi_item_id item) seen_triggers)
              (trigger_seeds @
               [\<lparr>ts_entity_id = wi_item_id item,
                 ts_score = fdiv (fmul base_score item_weight) (of_nat rank)\<rparr>])))"

fun AppendNeighborCandidateItems ::
  "WeightedItem list \<Rightarrow> float64 \<Rightarrow> nat \<Rightarrow> uint64 set \<Rightarrow> ScoredItem list \<Rightarrow>
     uint64 set \<times> ScoredItem list" where
  "AppendNeighborCandidateItems [] base_score rank seen_candidate_items candidate_items =
     (seen_candidate_items, candidate_items)"
| "AppendNeighborCandidateItems (item # items) base_score rank seen_candidate_items candidate_items =
     (let rank = Suc rank in
      if sint (wi_item_id item) \<le> 0
      then AppendNeighborCandidateItems items base_score rank seen_candidate_items candidate_items
      else if wi_item_id item \<in> seen_candidate_items
      then AppendNeighborCandidateItems items base_score rank seen_candidate_items candidate_items
      else
        (let item_weight = (if flt (Fin 0) (wi_weight item) then wi_weight item else Fin 1)
         in AppendNeighborCandidateItems items base_score rank
              (insert (wi_item_id item) seen_candidate_items)
              (candidate_items @
               [\<lparr>si_item_id = wi_item_id item,
                 si_score = fdiv (fmul base_score item_weight) (of_nat rank)\<rparr>])))"

text \<open>The literals 1.0, 0.7, 0.5 and 0.3 of the behaviour channels, as the doubles they denote.\<close>

definition CollectTriggerSeeds :: "Profile \<Rightarrow> TriggerSeed list" where
  "CollectTriggerSeeds profile =
     (let b = pf_behaviors profile;
          (seen, seeds) = AppendTriggerSeeds (be_recent_liked_items b) (rnd 1) 0 {} [];
          (seen, seeds) = AppendTriggerSeeds (be_liked_items b) (rnd (1 / 2)) 0 seen seeds;
          (seen, seeds) = AppendTriggerSeeds (be_interested_items b) (rnd (3 / 10)) 0 seen seeds
      in seeds)"

definition CollectNeighborCandidateItems :: "UserCfProfile \<Rightarrow> ScoredItem list" where
  "CollectNeighborCandidateItems profile =
     (let (seen, items) = AppendNeighborCandidateItems (ucf_recent_liked_items profile) (rnd 1) 0 {} [];
          (seen, items) = AppendNeighborCandidateItems (ucf_liked_items profile) (rnd (7 / 10)) 0 seen items;
          (seen, items) = AppendNeighborCandidateItems (ucf_interested_items profile) (rnd (3 / 10)) 0 seen items
      in items)"

text \<open>
  What both loops compute: the first occurrences of the positive ids not yet seen, each with the
  score of its position.
\<close>

fun ranked_items ::
  "float64 \<Rightarrow> nat \<Rightarrow> uint64 set \<Rightarrow> WeightedItem list \<Rightarrow> (uint64 \<times> float64) list" where
  "ranked_items base rank seen [] = []"
| "ranked_items base rank seen (item # items) =
     (if 0 < sint (wi_item_id item) \<and> wi_item_id item \<notin> seen
      then (wi_item_id item,
            fdiv (fmul base (if flt (Fin 0) (wi_weight item) then wi_weight item else Fin 1))
              (of_nat (Suc rank)))
           # ranked_items base (Suc rank) (insert (wi_item_id item) seen) items
      else ranked_items base (Suc rank) seen items)"

lemma AppendTriggerSeeds_eq:
  "AppendTriggerSeeds items base rank seen seeds =
     (seen \<union> fst ` set (ranked_items base rank seen items),
      seeds @ map (\<lambda>(i, s). \<lparr>ts_entity_id = i, ts_score = s\<rparr>) (ranked_items base rank seen items))"
  by (induction items base rank seen seeds rule: AppendTriggerSeeds.induct) (simp_all add: Let_def)

lemma AppendNeighborCandidateItems_eq:
  "AppendNeighborCandidateItems items base rank seen xs =
     (seen \<union> fst ` set (ranked_items base rank seen items),
      xs @ map (\<lambda>(i, s). \<lparr>si_item_id = i, si_score = s\<rparr>) (ranked_items base rank seen items))"
  by (induction items base rank seen xs rule: AppendNeighborCandidateItems.induct)
    (simp_all add: Let_def)

definition channel_items ::
  "float64 \<Rightarrow> float64 \<Rightarrow> float64 \<Rightarrow> WeightedItem list \<Rightarrow> WeightedItem list \<Rightarrow> WeightedItem list \<Rightarrow>
     (uint64 \<times> float64) list" where
  "channel_items b1 b2 b3 xs ys zs =
     (let r1 = ranked_items b1 0 {} xs;
          r2 = ranked_items b2 0 (fst ` set r1) ys;
          r3 = ranked_items b3 0 (fst ` set r1 \<union> fst ` set r2) zs
      in r1 @ r2 @ r3)"

lemma CollectTriggerSeeds_eq:
  "CollectTriggerSeeds profile =
     map (\<lambda>(i, s). \<lparr>ts_entity_id = i, ts_score = s\<rparr>)
       (channel_items (rnd 1) (rnd (1 / 2)) (rnd (3 / 10))
          (be_recent_liked_items (pf_behaviors profile)) (be_liked_items (pf_behaviors profile))
          (be_interested_items (pf_behaviors profile)))"
  by (simp add: CollectTriggerSeeds_def channel_items_def AppendTriggerSeeds_eq Let_def)

lemma CollectNeighborCandidateItems_eq:
  "CollectNeighborCandidateItems profile =
     map (\<lambda>(i, s). \<lparr>si_item_id = i, si_score = s\<rparr>)
       (channel_items (rnd 1) (rnd (7 / 10)) (rnd (3 / 10))
          (ucf_recent_liked_items profile) (ucf_liked_items profile) (ucf_interested_items profile))"
  by (simp add: CollectNeighborCandidateItems_def channel_items_def AppendNeighborCandidateItems_eq
      Let_def)

lemma ranked_items_props:
  "distinct (map fst (ranked_items b r seen items)) \<and>
   fst ` set (ranked_items b r seen items) = {i \<in> wi_item_id ` set items. 0 < sint i} - seen"
  by (induction b r seen items rule: ranked_items.induct) auto

lemma channel_items_ids:
  "distinct (map fst (channel_items b1 b2 b3 xs ys zs))"
  "fst ` set (channel_items b1 b2 b3 xs ys zs) =
     {i \<in> wi_item_id ` (set xs \<union> set ys \<union> set zs). 0 < sint i}"
  using ranked_items_props [of b1 0 "{}" xs]
    ranked_items_props [of b2 0 "fst ` set (ranked_items b1 0 {} xs)" ys]
    ranked_items_props [of b3 0 "fst ` set (ranked_items b1 0 {} xs) \<union>
      fst ` set (ranked_items b2 0 (fst ` set (ranked_items b1 0 {} xs)) ys)" zs]
  by (simp_all add: channel_items_def Let_def image_Un) auto

lemma fdiv_nonneg [float_facts]: "Fin 0 \<le> x \<Longrightarrow> 0 < d \<Longrightarrow> Fin 0 \<le> fdiv x d"
  by (cases x) (auto intro: rnd_nonneg)

lemma fmul_nonneg_weight: "Fin 0 < b \<Longrightarrow> Fin 0 \<le> fmul b (if flt (Fin 0) w then w else Fin 1)"
  by (auto simp: flt_less intro: fmul_nonneg)

lemma ranked_items_nonneg:
  "Fin 0 < b \<Longrightarrow> (i, s) \<in> set (ranked_items b r seen items) \<Longrightarrow> Fin 0 \<le> s"
  by (induction b r seen items rule: ranked_items.induct)
    (auto split: if_splits intro!: fdiv_nonneg fmul_nonneg simp: flt_less)

lemma channel_items_nonneg:
  "\<lbrakk>Fin 0 < b1; Fin 0 < b2; Fin 0 < b3; (i, s) \<in> set (channel_items b1 b2 b3 xs ys zs)\<rbrakk> \<Longrightarrow> Fin 0 \<le> s"
  by (auto simp: channel_items_def Let_def dest: ranked_items_nonneg)

lemma channel_bases_pos [simp]: "Fin 0 < rnd 1" "Fin 0 < rnd (1 / 2)" "Fin 0 < rnd (7 / 10)"
  "Fin 0 < rnd (3 / 10)"
  by (simp_all add: float_eval)

section \<open>Sorting by score\<close>

text \<open>
  The comparators of the source: a higher score first, and among equal scores the smaller id. On
  scores that are not NaN they are strict weak orders, total on elements with different ids.
\<close>

definition score_before ::
  "('a \<Rightarrow> float64) \<Rightarrow> ('a \<Rightarrow> uint64) \<Rightarrow> 'a \<Rightarrow> 'a \<Rightarrow> bool" where
  "score_before score ident lhs rhs =
     (if \<not> feq (score lhs) (score rhs) then flt (score rhs) (score lhs)
      else ident lhs < ident rhs)"

lemma score_keyed_order:
  fixes score :: "'a \<Rightarrow> float64" and ident :: "'a \<Rightarrow> uint64"
  shows "keyed_order (score_before score ident) {x. score x \<noteq> NaN} ident"
proof
  fix x y z :: 'a
  assume x: "x \<in> {x. score x \<noteq> NaN}"
  show "\<not> score_before score ident x x"
    using x by (simp add: score_before_def feq_eq)
  assume y: "y \<in> {x. score x \<noteq> NaN}"
  show "score_before score ident x y \<or> score_before score ident y x" if "ident x \<noteq> ident y"
    using x y that by (auto simp: score_before_def feq_eq flt_less)
  assume z: "z \<in> {x. score x \<noteq> NaN}"
  show "score_before score ident x z" if "score_before score ident x y" "score_before score ident y z"
    using x y z that by (auto simp: score_before_def feq_eq flt_less split: if_splits)
  show "\<not> score_before score ident z x"
    if "\<not> score_before score ident y x" "\<not> score_before score ident z y"
    using x y z that by (auto simp: score_before_def feq_eq flt_less split: if_splits)
qed

section \<open>The candidate pool\<close>

record ItemNeighbor =
  in_item_id :: uint64
  in_score :: float64

type_synonym candidate_pool = "(uint64 \<times> CandidateScore) list"

text \<open>\<open>try_emplace\<close>: the element of the key, a default one when there is none, and whether it
  was inserted.\<close>

definition try_emplace :: "candidate_pool \<Rightarrow> uint64 \<Rightarrow> CandidateScore \<times> bool" where
  "try_emplace candidates key =
     (case map_of candidates key of
        None \<Rightarrow> (CandidateScore_default, True)
      | Some c \<Rightarrow> (c, False))"

definition ItemCf_AddCandidateContribution ::
  "TriggerSeed \<Rightarrow> ItemNeighbor \<Rightarrow> candidate_pool \<Rightarrow> candidate_pool" where
  "ItemCf_AddCandidateContribution trigger_seed neighbor candidates =
     (if in_item_id neighbor = 0 \<or> fle (in_score neighbor) (Fin 0) then candidates
      else
        (let contribution = fmul (ts_score trigger_seed) (in_score neighbor)
         in if fle contribution (Fin 0) then candidates
            else
              (let (candidate, inserted) = try_emplace candidates (in_item_id neighbor);
                   candidate =
                     (if inserted then candidate\<lparr>cs_item_id := in_item_id neighbor\<rparr> else candidate);
                   candidate = candidate\<lparr>cs_score := fadd (cs_score candidate) contribution\<rparr>;
                   candidate =
                     (if inserted \<or> flt (cs_reason_score candidate) contribution
                      then candidate\<lparr>cs_trigger_entity_id := ts_entity_id trigger_seed,
                                     cs_trigger_score := ts_score trigger_seed,
                                     cs_source_score := in_score neighbor,
                                     cs_reason_score := contribution\<rparr>
                      else candidate)
               in AList.update (in_item_id neighbor) candidate candidates)))"

definition UserCf_AddCandidateContribution ::
  "TriggerSeed \<Rightarrow> ScoredItem \<Rightarrow> candidate_pool \<Rightarrow> candidate_pool" where
  "UserCf_AddCandidateContribution trigger_seed neighbor_item candidates =
     (if si_item_id neighbor_item = 0 \<or> fle (si_score neighbor_item) (Fin 0) then candidates
      else
        (let contribution = fmul (ts_score trigger_seed) (si_score neighbor_item)
         in if fle contribution (Fin 0) then candidates
            else
              (let (candidate, inserted) = try_emplace candidates (si_item_id neighbor_item);
                   candidate =
                     (if inserted then candidate\<lparr>cs_item_id := si_item_id neighbor_item\<rparr> else candidate);
                   candidate = candidate\<lparr>cs_score := fadd (cs_score candidate) contribution\<rparr>;
                   candidate =
                     (if inserted \<or> flt (cs_reason_score candidate) contribution
                      then candidate\<lparr>cs_trigger_entity_id := ts_entity_id trigger_seed,
                                     cs_trigger_score := ts_score trigger_seed,
                                     cs_source_score := si_score neighbor_item,
                                     cs_reason_score := contribution\<rparr>
                      else candidate)
               in AList.update (si_item_id neighbor_item) candidate candidates)))"

text \<open>The two copies are the same function of the id and the score.\<close>

lemma UserCf_AddCandidateContribution_eq:
  "UserCf_AddCandidateContribution seed x =
     ItemCf_AddCandidateContribution seed \<lparr>in_item_id = si_item_id x, in_score = si_score x\<rparr>"
  by (rule ext) (simp add: UserCf_AddCandidateContribution_def ItemCf_AddCandidateContribution_def Let_def case_prod_beta)

definition candidate_higher_first :: "CandidateScore \<Rightarrow> CandidateScore \<Rightarrow> bool" where
  "candidate_higher_first lhs rhs =
     (if \<not> feq (cs_score lhs) (cs_score rhs) then flt (cs_score rhs) (cs_score lhs)
      else cs_item_id lhs < cs_item_id rhs)"

interpretation cand: keyed_order candidate_higher_first "{c. cs_score c \<noteq> NaN}" cs_item_id
proof -
  have "candidate_higher_first = score_before cs_score cs_item_id"
    by (intro ext) (simp add: candidate_higher_first_def score_before_def)
  then show "keyed_order candidate_higher_first {c. cs_score c \<noteq> NaN} cs_item_id"
    using score_keyed_order [of "cs_score :: CandidateScore \<Rightarrow> float64" cs_item_id] by (simp only:)
qed

definition SortCandidates :: "candidate_pool \<Rightarrow> CandidateScore list" where
  "SortCandidates candidates = sort_by candidate_higher_first (map snd candidates)"

section \<open>What the pool holds\<close>

text \<open>
  An edge is a seed and a neighbour; it counts if the neighbour has an id and a score that are not
  to be skipped. The specification of the pool: for each id, the sum of the contributions of the
  edges to it, in their order, and as reason the first of the strongest ones.
\<close>

type_synonym edge = "TriggerSeed \<times> ItemNeighbor"

fun contribution :: "edge \<Rightarrow> float64" where
  "contribution (seed, n) = fmul (ts_score seed) (in_score n)"

fun edge_counts :: "edge \<Rightarrow> bool" where
  "edge_counts (seed, n) \<longleftrightarrow> in_item_id n \<noteq> 0 \<and> \<not> fle (in_score n) (Fin 0) \<and>
     \<not> fle (contribution (seed, n)) (Fin 0)"

fun add_edge :: "candidate_pool \<Rightarrow> edge \<Rightarrow> candidate_pool" where
  "add_edge p (seed, n) = ItemCf_AddCandidateContribution seed n p"

definition edges_to :: "uint64 \<Rightarrow> edge list \<Rightarrow> edge list" where
  "edges_to i es = filter (\<lambda>e. edge_counts e \<and> in_item_id (snd e) = i) es"

definition strongest :: "edge \<Rightarrow> edge list \<Rightarrow> edge" where
  "strongest e es = foldl (\<lambda>b e. if flt (contribution b) (contribution e) then e else b) e es"

definition pool_entry :: "uint64 \<Rightarrow> edge list \<Rightarrow> CandidateScore option" where
  "pool_entry i es =
     (case es of
        [] \<Rightarrow> None
      | e # es' \<Rightarrow>
          let b = strongest e es' in
          Some \<lparr>cs_item_id = i,
                cs_score = foldl fadd (Fin 0) (map contribution es),
                cs_trigger_entity_id = ts_entity_id (fst b), cs_trigger_score = ts_score (fst b),
                cs_source_score = in_score (snd b), cs_reason_score = contribution b\<rparr>)"

lemma edges_to_simps [simp]:
  "edges_to i [] = []"
  "edges_to i (es @ [e]) = edges_to i es @ (if edge_counts e \<and> in_item_id (snd e) = i then [e] else [])"
  by (simp_all add: edges_to_def)

lemma pool_entry_snoc:
  "pool_entry i (es @ [e]) = Some
     (let (c, fresh) = (case pool_entry i es of None \<Rightarrow> (CandidateScore_default\<lparr>cs_item_id := i\<rparr>, True)
                        | Some c \<Rightarrow> (c, False));
          c = c\<lparr>cs_score := fadd (cs_score c) (contribution e)\<rparr>
      in if fresh \<or> flt (cs_reason_score c) (contribution e)
         then c\<lparr>cs_trigger_entity_id := ts_entity_id (fst e), cs_trigger_score := ts_score (fst e),
                cs_source_score := in_score (snd e), cs_reason_score := contribution e\<rparr>
         else c)"
  by (cases es) (simp_all add: pool_entry_def strongest_def CandidateScore_default_def Let_def)

lemma pool_spec: "map_of (foldl add_edge [] es) i = pool_entry i (edges_to i es)"
proof (induction es arbitrary: i rule: rev_induct)
  case Nil
  then show ?case by (simp add: pool_entry_def)
next
  case (snoc e es)
  obtain seed n where e: "e = (seed, n)" by (cases e)
  define p where "p = foldl add_edge [] es"
  define k where "k = in_item_id n"
  show ?case
  proof (cases "edge_counts e")
    case False
    then have "add_edge p e = p"
      by (auto simp: e ItemCf_AddCandidateContribution_def Let_def)
    then show ?thesis using snoc False by (simp add: p_def)
  next
    case True
    have IH: "map_of p j = pool_entry j (edges_to j es)" for j using snoc by (simp add: p_def)
    have "add_edge p e = AList.update k (the (pool_entry k (edges_to k es @ [e]))) p"
      using True IH [of k]
      by (auto simp: e k_def ItemCf_AddCandidateContribution_def pool_entry_snoc try_emplace_def Let_def
          split: option.splits)
    then have "map_of (add_edge p e) i =
        (if i = k then Some (the (pool_entry k (edges_to k es @ [e]))) else map_of p i)"
      by (simp only: update_conv' fun_upd_apply)
    also have "\<dots> = pool_entry i (edges_to i (es @ [e]))"
      using True IH [of i] by (auto simp: e k_def pool_entry_snoc)
    finally show ?thesis by (simp add: p_def)
  qed
qed

text \<open>Keys of the pool: distinct, not 0, each the id of its own entry.\<close>

definition pool_keyed :: "candidate_pool \<Rightarrow> bool" where
  "pool_keyed p \<longleftrightarrow> distinct (map fst p) \<and> (\<forall>(i, c) \<in> set p. cs_item_id c = i)"

lemma pool_keyed_empty [simp]: "pool_keyed []"
  by (simp add: pool_keyed_def)

lemma pool_keyed_ids: "pool_keyed p \<Longrightarrow> map cs_item_id (map snd p) = map fst p"
  by (auto simp: pool_keyed_def)

lemma set_update_subset: "set (AList.update k v p) \<subseteq> insert (k, v) (set p)"
  by (induction p) auto

lemma pool_keyed_update:
  "pool_keyed p \<Longrightarrow> cs_item_id c = k \<Longrightarrow> pool_keyed (AList.update k c p)"
  using set_update_subset [of k c p] unfolding pool_keyed_def
  by (fastforce intro: distinct_update)

lemma pool_keyed_lookup: "pool_keyed p \<Longrightarrow> map_of p k = Some c \<Longrightarrow> cs_item_id c = k"
  by (auto simp: pool_keyed_def dest: map_of_SomeD)

lemma pool_keyed_add [intro]:
  assumes "pool_keyed p"
  shows "pool_keyed (ItemCf_AddCandidateContribution seed n p)"
proof -
  define k where "k = in_item_id n"
  obtain c f where t: "try_emplace p k = (c, f)" by fastforce
  have id: "cs_item_id c = k" if "\<not> f"
    using that t pool_keyed_lookup [OF assms, of k]
    by (simp add: try_emplace_def split: option.splits)
  show ?thesis
    unfolding ItemCf_AddCandidateContribution_def k_def [symmetric] t Let_def prod.case
    using assms id by (cases f) (simp_all add: pool_keyed_update)
qed

lemma pool_keyed_run: "pool_keyed p \<Longrightarrow> pool_keyed (foldl add_edge p es)"
proof (induction es arbitrary: p)
  case (Cons e es)
  then show ?case by (cases e) auto
qed simp

lemma map_of_pool: "pool_keyed p \<Longrightarrow> c \<in> snd ` set p \<longleftrightarrow> map_of p (cs_item_id c) = Some c"
  by (force simp: pool_keyed_def dest: map_of_SomeD)

lemma inj_on_pool: "pool_keyed p \<Longrightarrow> inj_on cs_item_id (snd ` set p)"
proof (rule inj_onI)
  fix c d
  assume p: "pool_keyed p" "c \<in> snd ` set p" "d \<in> snd ` set p" "cs_item_id c = cs_item_id d"
  have c: "map_of p (cs_item_id c) = Some c" by (rule iffD1 [OF map_of_pool [OF p(1)] p(2)])
  have d: "map_of p (cs_item_id d) = Some d" by (rule iffD1 [OF map_of_pool [OF p(1)] p(3)])
  have "Some c = Some d" by (rule trans [OF c [unfolded p(4), symmetric] d])
  then show "c = d" by (rule option.inject [THEN iffD1])
qed

section \<open>The sorted candidates\<close>

lemma mset_SortCandidates: "mset (SortCandidates p) = mset (map snd p)"
  by (simp add: SortCandidates_def sort_facts)

lemma set_SortCandidates: "set (SortCandidates p) = snd ` set p"
  by (simp add: SortCandidates_def sort_facts)

lemma distinct_SortCandidates:
  "pool_keyed p \<Longrightarrow> distinct (map cs_item_id (SortCandidates p))"
  by (simp add: SortCandidates_def sort_facts pool_keyed_ids del: map_map) (simp add: pool_keyed_def)

lemma sorted_SortCandidates:
  assumes "pool_keyed p" "\<And>c. c \<in> snd ` set p \<Longrightarrow> cs_score c \<noteq> NaN"
  shows "sorted_wrt candidate_higher_first (SortCandidates p)"
  unfolding SortCandidates_def
  using assms pool_keyed_ids [OF assms(1)]
  by (intro cand.sort_by_strictly_sorted) (auto simp: pool_keyed_def simp del: map_map)

lemma mset_pool:
  assumes "pool_keyed p" "pool_keyed q" "map_of p = map_of q"
  shows "mset (map snd p) = mset (map snd q)"
proof -
  have "snd ` set p = snd ` set q"
    using map_of_pool [OF assms(1)] map_of_pool [OF assms(2)] assms(3) by (metis set_eqI)
  moreover have "distinct (map snd r)" if "pool_keyed r" for r
    using that pool_keyed_ids [OF that]
    by (metis distinct_map pool_keyed_def)
  ultimately show ?thesis using assms(1,2) by (metis set_eq_iff_mset_eq_distinct set_map)
qed

text \<open>The iteration order of the hash map is not observable.\<close>

lemma SortCandidates_order_free:
  assumes "pool_keyed p" "pool_keyed q" "map_of p = map_of q"
    "\<And>c. c \<in> snd ` set p \<Longrightarrow> cs_score c \<noteq> NaN"
  shows "SortCandidates p = SortCandidates q"
  unfolding SortCandidates_def
  using assms inj_on_pool [OF assms(1)] mset_pool [OF assms(1-3)]
  by (intro cand.sort_by_perm) auto

section \<open>Scores of the pool\<close>

lemma contribution_pos:
  "Fin 0 \<le> ts_score seed \<Longrightarrow> isfinite (in_score n) \<Longrightarrow> edge_counts (seed, n) \<Longrightarrow>
    Fin 0 < contribution (seed, n)"
  by (cases "ts_score seed"; cases "in_score n") (auto simp: fle_le not_le signed_inf_def)

lemma sum_bounds:
  assumes "\<forall>e \<in> set es. Fin 0 < contribution e" "Fin 0 \<le> a" "representable a"
  shows "a \<le> foldl fadd a (map contribution es)"
  using assms
proof (induction es arbitrary: a)
  case (Cons e es)
  have le: "a \<le> fadd a (contribution e)"
    using Cons.prems by (intro fadd_pos) auto
  also have "\<dots> \<le> foldl fadd (fadd a (contribution e)) (map contribution es)"
    using Cons le by (intro Cons.IH) auto
  finally show ?case by simp
qed simp

lemma fadd_commute: "fadd x y = fadd y x"
  by (cases x; cases y) (simp_all add: add.commute)

lemma representable_0 [simp]: "representable (Fin 0)"
  using representable_rnd [of 0] by simp

lemma foldl_strongest:
  assumes "\<forall>x \<in> set (e # es). Fin 0 < contribution x"
  shows "strongest e es \<in> set (e # es) \<and> (\<forall>x \<in> set (e # es). contribution x \<le> contribution (strongest e es))"
  using assms
proof (induction es rule: rev_induct)
  case (snoc x es)
  then show ?case by (auto simp: strongest_def flt_less)
qed (simp add: strongest_def)

lemma in_edges_to: "e \<in> set (edges_to i es) \<longleftrightarrow> e \<in> set es \<and> edge_counts e \<and> in_item_id (snd e) = i"
  by (simp add: edges_to_def)

lemma representable_contribution [simp]: "representable (contribution e)"
  by (cases e) simp

text \<open>
  A pool built from seeds of \<open>T\<close> and neighbours of \<open>N\<close> whose ids are not in \<open>F\<close>: what
  both retrievers maintain while they aggregate.
\<close>

definition pool_from ::
  "TriggerSeed set \<Rightarrow> ItemNeighbor set \<Rightarrow> uint64 set \<Rightarrow> candidate_pool \<Rightarrow> bool" where
  "pool_from T N F p \<longleftrightarrow>
     (\<exists>es. p = foldl add_edge [] es \<and>
        (\<forall>e \<in> set es. fst e \<in> T \<and> snd e \<in> N \<and> in_item_id (snd e) \<notin> F))"

text \<open>The edges that count contribute a positive number, never NaN.\<close>

definition positive_edges :: "TriggerSeed set \<Rightarrow> ItemNeighbor set \<Rightarrow> bool" where
  "positive_edges T N \<longleftrightarrow>
     (\<forall>s \<in> T. \<forall>n \<in> N. edge_counts (s, n) \<longrightarrow> Fin 0 < contribution (s, n))"

lemma positive_edges_finite_neighbors:
  "\<forall>s \<in> T. Fin 0 \<le> ts_score s \<Longrightarrow> \<forall>n \<in> N. isfinite (in_score n) \<Longrightarrow> positive_edges T N"
  using contribution_pos by (auto simp: positive_edges_def)

lemma positive_edges_finite_seeds:
  assumes "\<forall>s \<in> T. isfinite (ts_score s) \<and> Fin 0 < ts_score s" "\<forall>n \<in> N. Fin 0 \<le> in_score n"
  shows "positive_edges T N"
  unfolding positive_edges_def
proof (intro ballI impI)
  fix s n
  assume "s \<in> T" "n \<in> N" "edge_counts (s, n)"
  moreover have "isfinite (ts_score s)" "Fin 0 < ts_score s" "Fin 0 \<le> in_score n"
    using assms calculation by blast+
  ultimately show "Fin 0 < contribution (s, n)"
    by (cases "ts_score s"; cases "in_score n") (auto simp: fle_le not_le signed_inf_def)
qed

lemma pool_from_empty [simp]: "pool_from T N F []"
  unfolding pool_from_def by (rule exI [of _ "[]"]) simp

lemma pool_from_add:
  assumes "pool_from T N F p" "seed \<in> T" "n \<in> N" "in_item_id n \<notin> F"
  shows "pool_from T N F (ItemCf_AddCandidateContribution seed n p)"
proof -
  obtain es where "p = foldl add_edge [] es"
    "\<forall>e \<in> set es. fst e \<in> T \<and> snd e \<in> N \<and> in_item_id (snd e) \<notin> F"
    using assms(1) by (auto simp: pool_from_def)
  then show ?thesis
    using assms(2-) unfolding pool_from_def by (intro exI [of _ "es @ [(seed, n)]"]) auto
qed

lemma pool_from_keyed: "pool_from T N F p \<Longrightarrow> pool_keyed p"
  by (auto simp: pool_from_def intro: pool_keyed_run)

lemma pool_entry_props:
  assumes "pool_entry i es = Some c" "\<forall>e \<in> set es. Fin 0 < contribution e"
  shows "Fin 0 < cs_score c" "Fin 0 < cs_reason_score c" "cs_reason_score c \<le> cs_score c"
    "\<exists>e \<in> set es. cs_trigger_entity_id c = ts_entity_id (fst e) \<and> cs_trigger_score c = ts_score (fst e) \<and>
       cs_source_score c = in_score (snd e) \<and> cs_reason_score c = contribution e \<and>
       (\<forall>e' \<in> set es. contribution e' \<le> contribution e)"
proof -
  obtain e es' where es: "es = e # es'" using assms(1) by (cases es) (auto simp: pool_entry_def)
  let ?b = "strongest e es'"
  have c: "cs_trigger_entity_id c = ts_entity_id (fst ?b)" "cs_trigger_score c = ts_score (fst ?b)"
    "cs_source_score c = in_score (snd ?b)" "cs_reason_score c = contribution ?b"
    "cs_score c = foldl fadd (Fin 0) (map contribution es)"
    using assms(1) by (auto simp: pool_entry_def es Let_def)
  have b: "?b \<in> set es" "\<forall>x \<in> set es. contribution x \<le> contribution ?b"
    using foldl_strongest [of e es'] assms(2) by (auto simp: es)
  show "Fin 0 < cs_reason_score c" using b(1) assms(2) c(4) by simp
  show "\<exists>e \<in> set es. cs_trigger_entity_id c = ts_entity_id (fst e) \<and> cs_trigger_score c = ts_score (fst e) \<and>
       cs_source_score c = in_score (snd e) \<and> cs_reason_score c = contribution e \<and>
       (\<forall>e' \<in> set es. contribution e' \<le> contribution e)"
    using b c(1-4) by blast
  obtain ys zs where split: "es = ys @ ?b # zs" using b(1) by (meson split_list)
  define y where "y = foldl fadd (Fin 0) (map contribution ys)"
  have pos: "Fin 0 < contribution ?b" using b(1) assms(2) by blast
  have "\<forall>x \<in> set ys. Fin 0 < contribution x" using assms(2) by (subst (asm) split) simp
  then have y: "Fin 0 \<le> y" using sum_bounds [of ys "Fin 0"] unfolding y_def by simp
  have ry: "representable y" unfolding y_def by (induction ys rule: rev_induct) simp_all
  have "contribution ?b \<le> fadd y (contribution ?b)"
    using pos y by (metis fadd_commute fadd_pos order.strict_implies_order representable_contribution)
  also have "\<dots> \<le> foldl fadd (fadd y (contribution ?b)) (map contribution zs)"
    using assms(2) split y ry pos fadd_pos [OF y ry, of "contribution ?b"]
    by (intro sum_bounds) (auto intro: order_trans)
  also have "\<dots> = cs_score c" unfolding c(5) by (subst split) (simp add: y_def)
  finally show le: "cs_reason_score c \<le> cs_score c" using c(4) by simp
  show "Fin 0 < cs_score c" using le c(4) pos by simp
qed

lemma pool_from_entry:
  assumes "pool_from T N F p" "positive_edges T N" "c \<in> snd ` set p"
  shows "cs_item_id c \<noteq> 0" "cs_item_id c \<notin> F" "Fin 0 < cs_score c" "Fin 0 < cs_reason_score c"
    "cs_reason_score c \<le> cs_score c" "cs_trigger_entity_id c \<in> ts_entity_id ` T"
    "cs_item_id c \<in> in_item_id ` N"
proof -
  obtain es where es: "p = foldl add_edge [] es"
    "\<forall>e \<in> set es. fst e \<in> T \<and> snd e \<in> N \<and> in_item_id (snd e) \<notin> F"
    using assms(1) by (auto simp: pool_from_def)
  define i where "i = cs_item_id c"
  have "map_of p i = Some c"
    unfolding i_def by (rule iffD1 [OF map_of_pool [OF pool_from_keyed [OF assms(1)]] assms(3)])
  then have entry: "pool_entry i (edges_to i es) = Some c" by (simp add: es(1) pool_spec)
  have pos: "\<forall>e \<in> set (edges_to i es). Fin 0 < contribution e"
  proof
    fix e
    assume "e \<in> set (edges_to i es)"
    then have "fst e \<in> T" "snd e \<in> N" "edge_counts (fst e, snd e)"
      using es(2) by (auto simp: in_edges_to)
    then have "Fin 0 < contribution (fst e, snd e)"
      using assms(2) unfolding positive_edges_def by blast
    then show "Fin 0 < contribution e" by simp
  qed
  note props = pool_entry_props [OF entry pos]
  from props(1) show "Fin 0 < cs_score c" .
  from props(2) show "Fin 0 < cs_reason_score c" .
  from props(3) show "cs_reason_score c \<le> cs_score c" .
  from props(4) obtain e where e: "e \<in> set (edges_to i es)" "cs_trigger_entity_id c = ts_entity_id (fst e)"
    by blast
  obtain seed n where sn: "e = (seed, n)" by (cases e)
  have 1: "seed \<in> T" "n \<in> N" "in_item_id n \<notin> F" "edge_counts (seed, n)" "in_item_id n = cs_item_id c"
    using e(1) es(2) by (auto simp: in_edges_to i_def sn)
  show "cs_item_id c \<noteq> 0" "cs_item_id c \<notin> F" using 1(3,4) unfolding 1(5) [symmetric] by simp_all
  show "cs_item_id c \<in> in_item_id ` N" using 1(2) unfolding 1(5) [symmetric] by (rule imageI)
  show "cs_trigger_entity_id c \<in> ts_entity_id ` T" using 1(1) e(2) by (simp add: sn)
qed

section \<open>Filling the response\<close>

text \<open>
  The loop of both \<open>FillResponseCandidates\<close>, with the message it builds from one scored
  candidate as an argument: it stops as soon as the response holds the requested count.
\<close>

fun fill_candidates ::
  "(CandidateScore \<Rightarrow> CandidateItem) \<Rightarrow> int \<Rightarrow> CandidateScore list \<Rightarrow> RetrieverResponse \<Rightarrow>
     RetrieverResponse" where
  "fill_candidates mk max_candidate_count [] response = response"
| "fill_candidates mk max_candidate_count (c # cs) response =
     (if max_candidate_count \<le> int (length (rvs_candidates response)) then response
      else fill_candidates mk max_candidate_count cs
             (response\<lparr>rvs_candidates := rvs_candidates response @ [mk c]\<rparr>))"

lemma fill_candidates_eq:
  "fill_candidates mk k cs response =
     response\<lparr>rvs_candidates := rvs_candidates response @
       map mk (take (nat (k - int (length (rvs_candidates response)))) cs)\<rparr>"
proof (induction mk k cs response rule: fill_candidates.induct)
  case (2 mk k c cs response)
  show ?case
  proof (cases "k \<le> int (length (rvs_candidates response))")
    case False
    then have "nat (k - int (length (rvs_candidates response))) =
        Suc (nat (k - int (Suc (length (rvs_candidates response)))))" by simp
    then show ?thesis using 2 False by simp
  qed simp
qed simp

text \<open>What a retriever promises of the candidates it returns.\<close>

definition good_candidates :: "uint64 set \<Rightarrow> CandidateItem list \<Rightarrow> bool" where
  "good_candidates F cs \<longleftrightarrow>
     distinct (map ci_item_id cs) \<and> (\<forall>c \<in> set cs. ci_item_id c \<noteq> 0 \<and> ci_item_id c \<notin> F) \<and>
     sorted_wrt (\<lambda>a b. ci_retrieve_score b \<le> ci_retrieve_score a) cs \<and>
     (\<forall>c \<in> set cs. Fin 0 \<le> ci_retrieve_score c)"

lemma sorted_wrt_take_map:
  "sorted_wrt P xs \<Longrightarrow> (\<And>x y. x \<in> set xs \<Longrightarrow> y \<in> set xs \<Longrightarrow> P x y \<Longrightarrow> Q (f x) (f y)) \<Longrightarrow>
    sorted_wrt Q (map f (take n xs))"
  unfolding sorted_wrt_map
  by (rule sorted_wrt_mono_rel [of _ P]) (auto dest: in_set_takeD intro: sorted_wrt_take)

lemma good_candidates_fill:
  assumes pool: "pool_from T N F p" "positive_edges T N"
    and mult: "Fin 0 < m"
    and mk: "\<And>c. ci_item_id (mk c) = cs_item_id c" "\<And>c. ci_retrieve_score (mk c) = fmul (cs_score c) m"
  shows "good_candidates F (map mk (take k (SortCandidates p)))"
proof -
  have keyed: "pool_keyed p" using pool(1) by (rule pool_from_keyed)
  note entry = pool_from_entry [OF pool]
  have "distinct (map cs_item_id (take k (SortCandidates p)))"
    using distinct_SortCandidates [OF keyed] by (simp add: distinct_take flip: take_map)
  then have 1: "distinct (map ci_item_id (map mk (take k (SortCandidates p))))"
    by (simp add: comp_def mk)
  have "sorted_wrt candidate_higher_first (SortCandidates p)"
    using entry(3) by (intro sorted_SortCandidates [OF keyed]) (auto dest: pos_not_NaN)
  then have 2: "sorted_wrt (\<lambda>a b. ci_retrieve_score b \<le> ci_retrieve_score a)
      (map mk (take k (SortCandidates p)))"
  proof (rule sorted_wrt_take_map)
    fix x y
    assume "x \<in> set (SortCandidates p)" "y \<in> set (SortCandidates p)" "candidate_higher_first x y"
    then have "Fin 0 < cs_score y" "cs_score y \<le> cs_score x"
      using entry(3) by (auto simp: set_SortCandidates candidate_higher_first_def flt_less feq_eq split: if_splits)
    then show "ci_retrieve_score (mk y) \<le> ci_retrieve_score (mk x)"
      by (simp add: mk fmul_mono_left mult)
  qed
  have "\<forall>c \<in> set (map mk (take k (SortCandidates p))).
      ci_item_id c \<noteq> 0 \<and> ci_item_id c \<notin> F \<and> Fin 0 \<le> ci_retrieve_score c"
    using entry(1,2,3) mult
    by (auto simp: mk set_SortCandidates dest!: in_set_takeD intro: fmul_nonneg)
  with 1 2 show ?thesis unfolding good_candidates_def by blast
qed

end
