(* ===== verification/TextDouble.thy ===== *)
theory TextDouble
  imports Binary64
begin

text \<open>
  Text to \<open>double\<close> as the standard library does it: the grammar of \<open>strtod\<close> (decimal, hexadecimal,
  infinities and NaN), \<open>std::stod\<close>, which throws when nothing can be read or the result is out of
  range, and \<open>std::from_chars\<close> for \<open>double\<close>. A number is read as an exact rational and rounded
  once. Used by src/src/utilities/json_parser, redis_client and global_config.
\<close>

section \<open>The grammar\<close>

definition lower_char :: "char \<Rightarrow> char" where
  "lower_char c = (let n = (of_char c :: nat) in if 65 \<le> n \<and> n \<le> 90 then char_of (n + 32) else c)"

definition is_space :: "char \<Rightarrow> bool" where
  "is_space c \<longleftrightarrow> (let n = (of_char c :: nat) in n = 32 \<or> (9 \<le> n \<and> n \<le> 13))"

definition is_hex_digit :: "char \<Rightarrow> bool" where
  "is_hex_digit c \<longleftrightarrow> is_digit c \<or> (let n = (of_char (lower_char c) :: nat) in 97 \<le> n \<and> n \<le> 102)"

definition hex_val :: "char \<Rightarrow> nat" where
  "hex_val c = (if is_digit c then digit_val c else of_char (lower_char c) - 87)"

definition value_in_base :: "nat \<Rightarrow> (char \<Rightarrow> nat) \<Rightarrow> string \<Rightarrow> nat" where
  "value_in_base b v cs = foldl (\<lambda>n c. b * n + v c) 0 cs"

text \<open>An exponent is only taken when it has a digit.\<close>

definition scan_exponent :: "char \<Rightarrow> string \<Rightarrow> int \<times> string" where
  "scan_exponent mark cs =
     (case cs of
        [] \<Rightarrow> (0, cs)
      | c # r \<Rightarrow>
          if lower_char c \<noteq> mark then (0, cs)
          else
            (let neg = (\<exists>r'. r = CHR ''-'' # r');
                 body = (if neg \<or> (\<exists>r'. r = CHR ''+'' # r') then tl r else r);
                 ds = takeWhile is_digit body
             in if ds = [] then (0, cs)
                else ((if neg then - int (digits_val ds) else int (digits_val ds)),
                      dropWhile is_digit body)))"

definition scan_fraction :: "(char \<Rightarrow> bool) \<Rightarrow> string \<Rightarrow> (string \<times> string \<times> string) option" where
  "scan_fraction is_dig cs =
     (let ds = takeWhile is_dig cs; r = dropWhile is_dig cs;
          (fs, r') = (case r of [] \<Rightarrow> ([], r)
                      | c # r1 \<Rightarrow> if c = CHR ''.'' then (takeWhile is_dig r1, dropWhile is_dig r1) else ([], r))
      in if ds = [] \<and> fs = [] then None else Some (ds, fs, r'))"

definition scan_decimal :: "string \<Rightarrow> (rat \<times> string) option" where
  "scan_decimal cs =
     (case scan_fraction is_digit cs of
        None \<Rightarrow> None
      | Some (ds, fs, r) \<Rightarrow>
          (let (e, r') = scan_exponent (CHR ''e'') r
           in Some (of_nat (value_in_base 10 digit_val (ds @ fs)) * 10 powi (e - int (length fs)), r')))"

definition scan_hexadecimal :: "string \<Rightarrow> (rat \<times> string) option" where
  "scan_hexadecimal cs =
     (case scan_fraction is_hex_digit cs of
        None \<Rightarrow> None
      | Some (ds, fs, r) \<Rightarrow>
          (let (e, r') = scan_exponent (CHR ''p'') r
           in Some (of_nat (value_in_base 16 hex_val (ds @ fs)) * 2 powi (e - 4 * int (length fs)), r')))"

definition starts_with_word :: "string \<Rightarrow> string \<Rightarrow> bool" where
  "starts_with_word w cs \<longleftrightarrow> map lower_char (take (length w) cs) = w"

definition is_name_char :: "char \<Rightarrow> bool" where
  "is_name_char c \<longleftrightarrow> is_digit c \<or> c = CHR ''_'' \<or>
     (let n = (of_char (lower_char c) :: nat) in 97 \<le> n \<and> n \<le> 122)"

text \<open>The text of a NaN may go on with characters in parentheses.\<close>

definition skip_nan_payload :: "string \<Rightarrow> string" where
  "skip_nan_payload cs =
     (case cs of
        [] \<Rightarrow> cs
      | c # r \<Rightarrow>
          (let r' = dropWhile is_name_char r
           in if c = CHR ''('' \<and> (\<exists>r''. r' = CHR '')'' # r'') then tl r' else cs))"

text \<open>What follows the sign: the exact value of a number, or a special value.\<close>

definition scan_unsigned :: "bool \<Rightarrow> string \<Rightarrow> ((rat + float64) \<times> string) option" where
  "scan_unsigned hex cs =
     (if starts_with_word ''infinity'' cs then Some (Inr PInf, drop 8 cs)
      else if starts_with_word ''inf'' cs then Some (Inr PInf, drop 3 cs)
      else if starts_with_word ''nan'' cs then Some (Inr NaN, skip_nan_payload (drop 3 cs))
      else if hex \<and> starts_with_word ''0x'' cs \<and> scan_hexadecimal (drop 2 cs) \<noteq> None
      then map_option (\<lambda>(q, r). (Inl q, r)) (scan_hexadecimal (drop 2 cs))
      else map_option (\<lambda>(q, r). (Inl q, r)) (scan_decimal cs))"

text \<open>The number a text gives with its sign in front: of the zeros, \<open>-0\<close> keeps the sign.\<close>

definition signed_number :: "bool \<Rightarrow> rat \<Rightarrow> double" where
  "signed_number neg q =
     (if neg \<and> rnd q = Fin 0 then NegativeZero else Plain (rnd (if neg then - q else q)))"

fun negate :: "float64 \<Rightarrow> float64" where
  "negate NaN = NaN"
| "negate PInf = NInf"
| "negate NInf = PInf"
| "negate (Fin q) = Fin (- q)"

text \<open>Out of range: too large, or nonzero and rounded below the smallest normal number.\<close>

definition out_of_double_range :: "rat \<Rightarrow> bool" where
  "out_of_double_range q \<longleftrightarrow>
     (case rnd q of
        Fin r \<Rightarrow> r \<noteq> q \<and> \<bar>r\<bar> < 1 / 2 ^ 1022
      | _ \<Rightarrow> True)"

section \<open>The library functions\<close>

text \<open>\<open>std::stod\<close>: the value and the number of characters read; \<open>None\<close> when it throws.\<close>

definition stod :: "string \<Rightarrow> (double \<times> nat) option" where
  "stod cs =
     (let body = dropWhile is_space cs;
          neg = (\<exists>r. body = CHR ''-'' # r);
          unsigned_part = (if neg \<or> (\<exists>r. body = CHR ''+'' # r) then tl body else body)
      in case scan_unsigned True unsigned_part of
           None \<Rightarrow> None
         | Some (Inl q, r) \<Rightarrow>
             if out_of_double_range q then None
             else Some (signed_number neg q, length cs - length r)
         | Some (Inr x, r) \<Rightarrow> Some (Plain (if neg then negate x else x), length cs - length r))"

text \<open>\<open>std::from_chars\<close> for \<open>double\<close>: no blanks, no plus sign, no hexadecimal prefix.\<close>

definition from_chars_double :: "string \<Rightarrow> string \<times> errc \<times> double" where
  "from_chars_double cs =
     (let neg = (\<exists>r. cs = CHR ''-'' # r); unsigned_part = (if neg then tl cs else cs)
      in case scan_unsigned False unsigned_part of
           None \<Rightarrow> (cs, InvalidArg, Plain (Fin 0))
         | Some (Inl q, r) \<Rightarrow>
             if out_of_double_range q then (r, ResultOutOfRange, Plain (Fin 0))
             else (r, Ok, signed_number neg q)
         | Some (Inr x, r) \<Rightarrow> (r, Ok, Plain (if neg then negate x else x)))"

lemmas text_double_code [code] =
  scan_exponent_def [unfolded ex_Cons_eq] skip_nan_payload_def [unfolded ex_Cons_eq]
  stod_def [unfolded ex_Cons_eq] from_chars_double_def [unfolded ex_Cons_eq]

lemma stod_representable: "stod cs = Some (x, n) \<Longrightarrow> representable (double_value x)"
proof -
  have number: "representable (double_value (signed_number neg q))" for neg q
    using representable_rnd [of 0] by (simp add: signed_number_def)
  have special: "scan_unsigned True cs' = Some (Inr y, r) \<Longrightarrow> representable y \<and> representable (negate y)" for cs' y r
    by (auto simp: scan_unsigned_def split: if_splits)
  assume "stod cs = Some (x, n)"
  then show ?thesis
    using number special
    by (auto simp: stod_def Let_def split: option.splits sum.splits prod.splits if_splits)
qed

text \<open>Decimal integers read back as themselves.\<close>

lemma value_in_base_10: "value_in_base 10 digit_val cs = digits_val cs"
  by (simp add: value_in_base_def digits_val_def)

lemma scan_decimal_show_nat: "scan_decimal (show_nat n) = Some (of_nat n, [])"
  by (simp add: scan_decimal_def scan_fraction_def scan_exponent_def value_in_base_10 digits_val_show_nat)

end
