(* ===== verification/JsonParser.thy ===== *)
theory JsonParser
  imports Prelude TextDouble
begin

text \<open>
  \<open>JsonParser\<close> of src/src/utilities/json_parser: reading typed values out of
  \<open>google.protobuf.Value\<close>. The parser of JSON text, \<open>JsonStringToMessage\<close> of the protobuf
  library, is an argument. A conversion of a double that the target integer type does not hold is
  undefined behaviour: a reader is an \<open>outcome\<close>, \<open>None\<close> when it is undefined and otherwise a
  value or an exception. \<open>json_reads_are_defined\<close> shows for which single input that happens.
\<close>

section \<open>Outcomes\<close>

type_synonym 'a outcome = "'a throws option"

definition throw :: "string \<Rightarrow> 'a outcome" where
  "throw m = Some (Inl (RuntimeError m))"

definition return :: "'a \<Rightarrow> 'a outcome" where
  "return x = Some (Inr x)"

fun andThen :: "'a outcome \<Rightarrow> ('a \<Rightarrow> 'b outcome) \<Rightarrow> 'b outcome" where
  "andThen None f = None"
| "andThen (Some (Inl e)) f = Some (Inl e)"
| "andThen (Some (Inr x)) f = f x"

lemma andThen_return [simp]: "andThen (return x) f = f x"
  by (simp add: return_def)

lemma andThen_throw [simp]: "andThen (throw m) f = throw m"
  by (simp add: throw_def)

lemma andThen_eq_return: "andThen m f = return y \<longleftrightarrow> (\<exists>x. m = return x \<and> f x = return y)"
proof (cases m)
  case (Some r)
  then show ?thesis by (cases r) (auto simp: return_def)
qed (simp add: return_def)

lemma andThen_None: "andThen m f = None \<longleftrightarrow> m = None \<or> (\<exists>x. m = return x \<and> f x = None)"
proof (cases m)
  case (Some r)
  then show ?thesis by (cases r) (auto simp: return_def)
qed simp

lemma andThen_cong [fundef_cong]:
  "m = m' \<Longrightarrow> (\<And>x. m' = return x \<Longrightarrow> f x = f' x) \<Longrightarrow> andThen m f = andThen m' f'"
proof (cases m')
  case (Some r)
  assume "m = m'" "\<And>x. m' = return x \<Longrightarrow> f x = f' x"
  with Some show ?thesis by (cases r) (auto simp: return_def)
qed simp

text \<open>The loops over a list push one value per element; \<open>i\<close> is the position in the messages.\<close>

fun read_each :: "(nat \<Rightarrow> 'a \<Rightarrow> 'b outcome) \<Rightarrow> nat \<Rightarrow> 'a list \<Rightarrow> 'b list outcome" where
  "read_each f i [] = return []"
| "read_each f i (x # xs) = andThen (f i x) (\<lambda>y. andThen (read_each f (Suc i) xs) (\<lambda>ys. return (y # ys)))"

lemma read_each_defined: "(\<And>j x. x \<in> set xs \<Longrightarrow> f j x \<noteq> None) \<Longrightarrow> read_each f i xs \<noteq> None"
  by (induction xs arbitrary: i) (auto simp: return_def andThen_None)

lemma read_each_return_all:
  "read_each f i xs = return ys \<Longrightarrow> list_all2 (\<lambda>x y. \<exists>j. f j x = return y) xs ys"
  by (induction xs arbitrary: i ys) (auto simp: andThen_eq_return, auto simp: return_def)

section \<open>Values\<close>

datatype Value =
    KindNotSet
  | NullValue
  | NumberValue float64
  | StringValue string
  | BoolValue bool
  | StructValue "(string \<times> Value) list"
  | ListValue "Value list"

type_synonym fields = "(string \<times> Value) list"

text \<open>The status text or the message that \<open>JsonStringToMessage\<close> produces.\<close>

type_synonym 'a json_text = "string \<Rightarrow> string + 'a"

definition ParseObject :: "fields json_text \<Rightarrow> string \<Rightarrow> string \<Rightarrow> fields outcome" where
  "ParseObject to_object json context =
     (case to_object json of
        Inl status \<Rightarrow> throw (context @ '' is not valid JSON object: '' @ status)
      | Inr object \<Rightarrow> return object)"

definition ParseValue :: "Value json_text \<Rightarrow> string \<Rightarrow> string \<Rightarrow> Value outcome" where
  "ParseValue to_value json context =
     (case to_value json of
        Inl status \<Rightarrow> throw (context @ '' is not valid JSON value: '' @ status)
      | Inr value \<Rightarrow> return value)"

definition FindField :: "fields \<Rightarrow> string \<Rightarrow> Value option" where
  "FindField fs field_name = map_of fs field_name"

definition RequiredField :: "fields \<Rightarrow> string \<Rightarrow> string \<Rightarrow> Value outcome" where
  "RequiredField fs field_name context =
     (case FindField fs field_name of
        None \<Rightarrow> throw (context @ '' is missing field '' @ field_name)
      | Some value \<Rightarrow> return value)"

fun IsNull :: "Value \<Rightarrow> bool" where
  "IsNull NullValue \<longleftrightarrow> True"
| "IsNull _ \<longleftrightarrow> False"

section \<open>Readers\<close>

definition ParseUint64String :: "string \<Rightarrow> string \<Rightarrow> uint64 outcome" where
  "ParseUint64String value context =
     (case from_chars_unsigned (2 ^ 64) value of
        (ptr, error, parsed) \<Rightarrow>
          if error \<noteq> Ok \<or> ptr \<noteq> []
          then throw (context @ '' contains invalid uint64: '' @ value)
          else return (of_nat parsed))"

text \<open>\<open>static_cast<double>\<close> of the largest \<open>uint64_t\<close> rounds up to \<open>2 ^ 64\<close>.\<close>

fun ReadUint64Value :: "Value \<Rightarrow> string \<Rightarrow> uint64 outcome" where
  "ReadUint64Value (StringValue s) context = ParseUint64String s context"
| "ReadUint64Value (NumberValue number) context =
     (if \<not> isfinite number \<or> flt number (Fin 0) \<or>
         flt (to_double 18446744073709551615) number \<or> \<not> feq (ffloor number) number
      then throw (context @ '' contains invalid uint64'')
      else map_option (\<lambda>i. Inr (of_int i)) (double_to 0 18446744073709551615 number))"
| "ReadUint64Value _ context = throw (context @ '' must be a number or string'')"

fun ReadInt64Value :: "Value \<Rightarrow> string \<Rightarrow> int64 outcome" where
  "ReadInt64Value (StringValue raw) context =
     (case from_chars_signed (- 9223372036854775808) 9223372036854775807 raw of
        (ptr, error, parsed) \<Rightarrow>
          if error = Ok \<and> ptr = [] then return (of_int parsed)
          else throw (context @ '' contains invalid int64: '' @ raw))"
| "ReadInt64Value (NumberValue number) context =
     (if \<not> isfinite number \<or> flt number (to_double (- 9223372036854775808)) \<or>
         flt (to_double 9223372036854775807) number \<or> \<not> feq (ffloor number) number
      then throw (context @ '' contains invalid int64'')
      else map_option (\<lambda>i. Inr (of_int i)) (double_to (- 9223372036854775808) 9223372036854775807 number))"
| "ReadInt64Value _ context = throw (context @ '' must be a number or string'')"

fun ReadDoubleValue :: "Value \<Rightarrow> string \<Rightarrow> float64 outcome" where
  "ReadDoubleValue (NumberValue number) context =
     (if isfinite number then return number else throw (context @ '' contains invalid double''))"
| "ReadDoubleValue (StringValue s) context =
     (case stod s of
        None \<Rightarrow> throw (context @ '' contains invalid double'')
      | Some (parsed, parsed_size) \<Rightarrow>
          if parsed_size = length s \<and> isfinite (double_value parsed) then return (double_value parsed)
          else throw (context @ '' contains invalid double''))"
| "ReadDoubleValue _ context = throw (context @ '' contains invalid double'')"

fun ReadStringValue :: "Value \<Rightarrow> string \<Rightarrow> string outcome" where
  "ReadStringValue (StringValue s) context = return s"
| "ReadStringValue _ context = throw (context @ '' must be a string'')"

definition dotted :: "string \<Rightarrow> string \<Rightarrow> string" where
  "dotted context field_name = context @ ''.'' @ field_name"

definition ReadRequiredUint64 :: "fields \<Rightarrow> string \<Rightarrow> string \<Rightarrow> uint64 outcome" where
  "ReadRequiredUint64 fs field_name context =
     andThen (RequiredField fs field_name context)
       (\<lambda>value. ReadUint64Value value (dotted context field_name))"

text \<open>An optional field that is absent or null reads as a default.\<close>

definition optional_field :: "fields \<Rightarrow> string \<Rightarrow> 'a \<Rightarrow> (Value \<Rightarrow> 'a outcome) \<Rightarrow> 'a outcome" where
  "optional_field fs field_name d read =
     (case FindField fs field_name of
        None \<Rightarrow> return d
      | Some value \<Rightarrow> if IsNull value then return d else read value)"

definition ReadOptionalString :: "fields \<Rightarrow> string \<Rightarrow> string \<Rightarrow> string outcome" where
  "ReadOptionalString fs field_name context =
     optional_field fs field_name [] (\<lambda>value. ReadStringValue value (dotted context field_name))"

definition ReadOptionalInt :: "fields \<Rightarrow> string \<Rightarrow> string \<Rightarrow> int outcome" where
  "ReadOptionalInt fs field_name context =
     optional_field fs field_name 0 (\<lambda>value.
       andThen (ReadInt64Value value (dotted context field_name)) (\<lambda>parsed.
         if sint parsed < int_min \<or> int_max < sint parsed
         then throw (dotted context field_name @ '' is outside int range'')
         else return (sint parsed)))"

definition ReadOptionalInt64 :: "fields \<Rightarrow> string \<Rightarrow> string \<Rightarrow> int64 outcome" where
  "ReadOptionalInt64 fs field_name context =
     optional_field fs field_name 0 (\<lambda>value. ReadInt64Value value (dotted context field_name))"

definition ReadOptionalDouble :: "fields \<Rightarrow> string \<Rightarrow> string \<Rightarrow> float64 outcome" where
  "ReadOptionalDouble fs field_name context =
     optional_field fs field_name (Fin 0) (\<lambda>value. ReadDoubleValue value (dotted context field_name))"

definition ReadOptionalStruct :: "fields \<Rightarrow> string \<Rightarrow> string \<Rightarrow> fields option outcome" where
  "ReadOptionalStruct fs field_name context =
     optional_field fs field_name None (\<lambda>value.
       case value of
         StructValue s \<Rightarrow> return (Some s)
       | _ \<Rightarrow> throw (dotted context field_name @ '' must be an object''))"

definition indexed :: "string \<Rightarrow> nat \<Rightarrow> string" where
  "indexed context i = context @ ''['' @ show_nat i @ '']''"

definition ReadOptionalStringList :: "fields \<Rightarrow> string \<Rightarrow> string \<Rightarrow> string list outcome" where
  "ReadOptionalStringList fs field_name context =
     optional_field fs field_name [] (\<lambda>value.
       case value of
         ListValue values \<Rightarrow>
           read_each (\<lambda>i v. ReadStringValue v (indexed (dotted context field_name) i)) 0 values
       | _ \<Rightarrow> throw (dotted context field_name @ '' must be an array''))"

section \<open>Theorems\<close>

lemma json_limits:
  "to_double 18446744073709551615 = Fin 18446744073709551616"
  "to_double 9223372036854775807 = Fin 9223372036854775808"
  "to_double (- 9223372036854775808) = Fin (- 9223372036854775808)"
  by (simp_all add: to_double_def float_eval)

lemma integral_rat: "rat_of_int \<lfloor>q\<rfloor> = q \<longleftrightarrow> (\<exists>n. q = of_int n)"
  by (metis floor_of_int)

lemma ReadUint64Value_int:
  "ReadUint64Value (NumberValue (Fin (of_int n))) context =
     (if n < 0 \<or> 18446744073709551616 < n then throw (context @ '' contains invalid uint64'')
      else if n = 18446744073709551616 then None else return (of_int n))"
proof -
  have "(18446744073709551616 :: rat) < of_int n \<longleftrightarrow> 18446744073709551616 < n"
    by (metis of_int_less_iff of_int_numeral)
  moreover have "rat_of_int n < 0 \<longleftrightarrow> n < 0" by simp
  ultimately show ?thesis by (auto simp: json_limits Let_def return_def)
qed

lemma ReadInt64Value_int:
  "ReadInt64Value (NumberValue (Fin (of_int n))) context =
     (if n < - 9223372036854775808 \<or> 9223372036854775808 < n then throw (context @ '' contains invalid int64'')
      else if n = 9223372036854775808 then None else return (of_int n))"
proof -
  have "(9223372036854775808 :: rat) < of_int n \<longleftrightarrow> 9223372036854775808 < n"
    by (metis of_int_less_iff of_int_numeral)
  moreover have "rat_of_int n < - 9223372036854775808 \<longleftrightarrow> n < - 9223372036854775808"
    by (metis of_int_less_iff of_int_neg_numeral)
  ultimately show ?thesis by (auto simp: json_limits Let_def return_def)
qed

lemma ReadUint64Value_other:
  "(\<nexists>n. x = Fin (of_int n)) \<Longrightarrow> ReadUint64Value (NumberValue x) context = throw (context @ '' contains invalid uint64'')"
  by (cases x) (auto simp: integral_rat)

lemma ReadInt64Value_other:
  "(\<nexists>n. x = Fin (of_int n)) \<Longrightarrow> ReadInt64Value (NumberValue x) context = throw (context @ '' contains invalid int64'')"
  by (cases x) (auto simp: integral_rat)

text \<open>
  C16. Reading an integer out of JSON is defined for every value except one: the range check lets
  through the double \<open>2 ^ 64\<close> (\<open>2 ^ 63\<close> for \<open>int64_t\<close>), which is what the limit of the type
  rounds to and which the type does not hold, so that the cast is undefined.
\<close>

theorem json_reads_are_defined:
  "(ReadUint64Value v context = None \<longleftrightarrow> v = NumberValue (Fin (2 ^ 64))) \<and>
   (ReadInt64Value v context = None \<longleftrightarrow> v = NumberValue (Fin (2 ^ 63)))"
proof (cases v)
  case (NumberValue x)
  show ?thesis
  proof (cases "\<exists>n. x = Fin (of_int n)")
    case True
    then obtain n where n: "x = Fin (of_int n)" by blast
    have "(rat_of_int n = 2 ^ 64) = (n = 2 ^ 64)" "(rat_of_int n = 2 ^ 63) = (n = 2 ^ 63)"
      using of_int_eq_iff [of n "2 ^ 64", where 'a = rat] of_int_eq_iff [of n "2 ^ 63", where 'a = rat]
      by simp_all
    then show ?thesis
      unfolding NumberValue n ReadUint64Value_int ReadInt64Value_int by (auto simp: throw_def return_def)
  next
    case False
    then have "x \<noteq> Fin (of_int (2 ^ 64))" "x \<noteq> Fin (of_int (2 ^ 63))" by blast+
    then have "x \<noteq> Fin (2 ^ 64)" "x \<noteq> Fin (2 ^ 63)" by simp_all
    with False show ?thesis
      by (simp add: NumberValue ReadUint64Value_other ReadInt64Value_other throw_def
          del: ReadUint64Value.simps ReadInt64Value.simps)
  qed
next
  case (StringValue s)
  then show ?thesis
    by (auto simp: ParseUint64String_def throw_def return_def split: prod.splits)
qed (simp_all add: throw_def)

text \<open>
  Round trip of identifiers: an id written in decimal, as a string or, when a double holds it,
  as a number, is read back as itself; a number that is not an integer is refused.
\<close>

theorem json_integers_roundtrip:
  "ReadUint64Value (StringValue (show_nat (unat w))) context = return w \<and>
   ReadInt64Value (StringValue (show_int (sint w))) context = return w \<and>
   (\<bar>n\<bar> \<le> 2 ^ 53 \<longrightarrow> ReadInt64Value (NumberValue (to_double n)) context = return (of_int n)) \<and>
   ((\<nexists>n. x = Fin (of_int n)) \<longrightarrow> ReadUint64Value (NumberValue x) context = throw (context @ '' contains invalid uint64''))"
proof -
  have "unat w < 2 ^ 64" using unsigned_less [of w] by simp
  then have 1: "ReadUint64Value (StringValue (show_nat (unat w))) context = return w"
    by (simp add: ParseUint64String_def from_chars_unsigned_show return_def)
  have "- (2 ^ 63) \<le> sint w \<and> sint w < 2 ^ 63"
    using sint_ge [of w] sint_lt [of w] by simp
  then have "from_chars_signed (- 9223372036854775808) 9223372036854775807 (show_int (sint w)) = ([], Ok, sint w)"
    by (intro from_chars_signed_show) simp_all
  then have 2: "ReadInt64Value (StringValue (show_int (sint w))) context = return w" by simp
  have 3: "ReadInt64Value (NumberValue (to_double n)) context = return (of_int n)" if "\<bar>n\<bar> \<le> 2 ^ 53"
    using that unfolding to_double_exact [OF that] ReadInt64Value_int by auto
  show ?thesis using 1 2 3 ReadUint64Value_other by blast
qed

theorem json_integers_roundtrip_witness:
  "ReadInt64Value (NumberValue (Fin (- 7))) ''x'' = return (- 7) \<and>
   ReadUint64Value (NumberValue (Fin (1 / 2))) ''x'' = throw ''x contains invalid uint64''"
proof -
  have 1: "to_double (- 7) = Fin (- 7)" using to_double_exact [of "- 7"] by simp
  have "(1 / 2 :: rat) \<noteq> of_int n" for n
    using integral_rat [of "1 / 2"] by (auto simp: float_eval)
  then have 2: "\<nexists>n. Fin (1 / 2) = Fin (rat_of_int n)" by simp
  show ?thesis
    using json_integers_roundtrip [of 0 "''x''" "- 7" "Fin (1 / 2)"] 1 2
    by (simp del: ReadUint64Value.simps ReadInt64Value.simps)
qed

end
