(* ===== verification/LruCache.thy ===== *)
theory LruCache
  imports Prelude
begin

text \<open>
  \<open>LruCache\<close> of src/src/utilities/lru_cache/lru_cache.h: the linked list \<open>entries_\<close>, most
  recently used first, and the hash index \<open>index_\<close> of iterators into it. A list node has an
  address (a number); an iterator is such an address and stays valid until its node is erased, as
  \<open>std::list\<close> promises. Reading through a dangling iterator is undefined behaviour, the
  outer \<open>None\<close> of \<open>Get\<close> and \<open>Put\<close>; the invariant excludes it. Every member
  function holds \<open>mutex_\<close> for its whole body, so a concurrent history is a sequence of these
  operations. Time is what \<open>Clock::now()\<close> returned. The abstract cache is the association
  list of the entries in recency order, and the operations refine it; the interface a reader of
  the cache relies on is the locale \<open>ttl_cache\<close>.
\<close>

section \<open>State and operations\<close>

record ('k, 'v) Entry =
  entry_key :: 'k
  entry_value :: 'v
  expires_at :: int

record ('k, 'v) LruCache =
  capacity :: nat
  ttl :: int
  entries :: "(nat \<times> ('k, 'v) Entry) list"
  index :: "'k \<rightharpoonup> nat"
  next_node :: nat

definition LruCache_new :: "nat \<Rightarrow> int \<Rightarrow> ('k, 'v) LruCache" where
  "LruCache_new cap d =
     \<lparr>capacity = cap, ttl = d, entries = [], index = Map.empty, next_node = 0\<rparr>"

definition IsExpired :: "('k, 'v) Entry \<Rightarrow> int \<Rightarrow> bool" where
  "IsExpired e now \<longleftrightarrow> expires_at e \<le> now"

definition erase_node :: "nat \<Rightarrow> (nat \<times> 'e) list \<Rightarrow> (nat \<times> 'e) list" where
  "erase_node p es = filter (\<lambda>(q, _). q \<noteq> p) es"

definition Get ::
  "('k, 'v) LruCache \<Rightarrow> 'k \<Rightarrow> int \<Rightarrow> ('v option \<times> ('k, 'v) LruCache) option" where
  "Get c key now =
     (case index c key of
        None \<Rightarrow> Some (None, c)
      | Some p \<Rightarrow>
          (case map_of (entries c) p of
             None \<Rightarrow> None
           | Some e \<Rightarrow>
               if IsExpired e now
               then Some (None, c\<lparr>entries := erase_node p (entries c), index := (index c)(key := None)\<rparr>)
               else Some (Some (entry_value e), c\<lparr>entries := (p, e) # erase_node p (entries c)\<rparr>)))"

function evict :: "('k, 'v) LruCache \<Rightarrow> ('k, 'v) LruCache" where
  "evict c =
     (if capacity c < length (entries c)
      then evict (c\<lparr>index := (index c)(entry_key (snd (last (entries c))) := None),
                     entries := butlast (entries c)\<rparr>)
      else c)"
  by pat_completeness auto
termination
  by (relation "measure (\<lambda>c. length (entries c))") auto

declare evict.simps [simp del]

definition Put ::
  "('k, 'v) LruCache \<Rightarrow> 'k \<Rightarrow> 'v \<Rightarrow> int \<Rightarrow> ('k, 'v) LruCache option" where
  "Put c key v now =
     (if capacity c = 0 \<or> ttl c \<le> 0 then Some c
      else
        (case index c key of
           Some p \<Rightarrow>
             (case map_of (entries c) p of
                None \<Rightarrow> None
              | Some e \<Rightarrow>
                  Some (c\<lparr>entries := (p, e\<lparr>entry_value := v, expires_at := now + ttl c\<rparr>)
                                       # erase_node p (entries c)\<rparr>))
         | None \<Rightarrow>
             let p = next_node c
             in Some (evict (c\<lparr>entries := (p, \<lparr>entry_key = key, entry_value = v,
                                                  expires_at = now + ttl c\<rparr>) # entries c,
                               index := (index c)(key \<mapsto> p),
                               next_node := Suc p\<rparr>))))"

definition cache_size :: "('k, 'v) LruCache \<Rightarrow> nat" where
  "cache_size c = length (entries c)"

section \<open>The invariant\<close>

text \<open>
  Node addresses are distinct and below the allocator, keys are distinct, the index maps exactly
  the cached keys to their nodes, and the size is within the capacity.
\<close>

definition lru_linked :: "('k, 'v) LruCache \<Rightarrow> bool" where
  "lru_linked c \<longleftrightarrow>
     distinct (map fst (entries c)) \<and> (\<forall>p \<in> fst ` set (entries c). p < next_node c) \<and>
     distinct (map (entry_key \<circ> snd) (entries c)) \<and>
     index c = map_of (map (\<lambda>(p, e). (entry_key e, p)) (entries c))"

definition lru_inv :: "('k, 'v) LruCache \<Rightarrow> bool" where
  "lru_inv c \<longleftrightarrow> lru_linked c \<and> length (entries c) \<le> capacity c"

section \<open>The abstract cache\<close>

type_synonym ('k, 'v) recency = "('k \<times> 'v \<times> int) list"

definition lru_abs :: "('k, 'v) LruCache \<Rightarrow> ('k, 'v) recency" where
  "lru_abs c = map (\<lambda>(p, e). (entry_key e, entry_value e, expires_at e)) (entries c)"

definition drop_key :: "'k \<Rightarrow> ('k, 'v) recency \<Rightarrow> ('k, 'v) recency" where
  "drop_key k xs = filter (\<lambda>(k', _). k' \<noteq> k) xs"

definition spec_get ::
  "('k, 'v) recency \<Rightarrow> 'k \<Rightarrow> int \<Rightarrow> 'v option \<times> ('k, 'v) recency" where
  "spec_get xs k now =
     (case map_of xs k of
        None \<Rightarrow> (None, xs)
      | Some (v, e) \<Rightarrow>
          if e \<le> now then (None, drop_key k xs) else (Some v, (k, v, e) # drop_key k xs))"

definition spec_put ::
  "nat \<Rightarrow> int \<Rightarrow> ('k, 'v) recency \<Rightarrow> 'k \<Rightarrow> 'v \<Rightarrow> int \<Rightarrow> ('k, 'v) recency" where
  "spec_put cap d xs k v now =
     (if cap = 0 \<or> d \<le> 0 then xs else take cap ((k, v, now + d) # drop_key k xs))"

section \<open>Linked-list lemmas\<close>

lemma map_of_index:
  assumes "distinct (map fst es)" "distinct (map (entry_key \<circ> snd) es)"
    "map_of (map (\<lambda>(p, e). (entry_key e, p)) es) k = Some p"
  obtains e ys zs where "es = ys @ (p, e) # zs" "entry_key e = k" "map_of es p = Some e"
proof -
  have "(k, p) \<in> set (map (\<lambda>(p, e). (entry_key e, p)) es)" using assms(3) by (rule map_of_SomeD)
  then obtain e where e: "(p, e) \<in> set es" "entry_key e = k" by auto
  then obtain ys zs where "es = ys @ (p, e) # zs" by (meson split_list)
  moreover have "map_of es p = Some e" using e(1) assms(1) by simp
  ultimately show ?thesis using e(2) that by blast
qed

lemma map_of_index_None:
  "map_of (map (\<lambda>(p, e). (entry_key e, p)) es) k = None \<longleftrightarrow> k \<notin> (entry_key \<circ> snd) ` set es"
  by (induction es) auto

lemma filter_absent [simp]: "k \<notin> fst ` set xs \<Longrightarrow> filter (\<lambda>(k', _). k' \<noteq> k) xs = xs"
  by (induction xs) auto

lemma erase_node_split:
  "distinct (map fst (ys @ (p, e) # zs)) \<Longrightarrow> erase_node p (ys @ (p, e) # zs) = ys @ zs"
  by (simp add: erase_node_def)

lemma drop_key_split:
  assumes "k \<notin> fst ` set xs" "k \<notin> fst ` set ys"
  shows "drop_key k (xs @ (k, v) # ys) = xs @ ys"
  using assms by (simp add: drop_key_def)

lemma map_of_index_append:
  assumes "distinct (map (entry_key \<circ> snd) (ys @ (p, e) # zs))"
  shows "map_of (map (\<lambda>(p, e). (entry_key e, p)) (ys @ (p, e) # zs)) =
    (map_of (map (\<lambda>(p, e). (entry_key e, p)) (ys @ zs)))(entry_key e \<mapsto> p)"
proof -
  have "entry_key e \<notin> fst ` set (map (\<lambda>(p, e). (entry_key e, p)) ys)"
    using assms by (force simp: image_image case_prod_beta)
  then show ?thesis by (auto simp: map_add_upd_left dom_map_of_conv_image_fst)
qed

section \<open>Refinement\<close>

text \<open>What an indexed key gives: its node splits both the concrete and the abstract list.\<close>

lemma lru_lookup_Some:
  assumes "lru_linked c" "index c k = Some p"
  obtains e ys zs where "entries c = ys @ (p, e) # zs" "map_of (entries c) p = Some e"
    "entry_key e = k" "erase_node p (entries c) = ys @ zs"
    "map_of (lru_abs c) k = Some (entry_value e, expires_at e)"
    "drop_key k (lru_abs c) = map (\<lambda>(p, e). (entry_key e, entry_value e, expires_at e)) (ys @ zs)"
    "k \<notin> (entry_key \<circ> snd) ` set (ys @ zs)" "p \<notin> fst ` set (ys @ zs)"
proof -
  from assms obtain e ys zs where es: "entries c = ys @ (p, e) # zs" "entry_key e = k"
    "map_of (entries c) p = Some e"
    unfolding lru_linked_def by (metis map_of_index)
  have d: "distinct (map fst (ys @ (p, e) # zs))" "distinct (map (entry_key \<circ> snd) (ys @ (p, e) # zs))"
    using assms(1) es(1) by (simp_all add: lru_linked_def)
  have k: "k \<notin> (entry_key \<circ> snd) ` set ys" "k \<notin> (entry_key \<circ> snd) ` set zs"
    using d(2) es(2) by auto
  let ?f = "\<lambda>(p, e). (entry_key e, entry_value e, expires_at e)"
  have k': "k \<notin> fst ` set (map ?f ys)" "k \<notin> fst ` set (map ?f zs)"
    using k by (force simp: image_image case_prod_beta)+
  have abs: "lru_abs c = map ?f ys @ (k, entry_value e, expires_at e) # map ?f zs"
    by (simp add: lru_abs_def es)
  have "map_of (map ?f ys) k = None" using k'(1) by (simp only: map_of_eq_None_iff) simp
  then have "map_of (lru_abs c) k = Some (entry_value e, expires_at e)"
    by (simp add: abs map_add_def)
  moreover have "drop_key k (lru_abs c) = map ?f (ys @ zs)"
    using drop_key_split [OF k'] by (simp add: abs)
  ultimately show ?thesis
    using that [of ys e zs] es erase_node_split [OF d(1)] d(1) k by auto
qed

lemma lru_lookup_None:
  assumes "lru_linked c" "index c k = None"
  shows "map_of (lru_abs c) k = None" "drop_key k (lru_abs c) = lru_abs c"
    "k \<notin> (entry_key \<circ> snd) ` set (entries c)"
proof -
  show k: "k \<notin> (entry_key \<circ> snd) ` set (entries c)"
    using assms by (simp add: lru_linked_def map_of_index_None)
  then have "k \<notin> fst ` set (lru_abs c)" by (force simp: lru_abs_def image_image case_prod_beta)
  then show "map_of (lru_abs c) k = None" "drop_key k (lru_abs c) = lru_abs c"
    by (simp_all add: map_of_eq_None_iff drop_key_def)
qed

lemma lru_invD:
  assumes "lru_inv c"
  shows "distinct (map fst (entries c))" "distinct (map (entry_key \<circ> snd) (entries c))"
    "\<forall>p \<in> fst ` set (entries c). p < next_node c" "length (entries c) \<le> capacity c"
    "index c = map_of (map (\<lambda>(p, e). (entry_key e, p)) (entries c))"
  using assms unfolding lru_inv_def lru_linked_def by blast+

lemma distinct_map_move: "distinct (map f (ys @ x # zs)) \<Longrightarrow> distinct (map f (x # ys @ zs))"
  by auto

lemma lru_inv_move:
  assumes "lru_inv c" "entries c = ys @ x # zs"
  shows "distinct (map fst (x # ys @ zs))" "distinct (map (entry_key \<circ> snd) (x # ys @ zs))"
    "\<forall>q \<in> fst ` set (x # ys @ zs). q < next_node c" "length (x # ys @ zs) \<le> capacity c"
  using lru_invD(1,2) [OF assms(1)] lru_invD(3,4) [OF assms(1)] unfolding assms(2)
  by (blast intro: distinct_map_move, blast intro: distinct_map_move, simp_all)

lemma lru_invI:
  assumes "distinct (map fst es)" "\<forall>p \<in> fst ` set es. p < next_node c"
    "distinct (map (entry_key \<circ> snd) es)" "length es \<le> capacity c"
    "ix = map_of (map (\<lambda>(p, e). (entry_key e, p)) es)"
  shows "lru_inv (c\<lparr>entries := es, index := ix\<rparr>)"
  using assms by (simp add: lru_inv_def lru_linked_def)

lemma Get_refines:
  assumes "lru_inv c"
  shows "\<exists>r c'. Get c k now = Some (r, c') \<and> lru_inv c' \<and> spec_get (lru_abs c) k now = (r, lru_abs c')
    \<and> capacity c' = capacity c \<and> ttl c' = ttl c"
proof (cases "index c k")
  case None
  with assms show ?thesis
    using lru_lookup_None(1) [of c k] by (simp add: Get_def spec_get_def lru_inv_def)
next
  case (Some p)
  have link: "lru_linked c" using assms by (simp add: lru_inv_def)
  from lru_lookup_Some [OF link Some] obtain e ys zs where
    es: "entries c = ys @ (p, e) # zs" "map_of (entries c) p = Some e" "entry_key e = k"
      "erase_node p (entries c) = ys @ zs"
    and spec: "map_of (lru_abs c) k = Some (entry_value e, expires_at e)"
      "drop_key k (lru_abs c) = map (\<lambda>(p, e). (entry_key e, entry_value e, expires_at e)) (ys @ zs)"
    and fresh: "k \<notin> (entry_key \<circ> snd) ` set (ys @ zs)" "p \<notin> fst ` set (ys @ zs)" .
  have idx: "index c = (map_of (map (\<lambda>(p, e). (entry_key e, p)) (ys @ zs)))(k \<mapsto> p)"
    using link es map_of_index_append [of ys p e zs] by (simp add: lru_linked_def)
  have none: "map_of (map (\<lambda>(p, e). (entry_key e, p)) (ys @ zs)) k = None"
    using fresh(1) by (simp only: map_of_index_None not_False_eq_True)
  note rest = lru_inv_move [OF assms es(1)]
  show ?thesis
  proof (cases "IsExpired e now")
    case True
    define c' where "c' = c\<lparr>entries := ys @ zs, index := (index c)(k := None)\<rparr>"
    have "(index c)(k := None) = map_of (map (\<lambda>(p, e). (entry_key e, p)) (ys @ zs))"
      using none by (simp add: idx fun_upd_idem del: map_append)
    then have "lru_inv c'"
      unfolding c'_def using rest by (intro lru_invI) simp_all
    moreover have "Get c k now = Some (None, c')"
      using True Some es(2,4) by (simp add: Get_def c'_def)
    moreover have "spec_get (lru_abs c) k now = (None, lru_abs c')"
      using True spec by (simp add: spec_get_def IsExpired_def c'_def lru_abs_def)
    ultimately show ?thesis by (auto simp: c'_def)
  next
    case False
    define c' where "c' = c\<lparr>entries := (p, e) # ys @ zs\<rparr>"
    have "lru_inv (c\<lparr>entries := (p, e) # ys @ zs, index := index c\<rparr>)"
      using rest idx es(3) by (intro lru_invI) (simp_all del: map_append)
    then have "lru_inv c'" by (simp add: c'_def)
    moreover have "Get c k now = Some (Some (entry_value e), c')"
      using False Some es(2,4) by (simp add: Get_def c'_def)
    moreover have "spec_get (lru_abs c) k now = (Some (entry_value e), lru_abs c')"
      using False spec es(3) by (simp add: spec_get_def IsExpired_def c'_def lru_abs_def)
    ultimately show ?thesis by (auto simp: c'_def)
  qed
qed

lemma evict_refines:
  assumes "lru_linked c"
  shows "lru_inv (evict c) \<and> lru_abs (evict c) = take (capacity c) (lru_abs c)
    \<and> capacity (evict c) = capacity c \<and> ttl (evict c) = ttl c"
  using assms
proof (induction c rule: evict.induct)
  case (1 c)
  show ?case
  proof (cases "capacity c < length (entries c)")
    case False
    then show ?thesis
      using "1.prems" by (subst (1 2 3 4) evict.simps) (simp add: lru_inv_def lru_abs_def)
  next
    case True
    then obtain es p e where es: "entries c = es @ [(p, e)]"
      by (metis list.size(3) not_less_zero rev_exhaust surj_pair)
    define c' where
      "c' = c\<lparr>index := (index c)(entry_key (snd (last (entries c))) := None), entries := butlast (entries c)\<rparr>"
    have fields: "entries c' = es" "capacity c' = capacity c" "ttl c' = ttl c" "next_node c' = next_node c"
      by (simp_all add: c'_def es)
    have d: "distinct (map fst (es @ [(p, e)]))" "distinct (map (entry_key \<circ> snd) (es @ [(p, e)]))"
      "\<forall>q \<in> fst ` set (es @ [(p, e)]). q < next_node c"
      "index c = map_of (map (\<lambda>(p, e). (entry_key e, p)) (es @ [(p, e)]))"
      using "1.prems" unfolding lru_linked_def es by blast+
    have "map_of (map (\<lambda>(p, e). (entry_key e, p)) es) (entry_key e) = None"
      using d(2) by (subst map_of_index_None) simp
    then have "index c' = map_of (map (\<lambda>(p, e). (entry_key e, p)) es)"
      using map_of_index_append [of es p e "[]"] d(2,4) by (simp add: c'_def es fun_upd_idem)
    then have "lru_linked c'" using d(1,2,3) by (simp add: lru_linked_def fields)
    with True have IH: "lru_inv (evict c')" "lru_abs (evict c') = take (capacity c') (lru_abs c')"
      "capacity (evict c') = capacity c'" "ttl (evict c') = ttl c'"
      using "1.IH" by (simp_all add: c'_def)
    have "lru_abs c' = butlast (lru_abs c)" by (simp add: lru_abs_def fields es)
    then have "take (capacity c) (lru_abs c') = take (capacity c) (lru_abs c)"
      using True by (simp add: take_butlast lru_abs_def)
    moreover have "evict c = evict c'" using True by (subst evict.simps) (simp add: c'_def)
    ultimately show ?thesis using IH fields by simp
  qed
qed

lemma Put_refines:
  assumes "lru_inv c"
  shows "\<exists>c'. Put c k v now = Some c' \<and> lru_inv c' \<and>
    lru_abs c' = spec_put (capacity c) (ttl c) (lru_abs c) k v now \<and> capacity c' = capacity c \<and> ttl c' = ttl c"
proof (cases "capacity c = 0 \<or> ttl c \<le> 0")
  case True
  then show ?thesis using assms by (auto simp: Put_def spec_put_def)
next
  case active: False
  have link: "lru_linked c" using assms by (simp add: lru_inv_def)
  have len: "length (lru_abs c) \<le> capacity c" using assms by (simp add: lru_inv_def lru_abs_def)
  show ?thesis
  proof (cases "index c k")
    case None
    note out = lru_lookup_None [OF link None]
    define c1 where "c1 = c\<lparr>entries := (next_node c, \<lparr>entry_key = k, entry_value = v,
        expires_at = now + ttl c\<rparr>) # entries c, index := (index c)(k \<mapsto> next_node c),
        next_node := Suc (next_node c)\<rparr>"
    have "Put c k v now = Some (evict c1)" using active None by (simp add: Put_def Let_def c1_def)
    moreover have "lru_linked c1"
      using lru_invD [OF assms] out(3) by (auto simp: lru_linked_def c1_def less_Suc_eq)
    moreover have "lru_abs c1 = (k, v, now + ttl c) # lru_abs c" "capacity c1 = capacity c" "ttl c1 = ttl c"
      by (simp_all add: lru_abs_def c1_def)
    ultimately show ?thesis
      using evict_refines [of c1] active out(2) by (auto simp: spec_put_def)
  next
    case (Some p)
    from lru_lookup_Some [OF link Some] obtain e ys zs where
      es: "entries c = ys @ (p, e) # zs" "map_of (entries c) p = Some e" "entry_key e = k"
        "erase_node p (entries c) = ys @ zs"
      and spec: "drop_key k (lru_abs c) =
          map (\<lambda>(p, e). (entry_key e, entry_value e, expires_at e)) (ys @ zs)" .
    have idx: "index c = (map_of (map (\<lambda>(p, e). (entry_key e, p)) (ys @ zs)))(k \<mapsto> p)"
      using link es map_of_index_append [of ys p e zs] by (simp add: lru_linked_def)
    note rest = lru_inv_move [OF assms es(1)]
    let ?e = "e\<lparr>entry_value := v, expires_at := now + ttl c\<rparr>"
    define c1 where "c1 = c\<lparr>entries := (p, ?e) # ys @ zs\<rparr>"
    have "lru_inv (c\<lparr>entries := (p, ?e) # ys @ zs, index := index c\<rparr>)"
      using rest idx es(3) by (intro lru_invI) (simp_all del: map_append)
    then have "lru_inv c1" by (simp add: c1_def)
    moreover have "Put c k v now = Some c1" using active Some es(2,4) by (simp add: Put_def c1_def)
    moreover have "lru_abs c1 = spec_put (capacity c) (ttl c) (lru_abs c) k v now"
      using active rest(4) spec es(3) by (simp add: spec_put_def lru_abs_def c1_def)
    ultimately show ?thesis by (auto simp: c1_def)
  qed
qed

section \<open>Properties\<close>

lemma lru_inv_new [simp]: "lru_inv (LruCache_new cap d)"
  by (simp add: lru_inv_def lru_linked_def LruCache_new_def)

text \<open>A history of the cache: the operations in the order in which they took the mutex.\<close>

datatype ('k, 'v) cache_op = OpGet 'k int | OpPut 'k 'v int

fun op_key :: "('k, 'v) cache_op \<Rightarrow> 'k" where
  "op_key (OpGet k now) = k"
| "op_key (OpPut k v now) = k"

fun cache_step :: "('k, 'v) LruCache \<Rightarrow> ('k, 'v) cache_op \<Rightarrow> ('k, 'v) LruCache option" where
  "cache_step c (OpGet k now) = map_option snd (Get c k now)"
| "cache_step c (OpPut k v now) = Put c k v now"

fun cache_run :: "('k, 'v) LruCache \<Rightarrow> ('k, 'v) cache_op list \<Rightarrow> ('k, 'v) LruCache option" where
  "cache_run c [] = Some c"
| "cache_run c (x # xs) = (case cache_step c x of None \<Rightarrow> None | Some c' \<Rightarrow> cache_run c' xs)"

fun spec_step ::
  "nat \<Rightarrow> int \<Rightarrow> ('k, 'v) recency \<Rightarrow> ('k, 'v) cache_op \<Rightarrow> ('k, 'v) recency" where
  "spec_step cap d xs (OpGet k now) = snd (spec_get xs k now)"
| "spec_step cap d xs (OpPut k v now) = spec_put cap d xs k v now"

lemma cache_step_refines:
  assumes "lru_inv c"
  shows "\<exists>c'. cache_step c x = Some c' \<and> lru_inv c' \<and> capacity c' = capacity c \<and> ttl c' = ttl c
    \<and> lru_abs c' = spec_step (capacity c) (ttl c) (lru_abs c) x"
proof (cases x)
  case (OpGet k now)
  then show ?thesis using Get_refines [OF assms, of k now] by auto
next
  case (OpPut k v now)
  then show ?thesis using Put_refines [OF assms, of k v now] by auto
qed

lemma cache_run_refines:
  assumes "lru_inv c"
  shows "\<exists>c'. cache_run c xs = Some c' \<and> lru_inv c' \<and> capacity c' = capacity c \<and> ttl c' = ttl c
    \<and> lru_abs c' = foldl (spec_step (capacity c) (ttl c)) (lru_abs c) xs"
  using assms
proof (induction xs arbitrary: c)
  case Nil
  then show ?case by simp
next
  case (Cons x xs)
  then obtain c1 where "cache_step c x = Some c1" "lru_inv c1" "capacity c1 = capacity c" "ttl c1 = ttl c"
    "lru_abs c1 = spec_step (capacity c) (ttl c) (lru_abs c) x"
    using cache_step_refines [of c x] by blast
  then show ?case using Cons.IH [of c1] by simp
qed

text \<open>
  C6. Memory safety and refinement of any history: started on an empty cache, no operation ever
  reads through a dangling iterator, the invariant (index and list agree, size within capacity)
  holds at the end, and the list is what the recency-list specification computes.
\<close>

theorem lru_history_refines:
  "\<exists>c. cache_run (LruCache_new cap d) xs = Some c \<and> lru_inv c \<and> cache_size c \<le> cap \<and>
     lru_abs c = foldl (spec_step cap d) [] xs"
proof -
  obtain c where "cache_run (LruCache_new cap d) xs = Some c" "lru_inv c" "capacity c = cap"
    "lru_abs c = foldl (spec_step cap d) [] xs"
    using cache_run_refines [OF lru_inv_new, of cap d xs]
    by (auto simp: LruCache_new_def lru_abs_def)
  then show ?thesis by (auto simp: cache_size_def lru_inv_def)
qed

text \<open>The most recently used keys stay: a key can only be pushed back by other keys.\<close>

definition recent_at :: "nat \<Rightarrow> 'k set \<Rightarrow> 'k \<Rightarrow> 'v \<Rightarrow> int \<Rightarrow> ('k, 'v) recency \<Rightarrow> bool" where
  "recent_at cap K k v e xs \<longleftrightarrow>
     (\<exists>ys zs. xs = ys @ (k, v, e) # zs \<and> fst ` set ys \<subseteq> K \<and> k \<notin> K \<and> distinct (map fst xs) \<and>
        length xs \<le> cap)"

lemma distinct_drop_key: "distinct (map fst xs) \<Longrightarrow> distinct (map fst (drop_key k xs))"
  unfolding drop_key_def by (induction xs) auto

lemma drop_key_absent: "k \<notin> fst ` set (drop_key k xs)"
  unfolding drop_key_def by auto

lemma drop_key_append_other:
  "k' \<noteq> k \<Longrightarrow> drop_key k' (ys @ (k, v, e) # zs) = drop_key k' ys @ (k, v, e) # drop_key k' zs"
  by (simp add: drop_key_def)

lemma fst_drop_key: "fst ` set (drop_key k xs) \<subseteq> fst ` set xs"
  unfolding drop_key_def by auto

lemma recent_at_touch:
  assumes "recent_at cap K k v e xs" "k' \<in> K" "finite K" "card K < cap"
  shows "recent_at cap K k v e (take cap ((k', v', e') # drop_key k' xs))"
proof -
  obtain ys zs where xs: "xs = ys @ (k, v, e) # zs" "fst ` set ys \<subseteq> K" "k \<notin> K" "distinct (map fst xs)"
    using assms(1) by (auto simp: recent_at_def)
  let ?ys = "(k', v', e') # drop_key k' ys" and ?zs = "drop_key k' zs"
  have "k' \<noteq> k" using assms(2) xs(3) by auto
  then have split: "(k', v', e') # drop_key k' xs = ?ys @ (k, v, e) # ?zs"
    by (simp add: xs(1) drop_key_append_other)
  have d: "distinct (map fst (?ys @ (k, v, e) # ?zs))"
    unfolding split [symmetric] using distinct_drop_key [OF xs(4), of k'] drop_key_absent [of k' xs] by simp
  have sub: "fst ` set ?ys \<subseteq> K" using xs(2) assms(2) fst_drop_key [of k' ys] by auto
  have "length ?ys = card (fst ` set ?ys)" using d distinct_card [of "map fst ?ys"] by simp
  also have "\<dots> \<le> card K" using sub assms(3) by (rule card_mono [rotated])
  finally have len: "length ?ys < cap" using assms(4) by simp
  then have "take cap (?ys @ (k, v, e) # ?zs) = ?ys @ (k, v, e) # take (cap - Suc (length ?ys)) ?zs"
    by (simp add: take_Cons' del: append_Cons)
  moreover have "distinct (map fst (take cap (?ys @ (k, v, e) # ?zs)))"
    using d by (simp only: take_map [symmetric] distinct_take)
  ultimately show ?thesis
    unfolding split recent_at_def using sub xs(3) by (metis length_take min.cobounded2)
qed

lemma recent_at_drop:
  assumes "recent_at cap K k v e xs" "k' \<noteq> k"
  shows "recent_at cap K k v e (drop_key k' xs)"
proof -
  obtain ys zs where xs: "xs = ys @ (k, v, e) # zs" "fst ` set ys \<subseteq> K" "k \<notin> K" "distinct (map fst xs)"
    "length xs \<le> cap"
    using assms(1) by (auto simp: recent_at_def)
  have "length (drop_key k' xs) \<le> cap"
    using xs(5) unfolding drop_key_def by (meson le_trans length_filter_le)
  moreover have "drop_key k' xs = drop_key k' ys @ (k, v, e) # drop_key k' zs"
    using assms(2) by (simp add: xs(1) drop_key_append_other)
  ultimately show ?thesis
    using xs(2,3) fst_drop_key [of k' ys] distinct_drop_key [OF xs(4), of k']
    unfolding recent_at_def by blast
qed

lemma length_drop_key_present:
  "k \<in> fst ` set xs \<Longrightarrow> Suc (length (drop_key k xs)) \<le> length xs"
  unfolding drop_key_def by (induction xs) (auto simp: le_SucI)

lemma recent_at_step:
  assumes "recent_at cap K k v e xs" "op_key x \<in> K" "finite K" "card K < cap"
  shows "recent_at cap K k v e (spec_step cap d xs x)"
proof (cases x)
  case (OpPut k' v' now)
  then show ?thesis using assms recent_at_touch by (auto simp: spec_put_def)
next
  case (OpGet k' now)
  have "k' \<noteq> k" using assms(1,2) OpGet by (auto simp: recent_at_def)
  show ?thesis
  proof (cases "map_of xs k'")
    case None
    then show ?thesis using assms OpGet by (simp add: spec_get_def)
  next
    case (Some ve)
    obtain v' e' where ve: "ve = (v', e')" by (cases ve)
    have "k' \<in> fst ` set xs" using Some by (force dest: map_of_SomeD)
    then have "length ((k', v', e') # drop_key k' xs) \<le> cap"
      using length_drop_key_present [of k' xs] assms(1) by (auto simp: recent_at_def)
    then have "recent_at cap K k v e ((k', v', e') # drop_key k' xs)"
      using recent_at_touch [OF assms(1) _ assms(3,4), of k' v' e'] assms(2) OpGet by simp
    then show ?thesis
      using OpGet Some ve recent_at_drop [OF assms(1) \<open>k' \<noteq> k\<close>] by (simp add: spec_get_def)
  qed
qed

lemma recent_at_run:
  "\<lbrakk>recent_at cap K k v e xs; op_key ` set ops \<subseteq> K; finite K; card K < cap\<rbrakk> \<Longrightarrow>
    recent_at cap K k v e (foldl (spec_step cap d) xs ops)"
  by (induction ops arbitrary: xs) (auto intro: recent_at_step)

lemma recent_at_put:
  assumes "k \<notin> K" "distinct (map fst xs)" "0 < cap" "0 < d"
  shows "recent_at cap K k v (now + d) (spec_put cap d xs k v now)"
proof -
  obtain n where n: "cap = Suc n" using assms(3) by (cases cap) auto
  have "distinct (map fst ((k, v, now + d) # drop_key k xs))"
    using assms(2) drop_key_absent [of k xs] by (simp add: distinct_drop_key)
  then have "distinct (map fst (spec_put cap d xs k v now))"
    using assms(2-4) by (simp add: spec_put_def distinct_take flip: take_map)
  then show ?thesis
    unfolding recent_at_def using assms
    by (intro exI [of _ "[]"] exI [of _ "take n (drop_key k xs)"]) (simp add: spec_put_def n)
qed

lemma recent_at_get:
  assumes "recent_at cap K k v e xs"
  shows "fst (spec_get xs k now) = (if e \<le> now then None else Some v)"
proof -
  obtain ys zs where xs: "xs = ys @ (k, v, e) # zs" "k \<notin> fst ` set ys"
    using assms by (auto simp: recent_at_def)
  then have "map_of ys k = None" by (simp add: map_of_eq_None_iff)
  then show ?thesis by (simp add: spec_get_def xs(1) map_add_def)
qed

lemma distinct_lru_abs: "lru_inv c \<Longrightarrow> distinct (map fst (lru_abs c))"
proof -
  assume "lru_inv c"
  then have "distinct (map (entry_key \<circ> snd) (entries c))" by (rule lru_invD)
  moreover have "map fst (lru_abs c) = map (entry_key \<circ> snd) (entries c)"
    by (simp add: lru_abs_def case_prod_beta comp_def)
  ultimately show ?thesis by simp
qed

text \<open>
  Retention and expiry. After a \<open>Put\<close> into any reachable cache, as long as the following
  operations touch fewer than \<open>capacity\<close> other keys, a \<open>Get\<close> of the key returns the value
  put if the time to live has not passed and nothing once it has.
\<close>

theorem lru_put_then_get:
  assumes "lru_inv c" "0 < ttl c" "k \<notin> op_key ` set ops" "card (op_key ` set ops) < capacity c"
  shows "\<exists>c1 c2 r c3. Put c k v t = Some c1 \<and> cache_run c1 ops = Some c2 \<and> Get c2 k now = Some (r, c3) \<and>
    r = (if now < t + ttl c then Some v else None)"
proof -
  obtain c1 where c1: "Put c k v t = Some c1" "lru_inv c1" "capacity c1 = capacity c" "ttl c1 = ttl c"
    "lru_abs c1 = spec_put (capacity c) (ttl c) (lru_abs c) k v t"
    using Put_refines [OF assms(1)] by blast
  obtain c2 where c2: "cache_run c1 ops = Some c2" "lru_inv c2"
    "lru_abs c2 = foldl (spec_step (capacity c) (ttl c)) (lru_abs c1) ops"
    using cache_run_refines [OF c1(2), of ops] c1(3,4) by auto
  obtain r c3 where c3: "Get c2 k now = Some (r, c3)" "spec_get (lru_abs c2) k now = (r, lru_abs c3)"
    using Get_refines [OF c2(2)] by blast
  have "recent_at (capacity c) (op_key ` set ops) k v (t + ttl c) (lru_abs c1)"
    unfolding c1(5) using assms distinct_lru_abs by (intro recent_at_put) auto
  then have "recent_at (capacity c) (op_key ` set ops) k v (t + ttl c) (lru_abs c2)"
    unfolding c2(3) using assms(4) by (intro recent_at_run) auto
  from recent_at_get [OF this, of now] c3(2) have "r = (if now < t + ttl c then Some v else None)"
    by (auto split: if_splits)
  with c1(1) c2(1) c3(1) show ?thesis by blast
qed

theorem lru_put_then_get_witness:
  "\<exists>c1 c2 r c3. Put (LruCache_new 2 10) (1 :: nat) ''a'' 0 = Some c1 \<and>
    cache_run c1 [OpPut 2 ''b'' 1, OpGet 2 3] = Some c2 \<and> Get c2 1 5 = Some (r, c3) \<and> r = Some ''a''"
proof -
  let ?c = "LruCache_new 2 10 :: (nat, string) LruCache"
  have "lru_inv ?c" by (rule lru_inv_new)
  moreover have "0 < ttl ?c" "capacity ?c = 2" "ttl ?c = 10"
    by (simp_all add: LruCache_new_def [of 2 10])
  ultimately show ?thesis
    using lru_put_then_get [of ?c 1 "[OpPut 2 ''b'' 1, OpGet 2 3]" "''a''" 0 5] by simp
qed

section \<open>The interface of a read-through cache\<close>

text \<open>
  What a store that caches another store relies on: \<open>Get\<close> and \<open>Put\<close> are safe, a hit returns
  a held value that has not expired, and nothing is held that was not put. \<open>holds c k v e\<close>
  says that the cache has value \<open>v\<close> for key \<open>k\<close> until time \<open>e\<close>.
\<close>

locale ttl_cache =
  fixes get :: "'c \<Rightarrow> 'k \<Rightarrow> int \<Rightarrow> ('v option \<times> 'c) option"
    and put :: "'c \<Rightarrow> 'k \<Rightarrow> 'v \<Rightarrow> int \<Rightarrow> 'c option"
    and invar :: "'c \<Rightarrow> bool"
    and holds :: "'c \<Rightarrow> 'k \<Rightarrow> 'v \<Rightarrow> int \<Rightarrow> bool"
    and life :: "'c \<Rightarrow> int"
  assumes get_safe: "invar c \<Longrightarrow> \<exists>r c'. get c k t = Some (r, c') \<and> invar c' \<and> life c' = life c"
    and put_safe: "invar c \<Longrightarrow> \<exists>c'. put c k v t = Some c' \<and> invar c' \<and> life c' = life c"
    and get_hit: "\<lbrakk>invar c; get c k t = Some (Some v, c')\<rbrakk> \<Longrightarrow> \<exists>e. t < e \<and> holds c k v e"
    and get_holds: "\<lbrakk>invar c; get c k t = Some (r, c'); holds c' k' v' e'\<rbrakk> \<Longrightarrow> holds c k' v' e'"
    and put_holds: "\<lbrakk>invar c; put c k v t = Some c'; holds c' k' v' e'\<rbrakk> \<Longrightarrow>
      (k' = k \<and> v' = v \<and> e' = t + life c) \<or> holds c k' v' e'"

text \<open>One lookup through the cache: the key, the times read by \<open>Get\<close> and by \<open>Put\<close>, and what the
  backing store answers during this lookup.\<close>

record ('k, 'v) Lookup =
  lk_key :: 'k
  lk_get_time :: int
  lk_put_time :: int
  lk_backing :: "'k \<Rightarrow> 'v option throws"

fun run_lookups ::
  "('c \<Rightarrow> ('k, 'v) Lookup \<Rightarrow> ('r \<times> 'c) option) \<Rightarrow> 'c \<Rightarrow> ('k, 'v) Lookup list \<Rightarrow> 'c option" where
  "run_lookups f c [] = Some c"
| "run_lookups f c (l # ls) = (case f c l of None \<Rightarrow> None | Some (_, c') \<Rightarrow> run_lookups f c' ls)"

locale read_through = ttl_cache +
  fixes lookup :: "'a \<Rightarrow> ('b, 'c) Lookup \<Rightarrow> ('c option throws \<times> 'a) option"
  assumes lookup_eq: "lookup c l =
    (case get c (lk_key l) (lk_get_time l) of
       None \<Rightarrow> None
     | Some (Some v, c1) \<Rightarrow> Some (Inr (Some v), c1)
     | Some (None, c1) \<Rightarrow>
         (case lk_backing l (lk_key l) of
            Inl e \<Rightarrow> Some (Inl e, c1)
          | Inr None \<Rightarrow> Some (Inr None, c1)
          | Inr (Some v) \<Rightarrow>
              (case put c1 (lk_key l) v (lk_put_time l) of
                 None \<Rightarrow> None
               | Some c2 \<Rightarrow> Some (Inr (Some v), c2))))"
begin

text \<open>Everything held was answered by the store in an earlier lookup of the same key.\<close>

definition sourced :: "('b, 'c) Lookup set \<Rightarrow> 'a \<Rightarrow> bool" where
  "sourced past c \<longleftrightarrow>
     (\<forall>k v e. holds c k v e \<longrightarrow>
       (\<exists>l \<in> past. lk_key l = k \<and> lk_backing l k = Inr (Some v) \<and> e = lk_put_time l + life c))"

lemma lookup_step:
  assumes "invar c" "sourced past c"
  shows "\<exists>r c'. lookup c l = Some (r, c') \<and> invar c' \<and> life c' = life c \<and> sourced (insert l past) c' \<and>
    (r = lk_backing l (lk_key l) \<or>
     (\<exists>v. r = Inr (Some v) \<and> (\<exists>l' \<in> past. lk_key l' = lk_key l \<and> lk_backing l' (lk_key l) = Inr (Some v)
        \<and> lk_get_time l < lk_put_time l' + life c)))"
proof -
  obtain g c1 where g: "get c (lk_key l) (lk_get_time l) = Some (g, c1)" "invar c1" "life c1 = life c"
    using get_safe [OF assms(1)] by blast
  have s1: "sourced (insert l past) c1"
    unfolding sourced_def g(3)
  proof (intro allI impI)
    fix k v e
    assume "holds c1 k v e"
    then have "holds c k v e" by (rule get_holds [OF assms(1) g(1)])
    then show "\<exists>l' \<in> insert l past. lk_key l' = k \<and> lk_backing l' k = Inr (Some v) \<and>
        e = lk_put_time l' + life c"
      using assms(2) unfolding sourced_def by blast
  qed
  show ?thesis
  proof (cases g)
    case (Some v)
    from get_hit [OF assms(1)] g(1) Some obtain e where e: "lk_get_time l < e" "holds c (lk_key l) v e"
      by blast
    then have "\<exists>l' \<in> past. lk_key l' = lk_key l \<and> lk_backing l' (lk_key l) = Inr (Some v)
        \<and> lk_get_time l < lk_put_time l' + life c"
      using assms(2) unfolding sourced_def by blast
    then show ?thesis using Some g s1 by (auto simp: lookup_eq)
  next
    case None
    show ?thesis
    proof (cases "\<exists>v. lk_backing l (lk_key l) = Inr (Some v)")
      case False
      then show ?thesis
        using None g s1 by (auto simp: lookup_eq split: sum.splits option.splits)
    next
      case True
      then obtain v where v: "lk_backing l (lk_key l) = Inr (Some v)" by blast
      obtain c2 where c2: "put c1 (lk_key l) v (lk_put_time l) = Some c2" "invar c2" "life c2 = life c1"
        using put_safe [OF g(2)] by blast
      have "sourced (insert l past) c2"
        using s1 put_holds [OF g(2) c2(1)] v unfolding sourced_def c2(3) by (metis insertCI)
      then show ?thesis using None g c2 v by (auto simp: lookup_eq)
    qed
  qed
qed

lemma run_sourced:
  assumes "invar c" "sourced past c"
  shows "\<exists>c'. run_lookups lookup c ls = Some c' \<and> invar c' \<and> life c' = life c \<and> sourced (past \<union> set ls) c'"
  using assms
proof (induction ls arbitrary: c past)
  case Nil
  then show ?case by simp
next
  case (Cons l ls)
  obtain r c1 where "lookup c l = Some (r, c1)" "invar c1" "life c1 = life c" "sourced (insert l past) c1"
    using lookup_step [OF Cons.prems] by blast
  then show ?case using Cons.IH [of c1 "insert l past"] by auto
qed

text \<open>Bounded staleness: an answer is the store's own, or one it gave less than a time to live ago.\<close>

lemma staleness:
  assumes "invar c" "\<And>k v e. \<not> holds c k v e"
  shows "\<exists>c' r c''. run_lookups lookup c ls = Some c' \<and> lookup c' l = Some (r, c'') \<and>
    (r = lk_backing l (lk_key l) \<or>
     (\<exists>v. r = Inr (Some v) \<and> (\<exists>l' \<in> set ls. lk_key l' = lk_key l \<and> lk_backing l' (lk_key l) = Inr (Some v)
        \<and> lk_get_time l < lk_put_time l' + life c)))"
proof -
  have "sourced {} c" using assms(2) by (simp add: sourced_def)
  from run_sourced [OF assms(1) this, of ls] obtain c' where
    c': "run_lookups lookup c ls = Some c'" "invar c'" "life c' = life c" "sourced (set ls) c'"
    by auto
  from lookup_step [OF c'(2,4), of l] c'(1,3) show ?thesis by auto
qed

text \<open>Transparency: while the store's answers do not change, the cache is invisible.\<close>

lemma transparent:
  assumes "invar c" "\<And>k v e. \<not> holds c k v e" "\<forall>l' \<in> set (l # ls). lk_backing l' = answer"
  shows "\<exists>c' c''. run_lookups lookup c ls = Some c' \<and> lookup c' l = Some (answer (lk_key l), c'')"
  using staleness [OF assms(1,2), of ls l] assms(3) by force

text \<open>A cache that holds nothing but the answers of one function stays one while the store gives them.\<close>

definition faithful :: "('b \<Rightarrow> 'c option throws) \<Rightarrow> 'a \<Rightarrow> bool" where
  "faithful answers c \<longleftrightarrow> invar c \<and> (\<forall>k v e. holds c k v e \<longrightarrow> answers k = Inr (Some v))"

lemma faithful_lookup:
  assumes "faithful answers c" "lk_backing l = answers"
  shows "\<exists>c'. lookup c l = Some (answers (lk_key l), c') \<and> faithful answers c'"
proof -
  from assms(1) have inv: "invar c" by (simp add: faithful_def)
  obtain r c1 where g: "get c (lk_key l) (lk_get_time l) = Some (r, c1)" "invar c1"
    using get_safe [OF inv] by blast
  have c1: "faithful answers c1"
    using g(2) get_holds [OF inv g(1)] assms(1) unfolding faithful_def by blast
  show ?thesis
  proof (cases r)
    case (Some v)
    with get_hit [OF inv] g(1) obtain e where "holds c (lk_key l) v e" by blast
    then have "answers (lk_key l) = Inr (Some v)" using assms(1) unfolding faithful_def by blast
    then show ?thesis using Some g c1 by (simp add: lookup_eq)
  next
    case None
    show ?thesis
    proof (cases "\<exists>v. answers (lk_key l) = Inr (Some v)")
      case True
      then obtain v where v: "answers (lk_key l) = Inr (Some v)" by blast
      obtain c2 where c2: "put c1 (lk_key l) v (lk_put_time l) = Some c2" "invar c2"
        using put_safe [OF g(2)] by blast
      have "faithful answers c2"
        using c2(2) put_holds [OF g(2) c2(1)] c1 v unfolding faithful_def by blast
      then show ?thesis using None g c2 v assms(2) by (simp add: lookup_eq)
    next
      case False
      then show ?thesis using None g c1 assms(2)
        by (cases "answers (lk_key l)") (auto simp: lookup_eq split: option.splits)
    qed
  qed
qed

lemma faithful_fresh: "invar c \<Longrightarrow> (\<And>k v e. \<not> holds c k v e) \<Longrightarrow> faithful answers c"
  by (simp add: faithful_def)

end

lemma spec_get_hit: "fst (spec_get xs k now) = Some v \<Longrightarrow> \<exists>e. now < e \<and> (k, v, e) \<in> set xs"
  by (force simp: spec_get_def not_le split: option.splits prod.splits if_splits dest!: map_of_SomeD)

lemma spec_get_subset: "set (snd (spec_get xs k now)) \<subseteq> set xs"
  by (auto simp: spec_get_def drop_key_def split: option.splits prod.splits if_splits dest!: map_of_SomeD)

lemma spec_put_subset:
  "set (spec_put cap d xs k v now) \<subseteq> insert (k, v, now + d) (set xs)"
  by (auto simp: spec_put_def drop_key_def dest!: in_set_takeD)

interpretation lru: ttl_cache Get Put lru_inv "\<lambda>c k v e. (k, v, e) \<in> set (lru_abs c)" ttl
proof
  fix c :: "('k, 'v) LruCache" and k t v c' r k' v' e'
  assume inv: "lru_inv c"
  show "\<exists>r c'. Get c k t = Some (r, c') \<and> lru_inv c' \<and> ttl c' = ttl c"
    using Get_refines [OF inv] by blast
  show "\<exists>c'. Put c k v t = Some c' \<and> lru_inv c' \<and> ttl c' = ttl c"
    using Put_refines [OF inv] by blast
  show "\<exists>e. t < e \<and> (k, v, e) \<in> set (lru_abs c)" if "Get c k t = Some (Some v, c')"
    using Get_refines [OF inv, of k t] that spec_get_hit [of "lru_abs c" k t v] by auto
  show "(k', v', e') \<in> set (lru_abs c)" if "Get c k t = Some (r, c')" "(k', v', e') \<in> set (lru_abs c')"
    using Get_refines [OF inv, of k t] that spec_get_subset [of "lru_abs c" k t] by auto
  show "(k' = k \<and> v' = v \<and> e' = t + ttl c) \<or> (k', v', e') \<in> set (lru_abs c)"
    if "Put c k v t = Some c'" "(k', v', e') \<in> set (lru_abs c')"
    using Put_refines [OF inv, of k v t] that spec_put_subset [of "capacity c" "ttl c" "lru_abs c" k v t]
    by auto
qed

end
