(* ===== verification/ItemIndexStore.thy ===== *)
theory ItemIndexStore
  imports JsonParser LruCache TextLines
begin

text \<open>
  The item index of src/src/recommendation_engine/ranking: reading an entry out of JSON
  (item_index_store.cpp), the store that caches another store (caching_item_index_store.cpp) and
  the store loaded from a file (local_file_item_index_store.cpp). The parsers of JSON text and the
  file system are arguments.
\<close>

section \<open>Entries\<close>

record ItemIndexWeightedTag =
  iw_tag :: string
  iw_weight :: float64

record ItemIndexRating =
  ir_avg :: float64
  ir_count :: int

record ItemIndexSearchFields =
  is_tag_text :: string
  is_all_text :: string

record ItemIndexExternalIds =
  ie_imdb_id :: string
  ie_tmdb_id :: int64

record ItemIndexEntry =
  ix_item_id :: uint64
  ix_title :: string
  ix_title_raw :: string
  ix_title_norm :: string
  ix_year :: int
  ix_genres :: "string list"
  ix_top_tags :: "ItemIndexWeightedTag list"
  ix_tag_count :: int
  ix_unique_tag_count :: int
  ix_rating :: ItemIndexRating
  ix_search :: ItemIndexSearchFields
  ix_ext :: ItemIndexExternalIds

definition ItemIndexEntry_default :: ItemIndexEntry where
  "ItemIndexEntry_default =
     \<lparr>ix_item_id = 0, ix_title = [], ix_title_raw = [], ix_title_norm = [], ix_year = 0, ix_genres = [],
      ix_top_tags = [], ix_tag_count = 0, ix_unique_tag_count = 0,
      ix_rating = \<lparr>ir_avg = Fin 0, ir_count = 0\<rparr>,
      ix_search = \<lparr>is_tag_text = [], is_all_text = []\<rparr>,
      ix_ext = \<lparr>ie_imdb_id = [], ie_tmdb_id = 0\<rparr>\<rparr>"

section \<open>Reading an entry\<close>

definition ReadOptionalTopTags :: "fields \<Rightarrow> string \<Rightarrow> ItemIndexWeightedTag list outcome" where
  "ReadOptionalTopTags fs context =
     optional_field fs ''top_tags'' [] (\<lambda>value.
       case value of
         ListValue values \<Rightarrow>
           read_each (\<lambda>i tag_value.
             case tag_value of
               StructValue tag_fields \<Rightarrow>
                 andThen (ReadOptionalString tag_fields ''tag'' (indexed (context @ ''.top_tags'') i)) (\<lambda>tag.
                 andThen (ReadOptionalDouble tag_fields ''weight'' (indexed (context @ ''.top_tags'') i)) (\<lambda>weight.
                 return \<lparr>iw_tag = tag, iw_weight = weight\<rparr>))
             | _ \<Rightarrow> throw (indexed (context @ ''.top_tags'') i @ '' must be an object'')) 0 values
       | _ \<Rightarrow> throw (context @ ''.top_tags must be an array''))"

definition ReadTags :: "fields \<Rightarrow> string \<Rightarrow> ItemIndexEntry \<Rightarrow> ItemIndexEntry outcome" where
  "ReadTags fs context entry =
     andThen (ReadOptionalStruct fs ''tags'' context) (\<lambda>tags.
       case tags of
         None \<Rightarrow> return entry
       | Some tag_fields \<Rightarrow>
           let tags_context = context @ ''.tags'' in
           andThen (ReadOptionalTopTags tag_fields tags_context) (\<lambda>top_tags.
           andThen (ReadOptionalInt tag_fields ''tag_count'' tags_context) (\<lambda>tag_count.
           andThen (ReadOptionalInt tag_fields ''unique_tag_count'' tags_context) (\<lambda>unique_tag_count.
           return (entry\<lparr>ix_top_tags := top_tags, ix_tag_count := tag_count,
                        ix_unique_tag_count := unique_tag_count\<rparr>)))))"

definition ReadRating :: "fields \<Rightarrow> string \<Rightarrow> ItemIndexEntry \<Rightarrow> ItemIndexEntry outcome" where
  "ReadRating fs context entry =
     andThen (ReadOptionalStruct fs ''rating'' context) (\<lambda>rating.
       case rating of
         None \<Rightarrow> return entry
       | Some rating_fields \<Rightarrow>
           let rating_context = context @ ''.rating'' in
           andThen (ReadOptionalDouble rating_fields ''avg'' rating_context) (\<lambda>avg.
           andThen (ReadOptionalInt rating_fields ''count'' rating_context) (\<lambda>count.
           return (entry\<lparr>ix_rating := \<lparr>ir_avg = avg, ir_count = count\<rparr>\<rparr>))))"

definition ReadSearch :: "fields \<Rightarrow> string \<Rightarrow> ItemIndexEntry \<Rightarrow> ItemIndexEntry outcome" where
  "ReadSearch fs context entry =
     andThen (ReadOptionalStruct fs ''search'' context) (\<lambda>search.
       case search of
         None \<Rightarrow> return entry
       | Some search_fields \<Rightarrow>
           let search_context = context @ ''.search'' in
           andThen (ReadOptionalString search_fields ''tag_text'' search_context) (\<lambda>tag_text.
           andThen (ReadOptionalString search_fields ''all_text'' search_context) (\<lambda>all_text.
           return (entry\<lparr>ix_search := \<lparr>is_tag_text = tag_text, is_all_text = all_text\<rparr>\<rparr>))))"

definition ReadExt :: "fields \<Rightarrow> string \<Rightarrow> ItemIndexEntry \<Rightarrow> ItemIndexEntry outcome" where
  "ReadExt fs context entry =
     andThen (ReadOptionalStruct fs ''ext'' context) (\<lambda>ext.
       case ext of
         None \<Rightarrow> return entry
       | Some ext_fields \<Rightarrow>
           let ext_context = context @ ''.ext'' in
           andThen (ReadOptionalString ext_fields ''imdb_id'' ext_context) (\<lambda>imdb_id.
           andThen (ReadOptionalInt64 ext_fields ''tmdb_id'' ext_context) (\<lambda>tmdb_id.
           return (entry\<lparr>ix_ext := \<lparr>ie_imdb_id = imdb_id, ie_tmdb_id = tmdb_id\<rparr>\<rparr>))))"

definition ParseEntryFromJsonObject :: "fields \<Rightarrow> string \<Rightarrow> ItemIndexEntry outcome" where
  "ParseEntryFromJsonObject fs context =
     andThen (ReadRequiredUint64 fs ''item_id'' context) (\<lambda>item_id.
     if item_id = 0 then throw (context @ ''.item_id must be positive'')
     else
       andThen (ReadOptionalString fs ''title'' context) (\<lambda>title.
       andThen (ReadOptionalString fs ''title_raw'' context) (\<lambda>title_raw.
       andThen (ReadOptionalString fs ''title_norm'' context) (\<lambda>title_norm.
       andThen (ReadOptionalInt fs ''year'' context) (\<lambda>year.
       andThen (ReadOptionalStringList fs ''genres'' context) (\<lambda>genres.
       andThen (ReadTags fs context
         (ItemIndexEntry_default\<lparr>ix_item_id := item_id, ix_title := title, ix_title_raw := title_raw,
            ix_title_norm := title_norm, ix_year := year, ix_genres := genres\<rparr>)) (\<lambda>entry.
       andThen (ReadRating fs context entry) (\<lambda>entry.
       andThen (ReadSearch fs context entry) (\<lambda>entry.
       ReadExt fs context entry)))))))))"

definition ParseEntryFromJsonString :: "fields json_text \<Rightarrow> string \<Rightarrow> string \<Rightarrow> ItemIndexEntry outcome" where
  "ParseEntryFromJsonString to_object item_index_json context =
     andThen (ParseObject to_object item_index_json context)
       (\<lambda>object. ParseEntryFromJsonObject object context)"

section \<open>The caching store\<close>

text \<open>The constructor refuses a null store; the cache asserts its own configuration.\<close>

definition CachingItemIndexStore_new ::
  "bool \<Rightarrow> nat \<Rightarrow> int \<Rightarrow> (uint64, ItemIndexEntry) LruCache throws" where
  "CachingItemIndexStore_new item_index_store_is_null cap d =
     (if item_index_store_is_null
      then Inl (InvalidArgument ''CachingItemIndexStore item_index_store must not be null'')
      else Inr (LruCache_new cap d))"

definition CachingItemIndexStore_FindByItemId ::
  "(uint64, ItemIndexEntry) LruCache \<Rightarrow> (uint64, ItemIndexEntry) Lookup \<Rightarrow>
     (ItemIndexEntry option throws \<times> (uint64, ItemIndexEntry) LruCache) option" where
  "CachingItemIndexStore_FindByItemId cache l =
     (case Get cache (lk_key l) (lk_get_time l) of
        None \<Rightarrow> None
      | Some (Some cached_entry, cache1) \<Rightarrow> Some (Inr (Some cached_entry), cache1)
      | Some (None, cache1) \<Rightarrow>
          (case lk_backing l (lk_key l) of
             Inl e \<Rightarrow> Some (Inl e, cache1)
           | Inr None \<Rightarrow> Some (Inr None, cache1)
           | Inr (Some entry) \<Rightarrow>
               (case Put cache1 (lk_key l) entry (lk_put_time l) of
                  None \<Rightarrow> None
                | Some cache2 \<Rightarrow> Some (Inr (Some entry), cache2))))"

interpretation item_cache:
  read_through Get Put lru_inv "\<lambda>c k v e. (k, v, e) \<in> set (lru_abs c)" ttl CachingItemIndexStore_FindByItemId
  by unfold_locales (simp add: CachingItemIndexStore_FindByItemId_def)

section \<open>A store loaded from a file\<close>

type_synonym item_index = "uint64 \<rightharpoonup> ItemIndexEntry"

definition AddEntry :: "ItemIndexEntry \<Rightarrow> item_index \<Rightarrow> item_index" where
  "AddEntry entry loaded_entries = loaded_entries(ix_item_id entry \<mapsto> entry)"

definition ParseJsonObjectText ::
  "fields json_text \<Rightarrow> string \<Rightarrow> string \<Rightarrow> item_index \<Rightarrow> item_index outcome" where
  "ParseJsonObjectText to_object json context loaded_entries =
     andThen (ParseEntryFromJsonString to_object json context)
       (\<lambda>entry. return (AddEntry entry loaded_entries))"

fun parse_lines :: "fields json_text \<Rightarrow> nat \<Rightarrow> string list \<Rightarrow> item_index \<Rightarrow> item_index outcome" where
  "parse_lines to_object line_number [] loaded_entries = return loaded_entries"
| "parse_lines to_object line_number (line # lines) loaded_entries =
     (let line_number = Suc line_number in
      if IsBlank line then parse_lines to_object line_number lines loaded_entries
      else andThen (ParseJsonObjectText to_object line (''JSONL line '' @ show_nat line_number) loaded_entries)
             (\<lambda>loaded_entries. parse_lines to_object line_number lines loaded_entries))"

definition ParseJsonlContent :: "fields json_text \<Rightarrow> string \<Rightarrow> item_index \<Rightarrow> item_index outcome" where
  "ParseJsonlContent to_object content loaded_entries =
     parse_lines to_object 0 (getlines content) loaded_entries"

fun parse_values :: "nat \<Rightarrow> Value list \<Rightarrow> item_index \<Rightarrow> item_index outcome" where
  "parse_values i [] loaded_entries = return loaded_entries"
| "parse_values i (v # values) loaded_entries =
     (case v of
        StructValue fs \<Rightarrow>
          andThen (ParseEntryFromJsonObject fs (''JSON array item '' @ show_nat i))
            (\<lambda>entry. parse_values (Suc i) values (AddEntry entry loaded_entries))
      | _ \<Rightarrow> throw (''JSON array item '' @ show_nat i @ '' must be an object.''))"

definition ParseJsonArrayContent :: "Value json_text \<Rightarrow> string \<Rightarrow> item_index \<Rightarrow> item_index outcome" where
  "ParseJsonArrayContent to_value content loaded_entries =
     andThen (ParseValue to_value content ''JSON array file'') (\<lambda>root.
       case root of
         ListValue values \<Rightarrow> parse_values 0 values loaded_entries
       | _ \<Rightarrow> throw ''Item index JSON file must be an array or JSONL.'')"

text \<open>The result, the error message, and the entries, which only a load that succeeds replaces.\<close>

definition LocalFileItemIndexStore_LoadFromFile ::
  "fields json_text \<Rightarrow> Value json_text \<Rightarrow> (string \<Rightarrow> string option) \<Rightarrow> string \<Rightarrow> item_index \<Rightarrow>
     ((bool \<times> string) \<times> item_index) option" where
  "LocalFileItemIndexStore_LoadFromFile to_object to_value read_file file_path held =
     (case read_file file_path of
        None \<Rightarrow>
          Some ((False, ''LocalFileItemIndexStore::LoadFromFile failed: cannot open file '' @ file_path), held)
      | Some content \<Rightarrow>
          let first_char = FirstNonBlankChar content in
          if first_char = CHR 0x00 then Some ((True, []), Map.empty)
          else
            map_option (\<lambda>loaded.
                case loaded of
                  Inl ex \<Rightarrow> ((False, ''LocalFileItemIndexStore::LoadFromFile failed: '' @ what ex), held)
                | Inr loaded_entries \<Rightarrow> ((True, []), loaded_entries))
              (if first_char = CHR ''['' then ParseJsonArrayContent to_value content Map.empty
               else ParseJsonlContent to_object content Map.empty))"

definition LocalFileItemIndexStore_new ::
  "fields json_text \<Rightarrow> Value json_text \<Rightarrow> (string \<Rightarrow> string option) \<Rightarrow> string \<Rightarrow> item_index outcome" where
  "LocalFileItemIndexStore_new to_object to_value read_file file_path =
     map_option (\<lambda>((loaded, error_msg), held). if loaded then Inr held else Inl (RuntimeError error_msg))
       (LocalFileItemIndexStore_LoadFromFile to_object to_value read_file file_path Map.empty)"

definition LocalFileItemIndexStore_FindByItemId :: "item_index \<Rightarrow> uint64 \<Rightarrow> ItemIndexEntry option" where
  "LocalFileItemIndexStore_FindByItemId held item_id = held item_id"

text \<open>The batch lookup every store inherits: one answer per id, in order.\<close>

definition FindByItemIds :: "(uint64 \<Rightarrow> ItemIndexEntry option throws) \<Rightarrow> uint64 list \<Rightarrow> ItemIndexEntry option list throws" where
  "FindByItemIds FindByItemId item_ids = mapE FindByItemId item_ids"

section \<open>What is read\<close>

lemma read_each_map:
  "(\<And>j x. x \<in> set xs \<Longrightarrow> f j (h x) = return (g x)) \<Longrightarrow> read_each f i (map h xs) = return (map g xs)"
  by (induction xs arbitrary: i) simp_all

text \<open>The entries that a document can describe.\<close>

definition int_range :: "int \<Rightarrow> bool" where
  "int_range n \<longleftrightarrow> int_min \<le> n \<and> n \<le> int_max"

definition entry_ok :: "ItemIndexEntry \<Rightarrow> bool" where
  "entry_ok e \<longleftrightarrow> ix_item_id e \<noteq> 0 \<and> int_range (ix_year e) \<and> int_range (ix_tag_count e) \<and>
     int_range (ix_unique_tag_count e) \<and> int_range (ir_count (ix_rating e)) \<and>
     isfinite (ir_avg (ix_rating e)) \<and> (\<forall>t \<in> set (ix_top_tags e). isfinite (iw_weight t))"

text \<open>A document for an entry: 64-bit ids as text, the rest in its JSON type.\<close>

definition int_value :: "int \<Rightarrow> Value" where
  "int_value n = NumberValue (to_double n)"

definition tag_json :: "ItemIndexWeightedTag \<Rightarrow> Value" where
  "tag_json t = StructValue [(''tag'', StringValue (iw_tag t)), (''weight'', NumberValue (iw_weight t))]"

definition entry_json :: "ItemIndexEntry \<Rightarrow> fields" where
  "entry_json e =
     [(''item_id'', StringValue (show_nat (unat (ix_item_id e)))),
      (''title'', StringValue (ix_title e)),
      (''title_raw'', StringValue (ix_title_raw e)),
      (''title_norm'', StringValue (ix_title_norm e)),
      (''year'', int_value (ix_year e)),
      (''genres'', ListValue (map StringValue (ix_genres e))),
      (''tags'', StructValue
         [(''top_tags'', ListValue (map tag_json (ix_top_tags e))),
          (''tag_count'', int_value (ix_tag_count e)),
          (''unique_tag_count'', int_value (ix_unique_tag_count e))]),
      (''rating'', StructValue
         [(''avg'', NumberValue (ir_avg (ix_rating e))), (''count'', int_value (ir_count (ix_rating e)))]),
      (''search'', StructValue
         [(''tag_text'', StringValue (is_tag_text (ix_search e))),
          (''all_text'', StringValue (is_all_text (ix_search e)))]),
      (''ext'', StructValue
         [(''imdb_id'', StringValue (ie_imdb_id (ix_ext e))),
          (''tmdb_id'', StringValue (show_int (sint (ie_tmdb_id (ix_ext e)))))])]"

lemma ReadUint64_text: "ReadUint64Value (StringValue (show_nat (unat w))) context = return w"
proof -
  have "unat w < 2 ^ 64" using unsigned_less [of w] by simp
  then show ?thesis by (simp add: ParseUint64String_def from_chars_unsigned_show return_def)
qed

lemma ReadInt64_text: "ReadInt64Value (StringValue (show_int (sint w))) context = return w"
proof -
  have "- (2 ^ 63) \<le> sint w \<and> sint w < 2 ^ 63"
    using sint_ge [of w] sint_lt [of w] by simp
  then have "from_chars_signed (- 9223372036854775808) 9223372036854775807 (show_int (sint w)) = ([], Ok, sint w)"
    by (intro from_chars_signed_show) simp_all
  then show ?thesis by simp
qed

lemma int_range_bounds: "int_range n \<Longrightarrow> - 2147483648 \<le> n \<and> n \<le> 2147483647"
  by (simp add: int_range_def int_min_def int_max_def)

lemma sint_int_range: "int_range n \<Longrightarrow> sint (of_int n :: 64 word) = n"
proof -
  assume "int_range n"
  then have "- (2 ^ (64 - 1)) \<le> n" "n < 2 ^ (64 - 1)" using int_range_bounds by fastforce+
  then show ?thesis by (simp add: signed_of_int signed_take_bit_int_eq_self)
qed

lemma ReadOptionalInt_value:
  assumes "FindField fs f = Some (int_value n)" "int_range n"
  shows "ReadOptionalInt fs f context = return n"
proof -
  have "\<bar>n\<bar> \<le> 2 ^ 53" using int_range_bounds [OF assms(2)] by (simp add: abs_le_iff)
  then have "ReadInt64Value (int_value n) (dotted context f) = return (of_int n)"
    unfolding int_value_def to_double_exact [OF \<open>\<bar>n\<bar> \<le> 2 ^ 53\<close>] ReadInt64Value_int by auto
  moreover have "\<not> IsNull (int_value n)" by (simp add: int_value_def)
  ultimately show ?thesis
    using assms sint_int_range [OF assms(2)] int_range_bounds [OF assms(2)]
    by (simp add: ReadOptionalInt_def optional_field_def int_range_def)
qed

lemma index_records_eta [simp]:
  "\<lparr>ir_avg = ir_avg r, ir_count = ir_count r\<rparr> = (r :: ItemIndexRating)"
  "\<lparr>iw_tag = iw_tag t, iw_weight = iw_weight t\<rparr> = (t :: ItemIndexWeightedTag)"
  "\<lparr>is_tag_text = is_tag_text s, is_all_text = is_all_text s\<rparr> = (s :: ItemIndexSearchFields)"
  "\<lparr>ie_imdb_id = ie_imdb_id x, ie_tmdb_id = ie_tmdb_id x\<rparr> = (x :: ItemIndexExternalIds)"
  by simp_all

lemma index_entry_eta [simp]:
  "\<lparr>ix_item_id = ix_item_id e, ix_title = ix_title e, ix_title_raw = ix_title_raw e,
    ix_title_norm = ix_title_norm e, ix_year = ix_year e, ix_genres = ix_genres e, ix_top_tags = ix_top_tags e,
    ix_tag_count = ix_tag_count e, ix_unique_tag_count = ix_unique_tag_count e, ix_rating = ix_rating e,
    ix_search = ix_search e, ix_ext = ix_ext e\<rparr> = (e :: ItemIndexEntry)"
  by simp

lemmas read_defs = optional_field_def FindField_def dotted_def

lemma ReadOptionalTopTags_json:
  assumes "\<forall>t \<in> set ts. isfinite (iw_weight t)"
  shows "ReadOptionalTopTags ((''top_tags'', ListValue (map tag_json ts)) # fs) context = return ts"
proof -
  have "read_each (\<lambda>i tag_value.
             case tag_value of
               StructValue tag_fields \<Rightarrow>
                 andThen (ReadOptionalString tag_fields ''tag'' (indexed (context @ ''.top_tags'') i)) (\<lambda>tag.
                 andThen (ReadOptionalDouble tag_fields ''weight'' (indexed (context @ ''.top_tags'') i)) (\<lambda>weight.
                 return \<lparr>iw_tag = tag, iw_weight = weight\<rparr>))
             | _ \<Rightarrow> throw (indexed (context @ ''.top_tags'') i @ '' must be an object'')) 0 (map tag_json ts)
        = return (map id ts)"
    using assms
    by (intro read_each_map) (simp add: tag_json_def ReadOptionalString_def ReadOptionalDouble_def read_defs)
  then show ?thesis by (simp add: ReadOptionalTopTags_def read_defs)
qed

lemma ReadOptionalStringList_json:
  "FindField fs f = Some (ListValue (map StringValue ss)) \<Longrightarrow> ReadOptionalStringList fs f context = return ss"
  using read_each_map [of ss "\<lambda>i v. ReadStringValue v (indexed (dotted context f) i)" StringValue id 0]
  by (simp add: ReadOptionalStringList_def optional_field_def)

lemma ParseEntryFromJsonObject_json:
  assumes "entry_ok e"
  shows "ParseEntryFromJsonObject (entry_json e) context = return e"
proof -
  have ints: "int_range (ix_year e)" "int_range (ix_tag_count e)" "int_range (ix_unique_tag_count e)"
    "int_range (ir_count (ix_rating e))" and id: "ix_item_id e \<noteq> 0"
    and fin: "isfinite (ir_avg (ix_rating e))" "\<forall>t \<in> set (ix_top_tags e). isfinite (iw_weight t)"
    using assms by (simp_all add: entry_ok_def)
  note year = ReadOptionalInt_value [OF _ ints(1)]
    and tags = ReadOptionalInt_value [OF _ ints(2)] ReadOptionalInt_value [OF _ ints(3)]
    and count = ReadOptionalInt_value [OF _ ints(4)]
  have 1: "ReadRequiredUint64 (entry_json e) ''item_id'' context = return (ix_item_id e)"
    by (simp add: ReadRequiredUint64_def RequiredField_def read_defs entry_json_def ReadUint64_text
        del: ReadUint64Value.simps)
  have 2: "ReadOptionalString (entry_json e) ''title'' context = return (ix_title e)"
    "ReadOptionalString (entry_json e) ''title_raw'' context = return (ix_title_raw e)"
    "ReadOptionalString (entry_json e) ''title_norm'' context = return (ix_title_norm e)"
    by (simp_all add: ReadOptionalString_def read_defs entry_json_def)
  have 3: "ReadOptionalInt (entry_json e) ''year'' context = return (ix_year e)"
    by (rule year) (simp add: FindField_def entry_json_def)
  have 4: "ReadOptionalStringList (entry_json e) ''genres'' context = return (ix_genres e)"
    by (rule ReadOptionalStringList_json) (simp add: FindField_def entry_json_def)
  have 5: "ReadTags (entry_json e) context x = return (x\<lparr>ix_top_tags := ix_top_tags e,
      ix_tag_count := ix_tag_count e, ix_unique_tag_count := ix_unique_tag_count e\<rparr>)" for x
    by (simp add: ReadTags_def ReadOptionalStruct_def read_defs entry_json_def Let_def tags
        ReadOptionalTopTags_json [OF fin(2)])
  have 6: "ReadRating (entry_json e) context x = return (x\<lparr>ix_rating := ix_rating e\<rparr>)" for x
    using fin(1) by (simp add: ReadRating_def ReadOptionalStruct_def ReadOptionalDouble_def read_defs
        entry_json_def Let_def count)
  have 7: "ReadSearch (entry_json e) context x = return (x\<lparr>ix_search := ix_search e\<rparr>)" for x
    by (simp add: ReadSearch_def ReadOptionalStruct_def ReadOptionalString_def read_defs
        entry_json_def Let_def)
  have 8: "ReadExt (entry_json e) context x = return (x\<lparr>ix_ext := ix_ext e\<rparr>)" for x
    by (simp add: ReadExt_def ReadOptionalStruct_def ReadOptionalString_def ReadOptionalInt64_def read_defs
        entry_json_def Let_def ReadInt64_text del: ReadInt64Value.simps)
  show ?thesis
    by (simp add: ParseEntryFromJsonObject_def 1 2 3 4 5 6 7 8 id ItemIndexEntry_default_def)
qed


text \<open>What was read is in range: nothing else can come out of a document.\<close>

lemma return_neq_throw [simp]: "throw m \<noteq> return x" "return x \<noteq> throw m"
  by (simp_all add: return_def throw_def)

lemma return_inject [simp]: "return x = return y \<longleftrightarrow> x = y"
  by (simp add: return_def)

lemma optional_field_returns:
  "optional_field fs f d read = return y \<Longrightarrow> y = d \<or> (\<exists>v. read v = return y)"
  by (auto simp: optional_field_def split: option.splits if_splits)

lemma ReadOptionalInt_range: "ReadOptionalInt fs f c = return n \<Longrightarrow> int_range n"
  unfolding ReadOptionalInt_def
  by (drule optional_field_returns)
    (auto simp: andThen_eq_return int_range_def int_min_def int_max_def split: if_splits)

lemma ReadDoubleValue_finite: "ReadDoubleValue v c = return x \<Longrightarrow> isfinite x"
  by (cases v) (auto split: if_splits option.splits prod.splits)

lemma ReadOptionalDouble_finite: "ReadOptionalDouble fs f c = return x \<Longrightarrow> isfinite x"
  unfolding ReadOptionalDouble_def
  by (drule optional_field_returns) (auto dest: ReadDoubleValue_finite)

lemma list_all2_set2:
  "list_all2 P xs ys \<Longrightarrow> y \<in> set ys \<Longrightarrow> \<exists>x. P x y"
  by (metis in_set_conv_nth list_all2_conv_all_nth)

lemma ReadOptionalTopTags_finite:
  assumes "ReadOptionalTopTags fs c = return ts" "t \<in> set ts"
  shows "isfinite (iw_weight t)"
proof -
  from assms obtain vals where "read_each (\<lambda>i tag_value.
             case tag_value of
               StructValue tag_fields \<Rightarrow>
                 andThen (ReadOptionalString tag_fields ''tag'' (indexed (c @ ''.top_tags'') i)) (\<lambda>tag.
                 andThen (ReadOptionalDouble tag_fields ''weight'' (indexed (c @ ''.top_tags'') i)) (\<lambda>weight.
                 return \<lparr>iw_tag = tag, iw_weight = weight\<rparr>))
             | _ \<Rightarrow> throw (indexed (c @ ''.top_tags'') i @ '' must be an object'')) 0 vals = return ts"
    unfolding ReadOptionalTopTags_def
    by (auto dest!: optional_field_returns split: Value.splits)
  from list_all2_set2 [OF read_each_return_all [OF this]] assms(2) obtain i v where "(case v of
               StructValue tag_fields \<Rightarrow>
                 andThen (ReadOptionalString tag_fields ''tag'' (indexed (c @ ''.top_tags'') i)) (\<lambda>tag.
                 andThen (ReadOptionalDouble tag_fields ''weight'' (indexed (c @ ''.top_tags'') i)) (\<lambda>weight.
                 return \<lparr>iw_tag = tag, iw_weight = weight\<rparr>))
             | _ \<Rightarrow> throw (indexed (c @ ''.top_tags'') i @ '' must be an object'')) = return t" by blast
  then show ?thesis
    by (cases v) (auto simp: andThen_eq_return intro: ReadOptionalDouble_finite)
qed

lemma ReadTags_ok: "ReadTags fs c e = return e' \<Longrightarrow> entry_ok e \<Longrightarrow> entry_ok e'"
  by (auto simp: ReadTags_def entry_ok_def andThen_eq_return Let_def split: option.splits)
    (erule ReadOptionalInt_range | erule (1) ReadOptionalTopTags_finite)+

lemma ReadRating_ok: "ReadRating fs c e = return e' \<Longrightarrow> entry_ok e \<Longrightarrow> entry_ok e'"
  by (auto simp: ReadRating_def entry_ok_def andThen_eq_return Let_def split: option.splits)
    (erule ReadOptionalInt_range | erule ReadOptionalDouble_finite)+

lemma ReadSearch_ok: "ReadSearch fs c e = return e' \<Longrightarrow> entry_ok e \<Longrightarrow> entry_ok e'"
  by (auto simp: ReadSearch_def entry_ok_def andThen_eq_return Let_def split: option.splits)

lemma ReadExt_ok: "ReadExt fs c e = return e' \<Longrightarrow> entry_ok e \<Longrightarrow> entry_ok e'"
  by (auto simp: ReadExt_def entry_ok_def andThen_eq_return Let_def split: option.splits)

lemma ParseEntryFromJsonObject_ok:
  assumes "ParseEntryFromJsonObject fs c = return e"
  shows "entry_ok e"
proof -
  from assms obtain i t tr tn y g e1 e2 e3 where
    "i \<noteq> 0" and y: "ReadOptionalInt fs ''year'' c = return y" and
    r: "ReadTags fs c (ItemIndexEntry_default\<lparr>ix_item_id := i, ix_title := t, ix_title_raw := tr,
            ix_title_norm := tn, ix_year := y, ix_genres := g\<rparr>) = return e1"
      "ReadRating fs c e1 = return e2" "ReadSearch fs c e2 = return e3" "ReadExt fs c e3 = return e"
    by (auto simp: ParseEntryFromJsonObject_def andThen_eq_return split: if_splits)
  have "entry_ok (ItemIndexEntry_default\<lparr>ix_item_id := i, ix_title := t, ix_title_raw := tr,
            ix_title_norm := tn, ix_year := y, ix_genres := g\<rparr>)"
    using \<open>i \<noteq> 0\<close> ReadOptionalInt_range [OF y]
    by (simp add: entry_ok_def ItemIndexEntry_default_def int_range_def int_min_def int_max_def)
  with r show ?thesis by (blast intro: ReadTags_ok ReadRating_ok ReadSearch_ok ReadExt_ok)
qed

text \<open>
  Reading an entry is exact: the entries that come out of documents are those with a non-zero
  id, counts and year in the range of \<open>int\<close> and finite weights and rating, and each of them is
  read back, every field, from the document written for it.
\<close>

theorem item_entry_reads_exactly:
  "(entry_ok e \<longleftrightarrow> (\<exists>object. ParseEntryFromJsonObject object context = return e)) \<and>
   (\<forall>e'. entry_ok e' \<longrightarrow> ParseEntryFromJsonObject (entry_json e') context = return e')"
  using ParseEntryFromJsonObject_ok ParseEntryFromJsonObject_json by blast

theorem item_entry_reads_exactly_witness:
  "ParseEntryFromJsonObject (entry_json (ItemIndexEntry_default\<lparr>ix_item_id := 7, ix_genres := [''Drama'']\<rparr>)) ''x'' =
     return (ItemIndexEntry_default\<lparr>ix_item_id := 7, ix_genres := [''Drama'']\<rparr>)"
proof -
  have "entry_ok (ItemIndexEntry_default\<lparr>ix_item_id := 7, ix_genres := [''Drama'']\<rparr>)"
    by (simp add: entry_ok_def ItemIndexEntry_default_def int_range_def int_min_def int_max_def)
  then show ?thesis
    using item_entry_reads_exactly [of _ "''x''"] by blast
qed

section \<open>Loading a file\<close>

text \<open>A document describes an entry when that is what is read out of it, wherever it stands.\<close>

definition describes :: "fields \<Rightarrow> ItemIndexEntry \<Rightarrow> bool" where
  "describes object e \<longleftrightarrow> (\<forall>context. ParseEntryFromJsonObject object context = return e)"

text \<open>The index of a list of entries: the last entry of an id wins.\<close>

definition index_of :: "ItemIndexEntry list \<Rightarrow> item_index" where
  "index_of es = map_of (map (\<lambda>e. (ix_item_id e, e)) (rev es))"

lemma foldl_AddEntry: "foldl (\<lambda>m e. AddEntry e m) m es = m ++ index_of es"
  by (induction es arbitrary: m) (simp_all add: AddEntry_def index_of_def map_add_assoc [symmetric])

lemma parse_lines_describes:
  assumes "list_all2 (\<lambda>l e. \<exists>object. to_object l = Inr object \<and> describes object e)
    (filter (\<lambda>l. \<not> IsBlank l) lines) es"
  shows "parse_lines to_object n lines m = return (foldl (\<lambda>m e. AddEntry e m) m es)"
  using assms
proof (induction lines arbitrary: n m es)
  case (Cons l lines)
  show ?case
  proof (cases "IsBlank l")
    case True
    with Cons show ?thesis by (simp add: Let_def)
  next
    case False
    with Cons.prems obtain e es' object where es: "es = e # es'" "to_object l = Inr object" "describes object e"
      "list_all2 (\<lambda>l e. \<exists>object. to_object l = Inr object \<and> describes object e)
        (filter (\<lambda>l. \<not> IsBlank l) lines) es'"
      by (auto simp: list_all2_Cons1)
    with False Cons.IH [OF es(4)] show ?thesis
      by (simp add: Let_def ParseJsonObjectText_def ParseEntryFromJsonString_def ParseObject_def describes_def)
  qed
qed simp

lemma parse_values_describes:
  assumes "list_all2 (\<lambda>v e. \<exists>object. v = StructValue object \<and> describes object e) vs es"
  shows "parse_values n vs m = return (foldl (\<lambda>m e. AddEntry e m) m es)"
  using assms
  by (induction arbitrary: n m rule: list_all2_induct) (auto simp: describes_def)

text \<open>
  C14. Both formats of the index file mean the same: the file of JSON lines (blank lines are skipped)
  and the file of one JSON array that hold the same documents load the same index, in which an id
  is found with the last entry the file gives for it and an id the file does not give is not found.
\<close>

theorem item_index_formats_agree:
  assumes "read_file lines_path = Some lines_text" "FirstNonBlankChar lines_text \<notin> {CHR 0x00, CHR ''[''}"
    "list_all2 (\<lambda>l e. \<exists>object. to_object l = Inr object \<and> describes object e)
       (filter (\<lambda>l. \<not> IsBlank l) (getlines lines_text)) es"
    and "read_file array_path = Some array_text" "FirstNonBlankChar array_text = CHR ''[''"
    "to_value array_text = Inr (ListValue vs)"
    "list_all2 (\<lambda>v e. \<exists>object. v = StructValue object \<and> describes object e) vs es"
  shows "LocalFileItemIndexStore_new to_object to_value read_file lines_path = return (index_of es) \<and>
    LocalFileItemIndexStore_new to_object to_value read_file array_path = return (index_of es) \<and>
    LocalFileItemIndexStore_FindByItemId (index_of es) i =
      find (\<lambda>e. ix_item_id e = i) (rev es)"
proof (intro conjI)
  have "parse_lines to_object 0 (getlines lines_text) Map.empty = return (index_of es)"
    using parse_lines_describes [OF assms(3), of 0 Map.empty] by (simp add: foldl_AddEntry)
  then show "LocalFileItemIndexStore_new to_object to_value read_file lines_path = return (index_of es)"
    using assms(1,2)
    by (simp add: LocalFileItemIndexStore_new_def LocalFileItemIndexStore_LoadFromFile_def Let_def
        ParseJsonlContent_def return_def)
  have "parse_values 0 vs Map.empty = return (index_of es)"
    using parse_values_describes [OF assms(7), of 0 Map.empty] by (simp add: foldl_AddEntry)
  then show "LocalFileItemIndexStore_new to_object to_value read_file array_path = return (index_of es)"
    using assms(4-6)
    by (simp add: LocalFileItemIndexStore_new_def LocalFileItemIndexStore_LoadFromFile_def Let_def
        ParseJsonArrayContent_def ParseValue_def return_def)
  have "map_of (map (\<lambda>e. (ix_item_id e, e)) xs) i = find (\<lambda>e. ix_item_id e = i) xs" for xs
    by (induction xs) auto
  then show "LocalFileItemIndexStore_FindByItemId (index_of es) i = find (\<lambda>e. ix_item_id e = i) (rev es)"
    by (simp only: LocalFileItemIndexStore_FindByItemId_def index_of_def)
qed

definition demo_entry :: "uint64 \<Rightarrow> string \<Rightarrow> ItemIndexEntry" where
  "demo_entry i t = ItemIndexEntry_default\<lparr>ix_item_id := i, ix_title := t\<rparr>"

lemma demo_entry_described: "i \<noteq> 0 \<Longrightarrow> describes (entry_json (demo_entry i t)) (demo_entry i t)"
  by (simp add: describes_def ParseEntryFromJsonObject_json entry_ok_def demo_entry_def
      ItemIndexEntry_default_def int_range_def int_min_def int_max_def)

theorem item_index_formats_agree_witness:
  "\<exists>to_object to_value read_file index.
     LocalFileItemIndexStore_new to_object to_value read_file ''a.jsonl'' = return index \<and>
     LocalFileItemIndexStore_new to_object to_value read_file ''a.json'' = return index \<and>
     map_option ix_title (LocalFileItemIndexStore_FindByItemId index 7) = Some ''new''"
proof -
  let ?old = "demo_entry 7 ''old''" and ?new = "demo_entry 7 ''new''"
  let ?to_object = "\<lambda>l. if l = ''{1}'' then Inr (entry_json ?old) else Inr (entry_json ?new)"
  let ?to_value = "\<lambda>_. Inr (ListValue [StructValue (entry_json ?old), StructValue (entry_json ?new)])"
  let ?read_file = "\<lambda>p. if p = ''a.jsonl'' then Some (''{1}'' @ newline # newline # ''{2}'') else Some ''[{1},{2}]''"
  note d = demo_entry_described [of 7]
  have lines: "getlines (''{1}'' @ newline # newline # ''{2}'') = [''{1}'', [], ''{2}'']"
    using getlines_line [of "''{1}''" "newline # ''{2}''"] getlines_line [of "[]" "''{2}''"]
      getlines_last [of "''{2}''"] by (simp add: newline_def del: getlines.simps)
  have blank: "filter (\<lambda>l. \<not> IsBlank l) [''{1}'', [], ''{2}''] = [''{1}'', ''{2}'']"
    by (simp add: IsBlank_def is_blank_char_def)
  have first: "FirstNonBlankChar (''{1}'' @ newline # newline # ''{2}'') = CHR ''{''"
    "FirstNonBlankChar ''[{1},{2}]'' = CHR ''[''"
    by (simp_all add: FirstNonBlankChar_def is_blank_char_def)
  have "map_option ix_title (find (\<lambda>e. ix_item_id e = 7) (rev [?old, ?new])) = Some ''new''"
    by (simp add: demo_entry_def)
  moreover have "LocalFileItemIndexStore_new ?to_object ?to_value ?read_file ''a.jsonl'' = return (index_of [?old, ?new]) \<and>
    LocalFileItemIndexStore_new ?to_object ?to_value ?read_file ''a.json'' = return (index_of [?old, ?new]) \<and>
    LocalFileItemIndexStore_FindByItemId (index_of [?old, ?new]) 7 = find (\<lambda>e. ix_item_id e = 7) (rev [?old, ?new])"
  proof (rule item_index_formats_agree)
    show "?read_file ''a.jsonl'' = Some (''{1}'' @ newline # newline # ''{2}'')" by simp
    show "?read_file ''a.json'' = Some ''[{1},{2}]''" by simp
    show "?to_value ''[{1},{2}]'' = Inr (ListValue [StructValue (entry_json ?old), StructValue (entry_json ?new)])"
      by simp
    show "list_all2 (\<lambda>l e. \<exists>object. ?to_object l = Inr object \<and> describes object e)
       (filter (\<lambda>l. \<not> IsBlank l) (getlines (''{1}'' @ newline # newline # ''{2}''))) [?old, ?new]"
      unfolding lines blank using d by simp
  qed (use first d in simp_all)
  ultimately show ?thesis
    by (intro exI [of _ ?to_object] exI [of _ ?to_value] exI [of _ ?read_file] exI [of _ "index_of [?old, ?new]"])
       (simp only: simp_thms)
qed

text \<open>
  A load that fails changes nothing and says why; the only other outcome is a load that
  succeeds (or, through the cast of \<open>2 ^ 64\<close>, undefined behaviour).
\<close>

theorem item_index_load_atomic:
  "LocalFileItemIndexStore_LoadFromFile to_object to_value read_file path held = Some ((False, msg), held') \<Longrightarrow>
     held' = held \<and> msg \<noteq> []"
  unfolding LocalFileItemIndexStore_LoadFromFile_def Let_def
proof (cases "read_file path")
  case (Some content)
  let ?loaded = "if FirstNonBlankChar content = CHR ''['' then ParseJsonArrayContent to_value content Map.empty
    else ParseJsonlContent to_object content Map.empty"
  assume "(case read_file path of
        None \<Rightarrow>
          Some ((False, ''LocalFileItemIndexStore::LoadFromFile failed: cannot open file '' @ path), held)
      | Some content \<Rightarrow>
          if FirstNonBlankChar content = CHR 0x00 then Some ((True, []), Map.empty)
          else
            map_option (\<lambda>loaded.
                case loaded of
                  Inl ex \<Rightarrow> ((False, ''LocalFileItemIndexStore::LoadFromFile failed: '' @ what ex), held)
                | Inr loaded_entries \<Rightarrow> ((True, []), loaded_entries))
              (if FirstNonBlankChar content = CHR ''['' then ParseJsonArrayContent to_value content Map.empty
               else ParseJsonlContent to_object content Map.empty)) = Some ((False, msg), held')"
  then obtain loaded where "(case loaded of
                  Inl ex \<Rightarrow> ((False, ''LocalFileItemIndexStore::LoadFromFile failed: '' @ what ex), held)
                | Inr loaded_entries \<Rightarrow> ((True, []), loaded_entries)) = ((False, msg), held')"
    unfolding Some option.case map_option_eq_Some if_split_mem1 by (metis (no_types, lifting) Pair_inject map_option_eq_Some option.inject)
  then show ?thesis by (cases loaded) auto
qed auto

theorem item_index_load_atomic_witness:
  "\<exists>msg. LocalFileItemIndexStore_LoadFromFile (\<lambda>_. Inl ''bad'') (\<lambda>_. Inl ''bad'') (\<lambda>_. Some ''x'') ''p'' [1 \<mapsto> demo_entry 1 ''a'']
     = Some ((False, msg), [1 \<mapsto> demo_entry 1 ''a'']) \<and> msg \<noteq> []"
proof -
  obtain msg held' where l: "LocalFileItemIndexStore_LoadFromFile (\<lambda>_. Inl ''bad'') (\<lambda>_. Inl ''bad'') (\<lambda>_. Some ''x'') ''p''
      [1 \<mapsto> demo_entry 1 ''a''] = Some ((False, msg), held')"
    by (simp add: LocalFileItemIndexStore_LoadFromFile_def Let_def FirstNonBlankChar_def is_blank_char_def
        ParseJsonlContent_def getlines_last newline_def IsBlank_def ParseJsonObjectText_def
        ParseEntryFromJsonString_def ParseObject_def throw_def)
  from item_index_load_atomic [OF this] l show ?thesis by blast
qed

section \<open>The cache over a store\<close>

text \<open>
  C15. Bounded staleness: whatever was looked up before, an answer of the caching store is what the
  store it wraps answers now, or an entry that store gave for the same id less than a time to live
  before; and while the store's answers do not change, the cache cannot be told from it. A lookup
  always returns.
\<close>

theorem item_cache_staleness:
  "\<exists>cache r cache'.
     run_lookups CachingItemIndexStore_FindByItemId (LruCache_new cap d) past = Some cache \<and>
     CachingItemIndexStore_FindByItemId cache l = Some (r, cache') \<and>
     (r = lk_backing l (lk_key l) \<or>
      (\<exists>v. r = Inr (Some v) \<and> (\<exists>l' \<in> set past. lk_key l' = lk_key l \<and>
         lk_backing l' (lk_key l) = Inr (Some v) \<and> lk_get_time l < lk_put_time l' + d)))"
proof -
  have "lru_abs (LruCache_new cap d :: (uint64, ItemIndexEntry) LruCache) = []"
    "ttl (LruCache_new cap d :: (uint64, ItemIndexEntry) LruCache) = d"
    by (simp_all add: lru_abs_def LruCache_new_def)
  then show ?thesis using item_cache.staleness [OF lru_inv_new, of cap d past l] by simp
qed

end
