(* ===== verification/HeuristicRanker.thy ===== *)
theory HeuristicRanker
  imports Orchestrator CandidatePool ItemIndexStore
begin

text \<open>
  The heuristic ranker (src/src/recommendation_engine/ranking/heuristic_ranker.cpp and ranker.h): a
  task merges the request's candidates, looks all their items up in the item index, scores each one
  by factors and fills the response in the order of the scores. The store is what it answers during
  the request; \<open>std::log1p\<close> is an argument. A null pointer is \<open>None\<close>; an exception of the
  store leaves \<open>Run\<close> with the response as it is then.
\<close>

section \<open>Weights of the profile\<close>

type_synonym 'k weights = "'k \<rightharpoonup> float64"

definition add_weight :: "'k \<Rightarrow> float64 \<Rightarrow> 'k weights \<Rightarrow> 'k weights" where
  "add_weight k w weights =
     weights(k \<mapsto> fadd (case weights k of None \<Rightarrow> Fin 0 | Some v \<Rightarrow> v) w)"

definition AddWeight :: "string \<Rightarrow> float64 \<Rightarrow> string weights \<Rightarrow> string weights" where
  "AddWeight name weight weights = (if name = [] then weights else add_weight name weight weights)"

definition BuildGenreWeights :: "Profile \<Rightarrow> string weights" where
  "BuildGenreWeights profile =
     foldl (\<lambda>weights genre. AddWeight (gi_genre genre) (gi_weight genre) weights) Map.empty
       (in_genres (pf_interests profile))"

definition BuildTagWeights :: "Profile \<Rightarrow> string weights" where
  "BuildTagWeights profile =
     foldl (\<lambda>weights tag. AddWeight (ti_tag tag) (ti_weight tag) weights) Map.empty
       (in_tags (pf_interests profile))"

definition BuildNegativeGenreWeights :: "Profile \<Rightarrow> string weights" where
  "BuildNegativeGenreWeights profile =
     foldl (\<lambda>weights genre. AddWeight (gi_genre genre) (gi_weight genre) weights) Map.empty
       (nf_genres (pf_negative_feedbacks profile))"

definition BuildNegativeTagWeights :: "Profile \<Rightarrow> string weights" where
  "BuildNegativeTagWeights profile =
     foldl (\<lambda>weights tag. AddWeight (ti_tag tag) (ti_weight tag) weights) Map.empty
       (nf_tags (pf_negative_feedbacks profile))"

definition BuildNegativeItemWeights :: "Profile \<Rightarrow> uint64 weights" where
  "BuildNegativeItemWeights profile =
     foldl (\<lambda>weights item.
         if sint (wi_item_id item) \<le> 0 then weights
         else add_weight (wi_item_id item) (wi_weight item) weights) Map.empty
       (nf_items (pf_negative_feedbacks profile))"

definition LookupWeight :: "string weights \<Rightarrow> string \<Rightarrow> float64" where
  "LookupWeight weights name = (case weights name of None \<Rightarrow> Fin 0 | Some w \<Rightarrow> w)"

definition LookupItemWeight :: "uint64 weights \<Rightarrow> uint64 \<Rightarrow> float64" where
  "LookupItemWeight weights item_id = (case weights item_id of None \<Rightarrow> Fin 0 | Some w \<Rightarrow> w)"

section \<open>Merging the candidates of the request\<close>

type_synonym ranker_merge_state = "CandidateItem list \<times> (uint64 \<rightharpoonup> nat)"

fun normalize_and_merge_step :: "ranker_merge_state \<Rightarrow> CandidateItem \<Rightarrow> ranker_merge_state" where
  "normalize_and_merge_step (candidates, index_by_item_id) candidate =
     (if ci_item_id candidate = 0 then (candidates, index_by_item_id)
      else
        (case index_by_item_id (ci_item_id candidate) of
           Some j \<Rightarrow> (candidates[j := Ranker_MergeCandidate candidate (candidates ! j)], index_by_item_id)
         | None \<Rightarrow>
             let normalized_candidate = Ranker_NormalizeCandidate candidate
             in (candidates @ [normalized_candidate],
                 index_by_item_id(ci_item_id normalized_candidate \<mapsto> length candidates))))"

definition NormalizeAndMergeCandidates :: "RankRequest \<Rightarrow> CandidateItem list" where
  "NormalizeAndMergeCandidates request =
     fst (foldl normalize_and_merge_step ([], Map.empty) (rkq_candidates request))"

section \<open>Scores\<close>

fun add_genre_weights :: "string weights \<Rightarrow> string list \<Rightarrow> float64 \<Rightarrow> float64" where
  "add_genre_weights weights [] score = score"
| "add_genre_weights weights (genre # genres) score =
     add_genre_weights weights genres (fadd score (LookupWeight weights genre))"

fun add_tag_weights :: "string weights \<Rightarrow> ItemIndexWeightedTag list \<Rightarrow> float64 \<Rightarrow> float64" where
  "add_tag_weights weights [] score = score"
| "add_tag_weights weights (tag # tags) score =
     (if fle (iw_weight tag) (Fin 0) then add_tag_weights weights tags score
      else add_tag_weights weights tags (fadd score (LookupWeight weights (iw_tag tag))))"

definition ComputeInterestScore :: "ItemIndexEntry \<Rightarrow> string weights \<Rightarrow> string weights \<Rightarrow> float64" where
  "ComputeInterestScore entry genre_weights tag_weights =
     add_tag_weights tag_weights (ix_top_tags entry)
       (add_genre_weights genre_weights (ix_genres entry) (Fin 0))"

definition ComputeNegativeFeedbackScore :: "ItemIndexEntry \<Rightarrow> string weights \<Rightarrow> string weights \<Rightarrow> float64" where
  "ComputeNegativeFeedbackScore entry negative_genre_weights negative_tag_weights =
     add_tag_weights negative_tag_weights (ix_top_tags entry)
       (add_genre_weights negative_genre_weights (ix_genres entry) (Fin 0))"

definition ComputeQualityScore :: "(float64 \<Rightarrow> float64) \<Rightarrow> ItemIndexEntry \<Rightarrow> float64" where
  "ComputeQualityScore log1p entry =
     (if fle (ir_avg (ix_rating entry)) (Fin 0) \<or> ir_count (ix_rating entry) \<le> 0 then Fin 0
      else fmul (fdiv (ir_avg (ix_rating entry)) 5) (log1p (to_double (ir_count (ix_rating entry)))))"

definition BuildScoreFactor ::
  "RankingScoreFactorType \<Rightarrow> string \<Rightarrow> float64 \<Rightarrow> float64 \<Rightarrow> string \<Rightarrow> RankingScoreFactor" where
  "BuildScoreFactor factor_type name raw_value weight description =
     \<lparr>sf_factor_type = factor_type, sf_name = name, sf_raw_value = raw_value, sf_weight = weight,
      sf_contribution = fmul raw_value weight, sf_description = description\<rparr>"

definition FillItemFeatures :: "ItemIndexEntry \<Rightarrow> RankingItemFeatures" where
  "FillItemFeatures entry =
     \<lparr>if_item_id = ix_item_id entry, if_title = ix_title entry, if_year = ix_year entry,
      if_genres = ix_genres entry,
      if_top_tags = map (\<lambda>tag. \<lparr>wt_tag = iw_tag tag, wt_weight = iw_weight tag\<rparr>) (ix_top_tags entry),
      if_rating = \<lparr>rf_avg = ir_avg (ix_rating entry), rf_count = ir_count (ix_rating entry)\<rparr>\<rparr>"

section \<open>The task\<close>

type_synonym item_index_store = "uint64 list \<Rightarrow> ItemIndexEntry option list throws"

record ScoredCandidate =
  sc_candidate :: CandidateItem
  sc_item_index_entry :: "ItemIndexEntry option"
  sc_rank_score :: float64
  sc_score_factors :: "RankingScoreFactor list"

record HeuristicRankTask =
  ht_request :: RankRequest
  ht_response :: "RankResponse option"
  ht_item_index_store :: "item_index_store option"
  ht_genre_weights :: "string weights"
  ht_tag_weights :: "string weights"
  ht_negative_genre_weights :: "string weights"
  ht_negative_tag_weights :: "string weights"
  ht_negative_item_weights :: "uint64 weights"

definition HeuristicRankTask_new ::
  "RankRequest \<Rightarrow> RankResponse option \<Rightarrow> item_index_store option \<Rightarrow> HeuristicRankTask" where
  "HeuristicRankTask_new request response store =
     (let profile = (case rkq_profile request of None \<Rightarrow> Profile_default | Some p \<Rightarrow> p)
      in \<lparr>ht_request = request, ht_response = response, ht_item_index_store = store,
          ht_genre_weights = BuildGenreWeights profile,
          ht_tag_weights = BuildTagWeights profile,
          ht_negative_genre_weights = BuildNegativeGenreWeights profile,
          ht_negative_tag_weights = BuildNegativeTagWeights profile,
          ht_negative_item_weights = BuildNegativeItemWeights profile\<rparr>)"

definition AddFactor ::
  "float64 \<Rightarrow> float64 \<Rightarrow> RankingScoreFactorType \<Rightarrow> string \<Rightarrow> string \<Rightarrow> ScoredCandidate \<Rightarrow> ScoredCandidate" where
  "AddFactor raw_value weight factor_type name description scored_candidate =
     (let factor = BuildScoreFactor factor_type name raw_value weight description
      in scored_candidate
           \<lparr>sc_rank_score := fadd (sc_rank_score scored_candidate) (sf_contribution factor),
            sc_score_factors := sc_score_factors scored_candidate @ [factor]\<rparr>)"

text \<open>The updated negative feedback score and the updated candidate.\<close>

definition AddItemFactors ::
  "(float64 \<Rightarrow> float64) \<Rightarrow> HeuristicRankTask \<Rightarrow> ItemIndexEntry \<Rightarrow> float64 \<Rightarrow> ScoredCandidate \<Rightarrow>
     float64 \<times> ScoredCandidate" where
  "AddItemFactors log1p task entry negative_feedback_score scored_candidate =
     (let scored_candidate =
            AddFactor (ComputeInterestScore entry (ht_genre_weights task) (ht_tag_weights task)) (Fin 1)
              RANKING_SCORE_FACTOR_TYPE_INTEREST ''interest_match''
              ''Genre and tag overlap with positive interests.'' scored_candidate;
          negative_feedback_score =
            fadd negative_feedback_score
              (ComputeNegativeFeedbackScore entry (ht_negative_genre_weights task) (ht_negative_tag_weights task));
          scored_candidate =
            AddFactor (ComputeQualityScore log1p entry) (rnd (1 / 10))
              RANKING_SCORE_FACTOR_TYPE_QUALITY ''quality''
              ''Rating average with log-scaled rating count.'' scored_candidate
      in (negative_feedback_score, scored_candidate))"

definition ScoreCandidate ::
  "(float64 \<Rightarrow> float64) \<Rightarrow> HeuristicRankTask \<Rightarrow> CandidateItem \<Rightarrow> ItemIndexEntry option \<Rightarrow> ScoredCandidate" where
  "ScoreCandidate log1p task candidate entry =
     (let scored_candidate =
            \<lparr>sc_candidate = candidate, sc_item_index_entry = entry, sc_rank_score = Fin 0, sc_score_factors = []\<rparr>;
          scored_candidate =
            AddFactor (ci_retrieve_score candidate) (Fin 1) RANKING_SCORE_FACTOR_TYPE_RETRIEVAL
              ''retrieval'' ''Aggregated retrieval score.'' scored_candidate;
          negative_feedback_score = LookupItemWeight (ht_negative_item_weights task) (ci_item_id candidate);
          (negative_feedback_score, scored_candidate) =
            (case sc_item_index_entry scored_candidate of
               None \<Rightarrow> (negative_feedback_score, scored_candidate)
             | Some e \<Rightarrow> AddItemFactors log1p task e negative_feedback_score scored_candidate)
      in AddFactor negative_feedback_score (Fin (- 1)) RANKING_SCORE_FACTOR_TYPE_NEGATIVE_FEEDBACK
           ''negative_feedback'' ''Item, genre, and tag overlap with negative feedback.'' scored_candidate)"

definition ScoreCandidates ::
  "(float64 \<Rightarrow> float64) \<Rightarrow> HeuristicRankTask \<Rightarrow> CandidateItem list \<Rightarrow> ItemIndexEntry option list \<Rightarrow>
     ScoredCandidate list" where
  "ScoreCandidates log1p task candidates item_index_entries =
     map (\<lambda>(candidate, entry). ScoreCandidate log1p task candidate entry) (zip candidates item_index_entries)"

definition HeuristicRanker_kName :: string where
  "HeuristicRanker_kName = ''heuristic_v1''"

definition FillRankedCandidate :: "HeuristicRankTask \<Rightarrow> ScoredCandidate \<Rightarrow> int \<Rightarrow> RankedCandidateItem" where
  "FillRankedCandidate task scored_candidate rank_position =
     \<lparr>rc_candidate = sc_candidate scored_candidate,
      rc_rank_score = sc_rank_score scored_candidate,
      rc_rank_position = rank_position,
      rc_ranker = HeuristicRanker_kName,
      rc_score_factors =
        (if ro_include_score_factors (rkq_options (ht_request task))
         then sc_score_factors scored_candidate else []),
      rc_item_features =
        (if ro_include_item_features (rkq_options (ht_request task))
         then map_option FillItemFeatures (sc_item_index_entry scored_candidate) else None),
      rc_retrieval_signals = ci_retrieval_signals (sc_candidate scored_candidate)\<rparr>"

definition rank_higher_first :: "ScoredCandidate \<Rightarrow> ScoredCandidate \<Rightarrow> bool" where
  "rank_higher_first lhs rhs =
     (if \<not> feq (sc_rank_score lhs) (sc_rank_score rhs) then flt (sc_rank_score rhs) (sc_rank_score lhs)
      else ci_item_id (sc_candidate lhs) < ci_item_id (sc_candidate rhs))"

fun fill_ranked :: "HeuristicRankTask \<Rightarrow> ScoredCandidate list \<Rightarrow> nat \<Rightarrow> nat \<Rightarrow> RankedCandidateItem list" where
  "fill_ranked task scored_candidates i 0 = []"
| "fill_ranked task scored_candidates i (Suc n) =
     FillRankedCandidate task (scored_candidates ! i) (int i + 1) # fill_ranked task scored_candidates (Suc i) n"

definition HeuristicRankTask_Run ::
  "(float64 \<Rightarrow> float64) \<Rightarrow> HeuristicRankTask \<Rightarrow> RankResponse option \<times> grpc_status throws" where
  "HeuristicRankTask_Run log1p task =
     (case ht_response task of
        None \<Rightarrow> (None, Inr (StatusError INTERNAL ''Rank response must not be null.''))
      | Some response \<Rightarrow>
          (let response = response\<lparr>rks_msg := []\<rparr> in
           case ht_item_index_store task of
             None \<Rightarrow>
               (Some (response\<lparr>rks_status := RANKING_SYSTEM_ERROR, rks_msg := ''Item index store is not initialized.''\<rparr>),
                Inr (StatusError INTERNAL ''Item index store is not initialized.''))
           | Some store \<Rightarrow>
               (let candidates = NormalizeAndMergeCandidates (ht_request task) in
                if candidates = []
                then (Some (response\<lparr>rks_status := RANKING_EMPTY_CANDIDATES,
                              rks_msg := ''No candidates available for ranking.'', rks_ranked_candidate_count := 0\<rparr>),
                      Inr StatusOK)
                else
                  (case store (map ci_item_id candidates) of
                     Inl ex \<Rightarrow> (Some response, Inl ex)
                   | Inr item_index_entries \<Rightarrow>
                       if length item_index_entries \<noteq> length candidates
                       then (let msg = ''Item index store returned '' @ show_nat (length item_index_entries) @
                               '' entries for '' @ show_nat (length candidates) @ '' candidates.''
                             in (Some (response\<lparr>rks_status := RANKING_SYSTEM_ERROR, rks_msg := msg\<rparr>),
                                 Inr (StatusError INTERNAL msg)))
                       else
                         (let scored_candidates =
                                sort_by rank_higher_first (ScoreCandidates log1p task candidates item_index_entries);
                              max_results = min (rkq_max_results (ht_request task)) (int (length scored_candidates));
                              response = response\<lparr>rks_ranked_candidates :=
                                rks_ranked_candidates response @ fill_ranked task scored_candidates 0 (nat max_results)\<rparr>
                          in (Some (response\<lparr>rks_status := RANKING_SUCCESS, rks_msg := [],
                                rks_ranked_candidate_count := int (length (rks_ranked_candidates response))\<rparr>),
                              Inr StatusOK))))))"

section \<open>The ranker\<close>

definition HeuristicRanker_new :: "item_index_store option \<Rightarrow> item_index_store throws" where
  "HeuristicRanker_new store =
     (case store of
        None \<Rightarrow> Inl (InvalidArgument ''HeuristicRanker item_index_store is null.'')
      | Some s \<Rightarrow> Inr s)"

definition HeuristicRanker_CreateTask ::
  "item_index_store \<Rightarrow> RankRequest \<Rightarrow> RankResponse option \<Rightarrow> HeuristicRankTask" where
  "HeuristicRanker_CreateTask store request response = HeuristicRankTask_new request response (Some store)"

section \<open>The merged candidates\<close>

lemma Ranker_MergeCandidate_eq: "Ranker_MergeCandidate source target = MergeCandidate source target"
  by (simp add: Ranker_MergeCandidate_def MergeCandidate_def Ranker_NormalizeCandidate_eq
      Ranker_MergeRetrievalSignal_eq Let_def)

definition item_ids :: "CandidateItem list \<Rightarrow> uint64 list" where
  "item_ids cs = firsts (filter (\<lambda>i. i \<noteq> 0) (map ci_item_id cs))"

lemma length_firsts: "length (firsts xs) \<le> length xs"
  by (metis firsts_def length_remdups_leq length_rev)

lemma length_item_ids: "length (item_ids cs) \<le> length cs"
  unfolding item_ids_def using length_firsts length_filter_le by (metis le_trans length_map)

lemma item_ids_props [simp]:
  "distinct (item_ids cs)" "set (item_ids cs) = ci_item_id ` set cs - {0}"
  by (auto simp: item_ids_def)

lemma chosen_item_ids: "length cs \<le> nat m \<Longrightarrow> chosen_ids m cs = item_ids cs"
  using length_item_ids [of cs] by (simp add: chosen_ids_def item_ids_def)

lemma normalize_and_merge_take:
  "length (fst state) < nat m \<Longrightarrow> normalize_and_merge_step state c = take_candidate m state c"
  by (cases state)
    (auto simp: Ranker_MergeCandidate_eq Ranker_NormalizeCandidate_eq Let_def split: option.splits)

lemma normalize_and_merge_run:
  "length cs \<le> nat m \<Longrightarrow>
     foldl normalize_and_merge_step ([], Map.empty) cs = foldl (take_candidate m) ([], Map.empty) cs"
proof (induction cs rule: rev_induct)
  case (snoc c cs)
  have "length (fst (foldl (take_candidate m) ([], Map.empty) cs)) = length (item_ids cs)"
    using snoc.prems by (simp add: take_candidates_spec chosen_item_ids)
  also have "\<dots> \<le> length cs" by (rule length_item_ids)
  also have "\<dots> < nat m" using snoc.prems by simp
  finally show ?case using snoc by (simp add: normalize_and_merge_take)
qed simp

lemma NormalizeAndMergeCandidates_eq:
  "NormalizeAndMergeCandidates request =
     map (merged_candidate (rkq_candidates request)) (item_ids (rkq_candidates request))"
  using normalize_and_merge_run [of "rkq_candidates request" "int (length (rkq_candidates request))"]
  by (simp add: NormalizeAndMergeCandidates_def take_candidates_spec chosen_item_ids)

lemma merged_item_id:
  "i \<in> set (item_ids cs) \<Longrightarrow> ci_item_id (merged_candidate cs i) = i"
  using merged_candidate_props [of i cs] by auto

lemma merged_item_ids: "map (\<lambda>i. ci_item_id (merged_candidate cs i)) (item_ids cs) = item_ids cs"
  by (rule map_idI) (rule merged_item_id)

section \<open>Weights and scores\<close>

lemma weights_run:
  "(foldl (\<lambda>weights x. if skip x then weights else add_weight (key x) (w x) weights) weights xs) k =
     (case filter (\<lambda>x. \<not> skip x \<and> key x = k) xs of
        [] \<Rightarrow> weights k
      | x # later \<Rightarrow>
          Some (foldl fadd (case weights k of None \<Rightarrow> Fin 0 | Some v \<Rightarrow> v) (map w (x # later))))"
proof (induction xs arbitrary: weights)
  case (Cons x xs)
  show ?case
  proof (cases "\<not> skip x \<and> key x = k")
    case True
    then show ?thesis by (simp add: Cons add_weight_def split: list.splits)
  next
    case False
    then have "(if skip x then weights else add_weight (key x) (w x) weights) k = weights k"
      by (auto simp: add_weight_def)
    with False show ?thesis by (simp only: foldl.simps filter.simps Cons.IH if_False)
  qed
qed simp

text \<open>The weight of a name: the sum, in order, of the weights the profile gives for it.\<close>

definition total_weight :: "('x \<Rightarrow> float64) \<Rightarrow> ('x \<Rightarrow> bool) \<Rightarrow> 'x list \<Rightarrow> float64" where
  "total_weight w p xs = foldl fadd (Fin 0) (map w (filter p xs))"

lemma lookup_weights:
  "(case (foldl (\<lambda>weights x. if skip x then weights else add_weight (key x) (w x) weights) Map.empty xs) k of
      None \<Rightarrow> Fin 0 | Some v \<Rightarrow> v) = total_weight w (\<lambda>x. \<not> skip x \<and> key x = k) xs"
  unfolding weights_run total_weight_def
  by (cases "filter (\<lambda>x. \<not> skip x \<and> key x = k) xs") simp_all

lemma profile_weights:
  "LookupWeight (BuildGenreWeights p) g =
     total_weight gi_weight (\<lambda>x. gi_genre x \<noteq> [] \<and> gi_genre x = g) (in_genres (pf_interests p))"
  "LookupWeight (BuildTagWeights p) g =
     total_weight ti_weight (\<lambda>x. ti_tag x \<noteq> [] \<and> ti_tag x = g) (in_tags (pf_interests p))"
  "LookupWeight (BuildNegativeGenreWeights p) g =
     total_weight gi_weight (\<lambda>x. gi_genre x \<noteq> [] \<and> gi_genre x = g) (nf_genres (pf_negative_feedbacks p))"
  "LookupWeight (BuildNegativeTagWeights p) g =
     total_weight ti_weight (\<lambda>x. ti_tag x \<noteq> [] \<and> ti_tag x = g) (nf_tags (pf_negative_feedbacks p))"
  "LookupItemWeight (BuildNegativeItemWeights p) i =
     total_weight wi_weight (\<lambda>x. 0 < sint (wi_item_id x) \<and> wi_item_id x = i) (nf_items (pf_negative_feedbacks p))"
  using lookup_weights [of "\<lambda>x. gi_genre x = []" gi_genre gi_weight "in_genres (pf_interests p)" g]
    lookup_weights [of "\<lambda>x. ti_tag x = []" ti_tag ti_weight "in_tags (pf_interests p)" g]
    lookup_weights [of "\<lambda>x. gi_genre x = []" gi_genre gi_weight "nf_genres (pf_negative_feedbacks p)" g]
    lookup_weights [of "\<lambda>x. ti_tag x = []" ti_tag ti_weight "nf_tags (pf_negative_feedbacks p)" g]
    lookup_weights [of "\<lambda>x. sint (wi_item_id x) \<le> 0" wi_item_id wi_weight "nf_items (pf_negative_feedbacks p)" i]
  by (simp_all add: LookupWeight_def LookupItemWeight_def BuildGenreWeights_def BuildTagWeights_def
      BuildNegativeGenreWeights_def BuildNegativeTagWeights_def BuildNegativeItemWeights_def AddWeight_def
      not_le)

lemma add_genre_weights_eq: "add_genre_weights ws gs s = foldl fadd s (map (LookupWeight ws) gs)"
  by (induction gs arbitrary: s) simp_all

lemma add_tag_weights_eq:
  "add_tag_weights ws ts s =
     foldl fadd s (map (\<lambda>t. LookupWeight ws (iw_tag t)) (filter (\<lambda>t. \<not> fle (iw_weight t) (Fin 0)) ts))"
  by (induction ts arbitrary: s) simp_all

text \<open>A score is what its factors say, in the order in which they are listed.\<close>

lemma ScoreCandidate_factors:
  "sc_candidate (ScoreCandidate log1p task c e) = c"
  "sc_item_index_entry (ScoreCandidate log1p task c e) = e"
  "sc_rank_score (ScoreCandidate log1p task c e) =
     foldl fadd (Fin 0) (map sf_contribution (sc_score_factors (ScoreCandidate log1p task c e)))"
  "\<forall>f \<in> set (sc_score_factors (ScoreCandidate log1p task c e)).
     sf_contribution f = fmul (sf_raw_value f) (sf_weight f)"
  by (auto simp: ScoreCandidate_def AddItemFactors_def AddFactor_def BuildScoreFactor_def Let_def
      split: option.splits)

lemma ScoreCandidate_values:
  "map (\<lambda>f. (sf_factor_type f, sf_raw_value f, sf_weight f)) (sc_score_factors (ScoreCandidate log1p task c e)) =
     [(RANKING_SCORE_FACTOR_TYPE_RETRIEVAL, ci_retrieve_score c, Fin 1)] @
     (case e of None \<Rightarrow> [] | Some x \<Rightarrow>
        [(RANKING_SCORE_FACTOR_TYPE_INTEREST, ComputeInterestScore x (ht_genre_weights task) (ht_tag_weights task), Fin 1),
         (RANKING_SCORE_FACTOR_TYPE_QUALITY, ComputeQualityScore log1p x, rnd (1 / 10))]) @
     [(RANKING_SCORE_FACTOR_TYPE_NEGATIVE_FEEDBACK,
       (case e of None \<Rightarrow> LookupItemWeight (ht_negative_item_weights task) (ci_item_id c)
        | Some x \<Rightarrow> fadd (LookupItemWeight (ht_negative_item_weights task) (ci_item_id c))
            (ComputeNegativeFeedbackScore x (ht_negative_genre_weights task) (ht_negative_tag_weights task))),
       Fin (- 1))]"
  by (simp add: ScoreCandidate_def AddItemFactors_def AddFactor_def BuildScoreFactor_def Let_def
      split: option.splits)

section \<open>The answer\<close>

interpretation ranked: keyed_order rank_higher_first "{s. sc_rank_score s \<noteq> NaN}" "\<lambda>s. ci_item_id (sc_candidate s)"
  using score_keyed_order [of sc_rank_score "\<lambda>s. ci_item_id (sc_candidate s)"]
  by (simp add: score_before_def [abs_def] rank_higher_first_def [abs_def])

lemma fill_ranked_eq:
  "fill_ranked task xs i n = map (\<lambda>j. FillRankedCandidate task (xs ! j) (int j + 1)) [i..<i + n]"
  by (induction n arbitrary: i) (simp_all add: upt_conv_Cons del: upt_Suc)

text \<open>The scored candidates in the order of the answer.\<close>

definition ranking ::
  "(float64 \<Rightarrow> float64) \<Rightarrow> HeuristicRankTask \<Rightarrow> ItemIndexEntry option list \<Rightarrow> ScoredCandidate list" where
  "ranking log1p task es =
     (let cs = rkq_candidates (ht_request task)
      in sort_by rank_higher_first
           (map (\<lambda>(i, e). ScoreCandidate log1p task (merged_candidate cs i) e) (zip (item_ids cs) es)))"

definition answer_of :: "HeuristicRankTask \<Rightarrow> ScoredCandidate list \<Rightarrow> RankedCandidateItem list" where
  "answer_of task scored =
     map (\<lambda>j. FillRankedCandidate task (scored ! j) (int j + 1))
       [0..<min (nat (rkq_max_results (ht_request task))) (length scored)]"

lemma ScoreCandidates_merged:
  "ScoreCandidates log1p task (NormalizeAndMergeCandidates request) es =
     map (\<lambda>(i, e). ScoreCandidate log1p task (merged_candidate (rkq_candidates request) i) e)
       (zip (item_ids (rkq_candidates request)) es)"
  by (simp add: ScoreCandidates_def NormalizeAndMergeCandidates_eq zip_map1 comp_def case_prod_beta)

lemma min_nat: "nat (min a (int n)) = min (nat a) n"
  by (auto simp: min_def)

lemma HeuristicRankTask_Run_eq:
  assumes "ht_response task = Some response" "ht_item_index_store task = Some store"
    "ids = item_ids (rkq_candidates (ht_request task))" "ids \<noteq> []"
    "store ids = Inr es" "length es = length ids"
  shows "HeuristicRankTask_Run log1p task =
    (Some (response\<lparr>rks_ranked_candidates := rks_ranked_candidates response @ answer_of task (ranking log1p task es),
       rks_status := RANKING_SUCCESS, rks_msg := [],
       rks_ranked_candidate_count :=
         int (length (rks_ranked_candidates response @ answer_of task (ranking log1p task es)))\<rparr>), Inr StatusOK)"
proof -
  have sorted: "sort_by rank_higher_first (ScoreCandidates log1p task (NormalizeAndMergeCandidates (ht_request task)) es) =
      ranking log1p task es"
    by (simp add: ScoreCandidates_merged ranking_def Let_def)
  have ids: "map ci_item_id (NormalizeAndMergeCandidates (ht_request task)) = ids"
    "length (NormalizeAndMergeCandidates (ht_request task)) = length ids"
    "NormalizeAndMergeCandidates (ht_request task) \<noteq> []"
    using assms(3,4) by (simp_all add: NormalizeAndMergeCandidates_eq comp_def merged_item_ids)
  have "fill_ranked task (ranking log1p task es) 0
      (nat (min (rkq_max_results (ht_request task)) (int (length (ranking log1p task es))))) =
      answer_of task (ranking log1p task es)"
    using min_nat [of "rkq_max_results (ht_request task)" "length (ranking log1p task es)"]
    by (simp add: fill_ranked_eq answer_of_def)
  then show ?thesis
    using assms(1,2,5,6) ids by (simp add: HeuristicRankTask_Run_def Let_def sorted)
qed


definition scored_items ::
  "(float64 \<Rightarrow> float64) \<Rightarrow> HeuristicRankTask \<Rightarrow> ItemIndexEntry option list \<Rightarrow> ScoredCandidate list" where
  "scored_items log1p task es =
     (let cs = rkq_candidates (ht_request task)
      in map (\<lambda>(i, e). ScoreCandidate log1p task (merged_candidate cs i) e) (zip (item_ids cs) es))"

lemma scored_items_ids:
  "length es = length (item_ids (rkq_candidates (ht_request task))) \<Longrightarrow>
     map (\<lambda>s. ci_item_id (sc_candidate s)) (scored_items log1p task es) = item_ids (rkq_candidates (ht_request task))"
  by (simp add: scored_items_def Let_def comp_def case_prod_beta ScoreCandidate_factors)
    (simp add: map_fst_zip [symmetric] merged_item_ids comp_def
      flip: map_map [of "\<lambda>i. ci_item_id (merged_candidate (rkq_candidates (ht_request task)) i)" fst, unfolded comp_def])

lemma ranking_sorted:
  assumes "length es = length (item_ids (rkq_candidates (ht_request task)))"
    "\<forall>s \<in> set (scored_items log1p task es). sc_rank_score s \<noteq> NaN"
  shows "sorted_wrt rank_higher_first (ranking log1p task es)"
    "mset (ranking log1p task es) = mset (scored_items log1p task es)"
proof -
  have eq: "ranking log1p task es = sort_by rank_higher_first (scored_items log1p task es)"
    by (simp add: ranking_def scored_items_def Let_def)
  then show "mset (ranking log1p task es) = mset (scored_items log1p task es)"
    by (simp add: mset_sort_by)
  show "sorted_wrt rank_higher_first (ranking log1p task es)"
    unfolding eq using assms scored_items_ids [OF assms(1), of log1p]
    by (intro ranked.sort_by_strictly_sorted) auto
qed

lemma answer_of_eq:
  assumes "best = take (nat (rkq_max_results (ht_request task))) scored"
  shows "answer_of task scored = map (\<lambda>(s, k). FillRankedCandidate task s k) (zip best [1..int (length best)])"
proof (rule nth_equalityI)
  show "length (answer_of task scored) =
      length (map (\<lambda>(s, k). FillRankedCandidate task s k) (zip best [1..int (length best)]))"
    using assms by (simp add: answer_of_def min.commute)
  fix j
  assume "j < length (answer_of task scored)"
  then have j: "j < min (nat (rkq_max_results (ht_request task))) (length scored)" by (simp add: answer_of_def)
  then have j': "j < length best" using assms by simp
  then have "[1..int (length best)] ! j = 1 + int j" by (intro nth_upto) simp
  with j j' show "answer_of task scored ! j =
      map (\<lambda>(s, k). FillRankedCandidate task s k) (zip best [1..int (length best)]) ! j"
    using assms by (simp add: answer_of_def add.commute)
qed

text \<open>
  C11. The ranker returns the best: each item of the request once, merged from all its candidates and
  scored with its entry of the index; the answer holds the first ones of them, strictly ordered by
  score and then by id, numbered from 1, as many as wanted; every item left out comes after them.
\<close>

theorem heuristic_ranks_the_best:
  assumes "task = HeuristicRanker_CreateTask store request (Some response)" "rks_ranked_candidates response = []"
    "ids = item_ids (rkq_candidates request)" "ids \<noteq> []" "store ids = Inr es" "length es = length ids"
    "\<forall>s \<in> set (scored_items log1p task es). sc_rank_score s \<noteq> NaN"
  shows "\<exists>best rest.
    mset (best @ rest) = mset (map (\<lambda>(i, e). ScoreCandidate log1p task (merged_candidate (rkq_candidates request) i) e)
      (zip ids es)) \<and>
    sorted_wrt rank_higher_first (best @ rest) \<and> length best = min (nat (rkq_max_results request)) (length ids) \<and>
    HeuristicRankTask_Run log1p task =
      (Some (response\<lparr>rks_status := RANKING_SUCCESS, rks_msg := [], rks_ranked_candidate_count := int (length best),
         rks_ranked_candidates := map (\<lambda>(s, k). FillRankedCandidate task s k) (zip best [1..int (length best)])\<rparr>),
       Inr StatusOK)"
proof -
  have task: "ht_request task = request" "ht_response task = Some response" "ht_item_index_store task = Some store"
    by (simp_all add: assms(1) HeuristicRanker_CreateTask_def HeuristicRankTask_new_def Let_def)
  let ?scored = "ranking log1p task es"
  let ?best = "take (nat (rkq_max_results request)) ?scored" and ?rest = "drop (nat (rkq_max_results request)) ?scored"
  have es: "length es = length (item_ids (rkq_candidates (ht_request task)))" using assms(3,6) task by simp
  note sorted = ranking_sorted [OF es assms(7)]
  have len: "length ?scored = length ids"
    using arg_cong [OF sorted(2), of size] es assms(3) task(1) by (simp add: scored_items_def Let_def)
  have answer: "answer_of task ?scored =
      map (\<lambda>(s, k). FillRankedCandidate task s k) (zip ?best [1..int (length ?best)])"
    by (rule answer_of_eq) (simp add: task)
  have "HeuristicRankTask_Run log1p task =
      (Some (response\<lparr>rks_status := RANKING_SUCCESS, rks_msg := [], rks_ranked_candidate_count := int (length ?best),
         rks_ranked_candidates := map (\<lambda>(s, k). FillRankedCandidate task s k) (zip ?best [1..int (length ?best)])\<rparr>),
       Inr StatusOK)"
    unfolding HeuristicRankTask_Run_eq [OF task(2,3) _ assms(4-6), folded task(1), OF assms(3) [folded task(1)]]
    by (simp add: assms(2) answer)
  moreover have "mset (?best @ ?rest) = mset (map (\<lambda>(i, e). ScoreCandidate log1p task
      (merged_candidate (rkq_candidates request) i) e) (zip ids es))"
    using sorted(2) by (simp add: scored_items_def Let_def task assms(3))
  moreover have "sorted_wrt rank_higher_first (?best @ ?rest)" using sorted(1) by simp
  moreover have "length ?best = min (nat (rkq_max_results request)) (length ids)" using len by (simp add: min.commute)
  ultimately show ?thesis by blast
qed

text \<open>
  C12. Every score explains itself: it is the sum, in the order of the factors, of raw value times
  weight, where the raw values are the retrieval score, the interest and the negative feedback that
  the profile's weights for the item, its genres and its positively weighted tags add up to, and the
  quality; an item that is not in the index has no interest and no quality factor.
\<close>

theorem heuristic_score_explained:
  "(let task = HeuristicRankTask_new request response store;
          s = ScoreCandidate log1p task c e;
          profile = (case rkq_profile request of None \<Rightarrow> Profile_default | Some p \<Rightarrow> p);
          negative_item = total_weight wi_weight (\<lambda>x. 0 < sint (wi_item_id x) \<and> wi_item_id x = ci_item_id c)
            (nf_items (pf_negative_feedbacks profile))
      in sc_rank_score s = foldl fadd (Fin 0) (map (\<lambda>f. fmul (sf_raw_value f) (sf_weight f)) (sc_score_factors s)) \<and>
         map sf_raw_value (sc_score_factors s) =
           (case e of
              None \<Rightarrow> [ci_retrieve_score c, negative_item]
            | Some x \<Rightarrow>
                [ci_retrieve_score c,
                 foldl fadd (Fin 0)
                   (map (\<lambda>g. total_weight gi_weight (\<lambda>y. gi_genre y \<noteq> [] \<and> gi_genre y = g) (in_genres (pf_interests profile)))
                      (ix_genres x) @
                    map (\<lambda>t. total_weight ti_weight (\<lambda>y. ti_tag y \<noteq> [] \<and> ti_tag y = iw_tag t) (in_tags (pf_interests profile)))
                      (filter (\<lambda>t. \<not> fle (iw_weight t) (Fin 0)) (ix_top_tags x))),
                 ComputeQualityScore log1p x,
                 fadd negative_item (foldl fadd (Fin 0)
                   (map (\<lambda>g. total_weight gi_weight (\<lambda>y. gi_genre y \<noteq> [] \<and> gi_genre y = g) (nf_genres (pf_negative_feedbacks profile)))
                      (ix_genres x) @
                    map (\<lambda>t. total_weight ti_weight (\<lambda>y. ti_tag y \<noteq> [] \<and> ti_tag y = iw_tag t) (nf_tags (pf_negative_feedbacks profile)))
                      (filter (\<lambda>t. \<not> fle (iw_weight t) (Fin 0)) (ix_top_tags x))))]) \<and>
         map sf_weight (sc_score_factors s) =
           (case e of None \<Rightarrow> [Fin 1, Fin (- 1)] | Some x \<Rightarrow> [Fin 1, Fin 1, rnd (1 / 10), Fin (- 1)]))"
proof -
  let ?task = "HeuristicRankTask_new request response store"
  let ?s = "ScoreCandidate log1p ?task c e"
  let ?p = "case rkq_profile request of None \<Rightarrow> Profile_default | Some p \<Rightarrow> p"
  have weighted: "map sf_contribution (sc_score_factors ?s) = map (\<lambda>f. fmul (sf_raw_value f) (sf_weight f)) (sc_score_factors ?s)"
    using ScoreCandidate_factors(4) [of log1p ?task c e] by simp
  note factor_values = ScoreCandidate_values [of log1p ?task c e]
  have "map sf_raw_value (sc_score_factors ?s) = map (fst \<circ> snd) (map (\<lambda>f. (sf_factor_type f, sf_raw_value f, sf_weight f)) (sc_score_factors ?s))"
    "map sf_weight (sc_score_factors ?s) = map (snd \<circ> snd) (map (\<lambda>f. (sf_factor_type f, sf_raw_value f, sf_weight f)) (sc_score_factors ?s))"
    by simp_all
  note raw = this [unfolded factor_values]
  have weights: "ht_genre_weights ?task = BuildGenreWeights ?p" "ht_tag_weights ?task = BuildTagWeights ?p"
    "ht_negative_genre_weights ?task = BuildNegativeGenreWeights ?p"
    "ht_negative_tag_weights ?task = BuildNegativeTagWeights ?p"
    "ht_negative_item_weights ?task = BuildNegativeItemWeights ?p"
    by (simp_all add: HeuristicRankTask_new_def Let_def)
  show ?thesis
    unfolding Let_def raw ScoreCandidate_factors(3) weighted
    by (simp add: weights profile_weights ComputeInterestScore_def
        ComputeNegativeFeedbackScore_def add_genre_weights_eq add_tag_weights_eq comp_def
        profile_weights [abs_def] split: option.split)
qed

lemma merged_candidate_single:
  "distinct (map ci_item_id cs) \<Longrightarrow> c \<in> set cs \<Longrightarrow> merged_candidate cs (ci_item_id c) = NormalizeCandidate c"
proof -
  assume "distinct (map ci_item_id cs)" "c \<in> set cs"
  then have "filter (\<lambda>d. ci_item_id d = ci_item_id c) cs = [c]"
    by (induction cs) (auto simp: filter_empty_conv image_iff)
  then show ?thesis by (simp add: merged_candidate_def)
qed

lemma item_ids_distinct:
  "distinct (map ci_item_id cs) \<Longrightarrow> 0 \<notin> ci_item_id ` set cs \<Longrightarrow> item_ids cs = map ci_item_id cs"
proof -
  assume a: "distinct (map ci_item_id cs)" "0 \<notin> ci_item_id ` set cs"
  then have "filter (\<lambda>i. i \<noteq> 0) (map ci_item_id cs) = map ci_item_id cs" by (auto simp: filter_id_conv)
  moreover have "remdups (rev (map ci_item_id cs)) = rev (map ci_item_id cs)"
    using a by (intro distinct_remdups_id) simp
  ultimately show ?thesis by (simp only: item_ids_def firsts_def rev_rev_ident)
qed

lemma ScoreCandidate_cong:
  "rkq_profile request' = rkq_profile request \<Longrightarrow>
     ScoreCandidate log1p (HeuristicRankTask_new request' r s) = ScoreCandidate log1p (HeuristicRankTask_new request r s)"
  by (intro ext) (simp add: ScoreCandidate_def AddItemFactors_def HeuristicRankTask_new_def Let_def split: option.split)

lemma scored_items_distinct:
  assumes "distinct (map ci_item_id cs)" "0 \<notin> ci_item_id ` set cs" "rkq_candidates (ht_request task) = cs"
  shows "scored_items log1p task (map g (item_ids cs)) =
    map (\<lambda>c. ScoreCandidate log1p task (NormalizeCandidate c) (g (ci_item_id c))) cs"
  unfolding scored_items_def Let_def assms(3) item_ids_distinct [OF assms(1,2)]
  by (simp add: zip_map2 zip_map1 zip_same_conv_map merged_candidate_single [OF assms(1)])

text \<open>
  The order in which the candidates arrive does not matter: for candidates of different items
  and a store that answers each id on its own, any permutation of the request gives the same answer.
\<close>

theorem heuristic_order_irrelevant:
  assumes "mset cs' = mset (rkq_candidates request)" "distinct (map ci_item_id cs')" "0 \<notin> ci_item_id ` set cs'"
    "\<forall>c \<in> set cs'. sc_rank_score (ScoreCandidate log1p (HeuristicRankTask_new request (Some response) (Some (\<lambda>ids. Inr (map g ids))))
       (NormalizeCandidate c) (g (ci_item_id c))) \<noteq> NaN"
  shows "HeuristicRankTask_Run log1p
      (HeuristicRanker_CreateTask (\<lambda>ids. Inr (map g ids)) (request\<lparr>rkq_candidates := cs'\<rparr>) (Some response)) =
    HeuristicRankTask_Run log1p
      (HeuristicRanker_CreateTask (\<lambda>ids. Inr (map g ids)) request (Some response))"
proof (cases "cs' = []")
  case True
  then have "rkq_candidates request = cs'" using assms(1) by simp
  then have "request\<lparr>rkq_candidates := cs'\<rparr> = request" by simp
  then show ?thesis by simp
next
  case False
  let ?store = "\<lambda>ids. Inr (map g ids) :: ItemIndexEntry option list throws"
  let ?cs = "rkq_candidates request"
  let ?t = "HeuristicRankTask_new request (Some response) (Some ?store)"
  let ?t' = "HeuristicRankTask_new (request\<lparr>rkq_candidates := cs'\<rparr>) (Some response) (Some ?store)"
  have fields: "ht_request ?t = request" "ht_request ?t' = request\<lparr>rkq_candidates := cs'\<rparr>"
    "ht_response ?t = Some response" "ht_response ?t' = Some response"
    "ht_item_index_store ?t = Some ?store" "ht_item_index_store ?t' = Some ?store"
    by (simp_all add: HeuristicRankTask_new_def Let_def)
  have d: "distinct (map ci_item_id ?cs)" "0 \<notin> ci_item_id ` set ?cs" "set ?cs = set cs'"
    using assms(1-3) by (metis distinct_map mset_eq_imp_distinct_iff mset_eq_setD mset_map)+
  have score: "ScoreCandidate log1p ?t' = ScoreCandidate log1p ?t" by (rule ScoreCandidate_cong) simp
  have s: "scored_items log1p ?t (map g (item_ids ?cs)) =
      map (\<lambda>c. ScoreCandidate log1p ?t (NormalizeCandidate c) (g (ci_item_id c))) ?cs"
    "scored_items log1p ?t' (map g (item_ids cs')) =
      map (\<lambda>c. ScoreCandidate log1p ?t (NormalizeCandidate c) (g (ci_item_id c))) cs'"
    using scored_items_distinct [OF d(1,2), of ?t log1p g]
      scored_items_distinct [OF assms(2,3), of ?t' log1p g] fields by (simp_all add: score)
  have eq: "ranking log1p t es = sort_by rank_higher_first (scored_items log1p t es)" for t es
    by (simp add: ranking_def scored_items_def Let_def)
  have "ranking log1p ?t' (map g (item_ids cs')) = ranking log1p ?t (map g (item_ids ?cs))"
    unfolding eq s
  proof (rule ranked.sort_by_perm)
    show "inj_on (\<lambda>s. ci_item_id (sc_candidate s)) (set (map (\<lambda>c. ScoreCandidate log1p ?t (NormalizeCandidate c) (g (ci_item_id c))) cs'))"
      using assms(2) by (auto simp: inj_on_def distinct_map ScoreCandidate_factors)
  qed (use assms(4) in \<open>auto simp only: mset_map assms(1) set_map\<close>)
  moreover have "answer_of ?t' = answer_of ?t"
    by (simp add: answer_of_def fun_eq_iff FillRankedCandidate_def fields)
  moreover have "item_ids cs' \<noteq> []" "item_ids ?cs \<noteq> []"
    using False d assms(2,3) by (auto simp: item_ids_distinct)
  ultimately show ?thesis
    unfolding HeuristicRanker_CreateTask_def
    using HeuristicRankTask_Run_eq [of ?t response ?store _ "map g (item_ids ?cs)" log1p]
      HeuristicRankTask_Run_eq [of ?t' response ?store _ "map g (item_ids cs')" log1p] fields by simp
qed

definition demo_rank_request :: RankRequest where
  "demo_rank_request =
     \<lparr>rkq_trace_id = [], rkq_request_id = ''r'', rkq_user_id = 5, rkq_profile = Some Profile_default,
      rkq_candidates = [demo_candidate 9 ''item_cf'', demo_candidate 4 ''item_cf''], rkq_max_results = 1,
      rkq_options = \<lparr>ro_ranker = [], ro_include_score_factors = False, ro_include_item_features = False\<rparr>\<rparr>"

lemma demo_rank_score:
  "sc_rank_score (ScoreCandidate log1p (HeuristicRankTask_new (demo_rank_request\<lparr>rkq_candidates := cs\<rparr>) r s)
     (NormalizeCandidate (demo_candidate i ''item_cf'')) None) = Fin 1"
  by (simp add: ScoreCandidate_def AddFactor_def BuildScoreFactor_def Let_def HeuristicRankTask_new_def demo_rank_request_def
      demo_candidate_def CandidateItem_default_def NormalizeCandidate_def EnsureRetrievalSignals_def
      BuildNegativeItemWeights_def Profile_default_def LookupItemWeight_def float_eval)

lemma demo_rank_ids: "item_ids (rkq_candidates demo_rank_request) = [9, 4]"
  by (simp add: item_ids_def firsts_def demo_rank_request_def demo_candidate_def)

theorem heuristic_ranks_the_best_witness:
  "\<exists>resp. HeuristicRankTask_Run (\<lambda>x. x) (HeuristicRanker_CreateTask (\<lambda>ids. Inr (map (\<lambda>_. None) ids)) demo_rank_request
      (Some RankResponse_default)) = (Some resp, Inr StatusOK) \<and>
    length (rks_ranked_candidates resp) = 1"
proof -
  let ?store = "\<lambda>ids. Inr (map (\<lambda>_. None) ids) :: ItemIndexEntry option list throws"
  let ?t = "HeuristicRanker_CreateTask ?store demo_rank_request (Some RankResponse_default)"
  have req: "demo_rank_request\<lparr>rkq_candidates := rkq_candidates demo_rank_request\<rparr> = demo_rank_request" by simp
  have "scored_items (\<lambda>x. x) ?t (map (\<lambda>_. None) (item_ids (rkq_candidates (ht_request ?t)))) =
      map (\<lambda>c. ScoreCandidate (\<lambda>x. x) ?t (NormalizeCandidate c) None) (rkq_candidates demo_rank_request)"
    using scored_items_distinct [of "rkq_candidates demo_rank_request" ?t "\<lambda>x. x" "\<lambda>_. None"]
    by (simp add: demo_rank_request_def demo_candidate_def HeuristicRanker_CreateTask_def HeuristicRankTask_new_def Let_def)
  then have "scored_items (\<lambda>x. x) ?t [None, None] =
      map (\<lambda>c. ScoreCandidate (\<lambda>x. x) ?t (NormalizeCandidate c) None) (rkq_candidates demo_rank_request)"
    using demo_rank_ids by (simp add: HeuristicRanker_CreateTask_def HeuristicRankTask_new_def Let_def)
  moreover have "sc_rank_score (ScoreCandidate (\<lambda>x. x) ?t (NormalizeCandidate c) None) = Fin 1"
    if "c \<in> set (rkq_candidates demo_rank_request)" for c
    using that demo_rank_score [of "\<lambda>x. x" "rkq_candidates demo_rank_request", unfolded req]
    by (auto simp: demo_rank_request_def HeuristicRanker_CreateTask_def)
  ultimately have nan: "\<forall>s \<in> set (scored_items (\<lambda>x. x) ?t [None, None]). sc_rank_score s \<noteq> NaN" by auto
  show ?thesis
    using heuristic_ranks_the_best [OF refl _ demo_rank_ids [symmetric] _ _ _ nan]
    by (auto simp: RankResponse_default_def demo_rank_request_def)
qed

theorem heuristic_order_irrelevant_witness:
  "HeuristicRankTask_Run (\<lambda>x. x) (HeuristicRanker_CreateTask (\<lambda>ids. Inr (map (\<lambda>_. None) ids))
      (demo_rank_request\<lparr>rkq_candidates := [demo_candidate 4 ''item_cf'', demo_candidate 9 ''item_cf'']\<rparr>) (Some RankResponse_default)) =
   HeuristicRankTask_Run (\<lambda>x. x) (HeuristicRanker_CreateTask (\<lambda>ids. Inr (map (\<lambda>_. None) ids))
      demo_rank_request (Some RankResponse_default))"
proof (rule heuristic_order_irrelevant)
  have req: "demo_rank_request\<lparr>rkq_candidates := rkq_candidates demo_rank_request\<rparr> = demo_rank_request" by simp
  show "\<forall>c \<in> set [demo_candidate 4 ''item_cf'', demo_candidate 9 ''item_cf''].
     sc_rank_score (ScoreCandidate (\<lambda>x. x) (HeuristicRankTask_new demo_rank_request (Some RankResponse_default)
       (Some (\<lambda>ids. Inr (map (\<lambda>_. None) ids)))) (NormalizeCandidate c) None) \<noteq> NaN"
    using demo_rank_score [of "\<lambda>x. x" "rkq_candidates demo_rank_request", unfolded req] by simp
qed (simp_all add: demo_rank_request_def demo_candidate_def)

end
