(* ===== verification/RankingService.thy ===== *)
theory RankingService
  imports HeuristicRanker
begin

text \<open>
  The ranking service (src/src/recommendation_engine/ranking/ranking_service.cpp): the registry of
  rankers with its default, built by the constructor, and the \<open>Rank\<close> handler. A ranker is its name
  and what its task makes of a request and a response, \<open>None\<close> standing for a null task; an
  exception of the task is caught by the handler. Null pointers are \<open>None\<close>.
\<close>

section \<open>Validation\<close>

fun RankingServiceStatus_int :: "RankingServiceStatus \<Rightarrow> int" where
  "RankingServiceStatus_int RANKING_SUCCESS = 0"
| "RankingServiceStatus_int RANKING_INVALID_REQUEST = 1"
| "RankingServiceStatus_int RANKING_USER_NOT_FOUND = 2"
| "RankingServiceStatus_int RANKING_SYSTEM_ERROR = 3"
| "RankingServiceStatus_int RANKING_EMPTY_CANDIDATES = 4"

definition InvalidRequest :: "RankResponse \<Rightarrow> string \<Rightarrow> grpc_status \<times> RankResponse" where
  "InvalidRequest response message =
     (StatusError INVALID_ARGUMENT message,
      response\<lparr>rks_status := RANKING_INVALID_REQUEST, rks_msg := message\<rparr>)"

definition ValidateRankRequest :: "RankRequest \<Rightarrow> RankResponse \<Rightarrow> grpc_status \<times> RankResponse" where
  "ValidateRankRequest request response =
     (if sint (rkq_user_id request) \<le> 0
      then InvalidRequest response (''Invalid user_id '' @ show_int (sint (rkq_user_id request)) @ ''.'')
      else
        (case rkq_profile request of
           None \<Rightarrow>
             InvalidRequest response (''Profile is required for user '' @ show_int (sint (rkq_user_id request)) @ ''.'')
         | Some profile \<Rightarrow>
             if pf_user_id profile \<noteq> 0 \<and> pf_user_id profile \<noteq> rkq_user_id request
             then InvalidRequest response
                    (''Profile user_id '' @ show_int (sint (pf_user_id profile)) @
                     '' does not match request user_id '' @ show_int (sint (rkq_user_id request)) @ ''.'')
             else if rkq_max_results request \<le> 0
             then InvalidRequest response (''Invalid max_results '' @ show_int (rkq_max_results request) @ ''.'')
             else (StatusOK, response)))"

section \<open>The registry of rankers\<close>

record Ranker =
  rk_name :: string
  rk_run :: "RankRequest \<Rightarrow> RankResponse \<Rightarrow> (RankResponse \<times> grpc_status throws) option"

record RankingServiceImpl =
  rsv_item_index_store :: item_index_store
  rsv_rankers :: "string \<rightharpoonup> Ranker"
  rsv_default_ranker_name :: string

definition FindRanker :: "(string \<rightharpoonup> Ranker) \<Rightarrow> string \<Rightarrow> Ranker option" where
  "FindRanker rankers ranker_name = rankers ranker_name"

definition RegisterRanker :: "Ranker option \<Rightarrow> (string \<rightharpoonup> Ranker) \<Rightarrow> (string \<rightharpoonup> Ranker) throws" where
  "RegisterRanker ranker rankers =
     (case ranker of
        None \<Rightarrow> Inl (InvalidArgument ''RankingServiceImpl ranker is null.'')
      | Some r \<Rightarrow>
          if rk_name r = [] then Inl (InvalidArgument ''RankingServiceImpl ranker name is empty.'')
          else if rankers (rk_name r) \<noteq> None
          then Inl (InvalidArgument (''Duplicated ranker name '' @ rk_name r @ ''.''))
          else Inr (rankers(rk_name r \<mapsto> r)))"

fun register_all :: "Ranker option list \<Rightarrow> (string \<rightharpoonup> Ranker) \<Rightarrow> (string \<rightharpoonup> Ranker) throws" where
  "register_all [] registered = Inr registered"
| "register_all (ranker # rankers) registered =
     bindE (RegisterRanker ranker registered) (register_all rankers)"

definition RegisterRankers :: "Ranker option list \<Rightarrow> (string \<rightharpoonup> Ranker) throws" where
  "RegisterRankers rankers =
     (if rankers = [] then Inl (InvalidArgument ''RankingServiceImpl rankers is empty.'')
      else register_all rankers Map.empty)"

definition RegisterDefaultRanker :: "(string \<rightharpoonup> Ranker) \<Rightarrow> string \<Rightarrow> string throws" where
  "RegisterDefaultRanker rankers default_ranker_name =
     (if default_ranker_name = [] then Inl (InvalidArgument ''ranking.default_ranker must not be empty.'')
      else if FindRanker rankers default_ranker_name = None
      then Inl (InvalidArgument (''Default ranker '' @ default_ranker_name @ '' is not registered.''))
      else Inr default_ranker_name)"

definition RankingServiceImpl_new ::
  "item_index_store option \<Rightarrow> Ranker option list \<Rightarrow> string \<Rightarrow> RankingServiceImpl throws" where
  "RankingServiceImpl_new store rankers default_ranker_name =
     (case store of
        None \<Rightarrow> Inl (InvalidArgument ''RankingServiceImpl item_index_store must not be null.'')
      | Some s \<Rightarrow>
          bindE (RegisterRankers rankers) (\<lambda>registered.
          bindE (RegisterDefaultRanker registered default_ranker_name) (\<lambda>name.
          Inr \<lparr>rsv_item_index_store = s, rsv_rankers = registered, rsv_default_ranker_name = name\<rparr>)))"

text \<open>The one ranker that can be configured.\<close>

definition heuristic_ranker :: "(float64 \<Rightarrow> float64) \<Rightarrow> item_index_store \<Rightarrow> Ranker" where
  "heuristic_ranker log1p store =
     \<lparr>rk_name = HeuristicRanker_kName,
      rk_run = (\<lambda>request response.
        case HeuristicRankTask_Run log1p (HeuristicRanker_CreateTask store request (Some response)) of
          (Some response, outcome) \<Rightarrow> Some (response, outcome)
        | (None, outcome) \<Rightarrow> None)\<rparr>"

definition CreateRanker ::
  "(float64 \<Rightarrow> float64) \<Rightarrow> string \<Rightarrow> item_index_store option \<Rightarrow> Ranker throws" where
  "CreateRanker log1p ranker_name store =
     (if ranker_name = HeuristicRanker_kName
      then bindE (HeuristicRanker_new store) (\<lambda>s. Inr (heuristic_ranker log1p s))
      else Inl (InvalidArgument (''Unsupported configured ranker: '' @ ranker_name @ ''.'')))"

definition CreateRankers ::
  "(float64 \<Rightarrow> float64) \<Rightarrow> string list \<Rightarrow> item_index_store option \<Rightarrow> Ranker option list throws" where
  "CreateRankers log1p ranker_names store =
     (if store = None then Inl (InvalidArgument ''RankingServiceImpl item_index_store is null.'')
      else if ranker_names = [] then Inl (InvalidArgument ''ranking.rankers must not be empty.'')
      else mapE (\<lambda>ranker_name. bindE (CreateRanker log1p ranker_name store) (\<lambda>r. Inr (Some r))) ranker_names)"

section \<open>The handler\<close>

definition ResolveRankerName :: "RankingServiceImpl \<Rightarrow> RankRequest \<Rightarrow> string" where
  "ResolveRankerName this request =
     (if ro_ranker (rkq_options request) \<noteq> [] then ro_ranker (rkq_options request)
      else rsv_default_ranker_name this)"

definition Rank ::
  "RankingServiceImpl \<Rightarrow> RankRequest option \<Rightarrow> RankResponse option \<Rightarrow> grpc_status \<times> RankResponse option" where
  "Rank this request_ptr response_ptr =
     (case response_ptr of
        None \<Rightarrow> (StatusError INTERNAL ''Rank request/response is null.'', None)
      | Some response \<Rightarrow>
     (case request_ptr of
        None \<Rightarrow>
          (StatusError INTERNAL ''Rank request/response is null.'',
           Some (response\<lparr>rks_status := RANKING_SYSTEM_ERROR, rks_msg := ''Rank request/response is null.''\<rparr>))
      | Some request \<Rightarrow>
          (let response = response\<lparr>rks_msg := [],
                 rks_input_candidate_count := int (length (rkq_candidates request)),
                 rks_ranked_candidate_count := 0\<rparr>;
               (validation_status, response) = ValidateRankRequest request response
           in if \<not> status_ok validation_status then (validation_status, Some response)
              else
                (let ranker_name = ResolveRankerName this request in
                 case FindRanker (rsv_rankers this) ranker_name of
                   None \<Rightarrow>
                     (let msg = ''Unknown ranker '' @ ranker_name @ ''.''
                      in (StatusError INVALID_ARGUMENT msg,
                          Some (response\<lparr>rks_status := RANKING_INVALID_REQUEST, rks_msg := msg\<rparr>)))
                 | Some ranker \<Rightarrow>
                     (case rk_run ranker request response of
                        None \<Rightarrow>
                          (let msg = ''Ranker '' @ ranker_name @ '' created a null task.''
                           in (StatusError INTERNAL msg,
                               Some (response\<lparr>rks_status := RANKING_SYSTEM_ERROR, rks_msg := msg\<rparr>)))
                      | Some (response, Inl ex) \<Rightarrow>
                          (StatusError INTERNAL (what ex),
                           Some (response\<lparr>rks_status := RANKING_SYSTEM_ERROR, rks_msg := what ex\<rparr>))
                      | Some (response, Inr task_status) \<Rightarrow>
                          if \<not> status_ok task_status
                          then (task_status,
                                Some (if rks_msg response = []
                                      then response\<lparr>rks_msg := error_message task_status\<rparr> else response))
                          else (task_status,
                                Some (if rks_status response = RANKING_SUCCESS then response\<lparr>rks_msg := []\<rparr>
                                      else if rks_msg response = []
                                      then response\<lparr>rks_msg := ''Ranking finished with status '' @
                                             show_int (RankingServiceStatus_int (rks_status response)) @ ''.''\<rparr>
                                      else response)))))))"

section \<open>The registry holds what was given\<close>

lemma register_all_iff:
  "register_all rankers m = Inr m' \<longleftrightarrow>
     (\<exists>rs. rankers = map Some rs \<and> (\<forall>r \<in> set rs. rk_name r \<noteq> []) \<and> distinct (map rk_name rs) \<and>
       rk_name ` set rs \<inter> dom m = {} \<and> m' = m ++ map_of (map (\<lambda>r. (rk_name r, r)) rs))"
proof (induction rankers arbitrary: m)
  case (Cons x xs)
  show ?case
  proof (cases x)
    case None
    then show ?thesis by (auto simp: RegisterRanker_def)
  next
    case (Some r)
    have upd: "m(rk_name r \<mapsto> r) ++ map_of (map (\<lambda>r. (rk_name r, r)) rs) = m ++ map_of (map (\<lambda>r. (rk_name r, r)) (r # rs))"
      if "rk_name r \<notin> rk_name ` set rs" for rs
      using that by (simp add: map_add_upd_left dom_map_of_conv_image_fst image_image)
    show ?thesis
    proof (cases "rk_name r = [] \<or> m (rk_name r) \<noteq> None")
      case True
      then show ?thesis using Some by (auto simp: RegisterRanker_def Cons_eq_map_conv)
    next
      case False
      then have "register_all (x # xs) m = register_all xs (m(rk_name r \<mapsto> r))"
        by (simp add: Some RegisterRanker_def)
      have heads: "(\<exists>rs'. Some r # xs = map Some rs' \<and> P rs') \<longleftrightarrow> (\<exists>rs. xs = map Some rs \<and> P (r # rs))" for P
        by (metis list.simps(9) map_eq_Cons_conv option.inject)
      have each: "((\<forall>q \<in> set rs. rk_name q \<noteq> []) \<and> distinct (map rk_name rs) \<and>
          rk_name ` set rs \<inter> dom (m(rk_name r \<mapsto> r)) = {} \<and>
          m' = m(rk_name r \<mapsto> r) ++ map_of (map (\<lambda>r. (rk_name r, r)) rs)) \<longleftrightarrow>
        ((\<forall>q \<in> set (r # rs). rk_name q \<noteq> []) \<and> distinct (map rk_name (r # rs)) \<and>
          rk_name ` set (r # rs) \<inter> dom m = {} \<and> m' = m ++ map_of (map (\<lambda>r. (rk_name r, r)) (r # rs)))" for rs
      proof (cases "rk_name r \<in> rk_name ` set rs")
        case False
        have "rk_name r \<notin> dom m" using \<open>\<not> (rk_name r = [] \<or> m (rk_name r) \<noteq> None)\<close> by auto
        then show ?thesis
          unfolding upd [OF False] using False \<open>\<not> (rk_name r = [] \<or> m (rk_name r) \<noteq> None)\<close> by auto
      qed auto
      show ?thesis
        unfolding \<open>register_all (x # xs) m = register_all xs (m(rk_name r \<mapsto> r))\<close> Cons.IH each
        unfolding Some heads ..
    qed
  qed
qed auto

lemma map_of_names:
  "distinct (map rk_name rs) \<Longrightarrow> map_of (map (\<lambda>r. (rk_name r, r)) rs) n = find (\<lambda>r. rk_name r = n) rs"
  by (induction rs) auto

text \<open>
  A service exists exactly for a store, at least one ranker, none of them null, with non-empty
  and different names, and a default among them; it then finds a ranker under its name and under
  no other.
\<close>

theorem ranking_service_registry:
  "RankingServiceImpl_new store rankers default_ranker_name = Inr this \<longleftrightarrow>
     (\<exists>s rs. store = Some s \<and> rankers = map Some rs \<and> [] \<notin> rk_name ` set rs \<and> distinct (map rk_name rs) \<and>
        default_ranker_name \<in> rk_name ` set rs \<and>
        this = \<lparr>rsv_item_index_store = s, rsv_rankers = (\<lambda>n. find (\<lambda>r. rk_name r = n) rs),
                rsv_default_ranker_name = default_ranker_name\<rparr>)"
proof (cases store)
  case (Some s)
  have found: "find (\<lambda>r. rk_name r = n) rs \<noteq> None \<longleftrightarrow> n \<in> rk_name ` set rs" for n and rs :: "Ranker list"
    by (induction rs) auto
  have all: "register_all rankers Map.empty = Inr m \<longleftrightarrow>
      (\<exists>rs. rankers = map Some rs \<and> [] \<notin> rk_name ` set rs \<and> distinct (map rk_name rs) \<and>
        m = (\<lambda>n. find (\<lambda>r. rk_name r = n) rs))" for m
    unfolding register_all_iff by (intro ex_cong1) (auto simp: image_iff map_of_names fun_eq_iff)
  have "RankingServiceImpl_new store rankers default_ranker_name = Inr this \<longleftrightarrow>
      rankers \<noteq> [] \<and> (\<exists>m. register_all rankers Map.empty = Inr m \<and> default_ranker_name \<noteq> [] \<and>
        m default_ranker_name \<noteq> None \<and>
        this = \<lparr>rsv_item_index_store = s, rsv_rankers = m, rsv_default_ranker_name = default_ranker_name\<rparr>)"
    by (auto simp: Some RankingServiceImpl_new_def RegisterRankers_def RegisterDefaultRanker_def FindRanker_def
        split: if_splits)
  also have "\<dots> \<longleftrightarrow> (\<exists>rs. rankers = map Some rs \<and> [] \<notin> rk_name ` set rs \<and> distinct (map rk_name rs) \<and>
        default_ranker_name \<in> rk_name ` set rs \<and>
        this = \<lparr>rsv_item_index_store = s, rsv_rankers = (\<lambda>n. find (\<lambda>r. rk_name r = n) rs),
                rsv_default_ranker_name = default_ranker_name\<rparr>)" (is "_ \<longleftrightarrow> ?R")
  proof
    assume ?R
    then obtain rs where "rankers = map Some rs" "[] \<notin> rk_name ` set rs" "distinct (map rk_name rs)"
      "default_ranker_name \<in> rk_name ` set rs"
      "this = \<lparr>rsv_item_index_store = s, rsv_rankers = (\<lambda>n. find (\<lambda>r. rk_name r = n) rs),
                rsv_default_ranker_name = default_ranker_name\<rparr>" by blast
    then show "rankers \<noteq> [] \<and> (\<exists>m. register_all rankers Map.empty = Inr m \<and> default_ranker_name \<noteq> [] \<and>
        m default_ranker_name \<noteq> None \<and>
        this = \<lparr>rsv_item_index_store = s, rsv_rankers = m, rsv_default_ranker_name = default_ranker_name\<rparr>)"
      unfolding all using found [of default_ranker_name rs] by (metis empty_iff image_empty list.set(1) map_is_Nil_conv)
  qed (unfold all, use found in blast)
  finally show ?thesis using Some by simp
qed (simp add: RankingServiceImpl_new_def)

section \<open>What the handler answers\<close>

definition valid_rank_request :: "RankRequest \<Rightarrow> bool" where
  "valid_rank_request request \<longleftrightarrow>
     0 < sint (rkq_user_id request) \<and> 0 < rkq_max_results request \<and>
     (\<exists>profile. rkq_profile request = Some profile \<and>
        (pf_user_id profile = 0 \<or> pf_user_id profile = rkq_user_id request))"

lemma ValidateRankRequest_cases:
  "ValidateRankRequest request response =
     (if valid_rank_request request then (StatusOK, response)
      else (StatusError INVALID_ARGUMENT (rks_msg (snd (ValidateRankRequest request response))),
            response\<lparr>rks_status := RANKING_INVALID_REQUEST,
                     rks_msg := rks_msg (snd (ValidateRankRequest request response))\<rparr>))"
  by (auto simp: ValidateRankRequest_def valid_rank_request_def InvalidRequest_def split: option.split)

lemma Rank_run:
  assumes "valid_rank_request request" "FindRanker (rsv_rankers this) (ResolveRankerName this request) = Some ranker"
    "rk_run ranker request (response\<lparr>rks_msg := [], rks_input_candidate_count := int (length (rkq_candidates request)),
       rks_ranked_candidate_count := 0\<rparr>) = Some (resp, outcome)"
  shows "Rank this (Some request) (Some response) =
    (case outcome of
       Inl ex \<Rightarrow> (StatusError INTERNAL (what ex), Some (resp\<lparr>rks_status := RANKING_SYSTEM_ERROR, rks_msg := what ex\<rparr>))
     | Inr st \<Rightarrow>
         if \<not> status_ok st
         then (st, Some (if rks_msg resp = [] then resp\<lparr>rks_msg := error_message st\<rparr> else resp))
         else (st, Some (if rks_status resp = RANKING_SUCCESS then resp\<lparr>rks_msg := []\<rparr>
                         else if rks_msg resp = []
                         then resp\<lparr>rks_msg := ''Ranking finished with status '' @
                                     show_int (RankingServiceStatus_int (rks_status resp)) @ ''.''\<rparr>
                         else resp)))"
proof -
  let ?r0 = "response\<lparr>rks_msg := [], rks_input_candidate_count := int (length (rkq_candidates request)),
       rks_ranked_candidate_count := 0\<rparr>"
  have v: "ValidateRankRequest request ?r0 = (StatusOK, ?r0)"
    using ValidateRankRequest_cases [of request ?r0] assms(1) by simp
  show ?thesis
    unfolding Rank_def Let_def option.case v prod.case assms(2,3) by simp
qed

text \<open>What a task leaves: the status of its answer, and nothing ranked unless it succeeded.\<close>

lemma HeuristicRankTask_Run_outcome:
  assumes "HeuristicRankTask_Run log1p (HeuristicRanker_CreateTask store request (Some response)) = (r, outcome)"
    "rks_ranked_candidates response = []" "rks_ranked_candidate_count response = 0"
  shows "\<exists>resp. r = Some resp \<and> rks_input_candidate_count resp = rks_input_candidate_count response \<and>
    rks_ranked_candidate_count resp = int (length (rks_ranked_candidates resp)) \<and>
    (case outcome of
       Inl ex \<Rightarrow> rks_ranked_candidates resp = []
     | Inr st \<Rightarrow>
         st = StatusOK \<and> rks_status resp = RANKING_SUCCESS \<or>
         st = StatusOK \<and> rks_status resp = RANKING_EMPTY_CANDIDATES \<and> rks_msg resp \<noteq> [] \<and> rks_ranked_candidates resp = [] \<or>
         st = StatusError INTERNAL (rks_msg resp) \<and> rks_msg resp \<noteq> [] \<and> rks_status resp = RANKING_SYSTEM_ERROR \<and>
           rks_ranked_candidates resp = [])"
proof (cases "NormalizeAndMergeCandidates request = []")
  case True
  then show ?thesis
    using assms by (auto simp: HeuristicRankTask_Run_def HeuristicRanker_CreateTask_def HeuristicRankTask_new_def Let_def)
next
  case False
  then show ?thesis
    using assms by (auto simp: HeuristicRankTask_Run_def HeuristicRanker_CreateTask_def HeuristicRankTask_new_def Let_def
        split: sum.splits if_splits)
qed

text \<open>
  C13. The contract of \<open>Rank\<close> with the heuristic ranker, for every request and store: OK exactly when
  the answer is a success or says that there was nothing to rank; an invalid request and an unknown
  ranker are INVALID_ARGUMENT, any other answer that is not OK is INTERNAL, with the matching status in
  the answer, the same message and no candidates; the counts of the answer are those of its lists.
\<close>

theorem rank_contract:
  assumes "RankingServiceImpl_new (Some store) [Some (heuristic_ranker log1p store)] HeuristicRanker_kName = Inr this"
  shows "\<exists>st resp. Rank this (Some request) (Some RankResponse_default) = (st, Some resp) \<and>
    (st = StatusOK \<longleftrightarrow> rks_status resp = RANKING_SUCCESS \<or> rks_status resp = RANKING_EMPTY_CANDIDATES) \<and>
    (st \<noteq> StatusOK \<longrightarrow> rks_ranked_candidates resp = [] \<and>
       st = StatusError (if rks_status resp = RANKING_INVALID_REQUEST then INVALID_ARGUMENT else INTERNAL) (rks_msg resp)) \<and>
    (rks_status resp = RANKING_INVALID_REQUEST \<longleftrightarrow>
       \<not> valid_rank_request request \<or> ro_ranker (rkq_options request) \<notin> {[], HeuristicRanker_kName}) \<and>
    (rks_status resp = RANKING_EMPTY_CANDIDATES \<longrightarrow> rks_ranked_candidates resp = []) \<and>
    rks_input_candidate_count resp = int (length (rkq_candidates request)) \<and>
    rks_ranked_candidate_count resp = int (length (rks_ranked_candidates resp))"
proof -
  let ?r0 = "RankResponse_default\<lparr>rks_msg := [], rks_input_candidate_count := int (length (rkq_candidates request)),
      rks_ranked_candidate_count := 0\<rparr>"
  let ?name = "ResolveRankerName this request"
  have registered: "rsv_rankers this = (\<lambda>n. if n = HeuristicRanker_kName then Some (heuristic_ranker log1p store) else None)"
    "rsv_default_ranker_name this = HeuristicRanker_kName"
    using assms by (auto simp: RankingServiceImpl_new_def RegisterRankers_def RegisterRanker_def RegisterDefaultRanker_def
        FindRanker_def heuristic_ranker_def split: if_splits)
  have name: "?name = HeuristicRanker_kName \<longleftrightarrow> ro_ranker (rkq_options request) \<in> {[], HeuristicRanker_kName}"
    by (auto simp: ResolveRankerName_def registered)
  show ?thesis
  proof (cases "valid_rank_request request")
    case False
    then have v: "ValidateRankRequest request ?r0 =
        (StatusError INVALID_ARGUMENT (rks_msg (snd (ValidateRankRequest request ?r0))),
         ?r0\<lparr>rks_status := RANKING_INVALID_REQUEST, rks_msg := rks_msg (snd (ValidateRankRequest request ?r0))\<rparr>)"
      using ValidateRankRequest_cases [of request ?r0] by simp
    show ?thesis
      using False unfolding Rank_def Let_def option.case
      by (subst v) (simp add: RankResponse_default_def)
  next
    case True
    then have v: "ValidateRankRequest request ?r0 = (StatusOK, ?r0)"
      using ValidateRankRequest_cases [of request ?r0] by simp
    show ?thesis
    proof (cases "?name = HeuristicRanker_kName")
      case False
      then show ?thesis
        using True name unfolding Rank_def Let_def option.case v
        by (simp add: FindRanker_def registered RankResponse_default_def)
    next
      case here: True
      obtain r outcome where run: "HeuristicRankTask_Run log1p (HeuristicRanker_CreateTask store request (Some ?r0)) =
          (r, outcome)" by fastforce
      from HeuristicRankTask_Run_outcome [OF run] obtain resp where resp: "r = Some resp"
        "rks_input_candidate_count resp = int (length (rkq_candidates request))"
        "rks_ranked_candidate_count resp = int (length (rks_ranked_candidates resp))"
        and cases: "case outcome of
           Inl ex \<Rightarrow> rks_ranked_candidates resp = []
         | Inr st \<Rightarrow>
             st = StatusOK \<and> rks_status resp = RANKING_SUCCESS \<or>
             st = StatusOK \<and> rks_status resp = RANKING_EMPTY_CANDIDATES \<and> rks_msg resp \<noteq> [] \<and> rks_ranked_candidates resp = [] \<or>
             st = StatusError INTERNAL (rks_msg resp) \<and> rks_msg resp \<noteq> [] \<and> rks_status resp = RANKING_SYSTEM_ERROR \<and>
               rks_ranked_candidates resp = []"
        by (auto simp: RankResponse_default_def)
      have found: "FindRanker (rsv_rankers this) ?name = Some (heuristic_ranker log1p store)"
        "rk_run (heuristic_ranker log1p store) request ?r0 = Some (resp, outcome)"
        using here run resp(1) by (simp_all add: FindRanker_def registered heuristic_ranker_def)
      show ?thesis
        unfolding Rank_run [OF True found]
        using True here name resp(2,3) cases by (cases outcome) (auto simp: status_ok_iff)
    qed
  qed
qed

theorem rank_contract_witness:
  "\<exists>this st resp. RankingServiceImpl_new (Some (\<lambda>_. Inl (RuntimeError ''down'')))
      [Some (heuristic_ranker (\<lambda>x. x) (\<lambda>_. Inl (RuntimeError ''down'')))] HeuristicRanker_kName = Inr this \<and>
    Rank this (Some demo_rank_request) (Some RankResponse_default) = (st, Some resp) \<and>
    rks_ranked_candidate_count resp = int (length (rks_ranked_candidates resp))"
proof -
  let ?store = "\<lambda>_. Inl (RuntimeError ''down'') :: ItemIndexEntry option list throws"
  obtain service where service: "RankingServiceImpl_new (Some ?store) [Some (heuristic_ranker (\<lambda>x. x) ?store)] HeuristicRanker_kName = Inr service"
    by (auto simp: RankingServiceImpl_new_def RegisterRankers_def RegisterRanker_def RegisterDefaultRanker_def
        FindRanker_def heuristic_ranker_def HeuristicRanker_kName_def)
  with rank_contract [OF service, of demo_rank_request] show ?thesis by blast
qed

end
