(* ===== verification/Gateway.thy ===== *)
theory Gateway
  imports RankingService Orchestrator
begin

text \<open>
  The gateway (src/src/recommendation_engine/gateway/gateway_service.cpp): one recommendation is a call
  of the profile service, of the retrieval orchestrator and of the ranking service, in that order.
  The three stubs are arguments (\<open>None\<close> for a null one), and so are the three ids that
  \<open>GenerateGuid\<close> gives. Each function of the class returns its gRPC status with the values it
  writes through its pointer arguments.
\<close>

type_synonym profile_stub = "GetProfileRequest \<Rightarrow> grpc_status \<times> GetProfileResponse"
type_synonym retrieval_stub = "RetrieveRequest \<Rightarrow> grpc_status \<times> RetrieveResponse"
type_synonym ranking_stub = "RankRequest \<Rightarrow> grpc_status \<times> RankResponse"

record GatewayService =
  gw_profile_stub :: "profile_stub option"
  gw_retrieval_stub :: "retrieval_stub option"
  gw_ranking_stub :: "ranking_stub option"

definition GatewayService_new ::
  "profile_stub option \<Rightarrow> retrieval_stub option \<Rightarrow> ranking_stub option \<Rightarrow> GatewayService throws" where
  "GatewayService_new profile_stub retrieval_stub ranking_stub =
     (if profile_stub = None
      then Inl (InvalidArgument ''GatewayServiceImpl profile_stub must not be null.'')
      else if retrieval_stub = None
      then Inl (InvalidArgument ''GatewayServiceImpl retrieval_stub must not be null.'')
      else if ranking_stub = None
      then Inl (InvalidArgument ''GatewayServiceImpl ranking_stub must not be null.'')
      else Inr \<lparr>gw_profile_stub = profile_stub, gw_retrieval_stub = retrieval_stub,
                gw_ranking_stub = ranking_stub\<rparr>)"

fun has_code :: "StatusCode \<Rightarrow> grpc_status \<Rightarrow> bool" where
  "has_code code StatusOK = False"
| "has_code code (StatusError c m) = (c = code)"

fun RetrievalServiceStatus_int :: "RetrievalServiceStatus \<Rightarrow> int" where
  "RetrievalServiceStatus_int RETRIEVAL_SUCCESS = 0"
| "RetrievalServiceStatus_int RETRIEVAL_INVALID_REQUEST = 1"
| "RetrievalServiceStatus_int RETRIEVAL_USER_NOT_FOUND = 2"
| "RetrievalServiceStatus_int RETRIEVAL_SYSTEM_ERROR = 3"

definition with_reason :: "string \<Rightarrow> string \<Rightarrow> string" where
  "with_reason message msg = (if msg \<noteq> [] then message @ '' reason: '' @ msg else message)"

definition FetchProfile ::
  "GatewayService \<Rightarrow> string \<Rightarrow> RecommendRequest \<Rightarrow> Profile \<Rightarrow> grpc_status \<times> Profile \<times> RecommendationStatus" where
  "FetchProfile this guid request profile =
     (case gw_profile_stub this of
        None \<Rightarrow> (StatusError INTERNAL ''Profile service client is not initialized.'', profile, SYSTEM_ERROR)
      | Some stub \<Rightarrow>
          (let user = show_int (req_user_id request);
               (profile_status, profile_response) =
                 stub \<lparr>gpq_trace_id = req_request_id request, gpq_request_id = guid,
                       gpq_user_id = req_user_id request\<rparr>
           in if \<not> status_ok profile_status
              then if has_code NOT_FOUND profile_status \<or>
                      gps_status profile_response = PROFILE_USER_NOT_FOUND
                   then (StatusError NOT_FOUND (''User ID of '' @ user @ '' not found.''), profile, USER_NOT_FOUND)
                   else (StatusError INTERNAL (''Failed to fetch profile for user '' @ user @ '': '' @
                           error_message profile_status), profile, SYSTEM_ERROR)
              else if gps_status profile_response \<noteq> PROFILE_SUCCESS
              then (let message = with_reason (''Profile service returned non-success status '' @
                          show_int (ProfileServiceStatus_int (gps_status profile_response)) @ '' for user '' @ user @ ''.'')
                          (gps_msg profile_response)
                    in if gps_status profile_response = PROFILE_USER_NOT_FOUND
                       then (StatusError NOT_FOUND message, profile, USER_NOT_FOUND)
                       else (StatusError INTERNAL message, profile, SYSTEM_ERROR))
              else (StatusOK, gps_profile profile_response, SUCCESS)))"

definition FetchCandidates ::
  "GatewayService \<Rightarrow> string \<Rightarrow> RecommendRequest \<Rightarrow> Profile \<Rightarrow> RetrieveResponse \<Rightarrow>
     grpc_status \<times> RetrieveResponse \<times> RecommendationStatus" where
  "FetchCandidates this guid request profile retrieval_response =
     (case gw_retrieval_stub this of
        None \<Rightarrow> (StatusError INTERNAL ''Retrieval service client is not initialized.'', retrieval_response, SYSTEM_ERROR)
      | Some stub \<Rightarrow>
          (let user = show_int (req_user_id request);
               (retrieval_status, retrieval_response) =
                 stub \<lparr>rtq_trace_id = req_request_id request, rtq_request_id = guid,
                       rtq_user_id = of_int (req_user_id request), rtq_profile = Some profile,
                       rtq_max_candidate_count = req_max_results request\<rparr>
           in if \<not> status_ok retrieval_status
              then (let message = ''Failed to fetch retrieval candidates for user '' @ user @ '': '' @
                          error_message retrieval_status
                    in if has_code INVALID_ARGUMENT retrieval_status
                       then (StatusError INVALID_ARGUMENT message, retrieval_response, INVALID_REQUEST)
                       else (StatusError INTERNAL message, retrieval_response, SYSTEM_ERROR))
              else if rts_status retrieval_response \<noteq> RETRIEVAL_SUCCESS
              then (let message = with_reason (''Retrieval service returned non-success status '' @
                          show_int (RetrievalServiceStatus_int (rts_status retrieval_response)) @ '' for user '' @ user @ ''.'')
                          (rts_msg retrieval_response)
                    in if rts_status retrieval_response = RETRIEVAL_INVALID_REQUEST
                       then (StatusError INVALID_ARGUMENT message, retrieval_response, INVALID_REQUEST)
                       else (StatusError INTERNAL message, retrieval_response, SYSTEM_ERROR))
              else (StatusOK, retrieval_response, SUCCESS)))"

definition rank_request ::
  "string \<Rightarrow> RecommendRequest \<Rightarrow> Profile \<Rightarrow> RetrieveResponse \<Rightarrow> RankRequest" where
  "rank_request guid request profile retrieval_response =
     \<lparr>rkq_trace_id = req_request_id request, rkq_request_id = guid,
      rkq_user_id = of_int (req_user_id request), rkq_profile = Some profile,
      rkq_candidates = rts_candidates retrieval_response, rkq_max_results = req_max_results request,
      rkq_options = \<lparr>ro_ranker = [], ro_include_score_factors = False, ro_include_item_features = False\<rparr>\<rparr>"

definition FetchRankedCandidates ::
  "GatewayService \<Rightarrow> string \<Rightarrow> RecommendRequest \<Rightarrow> Profile \<Rightarrow> RetrieveResponse \<Rightarrow> RecommendResponse \<Rightarrow>
     grpc_status \<times> RecommendResponse \<times> RecommendationStatus" where
  "FetchRankedCandidates this guid request profile retrieval_response response =
     (case gw_ranking_stub this of
        None \<Rightarrow> (StatusError INTERNAL ''Ranking service client is not initialized.'', response, SYSTEM_ERROR)
      | Some stub \<Rightarrow>
          (let user = show_int (req_user_id request);
               (rank_status, rank_response) = stub (rank_request guid request profile retrieval_response)
           in if \<not> status_ok rank_status
              then (let message = ''Failed to rank candidates for user '' @ user @ '': '' @ error_message rank_status
                    in if has_code INVALID_ARGUMENT rank_status
                       then (StatusError INVALID_ARGUMENT message, response, INVALID_REQUEST)
                       else (StatusError INTERNAL message, response, SYSTEM_ERROR))
              else if rks_status rank_response \<noteq> RANKING_SUCCESS
              then (let message = with_reason (''Ranking service returned non-success status '' @
                          show_int (RankingServiceStatus_int (rks_status rank_response)) @ '' for user '' @ user @ ''.'')
                          (rks_msg rank_response)
                    in if rks_status rank_response = RANKING_INVALID_REQUEST
                       then (StatusError INVALID_ARGUMENT message, response, INVALID_REQUEST)
                       else (StatusError INTERNAL message, response, SYSTEM_ERROR))
              else (StatusOK,
                    response\<lparr>res_candidates := res_candidates response @
                               map rc_candidate (rks_ranked_candidates rank_response)\<rparr>,
                    SUCCESS)))"

definition Recommend ::
  "GatewayService \<Rightarrow> string \<times> string \<times> string \<Rightarrow> RecommendRequest \<Rightarrow> RecommendResponse \<Rightarrow>
     grpc_status \<times> RecommendResponse" where
  "Recommend this guids request response =
     (let (guid1, guid2, guid3) = guids;
          response = response\<lparr>res_msg := []\<rparr>;
          (status, profile, recommendation_status) = FetchProfile this guid1 request Profile_default
      in if \<not> status_ok status
         then (status, response\<lparr>res_status := recommendation_status, res_msg := error_message status\<rparr>)
         else
           (let (status, retrieval_response, recommendation_status) =
                  FetchCandidates this guid2 request profile RetrieveResponse_default
            in if \<not> status_ok status
               then (status, response\<lparr>res_status := recommendation_status, res_msg := error_message status\<rparr>)
               else
                 (let (status, response, recommendation_status) =
                        FetchRankedCandidates this guid3 request profile retrieval_response response
                  in (status,
                      response\<lparr>res_status := recommendation_status,
                               res_msg := (if status_ok status then [] else error_message status)\<rparr>))))"

section \<open>The contract of the gateway\<close>

fun grpc_of :: "RecommendationStatus \<Rightarrow> string \<Rightarrow> grpc_status" where
  "grpc_of SUCCESS msg = StatusOK"
| "grpc_of INVALID_REQUEST msg = StatusError INVALID_ARGUMENT msg"
| "grpc_of USER_NOT_FOUND msg = StatusError NOT_FOUND msg"
| "grpc_of SYSTEM_ERROR msg = StatusError INTERNAL msg"

text \<open>A step of the gateway agrees with itself: its gRPC status is the one of its result.\<close>

definition agrees :: "grpc_status \<Rightarrow> RecommendationStatus \<Rightarrow> bool" where
  "agrees st rec \<longleftrightarrow> st = grpc_of rec (error_message st)"

lemma agrees_ok: "agrees st rec \<Longrightarrow> status_ok st \<longleftrightarrow> rec = SUCCESS"
  by (cases rec; cases st) (auto simp: agrees_def)

lemma FetchProfile_agrees: "FetchProfile this guid request profile = (st, p, rec) \<Longrightarrow> agrees st rec"
  by (auto simp: FetchProfile_def agrees_def Let_def split: option.splits prod.splits if_splits)

lemma FetchCandidates_agrees: "FetchCandidates this guid request profile r0 = (st, r, rec) \<Longrightarrow> agrees st rec"
  by (auto simp: FetchCandidates_def agrees_def Let_def split: option.splits prod.splits if_splits)

lemma FetchRankedCandidates_agrees:
  "FetchRankedCandidates this guid request profile rr r0 = (st, r, rec) \<Longrightarrow>
     agrees st rec \<and> (status_ok st \<or> r = r0)"
  by (auto simp: FetchRankedCandidates_def agrees_def Let_def split: option.splits prod.splits if_splits)

text \<open>Every answer agrees with its gRPC status.\<close>

lemma Recommend_agrees:
  "\<exists>st resp. Recommend this guids request RecommendResponse_default = (st, resp) \<and>
    st = grpc_of (res_status resp) (res_msg resp) \<and> res_msg resp = error_message st \<and>
    (res_status resp = SUCCESS \<or> res_candidates resp = [])"
proof -
  obtain g1 g2 g3 where guids: "guids = (g1, g2, g3)" by (cases guids)
  obtain st1 p rec1 where p: "FetchProfile this g1 request Profile_default = (st1, p, rec1)" by (metis prod_cases3)
  obtain st2 rr rec2 where c: "FetchCandidates this g2 request p RetrieveResponse_default = (st2, rr, rec2)"
    by (metis prod_cases3)
  let ?r0 = "\<lparr>res_status = SUCCESS, res_msg = [], res_candidates = []\<rparr>"
  obtain st3 resp rec3 where r: "FetchRankedCandidates this g3 request p rr ?r0 = (st3, resp, rec3)" by (metis prod_cases3)
  note a = FetchProfile_agrees [OF p] FetchCandidates_agrees [OF c] FetchRankedCandidates_agrees [OF r]
  have failed: "status_ok st \<longleftrightarrow> rec = SUCCESS" "rec \<noteq> SUCCESS \<Longrightarrow> grpc_of rec (error_message st) = st" if "agrees st rec" for st rec
    using agrees_ok [OF that] that by (auto simp: agrees_def)
  show ?thesis
    using a failed [OF a(1)] failed [OF a(2)] failed [OF conjunct1 [OF a(3)]]
    by (cases "rec1 = SUCCESS"; cases "rec2 = SUCCESS"; cases "rec3 = SUCCESS")
      (simp_all add: Recommend_def guids p c r Let_def RecommendResponse_default_def status_ok_iff)
qed

text \<open>
  C19. The contract of \<open>Recommend\<close>, whatever the three services answer and even with null stubs: the
  gRPC status is the one that belongs to the status of the answer (OK, INVALID_ARGUMENT, NOT_FOUND or
  INTERNAL), the message of the answer is that of the gRPC status, and an answer that is not a
  success has no candidates.
\<close>

theorem gateway_contract:
  "\<exists>st resp. Recommend this guids request RecommendResponse_default = (st, resp) \<and>
    st = grpc_of (res_status resp) (res_msg resp) \<and> res_msg resp = error_message st \<and>
    (res_status resp = SUCCESS \<or> res_candidates resp = [])"
  by (rule Recommend_agrees)

text \<open>The successful answers.\<close>

lemma Recommend_success:
  "Recommend \<lparr>gw_profile_stub = Some get_profile, gw_retrieval_stub = Some retrieve, gw_ranking_stub = Some rank\<rparr>
      (guid1, guid2, guid3) request RecommendResponse_default = (StatusOK, resp) \<longleftrightarrow>
    (\<exists>found retrieved ranked.
       get_profile \<lparr>gpq_trace_id = req_request_id request, gpq_request_id = guid1, gpq_user_id = req_user_id request\<rparr>
         = (StatusOK, found) \<and> gps_status found = PROFILE_SUCCESS \<and>
       retrieve \<lparr>rtq_trace_id = req_request_id request, rtq_request_id = guid2,
           rtq_user_id = of_int (req_user_id request), rtq_profile = Some (gps_profile found),
           rtq_max_candidate_count = req_max_results request\<rparr>
         = (StatusOK, retrieved) \<and> rts_status retrieved = RETRIEVAL_SUCCESS \<and>
       rank (rank_request guid3 request (gps_profile found) retrieved) = (StatusOK, ranked) \<and>
         rks_status ranked = RANKING_SUCCESS \<and>
       resp = \<lparr>res_status = SUCCESS, res_msg = [], res_candidates = map rc_candidate (rks_ranked_candidates ranked)\<rparr>)"
proof -
  let ?gw = "\<lparr>gw_profile_stub = Some get_profile, gw_retrieval_stub = Some retrieve, gw_ranking_stub = Some rank\<rparr>"
  have profile: "FetchProfile ?gw guid1 request Profile_default = (StatusOK, p, rec) \<longleftrightarrow>
    (\<exists>found. get_profile \<lparr>gpq_trace_id = req_request_id request, gpq_request_id = guid1,
        gpq_user_id = req_user_id request\<rparr> = (StatusOK, found) \<and>
      gps_status found = PROFILE_SUCCESS \<and> p = gps_profile found \<and> rec = SUCCESS)" for p rec
    by (auto simp: FetchProfile_def Let_def status_ok_iff split: prod.splits if_splits)
  have candidates: "FetchCandidates ?gw guid2 request p RetrieveResponse_default = (StatusOK, rr, rec) \<longleftrightarrow>
    retrieve \<lparr>rtq_trace_id = req_request_id request, rtq_request_id = guid2,
        rtq_user_id = of_int (req_user_id request), rtq_profile = Some p,
        rtq_max_candidate_count = req_max_results request\<rparr> = (StatusOK, rr) \<and>
      rts_status rr = RETRIEVAL_SUCCESS \<and> rec = SUCCESS" for p rr rec
    by (auto simp: FetchCandidates_def Let_def status_ok_iff split: prod.splits if_splits)
  have ranked: "FetchRankedCandidates ?gw guid3 request p rr r0 = (StatusOK, r, rec) \<longleftrightarrow>
    (\<exists>ranked. rank (rank_request guid3 request p rr) = (StatusOK, ranked) \<and> rks_status ranked = RANKING_SUCCESS \<and>
      rec = SUCCESS \<and> r = r0\<lparr>res_candidates := res_candidates r0 @ map rc_candidate (rks_ranked_candidates ranked)\<rparr>)"
    for p rr r0 r rec
    by (auto simp: FetchRankedCandidates_def Let_def status_ok_iff split: prod.splits if_splits)
  have "Recommend ?gw (guid1, guid2, guid3) request RecommendResponse_default = (StatusOK, resp) \<longleftrightarrow>
    (\<exists>p rec1 rr rec2 r rec3. FetchProfile ?gw guid1 request Profile_default = (StatusOK, p, rec1) \<and>
      FetchCandidates ?gw guid2 request p RetrieveResponse_default = (StatusOK, rr, rec2) \<and>
      FetchRankedCandidates ?gw guid3 request p rr (RecommendResponse_default\<lparr>res_msg := []\<rparr>) = (StatusOK, r, rec3) \<and>
      resp = r\<lparr>res_status := rec3, res_msg := []\<rparr>)"
    by (auto simp: Recommend_def Let_def status_ok_iff split: prod.splits if_splits)
  then show ?thesis
    unfolding profile candidates ranked by (auto simp: RecommendResponse_default_def)
qed

text \<open>
  C18. When a recommendation succeeds: exactly when the profile service answers with a profile, the
  orchestrator, asked with that profile, with candidates, and the ranking service, asked to rank just
  these candidates for the same user and profile, with a ranking; the answer is that ranking.
\<close>

theorem gateway_pipeline:
  "Recommend \<lparr>gw_profile_stub = Some get_profile, gw_retrieval_stub = Some retrieve, gw_ranking_stub = Some rank\<rparr>
      (guid1, guid2, guid3) request RecommendResponse_default = (StatusOK, resp) \<longleftrightarrow>
    (\<exists>found retrieved ranked.
       get_profile \<lparr>gpq_trace_id = req_request_id request, gpq_request_id = guid1, gpq_user_id = req_user_id request\<rparr>
         = (StatusOK, found) \<and> gps_status found = PROFILE_SUCCESS \<and>
       retrieve \<lparr>rtq_trace_id = req_request_id request, rtq_request_id = guid2,
           rtq_user_id = of_int (req_user_id request), rtq_profile = Some (gps_profile found),
           rtq_max_candidate_count = req_max_results request\<rparr>
         = (StatusOK, retrieved) \<and> rts_status retrieved = RETRIEVAL_SUCCESS \<and>
       rank (rank_request guid3 request (gps_profile found) retrieved) = (StatusOK, ranked) \<and>
         rks_status ranked = RANKING_SUCCESS \<and>
       resp = \<lparr>res_status = SUCCESS, res_msg = [], res_candidates = map rc_candidate (rks_ranked_candidates ranked)\<rparr>)"
  by (rule Recommend_success)

end
