(* ===== verification/ProfileStores.thy ===== *)
theory ProfileStores
  imports LruCache Messages TextLines
begin

text \<open>
  The profile stores (src/src/recommendation_engine/profile, src/src/utilities/local_profile_loader and
  pb_data_handler): profiles loaded from a file of JSON lines, and the cache in front of a store. The
  protobuf JSON parser is an argument: given a text and a message it says how it failed, if it did,
  and what it left in the message. A pointer argument is an option, \<open>None\<close> the null pointer.
\<close>

section \<open>Messages from JSON\<close>

type_synonym 'm json_to_message = "string \<Rightarrow> 'm \<Rightarrow> string option \<times> 'm"

text \<open>Writing through an error pointer that may be null.\<close>

definition set_error :: "string \<Rightarrow> string option \<Rightarrow> string option" where
  "set_error text error_msg = map_option (\<lambda>_. text) error_msg"

definition JsonToPB ::
  "'m json_to_message \<Rightarrow> string \<Rightarrow> 'm option \<Rightarrow> string option \<Rightarrow> bool \<times> 'm option \<times> string option" where
  "JsonToPB parse json_in message error_msg =
     (case message of
        None \<Rightarrow> (False, None, set_error ''PBDataHandler::JsonToPB failed: message is nullptr'' error_msg)
      | Some m \<Rightarrow>
          (case parse json_in m of
             (Some status, m) \<Rightarrow> (False, Some m, set_error (''PBDataHandler::JsonToPB failed: '' @ status) error_msg)
           | (None, m) \<Rightarrow> (True, Some m, error_msg)))"

definition JsonFileToPB ::
  "'m json_to_message \<Rightarrow> (string \<Rightarrow> string option) \<Rightarrow> string \<Rightarrow> 'm option \<Rightarrow> string option \<Rightarrow>
     bool \<times> 'm option \<times> string option" where
  "JsonFileToPB parse read_file file_path message error_msg =
     (case message of
        None \<Rightarrow> (False, None, set_error ''PBDataHandler::JsonFileToPB failed: message is nullptr'' error_msg)
      | Some m \<Rightarrow>
          (case read_file file_path of
             None \<Rightarrow> (False, Some m,
               set_error (''PBDataHandler::JsonFileToPB failed: cannot open file '' @ file_path) error_msg)
           | Some json_content \<Rightarrow> JsonToPB parse json_content (Some m) error_msg))"

text \<open>The other direction: \<open>print\<close> is the protobuf printer; a written file is its new content.\<close>

definition PBToJson ::
  "('m \<Rightarrow> string + string) \<Rightarrow> 'm \<Rightarrow> string option \<Rightarrow> string option \<Rightarrow> bool \<times> string option \<times> string option" where
  "PBToJson print message json_out error_msg =
     (if json_out = None
      then (False, None, set_error ''PBDataHandler::PBToJson failed: json_out is nullptr'' error_msg)
      else
        (case print message of
           Inl status \<Rightarrow> (False, json_out, set_error (''PBDataHandler::PBToJson failed: '' @ status) error_msg)
         | Inr json \<Rightarrow> (True, Some json, error_msg)))"

definition PBToJsonFile ::
  "('m \<Rightarrow> string + string) \<Rightarrow> (string \<Rightarrow> bool) \<Rightarrow> 'm \<Rightarrow> string \<Rightarrow> string option \<Rightarrow> bool \<times> string option \<times> string option" where
  "PBToJsonFile print can_open message file_path error_msg =
     (case PBToJson print message (Some []) error_msg of
        (True, Some json_str, error_msg) \<Rightarrow>
          if can_open file_path then (True, Some json_str, error_msg)
          else (False, None, set_error (''PBDataHandler::PBToJsonFile failed: cannot open file '' @ file_path) error_msg)
      | (_, _, error_msg) \<Rightarrow> (False, None, error_msg))"

section \<open>Profiles from a file\<close>

type_synonym UserIdProfileMap = "int \<rightharpoonup> Profile"

definition AddProfileFromJsonLine ::
  "Profile json_to_message \<Rightarrow> string \<Rightarrow> UserIdProfileMap \<Rightarrow> string option \<Rightarrow>
     bool \<times> UserIdProfileMap \<times> string option" where
  "AddProfileFromJsonLine parse profile_json loaded_profiles error_msg =
     (case JsonToPB parse profile_json (Some Profile_default) error_msg of
        (True, Some profile, error_msg) \<Rightarrow>
          if sint (pf_user_id profile) < int_min \<or> int_max < sint (pf_user_id profile)
          then (False, loaded_profiles,
                set_error ''LoadProfilesFromJsonlFile failed: user_id is outside int range'' error_msg)
          else (True, loaded_profiles(sint (pf_user_id profile) \<mapsto> profile), error_msg)
      | (_, _, error_msg) \<Rightarrow> (False, loaded_profiles, error_msg))"

fun load_profile_lines ::
  "Profile json_to_message \<Rightarrow> nat \<Rightarrow> string list \<Rightarrow> UserIdProfileMap \<Rightarrow> string option \<Rightarrow>
     bool \<times> UserIdProfileMap \<times> string option" where
  "load_profile_lines parse line_number [] parsed_profiles error_msg = (True, parsed_profiles, error_msg)"
| "load_profile_lines parse line_number (line # lines) parsed_profiles error_msg =
     (let line_number = Suc line_number in
      if IsBlank line then load_profile_lines parse line_number lines parsed_profiles error_msg
      else
        (case AddProfileFromJsonLine parse line parsed_profiles error_msg of
           (False, parsed_profiles, error_msg) \<Rightarrow>
             (False, parsed_profiles, map_option (\<lambda>m. m @ '' at JSONL line '' @ show_nat line_number) error_msg)
         | (True, parsed_profiles, error_msg) \<Rightarrow>
             load_profile_lines parse line_number lines parsed_profiles error_msg))"

definition LoadProfilesFromJsonlFile ::
  "Profile json_to_message \<Rightarrow> (string \<Rightarrow> string option) \<Rightarrow> string \<Rightarrow> UserIdProfileMap option \<Rightarrow> string option \<Rightarrow>
     bool \<times> UserIdProfileMap option \<times> string option" where
  "LoadProfilesFromJsonlFile parse read_file file_path loaded_profiles error_msg =
     (if loaded_profiles = None
      then (False, None, set_error ''loaded_profiles pointer must not be null.'' error_msg)
      else
        (case read_file file_path of
           None \<Rightarrow> (False, loaded_profiles,
             set_error (''LoadProfilesFromJsonlFile failed: cannot open file '' @ file_path) error_msg)
         | Some content \<Rightarrow>
             (case load_profile_lines parse 0 (getlines content) Map.empty error_msg of
                (False, _, error_msg) \<Rightarrow> (False, loaded_profiles, error_msg)
              | (True, parsed_profiles, error_msg) \<Rightarrow> (True, Some parsed_profiles, error_msg))))"

definition LoadProfileFromLocalFile ::
  "Profile json_to_message \<Rightarrow> (string \<Rightarrow> string option) \<Rightarrow> string \<Rightarrow> int64 \<Rightarrow> Profile option \<Rightarrow> string option \<Rightarrow>
     bool \<times> Profile option \<times> string option" where
  "LoadProfileFromLocalFile parse read_file file_path user_id profile error_msg =
     (if profile = None
      then (False, None, set_error ''profile output pointer must not be null.'' error_msg)
      else if sint user_id < int_min \<or> int_max < sint user_id
      then (False, profile, set_error ''user_id is out of range for local JSONL profile lookup.'' error_msg)
      else
        (case LoadProfilesFromJsonlFile parse read_file file_path (Some Map.empty) error_msg of
           (True, Some profiles, error_msg) \<Rightarrow>
             (case profiles (sint user_id) of
                None \<Rightarrow> (False, profile,
                  set_error (''Cannot find demo profile for user_id '' @ show_int (sint user_id) @ '' in '' @ file_path)
                    error_msg)
              | Some found \<Rightarrow> (True, Some found, error_msg))
         | (_, _, error_msg) \<Rightarrow> (False, profile, error_msg)))"

definition LocalFileProfileStore_new ::
  "Profile json_to_message \<Rightarrow> (string \<Rightarrow> string option) \<Rightarrow> string \<Rightarrow> UserIdProfileMap throws" where
  "LocalFileProfileStore_new parse read_file file_path =
     (case LoadProfilesFromJsonlFile parse read_file file_path (Some Map.empty) (Some []) of
        (True, Some profiles, _) \<Rightarrow> Inr profiles
      | (_, _, error_msg) \<Rightarrow> Inl (RuntimeError (case error_msg of None \<Rightarrow> [] | Some m \<Rightarrow> m)))"

definition LocalFileProfileStore_FindByUserId :: "UserIdProfileMap \<Rightarrow> int \<Rightarrow> Profile option throws" where
  "LocalFileProfileStore_FindByUserId profiles user_id = Inr (profiles user_id)"

section \<open>The caching store\<close>

definition CachingProfileStore_new :: "bool \<Rightarrow> nat \<Rightarrow> int \<Rightarrow> (int, Profile) LruCache throws" where
  "CachingProfileStore_new profile_store_is_null cap d =
     (if profile_store_is_null
      then Inl (InvalidArgument ''CachingProfileStore profile_store must not be null'')
      else Inr (LruCache_new cap d))"

definition CachingProfileStore_FindByUserId ::
  "(int, Profile) LruCache \<Rightarrow> (int, Profile) Lookup \<Rightarrow>
     (Profile option throws \<times> (int, Profile) LruCache) option" where
  "CachingProfileStore_FindByUserId cache l =
     (case Get cache (lk_key l) (lk_get_time l) of
        None \<Rightarrow> None
      | Some (Some cached_profile, cache1) \<Rightarrow> Some (Inr (Some cached_profile), cache1)
      | Some (None, cache1) \<Rightarrow>
          (case lk_backing l (lk_key l) of
             Inl e \<Rightarrow> Some (Inl e, cache1)
           | Inr None \<Rightarrow> Some (Inr None, cache1)
           | Inr (Some profile) \<Rightarrow>
               (case Put cache1 (lk_key l) profile (lk_put_time l) of
                  None \<Rightarrow> None
                | Some cache2 \<Rightarrow> Some (Inr (Some profile), cache2))))"

interpretation profile_cache:
  read_through Get Put lru_inv "\<lambda>c k v e. (k, v, e) \<in> set (lru_abs c)" ttl CachingProfileStore_FindByUserId
  by unfold_locales (simp add: CachingProfileStore_FindByUserId_def)

section \<open>What a file of profiles holds\<close>

text \<open>Specification: what one line gives, the profile or why it is refused.\<close>

definition profile_of_line :: "Profile json_to_message \<Rightarrow> string \<Rightarrow> string + Profile" where
  "profile_of_line parse l =
     (case parse l Profile_default of
        (Some status, _) \<Rightarrow> Inl (''PBDataHandler::JsonToPB failed: '' @ status)
      | (None, p) \<Rightarrow>
          if int_min \<le> sint (pf_user_id p) \<and> sint (pf_user_id p) \<le> int_max then Inr p
          else Inl ''LoadProfilesFromJsonlFile failed: user_id is outside int range'')"

lemma AddProfileFromJsonLine_eq:
  "AddProfileFromJsonLine parse l loaded error_msg =
     (case profile_of_line parse l of
        Inl msg \<Rightarrow> (False, loaded, set_error msg error_msg)
      | Inr p \<Rightarrow> (True, loaded(sint (pf_user_id p) \<mapsto> p), error_msg))"
  by (auto simp: AddProfileFromJsonLine_def JsonToPB_def profile_of_line_def not_less split: prod.splits option.splits)

definition users_of :: "Profile list \<Rightarrow> UserIdProfileMap" where
  "users_of ps i = find (\<lambda>p. sint (pf_user_id p) = i) (rev ps)"

lemma users_of_snoc: "(users_of ps)(sint (pf_user_id p) \<mapsto> p) = users_of (ps @ [p])"
  by (auto simp: users_of_def)

lemma load_profile_lines_ok:
  assumes "list_all2 (\<lambda>l p. profile_of_line parse l = Inr p) (filter (\<lambda>l. \<not> IsBlank l) lines) ps"
  shows "load_profile_lines parse n lines (users_of qs) e = (True, users_of (qs @ ps), e)"
  using assms
proof (induction lines arbitrary: n qs ps)
  case (Cons l lines)
  show ?case
  proof (cases "IsBlank l")
    case False
    with Cons.prems obtain p ps' where ps: "ps = p # ps'" "profile_of_line parse l = Inr p"
      "list_all2 (\<lambda>l p. profile_of_line parse l = Inr p) (filter (\<lambda>l. \<not> IsBlank l) lines) ps'"
      by (auto simp: list_all2_Cons1)
    from Cons.IH [OF this(3), of "Suc n" "qs @ [p]"] show ?thesis
      using False by (simp add: ps(1,2) AddProfileFromJsonLine_eq users_of_snoc)
  qed (use Cons in simp)
qed simp

lemma load_profile_lines_refuses:
  assumes "\<forall>l \<in> set good. IsBlank l \<or> (\<exists>p. profile_of_line parse l = Inr p)"
    "\<not> IsBlank bad" "profile_of_line parse bad = Inl msg"
  shows "\<exists>m'. load_profile_lines parse n (good @ bad # rest) m (Some e) =
    (False, m', Some (msg @ '' at JSONL line '' @ show_nat (n + Suc (length good))))"
  using assms
proof (induction good arbitrary: n m)
  case Nil
  then show ?case by (simp add: AddProfileFromJsonLine_eq set_error_def)
next
  case (Cons l good)
  have good: "\<forall>l \<in> set good. IsBlank l \<or> (\<exists>p. profile_of_line parse l = Inr p)" using Cons.prems by simp
  note IH = Cons.IH [OF good assms(2,3), of "Suc n"]
  show ?case
  proof (cases "IsBlank l")
    case False
    with Cons.prems obtain p where "profile_of_line parse l = Inr p" by auto
    with False have step: "load_profile_lines parse n ((l # good) @ bad # rest) m (Some e) =
        load_profile_lines parse (Suc n) (good @ bad # rest) (m(sint (pf_user_id p) \<mapsto> p)) (Some e)"
      by (simp add: AddProfileFromJsonLine_eq)
    have "Suc n + Suc (length good) = n + Suc (length (l # good))" by simp
    then show ?thesis unfolding step using IH [of "m(sint (pf_user_id p) \<mapsto> p)"] by (simp only:)
  qed (use IH [of m] Cons.prems in simp)
qed

text \<open>
  C21. A file of profiles is a store when every line that is not blank gives a profile: a user is then
  answered with the last profile of the file that has his id. Otherwise the constructor throws, with
  the reason and the number of the first line that gives none.
\<close>

theorem profile_file_store:
  assumes "read_file path = Some content"
  shows "(\<exists>ps profiles.
      list_all2 (\<lambda>l p. profile_of_line parse l = Inr p) (filter (\<lambda>l. \<not> IsBlank l) (getlines content)) ps \<and>
      LocalFileProfileStore_new parse read_file path = Inr profiles \<and>
      LocalFileProfileStore_FindByUserId profiles i = Inr (find (\<lambda>p. sint (pf_user_id p) = i) (rev ps))) \<or>
    (\<exists>good bad rest msg. getlines content = good @ bad # rest \<and>
      (\<forall>l \<in> set good. IsBlank l \<or> (\<exists>p. profile_of_line parse l = Inr p)) \<and>
      \<not> IsBlank bad \<and> profile_of_line parse bad = Inl msg \<and>
      LocalFileProfileStore_new parse read_file path =
        Inl (RuntimeError (msg @ '' at JSONL line '' @ show_nat (Suc (length good)))))"
proof (cases "\<exists>l \<in> set (getlines content). \<not> (IsBlank l \<or> (\<exists>p. profile_of_line parse l = Inr p))")
  case True
  then obtain good bad rest where split: "getlines content = good @ bad # rest"
    "\<not> (IsBlank bad \<or> (\<exists>p. profile_of_line parse bad = Inr p))"
    "\<forall>l \<in> set good. IsBlank l \<or> (\<exists>p. profile_of_line parse l = Inr p)"
    using split_list_first_prop [of "getlines content" "\<lambda>l. \<not> (IsBlank l \<or> (\<exists>p. profile_of_line parse l = Inr p))"]
    by blast
  then obtain msg where msg: "profile_of_line parse bad = Inl msg" by (cases "profile_of_line parse bad") auto
  obtain m' where "load_profile_lines parse 0 (getlines content) Map.empty (Some []) =
      (False, m', Some (msg @ '' at JSONL line '' @ show_nat (Suc (length good))))"
    using load_profile_lines_refuses [OF split(3) _ msg, of 0 rest Map.empty "[]"] split(1,2) by auto
  then have "LocalFileProfileStore_new parse read_file path =
        Inl (RuntimeError (msg @ '' at JSONL line '' @ show_nat (Suc (length good))))"
    by (simp add: LocalFileProfileStore_new_def LoadProfilesFromJsonlFile_def assms)
  then show ?thesis using split msg by blast
next
  case False
  let ?lines = "filter (\<lambda>l. \<not> IsBlank l) (getlines content)"
  define ps where "ps = map (\<lambda>l. projr (profile_of_line parse l)) ?lines"
  have ps: "list_all2 (\<lambda>l p. profile_of_line parse l = Inr p) ?lines ps"
    using False by (force simp: ps_def list_all2_map2 intro!: list.rel_refl_strong)
  have "users_of [] = Map.empty" by (simp add: users_of_def fun_eq_iff)
  then have "LocalFileProfileStore_new parse read_file path = Inr (users_of ps)"
    using load_profile_lines_ok [OF ps, of 0 "[]" "Some []"]
    by (simp add: LocalFileProfileStore_new_def LoadProfilesFromJsonlFile_def assms)
  then show ?thesis using ps by (auto simp: LocalFileProfileStore_FindByUserId_def users_of_def)
qed

theorem profile_file_store_witness:
  "LocalFileProfileStore_new (\<lambda>_ m. (Some ''bad'', m)) (\<lambda>_. Some ''x'') ''p'' =
     Inl (RuntimeError (''PBDataHandler::JsonToPB failed: bad'' @ '' at JSONL line '' @ show_nat 1))"
proof -
  have lines: "getlines ''x'' = [''x'']" "\<not> IsBlank ''x''"
    by (simp_all add: getlines_last newline_def IsBlank_def is_blank_char_def)
  have bad: "profile_of_line (\<lambda>_ m. (Some ''bad'', m)) l = Inl ''PBDataHandler::JsonToPB failed: bad''" for l
    by (simp add: profile_of_line_def)
  have one: "[''x''] = good @ b # rest \<longleftrightarrow> good = [] \<and> b = ''x'' \<and> rest = []" for good rest and b :: string
    by (cases good) auto
  show ?thesis
    using profile_file_store [of "\<lambda>_. Some ''x''" "''p''" "''x''" "\<lambda>_ m. (Some ''bad'', m)" 0, OF refl] lines(2)
    unfolding lines(1) one bad One_nat_def
    by (auto simp only: filter.simps if_True list_all2_Cons1 list.size sum.distinct sum.inject simp_thms if_not_P)
qed

end
