(* ===== verification/ProfileService.thy ===== *)
theory ProfileService
  imports ProfileStores
begin

text \<open>
  The profile service (src/src/recommendation_engine/profile/profile_service.cpp): \<open>GetProfile\<close> and
  \<open>BatchGetUserCfProfiles\<close> over a store that may keep a state, its cache. \<open>None\<close> as the result of
  a lookup or of a handler is undefined behaviour of the cache, shown not to happen.
\<close>

type_synonym 's profile_store = "'s \<Rightarrow> int \<Rightarrow> (Profile option throws \<times> 's) option"

text \<open>The stores of the service: one without a cache, and one behind it, which reads the clock.\<close>

definition uncached_store :: "(int \<Rightarrow> Profile option throws) \<Rightarrow> 's profile_store" where
  "uncached_store answers s user_id = Some (answers user_id, s)"

definition cached_store ::
  "(nat \<Rightarrow> int) \<Rightarrow> (int \<Rightarrow> Profile option throws) \<Rightarrow> ((int, Profile) LruCache \<times> nat) profile_store" where
  "cached_store clock answers s user_id =
     (case s of
        (cache, n) \<Rightarrow>
          map_option (\<lambda>(r, cache). (r, cache, n + 2))
            (CachingProfileStore_FindByUserId cache
               \<lparr>lk_key = user_id, lk_get_time = clock n, lk_put_time = clock (n + 1), lk_backing = answers\<rparr>))"

definition FillUserCfProfile :: "Profile \<Rightarrow> UserCfProfile \<Rightarrow> UserCfProfile" where
  "FillUserCfProfile source target =
     target\<lparr>ucf_user_id := pf_user_id source,
            ucf_recent_liked_items := be_recent_liked_items (pf_behaviors source),
            ucf_liked_items := be_liked_items (pf_behaviors source),
            ucf_interested_items := be_interested_items (pf_behaviors source)\<rparr>"

definition ProfileService_new :: "'s profile_store option \<Rightarrow> 's profile_store throws" where
  "ProfileService_new profile_store =
     (case profile_store of
        None \<Rightarrow> Inl (InvalidArgument ''ProfileServiceImpl profile_store must not be null.'')
      | Some store \<Rightarrow> Inr store)"

definition GetProfile ::
  "'s profile_store option \<Rightarrow> 's \<Rightarrow> GetProfileRequest \<Rightarrow> GetProfileResponse \<Rightarrow>
     ((grpc_status \<times> GetProfileResponse) \<times> 's) option" where
  "GetProfile profile_store s request response =
     (let response = response\<lparr>gps_msg := []\<rparr> in
      case profile_store of
        None \<Rightarrow>
          (let m = ''Profile store is not initialized.''
           in Some ((StatusError INTERNAL m, response\<lparr>gps_status := PROFILE_SYSTEM_ERROR, gps_msg := m\<rparr>), s))
      | Some store \<Rightarrow>
          (case store s (gpq_user_id request) of
             None \<Rightarrow> None
           | Some (Inl ex, s) \<Rightarrow>
               Some ((StatusError INTERNAL (what ex),
                      response\<lparr>gps_status := PROFILE_SYSTEM_ERROR, gps_msg := what ex\<rparr>), s)
           | Some (Inr None, s) \<Rightarrow>
               (let message = ''User ID of '' @ show_int (gpq_user_id request) @ '' not found.''
                in Some ((StatusError NOT_FOUND message,
                          response\<lparr>gps_status := PROFILE_USER_NOT_FOUND, gps_msg := message\<rparr>), s))
           | Some (Inr (Some profile), s) \<Rightarrow>
               Some ((StatusOK, response\<lparr>gps_status := PROFILE_SUCCESS, gps_msg := [], gps_profile := profile\<rparr>), s)))"

text \<open>The loop over the ids: the results so far, and the exception that leaves it, if any.\<close>

fun batch_results ::
  "'s profile_store \<Rightarrow> 's \<Rightarrow> int64 list \<Rightarrow> UserCfProfileResult list \<Rightarrow>
     ((UserCfProfileResult list \<times> cpp_error option) \<times> 's) option" where
  "batch_results store s [] results = Some ((results, None), s)"
| "batch_results store s (user_id # user_ids) results =
     (let result = \<lparr>upr_status = PROFILE_SUCCESS, upr_user_id = user_id, upr_profile = UserCfProfile_default\<rparr> in
      if sint user_id \<le> 0 \<or> int_max < sint user_id
      then batch_results store s user_ids (results @ [result\<lparr>upr_status := PROFILE_INVALID_REQUEST\<rparr>])
      else
        (case store s (sint user_id) of
           None \<Rightarrow> None
         | Some (Inl ex, s) \<Rightarrow> Some ((results @ [result], Some ex), s)
         | Some (Inr None, s) \<Rightarrow>
             batch_results store s user_ids (results @ [result\<lparr>upr_status := PROFILE_USER_NOT_FOUND\<rparr>])
         | Some (Inr (Some profile), s) \<Rightarrow>
             batch_results store s user_ids
               (results @ [result\<lparr>upr_status := PROFILE_SUCCESS,
                                  upr_profile := FillUserCfProfile profile (upr_profile result)\<rparr>])))"

definition BatchGetUserCfProfiles ::
  "'s profile_store option \<Rightarrow> 's \<Rightarrow> BatchGetUserCfProfilesRequest \<Rightarrow> BatchGetUserCfProfilesResponse \<Rightarrow>
     ((grpc_status \<times> BatchGetUserCfProfilesResponse) \<times> 's) option" where
  "BatchGetUserCfProfiles profile_store s request response =
     (let response = response\<lparr>bgs_msg := []\<rparr> in
      case profile_store of
        None \<Rightarrow>
          (let m = ''Profile store is not initialized.''
           in Some ((StatusError INTERNAL m, response\<lparr>bgs_status := PROFILE_SYSTEM_ERROR, bgs_msg := m\<rparr>), s))
      | Some store \<Rightarrow>
          (case batch_results store s (bgq_user_ids request) (bgs_results response) of
             None \<Rightarrow> None
           | Some ((results, Some ex), s) \<Rightarrow>
               Some ((StatusError INTERNAL (what ex),
                      response\<lparr>bgs_results := results, bgs_status := PROFILE_SYSTEM_ERROR, bgs_msg := what ex\<rparr>), s)
           | Some ((results, None), s) \<Rightarrow>
               Some ((StatusOK,
                      response\<lparr>bgs_results := results, bgs_status := PROFILE_SUCCESS, bgs_msg := []\<rparr>), s)))"

section \<open>Stores that answer\<close>

text \<open>
  What the service relies on: a store whose lookups return, whatever they did before, the answers of
  one function, as long as its state is \<open>ready\<close>. A store without a cache is one; behind a cache
  the states are those that hold answers of the function only.
\<close>

locale answering_store =
  fixes store :: "'s profile_store" and answers :: "int \<Rightarrow> Profile option throws" and ready :: "'s \<Rightarrow> bool"
  assumes lookup: "ready s \<Longrightarrow> \<exists>s'. store s user_id = Some (answers user_id, s') \<and> ready s'"

text \<open>Specification of the two answers of the service.\<close>

definition profile_answer ::
  "(int \<Rightarrow> Profile option throws) \<Rightarrow> int \<Rightarrow> grpc_status \<times> GetProfileResponse" where
  "profile_answer answers user_id =
     (case answers user_id of
        Inl ex \<Rightarrow> (StatusError INTERNAL (what ex),
                   \<lparr>gps_status = PROFILE_SYSTEM_ERROR, gps_msg = what ex, gps_profile = Profile_default\<rparr>)
      | Inr None \<Rightarrow>
          (let m = ''User ID of '' @ show_int user_id @ '' not found.''
           in (StatusError NOT_FOUND m,
               \<lparr>gps_status = PROFILE_USER_NOT_FOUND, gps_msg = m, gps_profile = Profile_default\<rparr>))
      | Inr (Some profile) \<Rightarrow> (StatusOK, \<lparr>gps_status = PROFILE_SUCCESS, gps_msg = [], gps_profile = profile\<rparr>))"

definition user_cf_result :: "(int \<Rightarrow> Profile option throws) \<Rightarrow> int64 \<Rightarrow> UserCfProfileResult throws" where
  "user_cf_result answers user_id =
     (if sint user_id \<in> {1..int_max} then
        (case answers (sint user_id) of
           Inl ex \<Rightarrow> Inl ex
         | Inr None \<Rightarrow>
             Inr \<lparr>upr_status = PROFILE_USER_NOT_FOUND, upr_user_id = user_id, upr_profile = UserCfProfile_default\<rparr>
         | Inr (Some p) \<Rightarrow>
             Inr \<lparr>upr_status = PROFILE_SUCCESS, upr_user_id = user_id,
                  upr_profile = \<lparr>ucf_user_id = pf_user_id p,
                    ucf_recent_liked_items = be_recent_liked_items (pf_behaviors p),
                    ucf_liked_items = be_liked_items (pf_behaviors p),
                    ucf_interested_items = be_interested_items (pf_behaviors p)\<rparr>\<rparr>)
      else Inr \<lparr>upr_status = PROFILE_INVALID_REQUEST, upr_user_id = user_id, upr_profile = UserCfProfile_default\<rparr>)"

definition GetProfileResponse_default :: GetProfileResponse where
  "GetProfileResponse_default = \<lparr>gps_status = PROFILE_SUCCESS, gps_msg = [], gps_profile = Profile_default\<rparr>"

definition BatchGetUserCfProfilesResponse_default :: BatchGetUserCfProfilesResponse where
  "BatchGetUserCfProfilesResponse_default = \<lparr>bgs_status = PROFILE_SUCCESS, bgs_msg = [], bgs_results = []\<rparr>"

context answering_store
begin

lemma get_profile_answer:
  assumes "ready s"
  shows "\<exists>s'. ready s' \<and> GetProfile (Some store) s request GetProfileResponse_default =
    Some (profile_answer answers (gpq_user_id request), s')"
proof -
  obtain s' where "store s (gpq_user_id request) = Some (answers (gpq_user_id request), s')" "ready s'"
    using lookup [OF assms] by blast
  then show ?thesis
    by (auto simp: GetProfile_def profile_answer_def GetProfileResponse_default_def Let_def split: sum.splits option.splits)
qed

lemma batch_results_answer:
  assumes "ready s"
  shows "\<exists>s' rs. ready s' \<and>
    batch_results store s ids results =
      Some ((results @ rs, case mapE (user_cf_result answers) ids of Inl ex \<Rightarrow> Some ex | Inr _ \<Rightarrow> None), s') \<and>
    (\<forall>rs'. mapE (user_cf_result answers) ids = Inr rs' \<longrightarrow> rs = rs')"
  using assms
proof (induction ids arbitrary: s results)
  case (Cons i ids)
  let ?m = "mapE (user_cf_result answers) ids"
  have continue: ?case
    if step: "batch_results store s (i # ids) results = batch_results store s' ids (results @ [r])"
      "user_cf_result answers i = Inr r" "ready s'" for s' r
  proof -
    obtain s'' rs where IH: "ready s''" "batch_results store s' ids (results @ [r]) =
        Some (((results @ [r]) @ rs, case ?m of Inl ex \<Rightarrow> Some ex | Inr _ \<Rightarrow> None), s'')"
      "\<forall>rs'. ?m = Inr rs' \<longrightarrow> rs = rs'"
      using Cons.IH [OF step(3), of "results @ [r]"] by blast
    show ?case
      unfolding step(1) IH(2) mapE.simps step(2) bindE.simps
      by (rule exI [of _ s''], rule exI [of _ "r # rs"]) (use IH(1,3) in \<open>cases ?m; simp\<close>)
  qed
  show ?case
  proof (cases "sint i \<in> {1..int_max}")
    case False
    show ?thesis
      by (rule continue [where r = "\<lparr>upr_status = PROFILE_INVALID_REQUEST, upr_user_id = i,
              upr_profile = UserCfProfile_default\<rparr>", OF _ _ Cons.prems])
        (use False in \<open>auto simp: user_cf_result_def Let_def\<close>)
  next
    case True
    then have range: "\<not> (sint i \<le> 0 \<or> int_max < sint i)" by auto
    obtain s' where s': "store s (sint i) = Some (answers (sint i), s')" "ready s'"
      using lookup [OF Cons.prems] by blast
    show ?thesis
    proof (cases "answers (sint i)")
      case (Inl ex)
      then show ?thesis using True range s' by (auto simp: user_cf_result_def Let_def)
    next
      case (Inr found)
      show ?thesis
        by (rule continue [where r = "\<lparr>upr_status = (if found = None then PROFILE_USER_NOT_FOUND else PROFILE_SUCCESS),
              upr_user_id = i, upr_profile = (case found of None \<Rightarrow> UserCfProfile_default
                | Some p \<Rightarrow> FillUserCfProfile p UserCfProfile_default)\<rparr>", OF _ _ s'(2)])
          (use True range s' Inr in \<open>cases found; simp add: Let_def user_cf_result_def FillUserCfProfile_def UserCfProfile_default_def\<close>)+
    qed
  qed
qed auto

lemma batch_answer:
  assumes "ready s"
  shows "\<exists>s' st resp. ready s' \<and>
    BatchGetUserCfProfiles (Some store) s request BatchGetUserCfProfilesResponse_default = Some ((st, resp), s') \<and>
    (case mapE (user_cf_result answers) (bgq_user_ids request) of
       Inl ex \<Rightarrow> st = StatusError INTERNAL (what ex) \<and> bgs_status resp = PROFILE_SYSTEM_ERROR \<and> bgs_msg resp = what ex
     | Inr results \<Rightarrow> st = StatusOK \<and> resp = \<lparr>bgs_status = PROFILE_SUCCESS, bgs_msg = [], bgs_results = results\<rparr>)"
proof -
  from batch_results_answer [OF assms, of "bgq_user_ids request" "[]"] show ?thesis
    by (cases "mapE (user_cf_result answers) (bgq_user_ids request)")
      (auto simp: BatchGetUserCfProfiles_def BatchGetUserCfProfilesResponse_default_def Let_def)
qed

end

interpretation uncached: answering_store "uncached_store answers" answers "\<lambda>_. True"
  by unfold_locales (simp add: uncached_store_def)

interpretation cached: answering_store "cached_store clock answers" answers "\<lambda>s. profile_cache.faithful answers (fst s)"
proof
  fix s :: "(int, Profile) LruCache \<times> nat" and user_id
  assume "profile_cache.faithful answers (fst s)"
  from profile_cache.faithful_lookup [OF this, of "\<lparr>lk_key = user_id, lk_get_time = clock (snd s),
      lk_put_time = clock (snd s + 1), lk_backing = answers\<rparr>"]
  show "\<exists>s'. cached_store clock answers s user_id = Some (answers user_id, s') \<and> profile_cache.faithful answers (fst s')"
    by (auto simp: cached_store_def case_prod_beta)
qed

section \<open>The service behind its cache\<close>

datatype profile_call = CallGetProfile GetProfileRequest | CallBatch BatchGetUserCfProfilesRequest

text \<open>The state of the store after a sequence of calls of the service.\<close>

fun serve_all :: "'s profile_store \<Rightarrow> 's \<Rightarrow> profile_call list \<Rightarrow> 's option" where
  "serve_all store s [] = Some s"
| "serve_all store s (CallGetProfile request # calls) =
     (case GetProfile (Some store) s request GetProfileResponse_default of
        None \<Rightarrow> None
      | Some (_, s) \<Rightarrow> serve_all store s calls)"
| "serve_all store s (CallBatch request # calls) =
     (case BatchGetUserCfProfiles (Some store) s request BatchGetUserCfProfilesResponse_default of
        None \<Rightarrow> None
      | Some (_, s) \<Rightarrow> serve_all store s calls)"

context answering_store
begin

lemma serve_all_ready: "ready s \<Longrightarrow> \<exists>s'. serve_all store s calls = Some s' \<and> ready s'"
proof (induction calls arbitrary: s)
  case (Cons call calls)
  show ?case
  proof (cases call)
    case (CallGetProfile request)
    obtain s' where "ready s'" "GetProfile (Some store) s request GetProfileResponse_default =
        Some (profile_answer answers (gpq_user_id request), s')"
      using get_profile_answer [OF Cons.prems] by blast
    then show ?thesis using Cons.IH [of s'] CallGetProfile by simp
  next
    case (CallBatch request)
    obtain s' st resp where "ready s'" "BatchGetUserCfProfiles (Some store) s request
        BatchGetUserCfProfilesResponse_default = Some ((st, resp), s')"
      using batch_answer [OF Cons.prems] by blast
    then show ?thesis using Cons.IH [of s'] CallBatch by simp
  qed
qed simp

end

text \<open>
  C20. The profile service behind its cache, after any history of calls and whatever the clock shows,
  while the answers of the wrapped store do not change: a profile request is answered with what the
  store has for the user, an absent user with NOT_FOUND and a failure with INTERNAL; a batch has one
  result per id in the order of the request, ids outside the range of \<open>int\<close> being invalid
  without a lookup, and is INTERNAL when a lookup fails. No call is undefined.
\<close>

theorem profile_service_answers:
  "\<exists>s st batch s1 s2.
    serve_all (cached_store clock answers) (LruCache_new cap d, 0) history = Some s \<and>
    GetProfile (Some (cached_store clock answers)) s request GetProfileResponse_default =
      Some (profile_answer answers (gpq_user_id request), s1) \<and>
    BatchGetUserCfProfiles (Some (cached_store clock answers)) s batch_request BatchGetUserCfProfilesResponse_default =
      Some ((st, batch), s2) \<and>
    (case mapE (user_cf_result answers) (bgq_user_ids batch_request) of
       Inl ex \<Rightarrow> st = StatusError INTERNAL (what ex) \<and> bgs_status batch = PROFILE_SYSTEM_ERROR \<and> bgs_msg batch = what ex
     | Inr results \<Rightarrow> st = StatusOK \<and> batch = \<lparr>bgs_status = PROFILE_SUCCESS, bgs_msg = [], bgs_results = results\<rparr>)"
proof -
  have "profile_cache.faithful answers (fst (LruCache_new cap d, 0))"
    unfolding fst_conv by (rule profile_cache.faithful_fresh [OF lru_inv_new]) (simp add: lru_abs_def LruCache_new_def)
  from cached.serve_all_ready [OF this, of clock history] obtain s where
    s: "serve_all (cached_store clock answers) (LruCache_new cap d, 0) history = Some s"
      "profile_cache.faithful answers (fst s)"
    by blast
  show ?thesis
    using s(1) cached.get_profile_answer [OF s(2), of clock request] cached.batch_answer [OF s(2), of clock batch_request]
    by blast
qed

end
