(* ===== verification/RetrieverItemCf.thy ===== *)
theory RetrieverItemCf
  imports CandidatePool
begin

text \<open>
  \<open>RetrieverItemCf\<close> (src/src/recommendation_engine/retrieval/retrievers/item_cf): seeds from the
  profile, the best of them, neighbours fetched in batches, contributions aggregated, candidates
  sorted and cut. The similarity store is a function of the ids and the neighbour limit that may
  throw; the stores of the source are modelled in \<open>SimilarityStores\<close>. The per-request
  \<open>SessionData\<close>, shared through a pointer, is a record that is passed and returned.
\<close>

section \<open>State\<close>

type_synonym item_similarity_store = "uint64 list \<Rightarrow> int \<Rightarrow> ItemNeighbor list list throws"

record ItemCf_Options =
  ico_default_max_candidate_count :: int
  ico_max_trigger_seed_count :: int
  ico_redis_command_batch_size :: int
  ico_score_multiplier :: float64

definition ItemCf_default_Options :: ItemCf_Options where
  "ItemCf_default_Options =
     \<lparr>ico_default_max_candidate_count = 10, ico_max_trigger_seed_count = 24,
      ico_redis_command_batch_size = 8, ico_score_multiplier = rnd 1\<rparr>"

record RetrieverItemCf =
  ic_default_max_candidate_count :: int
  ic_item_similarity_store :: item_similarity_store
  ic_max_trigger_seed_count :: int
  ic_redis_command_batch_size :: int
  ic_score_multiplier :: float64

record ItemCf_SessionData =
  ics_trigger_seeds :: "TriggerSeed list"
  ics_item_ids_to_filter_out :: "uint64 set"
  ics_candidates :: candidate_pool
  ics_total_neighbors_fetched :: nat
  ics_total_neighbors_filtered_out :: nat

definition ItemCf_SessionData_new :: ItemCf_SessionData where
  "ItemCf_SessionData_new =
     \<lparr>ics_trigger_seeds = [], ics_item_ids_to_filter_out = {}, ics_candidates = [],
      ics_total_neighbors_fetched = 0, ics_total_neighbors_filtered_out = 0\<rparr>"

text \<open>The constructor; a null store pointer is \<open>None\<close>.\<close>

definition RetrieverItemCf_new ::
  "item_similarity_store option \<Rightarrow> ItemCf_Options \<Rightarrow> RetrieverItemCf throws" where
  "RetrieverItemCf_new item_similarity_store options =
     (case item_similarity_store of
        None \<Rightarrow> Inl (RuntimeError ''RetrieverItemCf item_similarity_store must not be null'')
      | Some store \<Rightarrow>
          if ico_default_max_candidate_count options \<le> 0
          then Inl (InvalidArgument ''RetrieverItemCf default_max_candidate_count must be positive'')
          else if ico_max_trigger_seed_count options \<le> 0
          then Inl (InvalidArgument ''RetrieverItemCf max_trigger_seed_count must be positive'')
          else if ico_redis_command_batch_size options \<le> 0
          then Inl (InvalidArgument ''RetrieverItemCf redis_command_batch_size must be positive'')
          else if fle (ico_score_multiplier options) (Fin 0)
          then Inl (InvalidArgument ''RetrieverItemCf score_multiplier must be positive'')
          else Inr \<lparr>ic_default_max_candidate_count = ico_default_max_candidate_count options,
                    ic_item_similarity_store = store,
                    ic_max_trigger_seed_count = ico_max_trigger_seed_count options,
                    ic_redis_command_batch_size = ico_redis_command_batch_size options,
                    ic_score_multiplier = ico_score_multiplier options\<rparr>)"

section \<open>Selecting seeds\<close>

definition seed_higher_first :: "TriggerSeed \<Rightarrow> TriggerSeed \<Rightarrow> bool" where
  "seed_higher_first lhs rhs =
     (if \<not> feq (ts_score lhs) (ts_score rhs) then flt (ts_score rhs) (ts_score lhs)
      else ts_entity_id lhs < ts_entity_id rhs)"

interpretation seeds: keyed_order seed_higher_first "{s. ts_score s \<noteq> NaN}" ts_entity_id
proof -
  have "seed_higher_first = score_before ts_score ts_entity_id"
    by (intro ext) (simp add: seed_higher_first_def score_before_def)
  then show "keyed_order seed_higher_first {s. ts_score s \<noteq> NaN} ts_entity_id"
    using score_keyed_order [of "ts_score :: TriggerSeed \<Rightarrow> float64" ts_entity_id] by (simp only:)
qed

text \<open>\<open>partial_sort\<close> up to \<open>middle\<close>, then \<open>resize\<close>: the first elements of the sorted seeds.\<close>

definition SelectTopTriggerSeeds :: "TriggerSeed list \<Rightarrow> int \<Rightarrow> TriggerSeed list" where
  "SelectTopTriggerSeeds trigger_seeds max_trigger_seed_count =
     (if max_trigger_seed_count \<le> 0 \<or> length trigger_seeds \<le> nat max_trigger_seed_count
      then trigger_seeds
      else take (nat max_trigger_seed_count) (sort_by seed_higher_first trigger_seeds))"

definition ItemCf_BuildTriggerSeeds ::
  "RetrieverItemCf \<Rightarrow> Profile \<Rightarrow> ItemCf_SessionData \<Rightarrow> ItemCf_SessionData" where
  "ItemCf_BuildTriggerSeeds this profile session =
     session\<lparr>ics_trigger_seeds :=
       SelectTopTriggerSeeds (CollectTriggerSeeds profile) (ic_max_trigger_seed_count this)\<rparr>"

definition ItemCf_BuildFilterSet :: "Profile \<Rightarrow> ItemCf_SessionData \<Rightarrow> ItemCf_SessionData" where
  "ItemCf_BuildFilterSet profile session =
     session\<lparr>ics_item_ids_to_filter_out := CollectItemIdsToFilterOut profile\<rparr>"

section \<open>Aggregation\<close>

fun AggregateNeighbors ::
  "TriggerSeed \<Rightarrow> ItemNeighbor list \<Rightarrow> ItemCf_SessionData \<times> nat \<Rightarrow> ItemCf_SessionData \<times> nat" where
  "AggregateNeighbors trigger_seed [] (session, filtered) = (session, filtered)"
| "AggregateNeighbors trigger_seed (neighbor # neighbors) (session, filtered) =
     (if in_item_id neighbor \<in> ics_item_ids_to_filter_out session
      then AggregateNeighbors trigger_seed neighbors (session, Suc filtered)
      else AggregateNeighbors trigger_seed neighbors
             (session\<lparr>ics_candidates :=
                ItemCf_AddCandidateContribution trigger_seed neighbor (ics_candidates session)\<rparr>,
              filtered))"

text \<open>The loop over a batch: \<open>i\<close> is \<open>batch_start + i\<close> of the source.\<close>

fun AggregateSimilarityBatch ::
  "ItemNeighbor list list \<Rightarrow> nat \<Rightarrow> ItemCf_SessionData \<Rightarrow> nat \<Rightarrow> nat \<Rightarrow>
     ItemCf_SessionData \<times> nat \<times> nat" where
  "AggregateSimilarityBatch [] i session fetched filtered = (session, fetched, filtered)"
| "AggregateSimilarityBatch (neighbors # rest) i session fetched filtered =
     (let trigger_seed = ics_trigger_seeds session ! i;
          (session, filtered) = AggregateNeighbors trigger_seed neighbors (session, filtered)
      in AggregateSimilarityBatch rest (Suc i) session (fetched + length neighbors) filtered)"

text \<open>
  The loop over the batches. The constructor refuses a batch size that is not positive, on which
  the source would not terminate; the model stops there.
\<close>

function ItemCf_AggregateBatches ::
  "item_similarity_store \<Rightarrow> nat \<Rightarrow> int \<Rightarrow> nat \<Rightarrow> ItemCf_SessionData \<Rightarrow> ItemCf_SessionData throws" where
  "ItemCf_AggregateBatches store batch_size max_candidate_count batch_start session =
     (if batch_start < length (ics_trigger_seeds session) \<and> 0 < batch_size then
        (let batch_end = min (batch_start + batch_size) (length (ics_trigger_seeds session));
             trigger_item_ids =
               map (\<lambda>i. ts_entity_id (ics_trigger_seeds session ! i)) [batch_start..<batch_end]
         in bindE (store trigger_item_ids max_candidate_count) (\<lambda>neighbors_by_item_id.
              if length neighbors_by_item_id \<noteq> length trigger_item_ids
              then Inl (RuntimeError ''ItemSimilarityStore batch lookup returned mismatched result size'')
              else
                (let (session', fetched, filtered) =
                       AggregateSimilarityBatch neighbors_by_item_id batch_start session 0 0;
                     session' = session'\<lparr>
                       ics_total_neighbors_fetched := ics_total_neighbors_fetched session' + fetched,
                       ics_total_neighbors_filtered_out :=
                         ics_total_neighbors_filtered_out session' + filtered\<rparr>
                 in ItemCf_AggregateBatches store batch_size max_candidate_count
                      (batch_start + batch_size) session')))
      else Inr session)"
  by pat_completeness auto

lemma AggregateNeighbors_keeps:
  "ics_trigger_seeds (fst (AggregateNeighbors s ns x)) = ics_trigger_seeds (fst x)"
  "ics_item_ids_to_filter_out (fst (AggregateNeighbors s ns x)) = ics_item_ids_to_filter_out (fst x)"
  by (induction s ns x rule: AggregateNeighbors.induct) auto

lemma AggregateSimilarityBatch_keeps:
  "ics_trigger_seeds (fst (AggregateSimilarityBatch nss i session a b)) = ics_trigger_seeds session"
  "ics_item_ids_to_filter_out (fst (AggregateSimilarityBatch nss i session a b)) =
     ics_item_ids_to_filter_out session"
proof (induction nss arbitrary: i session a b)
  case (Cons ns nss)
  {
    case 1
    show ?case using Cons(1) AggregateNeighbors_keeps(1) [of _ ns "(session, b)"]
      by (simp add: case_prod_beta Let_def)
  next
    case 2
    show ?case using Cons(2) AggregateNeighbors_keeps(2) [of _ ns "(session, b)"]
      by (simp add: case_prod_beta Let_def)
  }
qed simp_all

termination ItemCf_AggregateBatches
proof (relation "measure (\<lambda>(store, sz, k, start, session). length (ics_trigger_seeds session) - start)",
    goal_cases)
  case (2 store sz k start session)
  then show ?case
    by (auto simp: AggregateSimilarityBatch_keeps(1)
        dest!: arg_cong [where f = "\<lambda>z. length (ics_trigger_seeds (fst z))"])
qed simp

declare ItemCf_AggregateBatches.simps [simp del]

definition ItemCf_AggregateSimilarityCandidates ::
  "RetrieverItemCf \<Rightarrow> RetrieverRequest \<Rightarrow> ItemCf_SessionData \<Rightarrow> RetrieverResponse \<Rightarrow>
     grpc_status \<times> ItemCf_SessionData \<times> RetrieverResponse" where
  "ItemCf_AggregateSimilarityCandidates this request session response =
     (let session = session\<lparr>ics_total_neighbors_fetched := 0, ics_total_neighbors_filtered_out := 0,
                            ics_candidates := []\<rparr>
      in case ItemCf_AggregateBatches (ic_item_similarity_store this)
                (nat (ic_redis_command_batch_size this)) (rvq_max_candidate_count request) 0 session of
           Inl ex \<Rightarrow> (StatusError INTERNAL (what ex), session,
                      response\<lparr>rvs_status := RETRIEVER_SYSTEM_ERROR, rvs_msg := what ex\<rparr>)
         | Inr session' \<Rightarrow> (StatusOK, session', response))"

section \<open>Response\<close>

definition ItemCf_candidate :: "float64 \<Rightarrow> CandidateScore \<Rightarrow> CandidateItem" where
  "ItemCf_candidate score_multiplier scored_candidate =
     (let retrieve_score = fmul (cs_score scored_candidate) score_multiplier;
          reason = \<lparr>rr_reason_type = REASON_TYPE_ITEM_CF,
                    rr_trigger = \<lparr>te_entity_type = ENTITY_TYPE_ITEM,
                                  te_entity_id = cs_trigger_entity_id scored_candidate\<rparr>,
                    rr_reason_score = fmul (cs_reason_score scored_candidate) score_multiplier,
                    rr_description = ''Retrieved from item_cf using trigger item '' @
                      show_nat (unat (cs_trigger_entity_id scored_candidate)) @ ''.''\<rparr>
      in \<lparr>ci_item_id = cs_item_id scored_candidate, ci_item_type = ITEM_TYPE_UNSPECIFIED,
          ci_author_id = 0, ci_retriever = ''item_cf'', ci_retrieve_score = retrieve_score,
          ci_reasons = [reason],
          ci_retrieval_signals =
            [\<lparr>rs_retriever = ''item_cf'', rs_retrieve_score = retrieve_score, rs_reasons = [reason]\<rparr>]\<rparr>)"

definition ItemCf_FillResponseCandidates ::
  "RetrieverItemCf \<Rightarrow> ItemCf_SessionData \<Rightarrow> RetrieverRequest \<Rightarrow> RetrieverResponse \<Rightarrow> RetrieverResponse" where
  "ItemCf_FillResponseCandidates this session request response =
     fill_candidates (ItemCf_candidate (ic_score_multiplier this)) (rvq_max_candidate_count request)
       (SortCandidates (ics_candidates session)) response"

text \<open>\<open>request.profile()\<close> reads the default instance when the field is absent.\<close>

definition request_profile :: "RetrieverRequest \<Rightarrow> Profile" where
  "request_profile request = (case rvq_profile request of None \<Rightarrow> Profile_default | Some p \<Rightarrow> p)"

definition ItemCf_DoRetrieve :: "RetrieverItemCf \<Rightarrow> do_retrieve" where
  "ItemCf_DoRetrieve this request response =
     (let session = ItemCf_BuildTriggerSeeds this (request_profile request) ItemCf_SessionData_new
      in if ics_trigger_seeds session = []
         then (StatusOK,
               response\<lparr>rvs_status := RETRIEVER_EMPTY_TRIGGER_SEEDS,
                        rvs_msg := ''No valid trigger seeds found from user profile.''\<rparr>)
         else
           (let session = ItemCf_BuildFilterSet (request_profile request) session;
                (aggregate_status, session, response) =
                  ItemCf_AggregateSimilarityCandidates this request session response
            in if \<not> status_ok aggregate_status then (aggregate_status, response)
               else
                 (let response = ItemCf_FillResponseCandidates this session request response
                  in (StatusOK, response\<lparr>rvs_status := RETRIEVER_SUCCESS, rvs_msg := []\<rparr>))))"

section \<open>Seeds\<close>

lemma CollectTriggerSeeds_props:
  "distinct (map ts_entity_id (CollectTriggerSeeds profile))"
  "s \<in> set (CollectTriggerSeeds profile) \<Longrightarrow> Fin 0 \<le> ts_score s"
  using channel_items_ids(1) [of "rnd 1" "rnd (1 / 2)" "rnd (3 / 10)"]
    channel_items_nonneg [of "rnd 1" "rnd (1 / 2)" "rnd (3 / 10)"]
  by (auto simp: CollectTriggerSeeds_eq comp_def case_prod_beta)

lemma SelectTop_subset: "set (SelectTopTriggerSeeds ss n) \<subseteq> set ss"
  by (auto simp: SelectTopTriggerSeeds_def sort_facts dest!: in_set_takeD)

lemma SelectTop_nonempty: "SelectTopTriggerSeeds ss n = [] \<longleftrightarrow> ss = []"
proof -
  have "sort_by seed_higher_first ss = [] \<longleftrightarrow> ss = []"
    by (metis length_0_conv length_sort_by)
  then show ?thesis by (auto simp: SelectTopTriggerSeeds_def)
qed

text \<open>The seeds a retriever looks up: scores never NaN, whatever the weights in the profile.\<close>

definition ItemCf_seeds :: "RetrieverItemCf \<Rightarrow> Profile \<Rightarrow> TriggerSeed list" where
  "ItemCf_seeds this profile =
     SelectTopTriggerSeeds (CollectTriggerSeeds profile) (ic_max_trigger_seed_count this)"

lemma ItemCf_seeds_nonneg: "s \<in> set (ItemCf_seeds this profile) \<Longrightarrow> Fin 0 \<le> ts_score s"
  using SelectTop_subset CollectTriggerSeeds_props(2) by (fastforce simp: ItemCf_seeds_def)

section \<open>Aggregation in closed form\<close>

definition seed_edges :: "uint64 set \<Rightarrow> TriggerSeed \<Rightarrow> ItemNeighbor list \<Rightarrow> edge list" where
  "seed_edges F seed ns = map (Pair seed) (filter (\<lambda>n. in_item_id n \<notin> F) ns)"

definition all_edges :: "uint64 set \<Rightarrow> TriggerSeed list \<Rightarrow> ItemNeighbor list list \<Rightarrow> edge list" where
  "all_edges F seeds nss = concat (map2 (seed_edges F) seeds nss)"

lemma all_edges_simps [simp]:
  "all_edges F seeds [] = []"
  "all_edges F (s # seeds) (ns # nss) = seed_edges F s ns @ all_edges F seeds nss"
  by (simp_all add: all_edges_def)

lemma AggregateNeighbors_eq:
  "fst (AggregateNeighbors s ns (session, b)) =
     session\<lparr>ics_candidates := foldl add_edge (ics_candidates session)
       (seed_edges (ics_item_ids_to_filter_out session) s ns)\<rparr>"
  by (induction ns arbitrary: session b) (simp_all add: seed_edges_def)

lemma AggregateSimilarityBatch_eq:
  "i + length nss \<le> length (ics_trigger_seeds session) \<Longrightarrow>
   fst (AggregateSimilarityBatch nss i session a b) =
     session\<lparr>ics_candidates := foldl add_edge (ics_candidates session)
       (all_edges (ics_item_ids_to_filter_out session) (drop i (ics_trigger_seeds session)) nss)\<rparr>"
proof (induction nss arbitrary: i session a b)
  case (Cons ns nss)
  let ?s = "ics_trigger_seeds session"
  have "drop i ?s = ?s ! i # drop (Suc i) ?s"
    using Cons.prems by (simp add: Cons_nth_drop_Suc)
  then show ?case
    using Cons by (simp add: case_prod_beta Let_def AggregateNeighbors_eq)
qed simp

lemma pool_from_foldl:
  "pool_from T N F p \<Longrightarrow> \<forall>e \<in> set es. fst e \<in> T \<and> snd e \<in> N \<and> in_item_id (snd e) \<notin> F \<Longrightarrow>
    pool_from T N F (foldl add_edge p es)"
proof (induction es arbitrary: p)
  case (Cons e es)
  then have "pool_from T N F (add_edge p e)" by (cases e) (auto intro: pool_from_add)
  then show ?case using Cons by simp
qed simp

lemma set_all_edges:
  "e \<in> set (all_edges F seeds nss) \<Longrightarrow>
    fst e \<in> set seeds \<and> (\<exists>ns \<in> set nss. snd e \<in> set ns) \<and> in_item_id (snd e) \<notin> F"
  by (auto simp: all_edges_def seed_edges_def dest: set_zip_leftD set_zip_rightD)

text \<open>What a store may return for the sums and the order to make sense: finite scores.\<close>

definition finite_scores :: "item_similarity_store \<Rightarrow> bool" where
  "finite_scores store \<longleftrightarrow>
     (\<forall>ids k nss. store ids k = Inr nss \<longrightarrow> (\<forall>ns \<in> set nss. \<forall>n \<in> set ns. isfinite (in_score n)))"

lemma map_nth_slice:
  assumes "b \<le> length xs"
  shows "map (\<lambda>i. f (xs ! i)) [b..<min (b + n) (length xs)] = map f (take n (drop b xs))"
proof (rule nth_equalityI)
  show "length (map (\<lambda>i. f (xs ! i)) [b..<min (b + n) (length xs)]) = length (map f (take n (drop b xs)))"
    using assms by (auto simp: min_def)
  fix i
  assume "i < length (map (\<lambda>i. f (xs ! i)) [b..<min (b + n) (length xs)])"
  then have "i < n" "b + i < length xs" "b + i < min (b + n) (length xs)" by auto
  then show "map (\<lambda>i. f (xs ! i)) [b..<min (b + n) (length xs)] ! i = map f (take n (drop b xs)) ! i"
    by simp
qed

lemma ItemCf_AggregateBatches_step:
  assumes "b < length (ics_trigger_seeds session)" "0 < sz"
    "ids = map ts_entity_id (take sz (drop b (ics_trigger_seeds session)))"
  shows "ItemCf_AggregateBatches store sz k b session =
    bindE (store ids k) (\<lambda>nss.
      if length nss \<noteq> length ids
      then Inl (RuntimeError ''ItemSimilarityStore batch lookup returned mismatched result size'')
      else
        (let (session', fetched, filtered) = AggregateSimilarityBatch nss b session 0 0
         in ItemCf_AggregateBatches store sz k (b + sz)
              (session'\<lparr>ics_total_neighbors_fetched := ics_total_neighbors_fetched session' + fetched,
                        ics_total_neighbors_filtered_out :=
                          ics_total_neighbors_filtered_out session' + filtered\<rparr>)))"
proof -
  have "map (\<lambda>i. ts_entity_id (ics_trigger_seeds session ! i))
      [b..<min (b + sz) (length (ics_trigger_seeds session))] = ids"
    unfolding assms(3) using assms(1) by (intro map_nth_slice) simp
  with assms(1,2) show ?thesis
    by (subst ItemCf_AggregateBatches.simps) (simp add: Let_def case_prod_beta cong: if_cong del: length_map upt_conv_Cons length_upt)
qed

lemma ItemCf_AggregateBatches_done:
  "\<not> b < length (ics_trigger_seeds session) \<Longrightarrow> ItemCf_AggregateBatches store sz k b session = Inr session"
  by (subst ItemCf_AggregateBatches.simps) simp

lemma AggregateSimilarityBatch_session:
  assumes "AggregateSimilarityBatch nss b session 0 0 = (s', x, y)"
    "b + length nss \<le> length (ics_trigger_seeds session)"
  shows "s' = session\<lparr>ics_candidates := foldl add_edge (ics_candidates session)
    (all_edges (ics_item_ids_to_filter_out session) (drop b (ics_trigger_seeds session)) nss)\<rparr>"
  using AggregateSimilarityBatch_eq [OF assms(2), of 0 0] by (simp add: assms(1))

text \<open>Any store with finite scores keeps the pool to the seeds and away from consumed items.\<close>

lemma ItemCf_AggregateBatches_pool:
  assumes "finite_scores store" "0 < sz" "T = set (ics_trigger_seeds session)"
    "pool_from T {n. isfinite (in_score n)} (ics_item_ids_to_filter_out session) (ics_candidates session)"
    "ItemCf_AggregateBatches store sz k b session = Inr session'"
  shows "pool_from T {n. isfinite (in_score n)} (ics_item_ids_to_filter_out session) (ics_candidates session')"
  using assms(2-)
proof (induction "length (ics_trigger_seeds session) - b" arbitrary: b session rule: less_induct)
  case (less b session)
  let ?seeds = "ics_trigger_seeds session"
  show ?case
  proof (cases "b < length ?seeds")
    case False
    then show ?thesis using less.prems by (simp add: ItemCf_AggregateBatches_done)
  next
    case True
    define ids where "ids = map ts_entity_id (take sz (drop b ?seeds))"
    note step = ItemCf_AggregateBatches_step [OF True less.prems(1) ids_def]
    from less.prems(4) step obtain nss where nss: "store ids k = Inr nss" "length nss = length ids"
      by (auto split: if_splits)
    obtain s' x y where agg: "AggregateSimilarityBatch nss b session 0 0 = (s', x, y)"
      by (cases "AggregateSimilarityBatch nss b session 0 0")
    have len: "b + length nss \<le> length ?seeds" using nss(2) True by (simp add: ids_def)
    note s' = AggregateSimilarityBatch_session [OF agg len]
    define s2 where "s2 = s'\<lparr>ics_total_neighbors_fetched := ics_total_neighbors_fetched s' + x,
        ics_total_neighbors_filtered_out := ics_total_neighbors_filtered_out s' + y\<rparr>"
    have s2: "ics_trigger_seeds s2 = ?seeds"
      "ics_item_ids_to_filter_out s2 = ics_item_ids_to_filter_out session"
      "ics_candidates s2 = foldl add_edge (ics_candidates session)
        (all_edges (ics_item_ids_to_filter_out session) (drop b ?seeds) nss)"
      by (simp_all add: s2_def s')
    have "\<forall>e \<in> set (all_edges (ics_item_ids_to_filter_out session) (drop b ?seeds) nss).
        fst e \<in> T \<and> snd e \<in> {n. isfinite (in_score n)} \<and> in_item_id (snd e) \<notin> ics_item_ids_to_filter_out session"
      using set_all_edges nss(1) assms(1) less.prems(2) unfolding finite_scores_def
      by (fastforce dest: in_set_dropD)
    then have pool: "pool_from T {n. isfinite (in_score n)} (ics_item_ids_to_filter_out s2) (ics_candidates s2)"
      unfolding s2 using less.prems(3) by (rule pool_from_foldl [rotated])
    have rec: "ItemCf_AggregateBatches store sz k (b + sz) s2 = Inr session'"
      using less.prems(4) nss agg by (simp add: step s2_def)
    have "pool_from T {n. isfinite (in_score n)} (ics_item_ids_to_filter_out s2) (ics_candidates session')"
      using True less.prems(1,2) pool rec by (intro less.hyps [of s2 "b + sz"]) (simp_all add: s2(1))
    then show ?thesis by (simp add: s2)
  qed
qed

lemma all_edges_append:
  "length s1 = length n1 \<Longrightarrow> all_edges F (s1 @ s2) (n1 @ n2) = all_edges F s1 n1 @ all_edges F s2 n2"
  by (simp add: all_edges_def)

lemma all_edges_take:
  "length n1 \<le> n \<Longrightarrow> all_edges F (take n seeds) n1 = all_edges F seeds n1"
proof (induction n1 arbitrary: n seeds)
  case (Cons ns n1)
  then show ?case by (cases n; cases seeds) (simp_all add: all_edges_def)
qed simp

text \<open>
  A store that answers each id on its own, as the base class does through
  \<open>FindNeighborsByItemId\<close>: the batches then compute one pass over all the seeds.
\<close>

lemma ItemCf_AggregateBatches_closed:
  assumes "\<And>ids k. store ids k = mapE (\<lambda>i. find_one i k) ids" "0 < sz"
  shows "(case ItemCf_AggregateBatches store sz k b session of
      Inl e \<Rightarrow> mapE (\<lambda>s. find_one (ts_entity_id s) k) (drop b (ics_trigger_seeds session)) = Inl e
    | Inr session' \<Rightarrow> \<exists>nss.
        mapE (\<lambda>s. find_one (ts_entity_id s) k) (drop b (ics_trigger_seeds session)) = Inr nss \<and>
        ics_candidates session' = foldl add_edge (ics_candidates session)
          (all_edges (ics_item_ids_to_filter_out session) (drop b (ics_trigger_seeds session)) nss))"
  using assms(2)
proof (induction "length (ics_trigger_seeds session) - b" arbitrary: b session rule: less_induct)
  case (less b session)
  let ?seeds = "ics_trigger_seeds session" and ?F = "ics_item_ids_to_filter_out session"
  let ?find = "\<lambda>s. find_one (ts_entity_id s) k"
  show ?case
  proof (cases "b < length ?seeds")
    case False
    then show ?thesis by (simp add: ItemCf_AggregateBatches_done)
  next
    case True
    define ids where "ids = map ts_entity_id (take sz (drop b ?seeds))"
    note step = ItemCf_AggregateBatches_step [OF True less.prems ids_def]
    have split: "drop b ?seeds = take sz (drop b ?seeds) @ drop (b + sz) ?seeds"
      by (metis append_take_drop_id drop_drop add.commute)
    have st: "store ids k = mapE ?find (take sz (drop b ?seeds))"
      by (simp add: assms(1) ids_def mapE_map)
    show ?thesis
    proof (cases "store ids k")
      case (Inl e)
      have "mapE ?find (drop b ?seeds) = Inl e"
        by (subst split) (simp add: mapE_append st [symmetric] Inl)
      then show ?thesis by (simp add: step Inl)
    next
      case (Inr nss)
      have len: "length nss = length ids"
        using Inr mapE_length unfolding assms(1) by blast
      obtain s' x y where agg: "AggregateSimilarityBatch nss b session 0 0 = (s', x, y)"
        by (cases "AggregateSimilarityBatch nss b session 0 0")
      have "b + length nss \<le> length ?seeds" using len True by (simp add: ids_def)
      note s' = AggregateSimilarityBatch_session [OF agg this]
      define s2 where "s2 = s'\<lparr>ics_total_neighbors_fetched := ics_total_neighbors_fetched s' + x,
        ics_total_neighbors_filtered_out := ics_total_neighbors_filtered_out s' + y\<rparr>"
      have s2: "ics_trigger_seeds s2 = ?seeds" "ics_item_ids_to_filter_out s2 = ?F"
        "ics_candidates s2 = foldl add_edge (ics_candidates session) (all_edges ?F (drop b ?seeds) nss)"
        by (simp_all add: s2_def s')
      have loop: "ItemCf_AggregateBatches store sz k b session =
          ItemCf_AggregateBatches store sz k (b + sz) s2"
        using len agg by (simp add: step Inr s2_def)
      have IH: "(case ItemCf_AggregateBatches store sz k (b + sz) s2 of
            Inl e \<Rightarrow> mapE ?find (drop (b + sz) ?seeds) = Inl e
          | Inr session' \<Rightarrow> \<exists>nss2. mapE ?find (drop (b + sz) ?seeds) = Inr nss2 \<and>
              ics_candidates session' = foldl add_edge (ics_candidates s2)
                (all_edges ?F (drop (b + sz) ?seeds) nss2))"
        using less.hyps [of s2 "b + sz"] True less.prems unfolding s2(1,2) by simp
      have whole: "mapE ?find (drop b ?seeds) =
          bindE (mapE ?find (drop (b + sz) ?seeds)) (\<lambda>nss2. Inr (nss @ nss2))"
        by (subst split) (simp add: mapE_append st [symmetric] Inr)
      have lens: "length (take sz (drop b ?seeds)) = length nss" "length nss \<le> sz"
        using len by (simp_all add: ids_def)
      have edges: "all_edges ?F (drop b ?seeds) (nss @ nss2) =
          all_edges ?F (drop b ?seeds) nss @ all_edges ?F (drop (b + sz) ?seeds) nss2" for nss2
        using all_edges_append [OF lens(1), of ?F "drop (b + sz) ?seeds" nss2]
          all_edges_take [OF lens(2), of ?F "drop b ?seeds"] by (simp flip: split)
      show ?thesis
        using IH unfolding loop whole by (auto simp: s2(3) edges split: sum.splits)
    qed
  qed
qed

section \<open>Theorems\<close>

lemma ItemCf_DoRetrieve_cases:
  assumes "ItemCf_DoRetrieve this request response = (st, resp)" "0 < ic_redis_command_batch_size this"
  obtains (no_seeds) "ItemCf_seeds this (request_profile request) = []" "st = StatusOK"
    "resp = response\<lparr>rvs_status := RETRIEVER_EMPTY_TRIGGER_SEEDS,
       rvs_msg := ''No valid trigger seeds found from user profile.''\<rparr>"
  | (failed) ex session where "ItemCf_seeds this (request_profile request) \<noteq> []"
    "ics_trigger_seeds session = ItemCf_seeds this (request_profile request)"
    "ics_item_ids_to_filter_out session = CollectItemIdsToFilterOut (request_profile request)"
    "ics_candidates session = []"
    "ItemCf_AggregateBatches (ic_item_similarity_store this) (nat (ic_redis_command_batch_size this))
       (rvq_max_candidate_count request) 0 session = Inl ex"
    "st = StatusError INTERNAL (what ex)"
    "resp = response\<lparr>rvs_status := RETRIEVER_SYSTEM_ERROR, rvs_msg := what ex\<rparr>"
  | (ok) session session' where "ItemCf_seeds this (request_profile request) \<noteq> []"
    "ics_trigger_seeds session = ItemCf_seeds this (request_profile request)"
    "ics_item_ids_to_filter_out session = CollectItemIdsToFilterOut (request_profile request)"
    "ics_candidates session = []"
    "ItemCf_AggregateBatches (ic_item_similarity_store this) (nat (ic_redis_command_batch_size this))
       (rvq_max_candidate_count request) 0 session = Inr session'"
    "st = StatusOK"
    "resp = (ItemCf_FillResponseCandidates this session' request response)
       \<lparr>rvs_status := RETRIEVER_SUCCESS, rvs_msg := []\<rparr>"
proof -
  define session where "session = \<lparr>ics_trigger_seeds = ItemCf_seeds this (request_profile request),
      ics_item_ids_to_filter_out = CollectItemIdsToFilterOut (request_profile request),
      ics_candidates = [], ics_total_neighbors_fetched = 0, ics_total_neighbors_filtered_out = 0\<rparr>"
  let ?loop = "ItemCf_AggregateBatches (ic_item_similarity_store this)
      (nat (ic_redis_command_batch_size this)) (rvq_max_candidate_count request) 0 session"
  have run: "ItemCf_DoRetrieve this request response =
      (if ItemCf_seeds this (request_profile request) = []
       then (StatusOK, response\<lparr>rvs_status := RETRIEVER_EMPTY_TRIGGER_SEEDS,
              rvs_msg := ''No valid trigger seeds found from user profile.''\<rparr>)
       else case ?loop of
           Inl ex \<Rightarrow> (StatusError INTERNAL (what ex),
                      response\<lparr>rvs_status := RETRIEVER_SYSTEM_ERROR, rvs_msg := what ex\<rparr>)
         | Inr session' \<Rightarrow> (StatusOK, (ItemCf_FillResponseCandidates this session' request response)
             \<lparr>rvs_status := RETRIEVER_SUCCESS, rvs_msg := []\<rparr>))"
    by (auto simp: ItemCf_DoRetrieve_def ItemCf_BuildTriggerSeeds_def ItemCf_BuildFilterSet_def
        ItemCf_AggregateSimilarityCandidates_def ItemCf_SessionData_new_def ItemCf_seeds_def
        session_def Let_def split: sum.splits)
  show ?thesis
  proof (cases "ItemCf_seeds this (request_profile request) = []")
    case True
    then show ?thesis using assms(1) no_seeds by (simp add: run)
  next
    case False
    show ?thesis
    proof (cases ?loop)
      case (Inl ex)
      then show ?thesis
        using assms(1) False by (intro failed [of session ex]) (simp_all add: run, simp_all add: session_def)
    next
      case (Inr session')
      then show ?thesis
        using assms(1) False by (intro ok [of session session']) (simp_all add: run, simp_all add: session_def)
    qed
  qed
qed

lemma RetrieverItemCf_new_Inr:
  assumes "RetrieverItemCf_new (Some store) options = Inr this"
  shows "ic_item_similarity_store this = store" "0 < ic_default_max_candidate_count this"
    "0 < ic_max_trigger_seed_count this" "0 < ic_redis_command_batch_size this"
    "ic_score_multiplier this = ico_score_multiplier options"
    "\<not> fle (ic_score_multiplier this) (Fin 0)"
    "ic_default_max_candidate_count this = ico_default_max_candidate_count options"
    "ic_max_trigger_seed_count this = ico_max_trigger_seed_count options"
  using assms by (auto simp: RetrieverItemCf_new_def split: if_splits)

definition ItemCf_Retrieve ::
  "RetrieverItemCf \<Rightarrow> RetrieverRequest \<Rightarrow> grpc_status \<times> RetrieverResponse" where
  "ItemCf_Retrieve this request =
     Retriever_Retrieve (ic_default_max_candidate_count this) (ItemCf_DoRetrieve this) request
       RetrieverResponse_default"

definition effective_max :: "int \<Rightarrow> RetrieverRequest \<Rightarrow> int" where
  "effective_max d request =
     (if rvq_max_candidate_count request \<le> 0 then d else rvq_max_candidate_count request)"

definition positive_ids :: "int64 list \<Rightarrow> uint64 set" where
  "positive_ids xs = {i \<in> set xs. 0 < sint i}"

lemma normalized_request_fields [simp]:
  "request_profile (normalized_retriever_request d request) = request_profile request"
  "rvq_max_candidate_count (normalized_retriever_request d request) = effective_max d request"
  by (simp_all add: request_profile_def normalized_retriever_request_def effective_max_def)

lemma good_candidates_Nil [simp]: "good_candidates F []"
  by (simp add: good_candidates_def)

text \<open>What an answer of the retriever holds.\<close>

lemma ItemCf_candidates:
  assumes "RetrieverItemCf_new (Some store) options = Inr this" "finite_scores store"
    "ico_score_multiplier options \<noteq> NaN" "ItemCf_Retrieve this request = (st, resp)"
  shows "good_candidates (positive_ids (consumed_items (request_profile request))) (rvs_candidates resp) \<and>
    int (length (rvs_candidates resp)) \<le> effective_max (ico_default_max_candidate_count options) request \<and>
    (rvs_candidates resp \<noteq> [] \<longrightarrow>
       st = StatusOK \<and> rvs_status resp = RETRIEVER_SUCCESS \<and>
       rvs_candidate_count resp = int (length (rvs_candidates resp)))"
proof -
  note new = RetrieverItemCf_new_Inr [OF assms(1)]
  let ?d = "ic_default_max_candidate_count this"
  have eff: "0 < effective_max ?d request" using new(2) by (simp add: effective_max_def)
  have F: "positive_ids (consumed_items (request_profile request)) =
      CollectItemIdsToFilterOut (request_profile request)"
    by (simp add: positive_ids_def CollectItemIdsToFilterOut_eq)
  show ?thesis
    using assms(4) unfolding ItemCf_Retrieve_def
  proof (cases rule: Retriever_Retrieve_cases [of request ?d "ItemCf_DoRetrieve this" RetrieverResponse_default])
    case (invalid m)
    then have "rvs_candidates resp = []"
      using assms(4) by (auto simp: ItemCf_Retrieve_def RetrieverResponse_default_def)
    then show ?thesis using eff new(7) by simp
  next
    case (valid st' r r')
    have eq: "st = st'" "resp = r'" using valid(3) assms(4) by (simp_all add: ItemCf_Retrieve_def)
    from valid(2) new(4) show ?thesis
    proof (cases rule: ItemCf_DoRetrieve_cases)
      case no_seeds
      then show ?thesis using valid(5) eq eff new(7) by (simp add: RetrieverResponse_default_def)
    next
      case (failed ex session)
      then show ?thesis using valid(5) eq eff new(7) by (simp add: RetrieverResponse_default_def)
    next
      case (ok session session')
      let ?T = "set (ics_trigger_seeds session)" and ?N = "{n. isfinite (in_score n)}"
      have pool: "pool_from ?T ?N (ics_item_ids_to_filter_out session) (ics_candidates session')"
        by (rule ItemCf_AggregateBatches_pool [OF assms(2) [folded new(1)] _ refl _ ok(5)])
          (simp_all only: ok(4) zero_less_nat_eq new(4) pool_from_empty)
      have T: "positive_edges ?T ?N"
        using ok(2) ItemCf_seeds_nonneg by (intro positive_edges_finite_neighbors) auto
      have m: "Fin 0 < ic_score_multiplier this" using new(5,6) assms(3) by (auto simp: fle_le not_le)
      have cs: "rvs_candidates resp = map (ItemCf_candidate (ic_score_multiplier this))
          (take (nat (effective_max ?d request)) (SortCandidates (ics_candidates session')))"
        using valid(5) ok(7) eq
        by (simp add: ItemCf_FillResponseCandidates_def fill_candidates_eq RetrieverResponse_default_def)
      have "good_candidates (ics_item_ids_to_filter_out session) (rvs_candidates resp)"
        unfolding cs
        by (rule good_candidates_fill [OF pool T m]) (auto simp: ItemCf_candidate_def Let_def)
      moreover have "st' = StatusOK" "rvs_status r = RETRIEVER_SUCCESS" using ok(6,7) by simp_all
      moreover have "int (length (rvs_candidates resp)) \<le> effective_max ?d request"
        unfolding cs using eff by simp
      ultimately show ?thesis
        using valid(4,5,6) eq ok(3) F new(7) by simp
    qed
  qed
qed

text \<open>
  C7. Safety of item collaborative filtering. Whatever the profile holds and whatever a store with
  finite scores returns or throws: the candidates have distinct ids, none 0, none of an item the
  user has consumed, at most as many as asked for (or the default), with retrieve scores that are
  not negative and never increase; and candidates are only returned with success.
\<close>

theorem item_cf_candidates_safe:
  assumes "RetrieverItemCf_new (Some store) options = Inr this" "finite_scores store"
    "ico_score_multiplier options \<noteq> NaN" "ItemCf_Retrieve this request = (st, resp)"
  shows "good_candidates (positive_ids (consumed_items (request_profile request))) (rvs_candidates resp) \<and>
    int (length (rvs_candidates resp)) \<le> effective_max (ico_default_max_candidate_count options) request \<and>
    (rvs_candidates resp \<noteq> [] \<longrightarrow>
       st = StatusOK \<and> rvs_status resp = RETRIEVER_SUCCESS \<and>
       rvs_candidate_count resp = int (length (rvs_candidates resp)))"
  by (rule ItemCf_candidates [OF assms])

lemma finite_scores_pointwise:
  assumes "\<And>i k ns n. find_one i k = Inr ns \<Longrightarrow> n \<in> set ns \<Longrightarrow> isfinite (in_score n)"
  shows "finite_scores (\<lambda>ids k. mapE (\<lambda>i. find_one i k) ids)"
  unfolding finite_scores_def mapE_Inr_iff
proof (intro allI impI ballI)
  fix ids k nss ns n
  assume all: "list_all2 (\<lambda>i ns. find_one i k = Inr ns) ids nss" and "ns \<in> set nss" "n \<in> set ns"
  then obtain i where "find_one i k = Inr ns"
    by (induction rule: list_all2_induct) auto
  then show "isfinite (in_score n)" using assms \<open>n \<in> set ns\<close> by blast
qed

lemma one_eval: "rnd 1 = Fin 1"
  by (simp add: float_eval)

text \<open>A concrete run: item 7 liked, the store knows 7 and 9 as its neighbours.\<close>

definition liked :: "int64 \<Rightarrow> float64 \<Rightarrow> WeightedItem" where
  "liked i w = \<lparr>wi_item_id = i, wi_weight = w, wi_event_time = 0,
     wi_source = WEIGHTED_ITEM_SOURCE_RATING, wi_confidence = Fin 1, wi_raw_score = Fin 0\<rparr>"

definition demo_profile :: Profile where
  "demo_profile = Profile_default
     \<lparr>pf_user_id := 5,
      pf_behaviors := \<lparr>be_liked_items = [], be_recent_liked_items = [liked 7 (Fin 2)],
                       be_interested_items = [], be_rated_items = [8]\<rparr>\<rparr>"

definition demo_request :: RetrieverRequest where
  "demo_request = \<lparr>rvq_trace_id = ''t'', rvq_request_id = ''r'', rvq_user_id = 5,
     rvq_profile = Some demo_profile, rvq_max_candidate_count = 3\<rparr>"

definition demo_item_store :: item_similarity_store where
  "demo_item_store ids k =
     mapE (\<lambda>i. Inr (if i = 7 then [\<lparr>in_item_id = 7, in_score = Fin 1\<rparr>,
       \<lparr>in_item_id = 9, in_score = Fin (1 / 2)\<rparr>] else [])) ids"

definition demo_item_cf :: RetrieverItemCf where
  "demo_item_cf =
     \<lparr>ic_default_max_candidate_count = 10, ic_item_similarity_store = demo_item_store,
      ic_max_trigger_seed_count = 24, ic_redis_command_batch_size = 8, ic_score_multiplier = Fin 1\<rparr>"

lemma demo_item_cf_new: "RetrieverItemCf_new (Some demo_item_store) ItemCf_default_Options = Inr demo_item_cf"
  by (simp add: RetrieverItemCf_new_def ItemCf_default_Options_def demo_item_cf_def float_eval fle_def)

lemma demo_consumed: "consumed_items demo_profile = [7, 8]"
  by (simp add: consumed_items_def demo_profile_def Profile_default_def liked_def)

lemma demo_item_finite: "finite_scores demo_item_store"
  unfolding demo_item_store_def [abs_def]
  by (rule finite_scores_pointwise) (auto split: if_splits)

lemma demo_seeds: "ItemCf_seeds demo_item_cf demo_profile = [\<lparr>ts_entity_id = 7, ts_score = Fin 2\<rparr>]"
  by (simp add: ItemCf_seeds_def demo_item_cf_def demo_profile_def Profile_default_def liked_def
      CollectTriggerSeeds_def Let_def SelectTopTriggerSeeds_def float_eval)

lemma demo_item_cf_run:
  "ItemCf_Retrieve demo_item_cf demo_request =
     (StatusOK, \<lparr>rvs_status = RETRIEVER_SUCCESS, rvs_msg = [], rvs_candidate_count = 1,
        rvs_candidates = [ItemCf_candidate (Fin 1)
          \<lparr>cs_item_id = 9, cs_score = Fin 1, cs_trigger_entity_id = 7, cs_trigger_score = Fin 2,
           cs_source_score = Fin (1 / 2), cs_reason_score = Fin 1\<rparr>]\<rparr>)"
proof -
  have F: "CollectItemIdsToFilterOut demo_profile = {7, 8}"
    by (auto simp: CollectItemIdsToFilterOut_eq demo_consumed)
  have seeds: "SelectTopTriggerSeeds (CollectTriggerSeeds demo_profile) 24 =
      [\<lparr>ts_entity_id = 7, ts_score = Fin 2\<rparr>]"
    using demo_seeds by (simp add: ItemCf_seeds_def demo_item_cf_def)
  show ?thesis
    by (simp add: ItemCf_Retrieve_def Retriever_Retrieve_def demo_request_def IsRequestValid_def Let_def
      ItemCf_DoRetrieve_def ItemCf_BuildTriggerSeeds_def request_profile_def demo_item_cf_def seeds
      ItemCf_BuildFilterSet_def F ItemCf_AggregateSimilarityCandidates_def ItemCf_AggregateBatches.simps
      ItemCf_SessionData_new_def demo_item_store_def ItemCf_AddCandidateContribution_def
      ItemCf_FillResponseCandidates_def SortCandidates_def RetrieverResponse_default_def
      try_emplace_def fle_def CandidateScore_default_def one_eval)
qed

theorem item_cf_candidates_safe_witness:
  "good_candidates {7, 8} (rvs_candidates (snd (ItemCf_Retrieve demo_item_cf demo_request))) \<and>
   map ci_item_id (rvs_candidates (snd (ItemCf_Retrieve demo_item_cf demo_request))) = [9]"
proof -
  have "positive_ids (consumed_items (request_profile demo_request)) = {7, 8}"
    by (auto simp: positive_ids_def request_profile_def demo_request_def demo_consumed)
  then show ?thesis
    using item_cf_candidates_safe [OF demo_item_cf_new demo_item_finite _ demo_item_cf_run]
    by (simp add: demo_item_cf_run ItemCf_default_Options_def ItemCf_candidate_def Let_def)
qed

lemma ItemCf_Retrieve_closed:
  assumes "RetrieverItemCf_new (Some (\<lambda>ids k. mapE (\<lambda>i. find_one i k) ids)) options = Inr this"
    "0 < sint (rvq_user_id request)" "rvq_profile request = Some profile"
    "ItemCf_seeds this profile = seeds" "seeds \<noteq> []"
    "k = effective_max (ico_default_max_candidate_count options) request"
  shows "\<exists>pool. pool_keyed pool \<and>
    ItemCf_Retrieve this request =
      (case mapE (\<lambda>s. find_one (ts_entity_id s) k) seeds of
         Inl ex \<Rightarrow> (StatusError INTERNAL (what ex),
           \<lparr>rvs_status = RETRIEVER_SYSTEM_ERROR, rvs_msg = what ex, rvs_candidate_count = 0,
            rvs_candidates = []\<rparr>)
       | Inr nss \<Rightarrow>
           (let best = take (nat k) (SortCandidates pool)
            in (StatusOK, \<lparr>rvs_status = RETRIEVER_SUCCESS, rvs_msg = [],
                  rvs_candidate_count = int (length best),
                  rvs_candidates = map (ItemCf_candidate (ico_score_multiplier options)) best\<rparr>))) \<and>
    (\<forall>nss. mapE (\<lambda>s. find_one (ts_entity_id s) k) seeds = Inr nss \<longrightarrow>
      map_of pool = (\<lambda>i. pool_entry i (edges_to i
        (all_edges (positive_ids (consumed_items profile)) seeds nss))))"
proof -
  note new = RetrieverItemCf_new_Inr [OF assms(1)]
  let ?d = "ic_default_max_candidate_count this"
  have rp: "request_profile request = profile" using assms(3) by (simp add: request_profile_def)
  have F: "positive_ids (consumed_items profile) = CollectItemIdsToFilterOut profile"
    by (simp add: positive_ids_def CollectItemIdsToFilterOut_eq)
  have k: "effective_max ?d request = k" using assms(6) new(7) by simp
  have valid: "valid_retriever_request request"
    using assms(2,3) by (simp add: valid_retriever_request_def)
  obtain st r where run: "ItemCf_DoRetrieve this (normalized_retriever_request ?d request)
      (RetrieverResponse_default\<lparr>rvs_msg := [], rvs_candidate_count := 0\<rparr>) = (st, r)"
    by fastforce
  note result = Retriever_Retrieve_valid [where do = "ItemCf_DoRetrieve this", OF valid run,
      folded ItemCf_Retrieve_def]
  have sz: "0 < nat (ic_redis_command_batch_size this)" using new(4) by simp
  note closed = ItemCf_AggregateBatches_closed [where store = "ic_item_similarity_store this"
      and find_one = find_one, unfolded new(1), OF refl sz]
  from run new(4) show ?thesis
  proof (cases rule: ItemCf_DoRetrieve_cases)
    case no_seeds
    then show ?thesis using assms(4,5) rp by simp
  next
    case (failed ex session)
    have "mapE (\<lambda>s. find_one (ts_entity_id s) k) seeds = Inl ex"
      using closed [of k 0 session] failed(2,5) rp assms(4) k new(1) by simp
    then show ?thesis
      using failed(6,7) by (intro exI [of _ "[]"]) (simp add: result RetrieverResponse_default_def)
  next
    case (ok session session')
    obtain nss where nss: "mapE (\<lambda>s. find_one (ts_entity_id s) k) seeds = Inr nss"
      "ics_candidates session' = foldl add_edge []
        (all_edges (CollectItemIdsToFilterOut profile) seeds nss)"
      using closed [of k 0 session] ok(2-5) rp assms(4) k new(1) by auto
    have "pool_keyed (ics_candidates session')" unfolding nss(2) by (intro pool_keyed_run) simp
    moreover have "map_of (ics_candidates session') = (\<lambda>i. pool_entry i (edges_to i
        (all_edges (CollectItemIdsToFilterOut profile) seeds nss)))"
      unfolding nss(2) by (intro ext pool_spec)
    ultimately show ?thesis
      using ok(6,7) nss(1) k new(5)
      by (intro exI [of _ "ics_candidates session'"])
        (simp add: result F ItemCf_FillResponseCandidates_def fill_candidates_eq
          RetrieverResponse_default_def Let_def)
  qed
qed

text \<open>
  C4. The answer in closed form, when the store answers each id on its own: look up all the seeds;
  if a lookup throws, the call fails with its message and no candidate; otherwise score every item
  with an edge from a seed by the sum of the contributions of its edges in their order, give it the
  strongest edge as reason, and return the best ones. In particular the batch size cannot be seen.
\<close>

theorem item_cf_closed_form:
  assumes "RetrieverItemCf_new (Some (\<lambda>ids k. mapE (\<lambda>i. find_one i k) ids)) options = Inr this"
    "0 < sint (rvq_user_id request)" "rvq_profile request = Some profile"
    "ItemCf_seeds this profile = seeds" "seeds \<noteq> []"
    "k = effective_max (ico_default_max_candidate_count options) request"
  shows "\<exists>pool. pool_keyed pool \<and>
    ItemCf_Retrieve this request =
      (case mapE (\<lambda>s. find_one (ts_entity_id s) k) seeds of
         Inl ex \<Rightarrow> (StatusError INTERNAL (what ex),
           \<lparr>rvs_status = RETRIEVER_SYSTEM_ERROR, rvs_msg = what ex, rvs_candidate_count = 0,
            rvs_candidates = []\<rparr>)
       | Inr nss \<Rightarrow>
           (let best = take (nat k) (SortCandidates pool)
            in (StatusOK, \<lparr>rvs_status = RETRIEVER_SUCCESS, rvs_msg = [],
                  rvs_candidate_count = int (length best),
                  rvs_candidates = map (ItemCf_candidate (ico_score_multiplier options)) best\<rparr>))) \<and>
    (\<forall>nss. mapE (\<lambda>s. find_one (ts_entity_id s) k) seeds = Inr nss \<longrightarrow>
      map_of pool = (\<lambda>i. pool_entry i (edges_to i
        (all_edges (positive_ids (consumed_items profile)) seeds nss))))"
  by (rule ItemCf_Retrieve_closed [OF assms])

text \<open>
  Seed selection. The seeds looked up are the best ones of those collected from the profile:
  distinct, as many as allowed, and each one before every seed left out (higher score, or equal
  score and smaller id); all are positive ids of the liked and interested items.
\<close>

theorem item_cf_seeds_are_best:
  assumes "0 < ic_max_trigger_seed_count this"
  shows "distinct (map ts_entity_id (ItemCf_seeds this profile)) \<and>
    length (ItemCf_seeds this profile) =
      min (length (CollectTriggerSeeds profile)) (nat (ic_max_trigger_seed_count this)) \<and>
    set (ItemCf_seeds this profile) \<subseteq> set (CollectTriggerSeeds profile) \<and>
    (\<forall>s \<in> set (ItemCf_seeds this profile).
       \<forall>t \<in> set (CollectTriggerSeeds profile) - set (ItemCf_seeds this profile). seed_higher_first s t) \<and>
    ts_entity_id ` set (CollectTriggerSeeds profile) =
      positive_ids (map wi_item_id
        (be_recent_liked_items (pf_behaviors profile) @ be_liked_items (pf_behaviors profile) @
         be_interested_items (pf_behaviors profile)))"
proof -
  let ?c = "CollectTriggerSeeds profile" and ?n = "nat (ic_max_trigger_seed_count this)"
  let ?sorted = "sort_by seed_higher_first ?c"
  have ids: "ts_entity_id ` set ?c = positive_ids (map wi_item_id
        (be_recent_liked_items (pf_behaviors profile) @ be_liked_items (pf_behaviors profile) @
         be_interested_items (pf_behaviors profile)))"
    using channel_items_ids(2) [of "rnd 1" "rnd (1 / 2)" "rnd (3 / 10)"]
    by (simp add: CollectTriggerSeeds_eq positive_ids_def image_image case_prod_beta Un_assoc image_Un)
  show ?thesis
  proof (cases "length ?c \<le> ?n")
    case True
    then show ?thesis
      using CollectTriggerSeeds_props(1) ids by (simp add: ItemCf_seeds_def SelectTopTriggerSeeds_def min_def)
  next
    case False
    then have sel: "ItemCf_seeds this profile = take ?n ?sorted"
      using assms by (simp add: ItemCf_seeds_def SelectTopTriggerSeeds_def)
    have "set ?c \<subseteq> {s. ts_score s \<noteq> NaN}" using CollectTriggerSeeds_props(2) by fastforce
    then have "sorted_wrt seed_higher_first ?sorted"
      using CollectTriggerSeeds_props(1) by (intro seeds.sort_by_strictly_sorted)
    then have "sorted_wrt seed_higher_first (take ?n ?sorted @ drop ?n ?sorted)" by simp
    then have best: "\<forall>s \<in> set (take ?n ?sorted). \<forall>t \<in> set (drop ?n ?sorted). seed_higher_first s t"
      by (simp only: sorted_wrt_append) blast
    have "set ?c = set (take ?n ?sorted) \<union> set (drop ?n ?sorted)"
      by (metis append_take_drop_id set_append set_sort_by)
    moreover have "distinct (map ts_entity_id (take ?n ?sorted))"
      using CollectTriggerSeeds_props(1) by (simp add: distinct_take sort_facts flip: take_map)
    ultimately show ?thesis
      using best False ids by (auto simp: sel sort_facts min_def)
  qed
qed

theorem item_cf_closed_form_witness:
  "\<exists>pool. pool_keyed pool \<and>
     rvs_candidates (snd (ItemCf_Retrieve demo_item_cf demo_request)) =
       map (ItemCf_candidate (rnd 1)) (take 3 (SortCandidates pool)) \<and>
     map_of pool 7 = None"
proof -
  let ?find = "\<lambda>i k. Inr (if i = (7 :: uint64) then [\<lparr>in_item_id = 7, in_score = Fin 1\<rparr>,
       \<lparr>in_item_id = 9, in_score = Fin (1 / 2)\<rparr>] else []) :: ItemNeighbor list throws"
  have new: "RetrieverItemCf_new (Some (\<lambda>ids k. mapE (\<lambda>i. ?find i k) ids)) ItemCf_default_Options =
      Inr demo_item_cf"
    using demo_item_cf_new unfolding demo_item_store_def [abs_def] .
  have req: "0 < sint (rvq_user_id demo_request)" "rvq_profile demo_request = Some demo_profile"
    "effective_max (ico_default_max_candidate_count ItemCf_default_Options) demo_request = 3"
    "ico_score_multiplier ItemCf_default_Options = rnd 1"
    by (simp_all add: demo_request_def effective_max_def ItemCf_default_Options_def)
  have F: "positive_ids (consumed_items demo_profile) = {7, 8}"
    by (auto simp: positive_ids_def demo_consumed)
  let ?es = "all_edges {7, 8} [\<lparr>ts_entity_id = 7, ts_score = Fin 2\<rparr>]
      [[\<lparr>in_item_id = 7, in_score = Fin 1\<rparr>, \<lparr>in_item_id = 9, in_score = Fin (1 / 2)\<rparr>]]"
  have none: "pool_entry 7 (edges_to 7 ?es) = None"
    by (simp add: edges_to_def seed_edges_def pool_entry_def)
  from item_cf_closed_form [OF new req(1,2) demo_seeds _ refl] obtain pool where
    pool: "pool_keyed pool" and
    run: "ItemCf_Retrieve demo_item_cf demo_request =
       (let best = take 3 (SortCandidates pool)
        in (StatusOK, \<lparr>rvs_status = RETRIEVER_SUCCESS, rvs_msg = [],
              rvs_candidate_count = int (length best),
              rvs_candidates = map (ItemCf_candidate (rnd 1)) best\<rparr>))" and
    content: "map_of pool = (\<lambda>i. pool_entry i (edges_to i ?es))"
    by (auto simp: req F)
  have "map_of pool 7 = None" by (simp only: content none)
  with pool run show ?thesis by (intro exI [of _ pool]) (simp add: Let_def)
qed

definition demo_two_likes :: Profile where
  "demo_two_likes = Profile_default
     \<lparr>pf_behaviors := \<lparr>be_liked_items = [liked 3 (Fin 8)], be_recent_liked_items = [liked 7 (Fin 2)],
                       be_interested_items = [], be_rated_items = []\<rparr>\<rparr>"

theorem item_cf_seeds_are_best_witness:
  "length (ItemCf_seeds (demo_item_cf\<lparr>ic_max_trigger_seed_count := 1\<rparr>) demo_two_likes) = 1 \<and>
   ts_entity_id ` set (CollectTriggerSeeds demo_two_likes) = {7, 3}"
proof -
  have "positive_ids [7, 3] = {7, 3}" by (auto simp: positive_ids_def)
  moreover have "length (CollectTriggerSeeds demo_two_likes) = 2"
    by (simp add: CollectTriggerSeeds_def demo_two_likes_def Profile_default_def liked_def Let_def)
  ultimately show ?thesis
    using item_cf_seeds_are_best [of "demo_item_cf\<lparr>ic_max_trigger_seed_count := 1\<rparr>" demo_two_likes]
    by (simp add: demo_two_likes_def Profile_default_def liked_def)
qed

end
