(* ===== verification/RetrieverUserCf.thy ===== *)
theory RetrieverUserCf
  imports RetrieverItemCf
begin

text \<open>
  \<open>RetrieverUserCf\<close> (src/src/recommendation_engine/retrieval/retrievers/user_cf): similar users
  as seeds, their profiles in one batch call, their behaviour items as candidates. The similarity
  store is a function that may throw, the stub of the profile service a function of the request,
  and the generated request id an argument. The scoring core is that of \<open>CandidatePool\<close>.
\<close>

section \<open>State\<close>

record UserNeighbor =
  un_user_id :: uint64
  un_score :: float64

type_synonym user_similarity_store = "uint64 \<Rightarrow> int \<Rightarrow> UserNeighbor list throws"

type_synonym batch_profiles_stub =
  "BatchGetUserCfProfilesRequest \<Rightarrow> grpc_status \<times> BatchGetUserCfProfilesResponse"

record UserCf_Options =
  uco_default_max_candidate_count :: int
  uco_trigger_seed_user_count :: int
  uco_score_multiplier :: float64

definition UserCf_default_Options :: UserCf_Options where
  "UserCf_default_Options =
     \<lparr>uco_default_max_candidate_count = 10, uco_trigger_seed_user_count = 10,
      uco_score_multiplier = rnd 1\<rparr>"

record RetrieverUserCf =
  uc_default_max_candidate_count :: int
  uc_user_similarity_store :: user_similarity_store
  uc_profile_stub :: batch_profiles_stub
  uc_trigger_seed_user_count :: int
  uc_score_multiplier :: float64

record UserCf_SessionData =
  ucs_trace_id :: string
  ucs_trigger_seeds :: "TriggerSeed list"
  ucs_trigger_user_ids :: "uint64 list"
  ucs_item_ids_to_filter_out :: "uint64 set"
  ucs_trigger_user_profiles :: "UserCfProfile option list"
  ucs_candidates :: candidate_pool
  ucs_missing_profile_count :: nat
  ucs_total_neighbor_items_seen :: nat
  ucs_total_neighbor_items_filtered_out :: nat

definition UserCf_SessionData_new :: UserCf_SessionData where
  "UserCf_SessionData_new =
     \<lparr>ucs_trace_id = [], ucs_trigger_seeds = [], ucs_trigger_user_ids = [],
      ucs_item_ids_to_filter_out = {}, ucs_trigger_user_profiles = [], ucs_candidates = [],
      ucs_missing_profile_count = 0, ucs_total_neighbor_items_seen = 0,
      ucs_total_neighbor_items_filtered_out = 0\<rparr>"

definition RetrieverUserCf_new ::
  "user_similarity_store option \<Rightarrow> batch_profiles_stub option \<Rightarrow> UserCf_Options \<Rightarrow> RetrieverUserCf throws" where
  "RetrieverUserCf_new user_similarity_store profile_stub options =
     (case user_similarity_store of
        None \<Rightarrow> Inl (RuntimeError ''RetrieverUserCf user_similarity_store must not be null'')
      | Some store \<Rightarrow>
          (case profile_stub of
             None \<Rightarrow> Inl (RuntimeError ''RetrieverUserCf profile_stub must not be null'')
           | Some stub \<Rightarrow>
               if uco_default_max_candidate_count options \<le> 0
               then Inl (InvalidArgument ''RetrieverUserCf default_max_candidate_count must be positive'')
               else if uco_trigger_seed_user_count options \<le> 0
               then Inl (InvalidArgument ''RetrieverUserCf trigger_seed_user_count must be positive'')
               else if fle (uco_score_multiplier options) (Fin 0)
               then Inl (InvalidArgument ''RetrieverUserCf score_multiplier must be positive'')
               else Inr \<lparr>uc_default_max_candidate_count = uco_default_max_candidate_count options,
                         uc_user_similarity_store = store, uc_profile_stub = stub,
                         uc_trigger_seed_user_count = uco_trigger_seed_user_count options,
                         uc_score_multiplier = uco_score_multiplier options\<rparr>))"

section \<open>Seeds\<close>

fun UserCf_CollectTriggerSeeds ::
  "uint64 \<Rightarrow> UserNeighbor list \<Rightarrow> uint64 set \<Rightarrow> TriggerSeed list \<Rightarrow> TriggerSeed list" where
  "UserCf_CollectTriggerSeeds request_user_id [] seen_user_ids trigger_seeds = trigger_seeds"
| "UserCf_CollectTriggerSeeds request_user_id (user_neighbor # user_neighbors) seen_user_ids trigger_seeds =
     (if un_user_id user_neighbor = 0 \<or> un_user_id user_neighbor = request_user_id \<or>
         fle (un_score user_neighbor) (Fin 0)
      then UserCf_CollectTriggerSeeds request_user_id user_neighbors seen_user_ids trigger_seeds
      else if un_user_id user_neighbor \<in> seen_user_ids
      then UserCf_CollectTriggerSeeds request_user_id user_neighbors seen_user_ids trigger_seeds
      else UserCf_CollectTriggerSeeds request_user_id user_neighbors
             (insert (un_user_id user_neighbor) seen_user_ids)
             (trigger_seeds @ [\<lparr>ts_entity_id = un_user_id user_neighbor,
                                ts_score = un_score user_neighbor\<rparr>]))"

definition UserCf_LoadTriggerSeeds ::
  "RetrieverUserCf \<Rightarrow> RetrieverRequest \<Rightarrow> UserCf_SessionData \<Rightarrow> RetrieverResponse \<Rightarrow>
     grpc_status \<times> UserCf_SessionData \<times> RetrieverResponse" where
  "UserCf_LoadTriggerSeeds this request session response =
     (let request_user_id = rvq_user_id request in
      case uc_user_similarity_store this request_user_id (uc_trigger_seed_user_count this) of
        Inl ex \<Rightarrow> (StatusError INTERNAL (what ex), session,
                   response\<lparr>rvs_status := RETRIEVER_SYSTEM_ERROR, rvs_msg := what ex\<rparr>)
      | Inr user_neighbors \<Rightarrow>
          let session = session\<lparr>ucs_trigger_seeds :=
                UserCf_CollectTriggerSeeds request_user_id user_neighbors {} []\<rparr>
          in (StatusOK, session,
              if ucs_trigger_seeds session = []
              then response\<lparr>rvs_status := RETRIEVER_EMPTY_TRIGGER_SEEDS,
                            rvs_msg := ''No similar users available as trigger seeds.''\<rparr>
              else response))"

definition UserCf_BuildFilterSet :: "Profile \<Rightarrow> UserCf_SessionData \<Rightarrow> UserCf_SessionData" where
  "UserCf_BuildFilterSet profile session =
     session\<lparr>ucs_item_ids_to_filter_out := CollectItemIdsToFilterOut profile\<rparr>"

section \<open>Profiles of the similar users\<close>

text \<open>The loop that adds the usable ids to the request and remembers their positions.\<close>

fun valid_user_ids :: "nat \<Rightarrow> uint64 list \<Rightarrow> (nat \<times> int64) list" where
  "valid_user_ids i [] = []"
| "valid_user_ids i (user_id # user_ids) =
     (if user_id = 0 \<or> 0x7FFFFFFFFFFFFFFF < user_id then valid_user_ids (Suc i) user_ids
      else (i, user_id) # valid_user_ids (Suc i) user_ids)"

fun store_profiles ::
  "(nat \<times> UserCfProfileResult) list \<Rightarrow> UserCfProfile option list \<Rightarrow> UserCfProfile option list" where
  "store_profiles [] profiles = profiles"
| "store_profiles ((i, result) # rest) profiles =
     (if upr_status result \<noteq> PROFILE_SUCCESS then store_profiles rest profiles
      else store_profiles rest (profiles[i := Some (upr_profile result)]))"

definition UserCf_FetchProfiles ::
  "batch_profiles_stub \<Rightarrow> string \<Rightarrow> string \<Rightarrow> uint64 list \<Rightarrow> UserCfProfile option list throws" where
  "UserCf_FetchProfiles profile_stub guid trace_id trigger_user_ids =
     (let profiles = replicate (length trigger_user_ids) None;
          valid = valid_user_ids 0 trigger_user_ids;
          valid_indexes = map fst valid;
          profile_request = \<lparr>bgq_trace_id = trace_id, bgq_request_id = guid, bgq_user_ids = map snd valid\<rparr>
      in if valid_indexes = [] then Inr profiles
         else
           (let (status, profile_response) = profile_stub profile_request
            in if \<not> status_ok status
               then Inl (RuntimeError (''Failed to fetch user_cf profiles: '' @ error_message status))
               else if bgs_status profile_response \<noteq> PROFILE_SUCCESS
               then Inl (RuntimeError (''Profile service returned status '' @
                      show_int (ProfileServiceStatus_int (bgs_status profile_response)) @
                      '' for user_cf profile batch.''))
               else if length (bgs_results profile_response) \<noteq> length valid_indexes
               then Inl (RuntimeError ''Profile service user_cf batch returned mismatched result size'')
               else Inr (store_profiles (zip valid_indexes (bgs_results profile_response)) profiles)))"

definition UserCf_LoadTriggerUserProfiles ::
  "RetrieverUserCf \<Rightarrow> string \<Rightarrow> RetrieverRequest \<Rightarrow> UserCf_SessionData \<Rightarrow> RetrieverResponse \<Rightarrow>
     grpc_status \<times> UserCf_SessionData \<times> RetrieverResponse" where
  "UserCf_LoadTriggerUserProfiles this guid request session response =
     (let session = session\<lparr>ucs_trigger_user_ids := map ts_entity_id (ucs_trigger_seeds session)\<rparr>
      in case UserCf_FetchProfiles (uc_profile_stub this) guid (rvq_trace_id request)
                (ucs_trigger_user_ids session) of
           Inl ex \<Rightarrow> (StatusError INTERNAL (what ex), session,
                      response\<lparr>rvs_status := RETRIEVER_SYSTEM_ERROR, rvs_msg := what ex\<rparr>)
         | Inr profiles \<Rightarrow> (StatusOK, session\<lparr>ucs_trigger_user_profiles := profiles\<rparr>, response))"

section \<open>Aggregation and response\<close>

fun AggregateNeighborItems ::
  "TriggerSeed \<Rightarrow> ScoredItem list \<Rightarrow> UserCf_SessionData \<Rightarrow> UserCf_SessionData" where
  "AggregateNeighborItems trigger_seed [] session = session"
| "AggregateNeighborItems trigger_seed (neighbor_item # neighbor_items) session =
     AggregateNeighborItems trigger_seed neighbor_items
       (if si_item_id neighbor_item \<in> ucs_item_ids_to_filter_out session
        then session\<lparr>ucs_total_neighbor_items_filtered_out :=
                       Suc (ucs_total_neighbor_items_filtered_out session)\<rparr>
        else session\<lparr>ucs_candidates :=
               UserCf_AddCandidateContribution trigger_seed neighbor_item (ucs_candidates session)\<rparr>)"

text \<open>The loop over the profiles: \<open>i\<close> indexes the seeds, as in the source.\<close>

fun AggregateProfiles ::
  "UserCfProfile option list \<Rightarrow> nat \<Rightarrow> UserCf_SessionData \<Rightarrow> UserCf_SessionData" where
  "AggregateProfiles [] i session = session"
| "AggregateProfiles (None # profiles) i session =
     AggregateProfiles profiles (Suc i)
       (session\<lparr>ucs_missing_profile_count := Suc (ucs_missing_profile_count session)\<rparr>)"
| "AggregateProfiles (Some profile # profiles) i session =
     (let neighbor_items = CollectNeighborCandidateItems profile;
          session = session\<lparr>ucs_total_neighbor_items_seen :=
                      ucs_total_neighbor_items_seen session + length neighbor_items\<rparr>
      in AggregateProfiles profiles (Suc i)
           (AggregateNeighborItems (ucs_trigger_seeds session ! i) neighbor_items session))"

definition UserCf_AggregateCandidates :: "UserCf_SessionData \<Rightarrow> UserCf_SessionData" where
  "UserCf_AggregateCandidates session =
     AggregateProfiles (ucs_trigger_user_profiles session) 0
       (session\<lparr>ucs_missing_profile_count := 0, ucs_total_neighbor_items_seen := 0,
                ucs_total_neighbor_items_filtered_out := 0, ucs_candidates := []\<rparr>)"

definition UserCf_candidate :: "float64 \<Rightarrow> CandidateScore \<Rightarrow> CandidateItem" where
  "UserCf_candidate score_multiplier scored_candidate =
     (let retrieve_score = fmul (cs_score scored_candidate) score_multiplier;
          reason = \<lparr>rr_reason_type = REASON_TYPE_USER_CF,
                    rr_trigger = \<lparr>te_entity_type = ENTITY_TYPE_USER,
                                  te_entity_id = cs_trigger_entity_id scored_candidate\<rparr>,
                    rr_reason_score = fmul (cs_reason_score scored_candidate) score_multiplier,
                    rr_description = ''Retrieved from user_cf using similar user '' @
                      show_nat (unat (cs_trigger_entity_id scored_candidate)) @ ''.''\<rparr>
      in \<lparr>ci_item_id = cs_item_id scored_candidate, ci_item_type = ITEM_TYPE_UNSPECIFIED,
          ci_author_id = 0, ci_retriever = ''user_cf'', ci_retrieve_score = retrieve_score,
          ci_reasons = [reason],
          ci_retrieval_signals =
            [\<lparr>rs_retriever = ''user_cf'', rs_retrieve_score = retrieve_score, rs_reasons = [reason]\<rparr>]\<rparr>)"

definition UserCf_FillResponseCandidates ::
  "RetrieverUserCf \<Rightarrow> UserCf_SessionData \<Rightarrow> RetrieverRequest \<Rightarrow> RetrieverResponse \<Rightarrow> RetrieverResponse" where
  "UserCf_FillResponseCandidates this session request response =
     fill_candidates (UserCf_candidate (uc_score_multiplier this)) (rvq_max_candidate_count request)
       (SortCandidates (ucs_candidates session)) response"

definition UserCf_DoRetrieve :: "RetrieverUserCf \<Rightarrow> string \<Rightarrow> do_retrieve" where
  "UserCf_DoRetrieve this guid request response =
     (let session = UserCf_SessionData_new\<lparr>ucs_trace_id := rvq_trace_id request\<rparr>;
          (trigger_seed_status, session, response) = UserCf_LoadTriggerSeeds this request session response
      in if \<not> status_ok trigger_seed_status \<or> ucs_trigger_seeds session = []
         then (trigger_seed_status, response)
         else
           (let session = UserCf_BuildFilterSet (request_profile request) session;
                (profile_status, session, response) =
                  UserCf_LoadTriggerUserProfiles this guid request session response
            in if \<not> status_ok profile_status then (profile_status, response)
               else
                 (let session = UserCf_AggregateCandidates session;
                      response = UserCf_FillResponseCandidates this session request response
                  in (StatusOK, response\<lparr>rvs_status := RETRIEVER_SUCCESS, rvs_msg := []\<rparr>))))"

definition UserCf_Retrieve ::
  "RetrieverUserCf \<Rightarrow> string \<Rightarrow> RetrieverRequest \<Rightarrow> grpc_status \<times> RetrieverResponse" where
  "UserCf_Retrieve this guid request =
     Retriever_Retrieve (uc_default_max_candidate_count this) (UserCf_DoRetrieve this guid) request
       RetrieverResponse_default"

section \<open>Closed form\<close>

fun user_seeds :: "uint64 \<Rightarrow> uint64 set \<Rightarrow> UserNeighbor list \<Rightarrow> TriggerSeed list" where
  "user_seeds uid seen [] = []"
| "user_seeds uid seen (n # ns) =
     (if un_user_id n = 0 \<or> un_user_id n = uid \<or> fle (un_score n) (Fin 0) \<or> un_user_id n \<in> seen
      then user_seeds uid seen ns
      else \<lparr>ts_entity_id = un_user_id n, ts_score = un_score n\<rparr>
           # user_seeds uid (insert (un_user_id n) seen) ns)"

lemma UserCf_CollectTriggerSeeds_eq:
  "UserCf_CollectTriggerSeeds uid ns seen seeds = seeds @ user_seeds uid seen ns"
  by (induction uid ns seen seeds rule: UserCf_CollectTriggerSeeds.induct) auto

lemma user_seeds_props:
  "distinct (map ts_entity_id (user_seeds uid seen ns)) \<and>
   ts_entity_id ` set (user_seeds uid seen ns) =
     un_user_id ` {n \<in> set ns. \<not> fle (un_score n) (Fin 0)} - insert 0 (insert uid seen) \<and>
   (\<forall>s \<in> set (user_seeds uid seen ns). \<exists>n \<in> set ns. ts_score s = un_score n \<and> \<not> fle (un_score n) (Fin 0))"
proof (induction uid seen ns rule: user_seeds.induct)
  case (2 uid seen n ns)
  then show ?case by (auto split: if_splits)
qed simp

definition to_neighbor :: "ScoredItem \<Rightarrow> ItemNeighbor" where
  "to_neighbor x = \<lparr>in_item_id = si_item_id x, in_score = si_score x\<rparr>"

fun profile_neighbors :: "UserCfProfile option \<Rightarrow> ItemNeighbor list" where
  "profile_neighbors None = []"
| "profile_neighbors (Some p) = map to_neighbor (CollectNeighborCandidateItems p)"

lemma AggregateNeighborItems_eq:
  "ucs_trigger_seeds (AggregateNeighborItems s xs session) = ucs_trigger_seeds session"
  "ucs_item_ids_to_filter_out (AggregateNeighborItems s xs session) = ucs_item_ids_to_filter_out session"
  "ucs_candidates (AggregateNeighborItems s xs session) =
     foldl add_edge (ucs_candidates session)
       (seed_edges (ucs_item_ids_to_filter_out session) s (map to_neighbor xs))"
  by (induction xs arbitrary: session)
    (simp_all add: seed_edges_def to_neighbor_def UserCf_AddCandidateContribution_eq)

lemma AggregateProfiles_eq:
  "i + length ps \<le> length (ucs_trigger_seeds session) \<Longrightarrow>
   ucs_candidates (AggregateProfiles ps i session) =
     foldl add_edge (ucs_candidates session)
       (all_edges (ucs_item_ids_to_filter_out session) (drop i (ucs_trigger_seeds session))
         (map profile_neighbors ps))"
proof (induction ps arbitrary: i session)
  case (Cons p ps)
  let ?s = "ucs_trigger_seeds session"
  have d: "drop i ?s = ?s ! i # drop (Suc i) ?s"
    using Cons.prems by (simp add: Cons_nth_drop_Suc)
  show ?case
  proof (cases p)
    case None
    then show ?thesis using Cons by (simp add: d seed_edges_def)
  next
    case (Some q)
    then show ?thesis using Cons by (simp add: d Let_def AggregateNeighborItems_eq)
  qed
qed simp

lemma length_store_profiles: "length (store_profiles xs ps) = length ps"
  by (induction xs ps rule: store_profiles.induct) simp_all

lemma UserCf_FetchProfiles_length:
  "UserCf_FetchProfiles stub guid trace ids = Inr ps \<Longrightarrow> length ps = length ids"
  by (auto simp: UserCf_FetchProfiles_def Let_def length_store_profiles split: if_splits prod.splits)

lemma UserCf_DoRetrieve_eq:
  "UserCf_DoRetrieve this guid request response =
     (case uc_user_similarity_store this (rvq_user_id request) (uc_trigger_seed_user_count this) of
        Inl ex \<Rightarrow> (StatusError INTERNAL (what ex),
                   response\<lparr>rvs_status := RETRIEVER_SYSTEM_ERROR, rvs_msg := what ex\<rparr>)
      | Inr ns \<Rightarrow>
          let seeds = user_seeds (rvq_user_id request) {} ns in
          if seeds = []
          then (StatusOK, response\<lparr>rvs_status := RETRIEVER_EMPTY_TRIGGER_SEEDS,
                  rvs_msg := ''No similar users available as trigger seeds.''\<rparr>)
          else
            (case UserCf_FetchProfiles (uc_profile_stub this) guid (rvq_trace_id request)
                    (map ts_entity_id seeds) of
               Inl ex \<Rightarrow> (StatusError INTERNAL (what ex),
                          response\<lparr>rvs_status := RETRIEVER_SYSTEM_ERROR, rvs_msg := what ex\<rparr>)
             | Inr profiles \<Rightarrow>
                 (StatusOK,
                  (fill_candidates (UserCf_candidate (uc_score_multiplier this))
                     (rvq_max_candidate_count request)
                     (SortCandidates (foldl add_edge []
                       (all_edges (CollectItemIdsToFilterOut (request_profile request)) seeds
                         (map profile_neighbors profiles)))) response)
                  \<lparr>rvs_status := RETRIEVER_SUCCESS, rvs_msg := []\<rparr>)))"
proof (cases "uc_user_similarity_store this (rvq_user_id request) (uc_trigger_seed_user_count this)")
  case (Inl ex)
  then show ?thesis by (simp add: UserCf_DoRetrieve_def UserCf_LoadTriggerSeeds_def Let_def)
next
  case (Inr ns)
  define seeds where "seeds = user_seeds (rvq_user_id request) {} ns"
  show ?thesis
  proof (cases "UserCf_FetchProfiles (uc_profile_stub this) guid (rvq_trace_id request) (map ts_entity_id seeds)")
    case (Inl ex)
    then show ?thesis
      using Inr by (simp add: UserCf_DoRetrieve_def UserCf_LoadTriggerSeeds_def Let_def
          UserCf_CollectTriggerSeeds_eq flip: seeds_def)
        (simp add: UserCf_LoadTriggerUserProfiles_def UserCf_BuildFilterSet_def Let_def)
  next
    case prof: (Inr profiles)
    have len: "length profiles = length seeds" using UserCf_FetchProfiles_length [OF prof] by simp
    show ?thesis
      using Inr prof len by (simp add: UserCf_DoRetrieve_def UserCf_LoadTriggerSeeds_def Let_def
          UserCf_CollectTriggerSeeds_eq flip: seeds_def)
        (simp add: UserCf_LoadTriggerUserProfiles_def UserCf_BuildFilterSet_def Let_def
          UserCf_AggregateCandidates_def UserCf_FillResponseCandidates_def AggregateProfiles_eq)
  qed
qed

text \<open>The profile of each similar user ends up beside that user's seed.\<close>

definition usable_user_id :: "uint64 \<Rightarrow> bool" where
  "usable_user_id i \<longleftrightarrow> i \<noteq> 0 \<and> i \<le> 0x7FFFFFFFFFFFFFFF"

definition fetched_profile :: "(int64 \<Rightarrow> UserCfProfileResult) \<Rightarrow> uint64 \<Rightarrow> UserCfProfile option" where
  "fetched_profile answer i =
     (if usable_user_id i \<and> upr_status (answer i) = PROFILE_SUCCESS
      then Some (upr_profile (answer i)) else None)"

lemma store_profiles_aligned:
  "store_profiles (zip (map fst (valid_user_ids (length ps) ids)) (map answer (map snd (valid_user_ids (length ps) ids))))
     (ps @ replicate (length ids) None) = ps @ map (fetched_profile answer) ids"
proof (induction ids arbitrary: ps)
  case (Cons i ids)
  have step: "store_profiles (zip (map fst (valid_user_ids (Suc (length ps)) ids))
      (map answer (map snd (valid_user_ids (Suc (length ps)) ids)))) ((ps @ [p]) @ replicate (length ids) None)
    = (ps @ [p]) @ map (fetched_profile answer) ids" for p
    using Cons.IH [of "ps @ [p]"] by simp
  show ?case
    using step [of None] step [of "Some (upr_profile (answer i))"]
    by (auto simp: fetched_profile_def usable_user_id_def not_le list_update_append)
qed simp

lemma UserCf_FetchProfiles_pointwise:
  assumes "\<And>q. stub q = (StatusOK, \<lparr>bgs_status = PROFILE_SUCCESS, bgs_msg = m,
             bgs_results = map answer (bgq_user_ids q)\<rparr>)"
  shows "UserCf_FetchProfiles stub guid trace ids = Inr (map (fetched_profile answer) ids)"
  using store_profiles_aligned [where ps = "[]" and ids = ids and answer = answer]
  by (auto simp: UserCf_FetchProfiles_def assms Let_def)

section \<open>Theorems\<close>

lemma RetrieverUserCf_new_Inr:
  assumes "RetrieverUserCf_new (Some store) (Some stub) options = Inr this"
  shows "uc_user_similarity_store this = store" "uc_profile_stub this = stub"
    "0 < uc_default_max_candidate_count this" "0 < uc_trigger_seed_user_count this"
    "uc_score_multiplier this = uco_score_multiplier options"
    "\<not> fle (uc_score_multiplier this) (Fin 0)"
    "uc_default_max_candidate_count this = uco_default_max_candidate_count options"
    "uc_trigger_seed_user_count this = uco_trigger_seed_user_count options"
  using assms by (auto simp: RetrieverUserCf_new_def split: if_splits)

definition finite_user_scores :: "user_similarity_store \<Rightarrow> bool" where
  "finite_user_scores store \<longleftrightarrow>
     (\<forall>i k ns. store i k = Inr ns \<longrightarrow> (\<forall>n \<in> set ns. isfinite (un_score n)))"

lemma profile_neighbors_nonneg: "n \<in> set (profile_neighbors p) \<Longrightarrow> Fin 0 \<le> in_score n"
  by (cases p)
    (auto simp: to_neighbor_def CollectNeighborCandidateItems_eq intro: channel_items_nonneg [rotated 3])

lemma all_edges_pool:
  assumes "\<forall>n \<in> set (concat nss). n \<in> N"
  shows "pool_from (set seeds) N F (foldl add_edge [] (all_edges F seeds nss))"
  using set_all_edges [of _ F seeds nss] assms by (intro pool_from_foldl) force+

lemma UserCf_candidate_simps [simp]:
  "ci_item_id (UserCf_candidate m c) = cs_item_id c"
  "ci_retrieve_score (UserCf_candidate m c) = fmul (cs_score c) m"
  by (simp_all add: UserCf_candidate_def Let_def)

lemma UserCf_DoRetrieve_candidates:
  assumes "UserCf_DoRetrieve this guid request response = (st, resp)" "rvs_candidates resp \<noteq> []"
    "rvs_candidates response = []"
  obtains ns profiles where
    "uc_user_similarity_store this (rvq_user_id request) (uc_trigger_seed_user_count this) = Inr ns"
    "st = StatusOK" "rvs_status resp = RETRIEVER_SUCCESS"
    "rvs_candidates resp = map (UserCf_candidate (uc_score_multiplier this))
       (take (nat (rvq_max_candidate_count request)) (SortCandidates (foldl add_edge []
         (all_edges (CollectItemIdsToFilterOut (request_profile request))
           (user_seeds (rvq_user_id request) {} ns) (map profile_neighbors profiles)))))"
  using assms
  by (auto simp: UserCf_DoRetrieve_eq fill_candidates_eq Let_def split: sum.splits if_splits)

text \<open>What an answer of the retriever holds.\<close>

lemma UserCf_candidates:
  assumes "RetrieverUserCf_new (Some store) (Some stub) options = Inr this" "finite_user_scores store"
    "uco_score_multiplier options \<noteq> NaN" "UserCf_Retrieve this guid request = (st, resp)"
  shows "good_candidates (positive_ids (consumed_items (request_profile request))) (rvs_candidates resp) \<and>
    int (length (rvs_candidates resp)) \<le> effective_max (uco_default_max_candidate_count options) request \<and>
    (rvs_candidates resp \<noteq> [] \<longrightarrow>
       st = StatusOK \<and> rvs_status resp = RETRIEVER_SUCCESS \<and>
       rvs_candidate_count resp = int (length (rvs_candidates resp))) \<and>
    (\<forall>c \<in> set (rvs_candidates resp). \<forall>r \<in> set (ci_reasons c).
       te_entity_id (rr_trigger r) \<noteq> rvq_user_id request)"
proof (cases "rvs_candidates resp = []")
  case True
  then show ?thesis using RetrieverUserCf_new_Inr(3,7) [OF assms(1)] by (simp add: effective_max_def)
next
  case False
  note new = RetrieverUserCf_new_Inr [OF assms(1)]
  let ?d = "uc_default_max_candidate_count this"
  let ?F = "CollectItemIdsToFilterOut (request_profile request)"
  have F: "positive_ids (consumed_items (request_profile request)) = ?F"
    by (simp add: positive_ids_def CollectItemIdsToFilterOut_eq)
  have eff: "0 < effective_max ?d request" using new(3) by (simp add: effective_max_def)
  show ?thesis
    using assms(4) unfolding UserCf_Retrieve_def
  proof (cases rule: Retriever_Retrieve_cases [of request ?d "UserCf_DoRetrieve this guid" RetrieverResponse_default])
    case (invalid m)
    then show ?thesis using assms(4) False by (auto simp: UserCf_Retrieve_def RetrieverResponse_default_def)
  next
    case (valid st' r r')
    have eq: "st = st'" "resp = r'" using valid(3) assms(4) by (simp_all add: UserCf_Retrieve_def)
    have uid: "rvq_user_id (normalized_retriever_request ?d request) = rvq_user_id request"
      by (simp add: normalized_retriever_request_def)
    have ne: "rvs_candidates r \<noteq> []" using False valid(5) eq(2) by simp
    have dflt: "rvs_candidates (RetrieverResponse_default\<lparr>rvs_msg := [], rvs_candidate_count := 0\<rparr>) = []"
      by (simp add: RetrieverResponse_default_def)
    obtain ns profiles where ok:
      "store (rvq_user_id request) (uc_trigger_seed_user_count this) = Inr ns"
      "st' = StatusOK" "rvs_status r = RETRIEVER_SUCCESS"
      "rvs_candidates r = map (UserCf_candidate (uc_score_multiplier this))
         (take (nat (effective_max ?d request)) (SortCandidates (foldl add_edge []
           (all_edges ?F (user_seeds (rvq_user_id request) {} ns) (map profile_neighbors profiles)))))"
      by (rule UserCf_DoRetrieve_candidates [OF valid(2) ne dflt, unfolded normalized_request_fields uid new(1)])
    let ?T = "set (user_seeds (rvq_user_id request) {} ns)" and ?N = "{n. Fin 0 \<le> in_score n}"
    note seeds = user_seeds_props [of "rvq_user_id request" "{}" ns]
    have "\<forall>n \<in> set ns. isfinite (un_score n)"
      using assms(2) ok(1) unfolding finite_user_scores_def by blast
    then have "\<forall>s \<in> ?T. isfinite (ts_score s) \<and> Fin 0 < ts_score s"
      using seeds by (metis fle_le isfinite.simps(2) linorder_not_le)
    then have pos: "positive_edges ?T ?N" by (intro positive_edges_finite_seeds) auto
    have pool: "pool_from ?T ?N ?F (foldl add_edge []
        (all_edges ?F (user_seeds (rvq_user_id request) {} ns) (map profile_neighbors profiles)))"
      using profile_neighbors_nonneg by (intro all_edges_pool) auto
    have m: "Fin 0 < uc_score_multiplier this" using new(5,6) assms(3) by (auto simp: fle_le not_le)
    have "good_candidates ?F (rvs_candidates r)"
      unfolding ok(4) by (rule good_candidates_fill [OF pool pos m]) simp_all
    moreover have "int (length (rvs_candidates r)) \<le> effective_max ?d request"
      unfolding ok(4) using eff by simp
    moreover have "\<forall>c \<in> set (rvs_candidates r). \<forall>r \<in> set (ci_reasons c).
       te_entity_id (rr_trigger r) \<noteq> rvq_user_id request"
      unfolding ok(4) using pool_from_entry(6) [OF pool pos] seeds
      by (force simp: UserCf_candidate_def Let_def set_SortCandidates dest!: in_set_takeD)
    ultimately show ?thesis
      using valid(4,5,6) eq ok(2,3) F new(7) by simp
  qed
qed

text \<open>
  C8. Safety of user collaborative filtering, with no assumption on the profiles or the profile
  service, and finite scores in the similarity store: distinct candidates, none of them 0 or
  consumed by the user, at most as many as asked for, scores not negative and never increasing,
  each explained by another user than the requester; candidates only with success.
\<close>

theorem user_cf_candidates_safe:
  assumes "RetrieverUserCf_new (Some store) (Some stub) options = Inr this" "finite_user_scores store"
    "uco_score_multiplier options \<noteq> NaN" "UserCf_Retrieve this guid request = (st, resp)"
  shows "good_candidates (positive_ids (consumed_items (request_profile request))) (rvs_candidates resp) \<and>
    int (length (rvs_candidates resp)) \<le> effective_max (uco_default_max_candidate_count options) request \<and>
    (rvs_candidates resp \<noteq> [] \<longrightarrow>
       st = StatusOK \<and> rvs_status resp = RETRIEVER_SUCCESS \<and>
       rvs_candidate_count resp = int (length (rvs_candidates resp))) \<and>
    (\<forall>c \<in> set (rvs_candidates resp). \<forall>r \<in> set (ci_reasons c).
       te_entity_id (rr_trigger r) \<noteq> rvq_user_id request)"
  by (rule UserCf_candidates [OF assms])

text \<open>
  C5. The answer in closed form, when the profile service answers each id of its batch on its own:
  every similar user contributes the items of exactly that user's profile, nothing if the id does
  not fit the service's ids or the profile is not found, and the best scored items are returned.
  So the positions in the batch, which skips unusable ids, are always mapped back to their seeds.
\<close>

theorem user_cf_closed_form:
  assumes "RetrieverUserCf_new (Some store) (Some stub) options = Inr this"
    "0 < sint (rvq_user_id request)" "rvq_profile request = Some profile"
    "store (rvq_user_id request) (uco_trigger_seed_user_count options) = Inr ns"
    "\<And>q. stub q = (StatusOK, \<lparr>bgs_status = PROFILE_SUCCESS, bgs_msg = m,
             bgs_results = map answer (bgq_user_ids q)\<rparr>)"
    "user_seeds (rvq_user_id request) {} ns = seeds" "seeds \<noteq> []"
    "k = effective_max (uco_default_max_candidate_count options) request"
  shows "\<exists>pool. pool_keyed pool \<and>
    map_of pool = (\<lambda>i. pool_entry i (edges_to i
      (all_edges (positive_ids (consumed_items profile)) seeds
        (map (\<lambda>s. profile_neighbors (fetched_profile answer (ts_entity_id s))) seeds)))) \<and>
    UserCf_Retrieve this guid request =
      (let best = take (nat k) (SortCandidates pool)
       in (StatusOK, \<lparr>rvs_status = RETRIEVER_SUCCESS, rvs_msg = [],
             rvs_candidate_count = int (length best),
             rvs_candidates = map (UserCf_candidate (uco_score_multiplier options)) best\<rparr>))"
proof -
  note new = RetrieverUserCf_new_Inr [OF assms(1)]
  let ?d = "uc_default_max_candidate_count this"
  have rp: "request_profile request = profile" using assms(3) by (simp add: request_profile_def)
  have F: "positive_ids (consumed_items profile) = CollectItemIdsToFilterOut profile"
    by (simp add: positive_ids_def CollectItemIdsToFilterOut_eq)
  have k: "effective_max ?d request = k" using assms(8) new(7) by simp
  have valid: "valid_retriever_request request"
    using assms(2,3) by (simp add: valid_retriever_request_def)
  have uid: "rvq_user_id (normalized_retriever_request ?d request) = rvq_user_id request"
    by (simp add: normalized_retriever_request_def)
  let ?es = "all_edges (CollectItemIdsToFilterOut profile) seeds
    (map (\<lambda>s. profile_neighbors (fetched_profile answer (ts_entity_id s))) seeds)"
  let ?pool = "foldl add_edge [] ?es"
  have run: "UserCf_DoRetrieve this guid (normalized_retriever_request ?d request)
      (RetrieverResponse_default\<lparr>rvs_msg := [], rvs_candidate_count := 0\<rparr>) =
    (StatusOK, \<lparr>rvs_status = RETRIEVER_SUCCESS, rvs_msg = [], rvs_candidate_count = 0,
       rvs_candidates = map (UserCf_candidate (uco_score_multiplier options))
         (take (nat k) (SortCandidates ?pool))\<rparr>)"
    using assms(4,6,7) new(1,2,5,8) UserCf_FetchProfiles_pointwise [OF assms(5)]
    by (simp add: UserCf_DoRetrieve_eq uid rp k fill_candidates_eq RetrieverResponse_default_def comp_def)
  have "pool_keyed ?pool" by (intro pool_keyed_run) simp
  moreover have "map_of ?pool = (\<lambda>i. pool_entry i (edges_to i ?es))" by (intro ext pool_spec)
  moreover have "UserCf_Retrieve this guid request =
      (let best = take (nat k) (SortCandidates ?pool)
       in (StatusOK, \<lparr>rvs_status = RETRIEVER_SUCCESS, rvs_msg = [],
             rvs_candidate_count = int (length best),
             rvs_candidates = map (UserCf_candidate (uco_score_multiplier options)) best\<rparr>))"
    unfolding UserCf_Retrieve_def
    using Retriever_Retrieve_valid [where do = "UserCf_DoRetrieve this guid", OF valid run]
    by (simp add: Let_def)
  ultimately show ?thesis unfolding F by blast
qed

lemma valid_user_ids_Nil: "valid_user_ids i ids = [] \<longleftrightarrow> \<not> (\<exists>j \<in> set ids. usable_user_id j)"
  by (induction i ids rule: valid_user_ids.induct) (auto simp: usable_user_id_def not_le)

lemma UserCf_FetchProfiles_error:
  assumes "\<And>q st r. \<lbrakk>stub q = (st, r); bgq_user_ids q \<noteq> []\<rbrakk> \<Longrightarrow>
      \<not> status_ok st \<or> bgs_status r \<noteq> PROFILE_SUCCESS \<or> length (bgs_results r) \<noteq> length (bgq_user_ids q)"
    "\<exists>j \<in> set ids. usable_user_id j"
  shows "\<exists>ex. UserCf_FetchProfiles stub guid trace ids = Inl ex \<and> what ex \<noteq> []"
proof -
  define q where "q = \<lparr>bgq_trace_id = trace, bgq_request_id = guid, bgq_user_ids = map snd (valid_user_ids 0 ids)\<rparr>"
  have "valid_user_ids 0 ids \<noteq> []" using assms(2) valid_user_ids_Nil by simp
  moreover from this have "bgq_user_ids q \<noteq> []" by (simp add: q_def)
  moreover obtain st r where "stub q = (st, r)" by fastforce
  moreover note assms(1) [OF this]
  ultimately show ?thesis by (auto simp: UserCf_FetchProfiles_def Let_def q_def)
qed

text \<open>
  C10. The retriever fails closed: if the similarity store throws, or the profile service fails in
  any of the three ways the code checks while some similar user has a usable id, the call ends with
  INTERNAL, the response says system error with a message, and carries no candidate.
\<close>

theorem user_cf_fails_closed:
  assumes "RetrieverUserCf_new (Some store) (Some stub) options = Inr this"
    "0 < sint (rvq_user_id request)" "rvq_profile request = Some profile"
    "(case store (rvq_user_id request) (uco_trigger_seed_user_count options) of
        Inl ex \<Rightarrow> what ex \<noteq> []
      | Inr ns \<Rightarrow> (\<exists>s \<in> set (user_seeds (rvq_user_id request) {} ns). usable_user_id (ts_entity_id s)) \<and>
          (\<forall>q st r. stub q = (st, r) \<and> bgq_user_ids q \<noteq> [] \<longrightarrow>
             \<not> status_ok st \<or> bgs_status r \<noteq> PROFILE_SUCCESS \<or>
             length (bgs_results r) \<noteq> length (bgq_user_ids q)))"
  shows "\<exists>msg. msg \<noteq> [] \<and> UserCf_Retrieve this guid request =
    (StatusError INTERNAL msg,
     \<lparr>rvs_status = RETRIEVER_SYSTEM_ERROR, rvs_msg = msg, rvs_candidate_count = 0, rvs_candidates = []\<rparr>)"
proof -
  note new = RetrieverUserCf_new_Inr [OF assms(1)]
  let ?d = "uc_default_max_candidate_count this"
  let ?r0 = "RetrieverResponse_default\<lparr>rvs_msg := [], rvs_candidate_count := 0\<rparr>"
  have valid: "valid_retriever_request request"
    using assms(2,3) by (simp add: valid_retriever_request_def)
  have uid: "rvq_user_id (normalized_retriever_request ?d request) = rvq_user_id request"
    by (simp add: normalized_retriever_request_def)
  have "\<exists>ex. what ex \<noteq> [] \<and> UserCf_DoRetrieve this guid (normalized_retriever_request ?d request) ?r0 =
      (StatusError INTERNAL (what ex), ?r0\<lparr>rvs_status := RETRIEVER_SYSTEM_ERROR, rvs_msg := what ex\<rparr>)"
  proof (cases "store (rvq_user_id request) (uco_trigger_seed_user_count options)")
    case (Inl ex)
    then show ?thesis
      using assms(4) new(1,8) by (intro exI [of _ ex]) (simp add: UserCf_DoRetrieve_eq uid)
  next
    case (Inr ns)
    let ?seeds = "user_seeds (rvq_user_id request) {} ns"
    have use: "\<exists>j \<in> set (map ts_entity_id ?seeds). usable_user_id j" using assms(4) Inr by auto
    then have ne: "?seeds \<noteq> []" by auto
    have bad: "\<forall>q st r. stub q = (st, r) \<and> bgq_user_ids q \<noteq> [] \<longrightarrow>
        \<not> status_ok st \<or> bgs_status r \<noteq> PROFILE_SUCCESS \<or>
        length (bgs_results r) \<noteq> length (bgq_user_ids q)"
      using assms(4) Inr by simp
    obtain ex where ex: "UserCf_FetchProfiles stub guid
        (rvq_trace_id (normalized_retriever_request ?d request)) (map ts_entity_id ?seeds) = Inl ex"
      "what ex \<noteq> []"
      using UserCf_FetchProfiles_error [where stub = stub, OF _ use] bad by metis
    then show ?thesis
      using Inr ne new(1,2,8) by (intro exI [of _ ex]) (simp add: UserCf_DoRetrieve_eq uid)
  qed
  then obtain ex where ex: "what ex \<noteq> []"
    "UserCf_DoRetrieve this guid (normalized_retriever_request ?d request) ?r0 =
      (StatusError INTERNAL (what ex), ?r0\<lparr>rvs_status := RETRIEVER_SYSTEM_ERROR, rvs_msg := what ex\<rparr>)"
    by blast
  then show ?thesis
    unfolding UserCf_Retrieve_def
    using Retriever_Retrieve_valid [where do = "UserCf_DoRetrieve this guid", OF valid ex(2)]
    by (intro exI [of _ "what ex"]) (simp add: RetrieverResponse_default_def)
qed

text \<open>A concrete run: user 6 is similar to user 5, and so, for the store, are two unusable ids.\<close>

definition demo_user_store :: user_similarity_store where
  "demo_user_store i k =
     Inr [\<lparr>un_user_id = 0, un_score = Fin 1\<rparr>, \<lparr>un_user_id = 0xFFFFFFFFFFFFFFFF, un_score = Fin 1\<rparr>,
          \<lparr>un_user_id = 6, un_score = Fin (1 / 2)\<rparr>, \<lparr>un_user_id = 5, un_score = Fin 1\<rparr>]"

definition demo_answer :: "int64 \<Rightarrow> UserCfProfileResult" where
  "demo_answer i = (if i = 6
     then \<lparr>upr_status = PROFILE_SUCCESS, upr_user_id = 6,
           upr_profile = UserCfProfile_default\<lparr>ucf_recent_liked_items := [liked 8 (Fin 4), liked 9 (Fin 4)]\<rparr>\<rparr>
     else \<lparr>upr_status = PROFILE_USER_NOT_FOUND, upr_user_id = i, upr_profile = UserCfProfile_default\<rparr>)"

definition demo_stub :: batch_profiles_stub where
  "demo_stub q = (StatusOK, \<lparr>bgs_status = PROFILE_SUCCESS, bgs_msg = [],
     bgs_results = map demo_answer (bgq_user_ids q)\<rparr>)"

definition demo_user_cf :: RetrieverUserCf where
  "demo_user_cf = \<lparr>uc_default_max_candidate_count = 10, uc_user_similarity_store = demo_user_store,
     uc_profile_stub = demo_stub, uc_trigger_seed_user_count = 10, uc_score_multiplier = Fin 1\<rparr>"

lemma demo_user_cf_new:
  "RetrieverUserCf_new (Some demo_user_store) (Some demo_stub) UserCf_default_Options = Inr demo_user_cf"
  by (simp add: RetrieverUserCf_new_def UserCf_default_Options_def demo_user_cf_def one_eval fle_def)

lemma demo_user_seeds:
  "demo_user_store (rvq_user_id demo_request) (uco_trigger_seed_user_count UserCf_default_Options) =
     Inr [\<lparr>un_user_id = 0, un_score = Fin 1\<rparr>, \<lparr>un_user_id = 0xFFFFFFFFFFFFFFFF, un_score = Fin 1\<rparr>,
          \<lparr>un_user_id = 6, un_score = Fin (1 / 2)\<rparr>, \<lparr>un_user_id = 5, un_score = Fin 1\<rparr>]"
  "user_seeds (rvq_user_id demo_request) {}
     [\<lparr>un_user_id = 0, un_score = Fin 1\<rparr>, \<lparr>un_user_id = 0xFFFFFFFFFFFFFFFF, un_score = Fin 1\<rparr>,
          \<lparr>un_user_id = 6, un_score = Fin (1 / 2)\<rparr>, \<lparr>un_user_id = 5, un_score = Fin 1\<rparr>] =
     [\<lparr>ts_entity_id = 0xFFFFFFFFFFFFFFFF, ts_score = Fin 1\<rparr>, \<lparr>ts_entity_id = 6, ts_score = Fin (1 / 2)\<rparr>]"
  by (simp_all add: demo_user_store_def demo_request_def fle_def)

lemma demo_request_fields:
  "0 < sint (rvq_user_id demo_request)" "rvq_profile demo_request = Some demo_profile"
  "effective_max 10 demo_request = 3" "request_profile demo_request = demo_profile"
  "positive_ids (consumed_items demo_profile) = {7, 8}"
  "uco_default_max_candidate_count UserCf_default_Options = 10"
  "uco_score_multiplier UserCf_default_Options = rnd 1"
  by (auto simp: demo_request_def effective_max_def request_profile_def positive_ids_def demo_consumed
      UserCf_default_Options_def)

lemma demo_edges:
  "all_edges {7, 8} [\<lparr>ts_entity_id = 0xFFFFFFFFFFFFFFFF, ts_score = Fin 1\<rparr>, \<lparr>ts_entity_id = 6, ts_score = Fin (1 / 2)\<rparr>]
     (map (\<lambda>s. profile_neighbors (fetched_profile demo_answer (ts_entity_id s)))
       [\<lparr>ts_entity_id = 0xFFFFFFFFFFFFFFFF, ts_score = Fin 1\<rparr>, \<lparr>ts_entity_id = 6, ts_score = Fin (1 / 2)\<rparr>]) =
   [(\<lparr>ts_entity_id = 6, ts_score = Fin (1 / 2)\<rparr>, \<lparr>in_item_id = 9, in_score = Fin 2\<rparr>)]"
  by (simp add: fetched_profile_def usable_user_id_def demo_answer_def seed_edges_def to_neighbor_def
      CollectNeighborCandidateItems_def UserCfProfile_default_def liked_def Let_def)
    (simp add: float_eval)

theorem user_cf_closed_form_witness:
  "map ci_item_id (rvs_candidates (snd (UserCf_Retrieve demo_user_cf ''g'' demo_request))) = [9]"
proof -
  from user_cf_closed_form [OF demo_user_cf_new demo_request_fields(1,2) demo_user_seeds(1) demo_stub_def
      demo_user_seeds(2) _ refl, of "''g''"]
  obtain pool where pool: "pool_keyed pool"
    "map_of pool = (\<lambda>i. pool_entry i (edges_to i
       [(\<lparr>ts_entity_id = 6, ts_score = Fin (1 / 2)\<rparr>, \<lparr>in_item_id = 9, in_score = Fin 2\<rparr>)]))"
    "rvs_candidates (snd (UserCf_Retrieve demo_user_cf ''g'' demo_request)) =
       map (UserCf_candidate (rnd 1)) (take 3 (SortCandidates pool))"
    unfolding demo_request_fields demo_edges by (auto simp: Let_def)
  have "edges_to i [(\<lparr>ts_entity_id = 6, ts_score = Fin (1 / 2)\<rparr>, \<lparr>in_item_id = 9, in_score = Fin 2\<rparr>)] =
      (if i = 9 then [(\<lparr>ts_entity_id = 6, ts_score = Fin (1 / 2)\<rparr>, \<lparr>in_item_id = 9, in_score = Fin 2\<rparr>)] else [])"
    for i
    by (simp add: edges_to_def fle_def one_eval)
  then have "dom (map_of pool) = {9}"
    unfolding pool(2) by (auto simp: pool_entry_def Let_def split: if_splits)
  then have "fst ` set pool = {9}" by (simp add: dom_map_of_conv_image_fst)
  moreover have "distinct (map fst pool)" using pool(1) by (simp add: pool_keyed_def)
  ultimately have "map fst pool = [9]"
    by (metis distinct_card distinct_singleton card.empty card_insert_disjoint empty_iff finite.emptyI
        length_0_conv length_Suc_conv list.set(1) list.simps(15) set_map the_elem_eq)
  then have "map cs_item_id (SortCandidates pool) = [9]"
    using distinct_SortCandidates [OF pool(1)] pool_keyed_ids [OF pool(1)]
    by (cases pool) (auto simp: SortCandidates_def)
  then have "take 3 (SortCandidates pool) = SortCandidates pool"
    by (metis length_map list.size(3,4) numeral_3_eq_3 take_all le_SucI One_nat_def add_0 le_numeral_extra(4) plus_1_eq_Suc)
  then show ?thesis using \<open>map cs_item_id (SortCandidates pool) = [9]\<close> by (simp add: pool(3) comp_def)
qed

theorem user_cf_candidates_safe_witness:
  "good_candidates {7, 8} (rvs_candidates (snd (UserCf_Retrieve demo_user_cf ''g'' demo_request)))"
proof -
  have "finite_user_scores demo_user_store" by (simp add: finite_user_scores_def demo_user_store_def)
  then show ?thesis
    using user_cf_candidates_safe [OF demo_user_cf_new _ _ surjective_pairing, of demo_request "''g''"]
    by (simp add: demo_request_fields)
qed

theorem user_cf_fails_closed_witness:
  "\<exists>msg this. RetrieverUserCf_new (Some demo_user_store)
      (Some (\<lambda>q. (StatusError UNAVAILABLE ''down'', \<lparr>bgs_status = PROFILE_SUCCESS, bgs_msg = [], bgs_results = []\<rparr>)))
      UserCf_default_Options = Inr this \<and>
    fst (UserCf_Retrieve this ''g'' demo_request) = StatusError INTERNAL msg \<and> msg \<noteq> []"
proof -
  let ?stub = "\<lambda>q. (StatusError UNAVAILABLE ''down'', \<lparr>bgs_status = PROFILE_SUCCESS, bgs_msg = [], bgs_results = []\<rparr>)"
  let ?this = "demo_user_cf\<lparr>uc_profile_stub := ?stub\<rparr>"
  have new: "RetrieverUserCf_new (Some demo_user_store) (Some ?stub) UserCf_default_Options = Inr ?this"
    by (simp add: RetrieverUserCf_new_def UserCf_default_Options_def demo_user_cf_def one_eval fle_def)
  have "(case demo_user_store (rvq_user_id demo_request) (uco_trigger_seed_user_count UserCf_default_Options) of
        Inl ex \<Rightarrow> what ex \<noteq> []
      | Inr ns \<Rightarrow> (\<exists>s \<in> set (user_seeds (rvq_user_id demo_request) {} ns). usable_user_id (ts_entity_id s)) \<and>
          (\<forall>q st r. ?stub q = (st, r) \<and> bgq_user_ids q \<noteq> [] \<longrightarrow>
             \<not> status_ok st \<or> bgs_status r \<noteq> PROFILE_SUCCESS \<or>
             length (bgs_results r) \<noteq> length (bgq_user_ids q)))"
    by (auto simp: demo_user_store_def demo_request_def fle_def usable_user_id_def)
  from user_cf_fails_closed [OF new demo_request_fields(1,2) this, of "''g''"] new
  show ?thesis by (metis fst_conv)
qed

end
