(* ===== verification/EndToEnd.thy ===== *)
theory EndToEnd
  imports Gateway ProfileService RetrieverItemCf RetrieverUserCf
begin

text \<open>
  The engine put together: the gateway over the handlers of the profile service, the orchestrator and
  the ranking service as modelled, and what follows for a recommendation from end to end. The profile
  service is taken without its cache, which \<open>ProfileService\<close> shows to be invisible. A handler that is
  undefined (the conversion of the candidate count in the orchestrator) gives \<open>the None\<close>, of which
  nothing can be known.
\<close>

section \<open>The services behind the gateway\<close>

definition engine ::
  "(int \<Rightarrow> Profile option throws) \<Rightarrow> RetrievalOrchestrator \<Rightarrow> string \<Rightarrow> RankingServiceImpl \<Rightarrow> GatewayService" where
  "engine answers orchestrator guid ranking_service =
     \<lparr>gw_profile_stub = Some (\<lambda>q. fst (the (GetProfile (Some (uncached_store answers)) () q GetProfileResponse_default))),
      gw_retrieval_stub = Some (\<lambda>q. the (Orchestrator_Retrieve orchestrator guid q RetrieveResponse_default)),
      gw_ranking_stub = Some (\<lambda>q. apsnd the (Rank ranking_service (Some q) (Some RankResponse_default)))\<rparr>"

section \<open>What the ranking service answers\<close>

lemma heuristic_service:
  assumes "RankingServiceImpl_new (Some store) [Some (heuristic_ranker log1p store)] HeuristicRanker_kName = Inr this"
  shows "rsv_rankers this = (\<lambda>n. if n = HeuristicRanker_kName then Some (heuristic_ranker log1p store) else None)"
    "rsv_default_ranker_name this = HeuristicRanker_kName"
  using assms by (auto simp: RankingServiceImpl_new_def RegisterRankers_def RegisterRanker_def RegisterDefaultRanker_def
      FindRanker_def heuristic_ranker_def split: if_splits)

lemma task_response_irrelevant:
  "ranking log1p (HeuristicRanker_CreateTask store q r) es = ranking log1p (HeuristicRanker_CreateTask store q r') es"
proof -
  let ?t = "HeuristicRanker_CreateTask store q r" and ?t' = "HeuristicRanker_CreateTask store q r'"
  have weights: "ht_genre_weights ?t = ht_genre_weights ?t'" "ht_tag_weights ?t = ht_tag_weights ?t'"
    "ht_negative_genre_weights ?t = ht_negative_genre_weights ?t'" "ht_negative_tag_weights ?t = ht_negative_tag_weights ?t'"
    "ht_negative_item_weights ?t = ht_negative_item_weights ?t'"
    by (simp_all add: HeuristicRanker_CreateTask_def HeuristicRankTask_new_def Let_def)
  have "AddItemFactors log1p ?t = AddItemFactors log1p ?t'"
    by (intro ext) (simp only: AddItemFactors_def weights)
  then have "ScoreCandidate log1p ?t = ScoreCandidate log1p ?t'"
    by (intro ext) (simp only: ScoreCandidate_def weights)
  moreover have "ht_request (HeuristicRanker_CreateTask store q r) = q" for r
    by (simp add: HeuristicRanker_CreateTask_def HeuristicRankTask_new_def Let_def)
  ultimately show ?thesis by (simp add: ranking_def)
qed

lemma answer_of_candidates:
  "map rc_candidate (answer_of task scored) = map sc_candidate (take (nat (rkq_max_results (ht_request task))) scored)"
  by (rule nth_equalityI) (simp_all add: answer_of_def FillRankedCandidate_def min.commute)

text \<open>The ranking of a request, by the scores of its items with their entries.\<close>

abbreviation ranked_for ::
  "(float64 \<Rightarrow> float64) \<Rightarrow> item_index_store \<Rightarrow> RankRequest \<Rightarrow> ItemIndexEntry option list \<Rightarrow> ScoredCandidate list" where
  "ranked_for log1p store q es \<equiv> ranking log1p (HeuristicRanker_CreateTask store q None) es"

lemma Rank_success_iff:
  assumes "RankingServiceImpl_new (Some store) [Some (heuristic_ranker log1p store)] HeuristicRanker_kName = Inr this"
    "ro_ranker (rkq_options q) = []"
  shows "(\<exists>resp. apsnd the (Rank this (Some q) (Some RankResponse_default)) = (StatusOK, resp) \<and>
      rks_status resp = RANKING_SUCCESS \<and> map rc_candidate (rks_ranked_candidates resp) = cs) \<longleftrightarrow>
    valid_rank_request q \<and> item_ids (rkq_candidates q) \<noteq> [] \<and>
    (\<exists>es. store (item_ids (rkq_candidates q)) = Inr es \<and> length es = length (item_ids (rkq_candidates q)) \<and>
       cs = map sc_candidate (take (nat (rkq_max_results q)) (ranked_for log1p store q es)))"
proof (cases "valid_rank_request q")
  case False
  let ?r0 = "RankResponse_default\<lparr>rks_msg := [], rks_input_candidate_count := int (length (rkq_candidates q)),
      rks_ranked_candidate_count := 0\<rparr>"
  from False have v: "ValidateRankRequest q ?r0 =
      (StatusError INVALID_ARGUMENT (rks_msg (snd (ValidateRankRequest q ?r0))),
       ?r0\<lparr>rks_status := RANKING_INVALID_REQUEST, rks_msg := rks_msg (snd (ValidateRankRequest q ?r0))\<rparr>)"
    using ValidateRankRequest_cases [of q ?r0] by simp
  show ?thesis
    using False unfolding Rank_def Let_def option.case by (subst v) simp
next
  case True
  note registered = heuristic_service [OF assms(1)]
  let ?r0 = "RankResponse_default\<lparr>rks_msg := [], rks_input_candidate_count := int (length (rkq_candidates q)),
      rks_ranked_candidate_count := 0\<rparr>"
  let ?task = "HeuristicRanker_CreateTask store q (Some ?r0)"
  let ?ids = "item_ids (rkq_candidates q)"
  have task: "ht_request ?task = q" "ht_response ?task = Some ?r0" "ht_item_index_store ?task = Some store"
    by (simp_all add: HeuristicRanker_CreateTask_def HeuristicRankTask_new_def Let_def)
  obtain r outcome where run: "HeuristicRankTask_Run log1p ?task = (r, outcome)" by fastforce
  obtain resp where r: "r = Some resp" using HeuristicRankTask_Run_outcome [OF run] by (auto simp: RankResponse_default_def)
  have found: "FindRanker (rsv_rankers this) (ResolveRankerName this q) = Some (heuristic_ranker log1p store)"
    "rk_run (heuristic_ranker log1p store) q ?r0 = Some (resp, outcome)"
    using run r by (simp_all add: FindRanker_def registered heuristic_ranker_def ResolveRankerName_def assms(2))
  note rank = Rank_run [OF True found]
  have candidates: "map ci_item_id (NormalizeAndMergeCandidates q) = ?ids"
    by (simp add: NormalizeAndMergeCandidates_eq comp_def merged_item_ids)
  then have empty: "NormalizeAndMergeCandidates q = [] \<longleftrightarrow> ?ids = []"
    "length (NormalizeAndMergeCandidates q) = length ?ids" by (auto dest: arg_cong [of _ _ length])
  show ?thesis
  proof (cases "?ids \<noteq> [] \<and> (\<exists>es. store ?ids = Inr es \<and> length es = length ?ids)")
    case ok: True
    then obtain es where es: "store ?ids = Inr es" "length es = length ?ids" by blast
    have ids: "?ids = item_ids (rkq_candidates (ht_request ?task))" by (simp only: task(1))
    have "(Some resp, outcome) = (Some (?r0\<lparr>rks_ranked_candidates := rks_ranked_candidates ?r0 @ answer_of ?task (ranking log1p ?task es),
        rks_status := RANKING_SUCCESS, rks_msg := [], rks_ranked_candidate_count :=
          int (length (rks_ranked_candidates ?r0 @ answer_of ?task (ranking log1p ?task es)))\<rparr>), Inr StatusOK)"
      using HeuristicRankTask_Run_eq [OF task(2,3) ids conjunct1 [OF ok] es, of log1p] unfolding run r .
    moreover have "rks_ranked_candidates ?r0 = []" by (simp add: RankResponse_default_def)
    ultimately have answer: "resp = ?r0\<lparr>rks_ranked_candidates := answer_of ?task (ranking log1p ?task es), rks_status := RANKING_SUCCESS,
        rks_msg := [], rks_ranked_candidate_count := int (length (answer_of ?task (ranking log1p ?task es)))\<rparr>"
      "outcome = Inr StatusOK"
      by (simp_all only: prod.inject option.inject append_Nil)
    have same: "ranking log1p ?task es = ranked_for log1p store q es" by (rule task_response_irrelevant)
    have "map rc_candidate (answer_of ?task (ranking log1p ?task es)) =
        map sc_candidate (take (nat (rkq_max_results q)) (ranked_for log1p store q es))"
      unfolding answer_of_candidates task(1) same ..
    then show ?thesis
      unfolding rank answer using True ok es by auto
  next
    case False
    have "rks_status resp \<noteq> RANKING_SUCCESS \<or> outcome \<noteq> Inr StatusOK"
      using run r False empty candidates
      by (auto simp: HeuristicRankTask_Run_def task Let_def split: if_splits sum.splits)
    then show ?thesis
      unfolding rank using True False by (cases outcome) (auto simp: status_ok_iff split: if_splits)
  qed
qed

lemma engine_profile:
  "fst (the (GetProfile (Some (uncached_store answers)) s q GetProfileResponse_default)) =
     profile_answer answers (gpq_user_id q)"
  using uncached.get_profile_answer [where answers = answers and s = s and request = q] by auto

lemma profile_answer_success:
  "profile_answer answers i = (StatusOK, found) \<and> gps_status found = PROFILE_SUCCESS \<longleftrightarrow>
     (\<exists>p. answers i = Inr (Some p) \<and> found = \<lparr>gps_status = PROFILE_SUCCESS, gps_msg = [], gps_profile = p\<rparr>)"
  by (auto simp: profile_answer_def Let_def split: sum.splits option.splits)

definition retrieve_request :: "string \<Rightarrow> RecommendRequest \<Rightarrow> Profile \<Rightarrow> RetrieveRequest" where
  "retrieve_request guid request profile =
     \<lparr>rtq_trace_id = req_request_id request, rtq_request_id = guid,
      rtq_user_id = of_int (req_user_id request), rtq_profile = Some profile,
      rtq_max_candidate_count = req_max_results request\<rparr>"

lemma engine_success:
  assumes "RankingServiceImpl_new (Some store) [Some (heuristic_ranker log1p store)] HeuristicRanker_kName = Inr ranking_service"
  shows "Recommend (engine answers orchestrator guid ranking_service) (guid1, guid2, guid3) request RecommendResponse_default =
      (StatusOK, resp) \<longleftrightarrow>
    (\<exists>profile retrieved.
      answers (req_user_id request) = Inr (Some profile) \<and>
      the (Orchestrator_Retrieve orchestrator guid (retrieve_request guid2 request profile) RetrieveResponse_default) =
        (StatusOK, retrieved) \<and> rts_status retrieved = RETRIEVAL_SUCCESS \<and>
      (let q = rank_request guid3 request profile retrieved; ids = item_ids (rts_candidates retrieved)
       in valid_rank_request q \<and> ids \<noteq> [] \<and>
          (\<exists>es. store ids = Inr es \<and> length es = length ids \<and>
             resp = \<lparr>res_status = SUCCESS, res_msg = [],
               res_candidates = map sc_candidate (take (nat (req_max_results request)) (ranked_for log1p store q es))\<rparr>)))"
proof -
  have q: "ro_ranker (rkq_options (rank_request guid3 request p r)) = []"
    "rkq_candidates (rank_request guid3 request p r) = rts_candidates r"
    "rkq_max_results (rank_request guid3 request p r) = req_max_results request" for p r
    by (simp_all add: rank_request_def)
  let ?rank = "\<lambda>q. apsnd the (Rank ranking_service (Some q) (Some RankResponse_default))"
  have rank: "(\<exists>ranked. ?rank (rank_request guid3 request p r) = (StatusOK, ranked) \<and> rks_status ranked = RANKING_SUCCESS \<and>
      resp = \<lparr>res_status = SUCCESS, res_msg = [], res_candidates = map rc_candidate (rks_ranked_candidates ranked)\<rparr>) \<longleftrightarrow>
    (let q = rank_request guid3 request p r; ids = item_ids (rts_candidates r)
       in valid_rank_request q \<and> ids \<noteq> [] \<and>
          (\<exists>es. store ids = Inr es \<and> length es = length ids \<and>
             resp = \<lparr>res_status = SUCCESS, res_msg = [],
               res_candidates = map sc_candidate (take (nat (req_max_results request)) (ranked_for log1p store q es))\<rparr>))" for p r
  proof -
    have eq: "resp = \<lparr>res_status = SUCCESS, res_msg = [], res_candidates = cs\<rparr> \<longleftrightarrow>
        (res_status resp = SUCCESS \<and> res_msg resp = []) \<and> cs = res_candidates resp" for cs
      by (cases resp) auto
    have eq': "resp = \<lparr>res_status = SUCCESS, res_msg = [], res_candidates = cs\<rparr> \<longleftrightarrow>
        (res_status resp = SUCCESS \<and> res_msg resp = []) \<and> res_candidates resp = cs" for cs
      by (cases resp) auto
    have "(\<exists>ranked. ?rank (rank_request guid3 request p r) = (StatusOK, ranked) \<and> rks_status ranked = RANKING_SUCCESS \<and>
        resp = \<lparr>res_status = SUCCESS, res_msg = [], res_candidates = map rc_candidate (rks_ranked_candidates ranked)\<rparr>) \<longleftrightarrow>
      (res_status resp = SUCCESS \<and> res_msg resp = []) \<and>
      (\<exists>ranked. ?rank (rank_request guid3 request p r) = (StatusOK, ranked) \<and> rks_status ranked = RANKING_SUCCESS \<and>
        map rc_candidate (rks_ranked_candidates ranked) = res_candidates resp)"
      unfolding eq by blast
    then show ?thesis
      unfolding Rank_success_iff [OF assms q(1) [of p r]] eq' Let_def q by blast
  qed
  let ?orch = "\<lambda>p. the (Orchestrator_Retrieve orchestrator guid (retrieve_request guid2 request p) RetrieveResponse_default)"
  let ?ranked = "\<lambda>p r ranked. ?rank (rank_request guid3 request p r) = (StatusOK, ranked) \<and> rks_status ranked = RANKING_SUCCESS \<and>
      resp = \<lparr>res_status = SUCCESS, res_msg = [], res_candidates = map rc_candidate (rks_ranked_candidates ranked)\<rparr>"
  have found: "(\<exists>found. (profile_answer answers i = (StatusOK, found) \<and> gps_status found = PROFILE_SUCCESS) \<and> C (gps_profile found)) \<longleftrightarrow>
      (\<exists>p. answers i = Inr (Some p) \<and> C p)" for C i
    unfolding profile_answer_success by auto
  have "Recommend (engine answers orchestrator guid ranking_service) (guid1, guid2, guid3) request RecommendResponse_default =
      (StatusOK, resp) \<longleftrightarrow>
    (\<exists>found. (profile_answer answers (req_user_id request) = (StatusOK, found) \<and> gps_status found = PROFILE_SUCCESS) \<and>
       (\<exists>r. ?orch (gps_profile found) = (StatusOK, r) \<and> rts_status r = RETRIEVAL_SUCCESS \<and> (\<exists>ranked. ?ranked (gps_profile found) r ranked)))"
    unfolding engine_def Recommend_success engine_profile retrieve_request_def [symmetric] GetProfileRequest.simps
    by blast
  also have "\<dots> \<longleftrightarrow> (\<exists>p. answers (req_user_id request) = Inr (Some p) \<and>
       (\<exists>r. ?orch p = (StatusOK, r) \<and> rts_status r = RETRIEVAL_SUCCESS \<and> (\<exists>ranked. ?ranked p r ranked)))"
    by (rule found)
  finally show ?thesis unfolding rank by blast
qed

lemma ranked_for_scored:
  "ranked_for log1p store q es = sort_by rank_higher_first (scored_items log1p (HeuristicRanker_CreateTask store q None) es)"
  "ht_request (HeuristicRanker_CreateTask store q None) = q"
  by (simp_all add: ranking_def scored_items_def Let_def HeuristicRanker_CreateTask_def HeuristicRankTask_new_def)

lemma ranked_ids:
  assumes "length es = length (item_ids (rkq_candidates q))"
  shows "mset (map (\<lambda>s. ci_item_id (sc_candidate s)) (ranked_for log1p store q es)) = mset (item_ids (rkq_candidates q))"
proof -
  have "mset (map f (sort_by rank_higher_first xs)) = mset (map f xs)" for f :: "ScoredCandidate \<Rightarrow> uint64" and xs
    by (simp only: mset_map mset_sort_by)
  then show ?thesis
    using scored_items_ids [of es "HeuristicRanker_CreateTask store q None" log1p] assms
    by (simp only: ranked_for_scored)
qed

lemma orchestrator_answers:
  assumes "RetrievalOrchestrator_new stubs ratio = Inr this"
    "ComputeRetrieverMaxCandidateCount (rtq_max_candidate_count request) ratio \<noteq> None"
  shows "\<exists>answer. Orchestrator_Retrieve this guid request RetrieveResponse_default = Some answer"
proof (cases "0 < sint (rtq_user_id request) \<and> rtq_profile request \<noteq> None")
  case True
  then obtain profile n where "rtq_profile request = Some profile"
    "ComputeRetrieverMaxCandidateCount (rtq_max_candidate_count request) ratio = Some n"
    using assms(2) by blast
  from Orchestrator_answer [OF assms(1) conjunct1 [OF True] this refl, of guid] show ?thesis
    by (auto simp: Let_def split: if_splits)
next
  case False
  then show ?thesis by (auto simp: Orchestrator_Retrieve_def Let_def)
qed

section \<open>A recommendation is new to its user\<close>

text \<open>The two retrievers of the repository, over any similarity store with finite scores.\<close>

definition cf_retriever :: "retriever_stub \<Rightarrow> bool" where
  "cf_retriever f \<longleftrightarrow>
     (\<exists>store options this. RetrieverItemCf_new (Some store) options = Inr this \<and> finite_scores store \<and>
        ico_score_multiplier options \<noteq> NaN \<and> f = ItemCf_Retrieve this) \<or>
     (\<exists>store profiles options this guid. RetrieverUserCf_new (Some store) (Some profiles) options = Inr this \<and>
        finite_user_scores store \<and> uco_score_multiplier options \<noteq> NaN \<and> f = (\<lambda>q. UserCf_Retrieve this (guid q) q))"

lemma cf_retriever_new:
  assumes "cf_retriever f" "f q = (st, r)" "c \<in> set (rvs_candidates r)"
  shows "ci_item_id c \<notin> positive_ids (consumed_items (request_profile q))"
proof -
  have "good_candidates (positive_ids (consumed_items (request_profile q))) (rvs_candidates r)"
    using assms(1,2) unfolding cf_retriever_def by (auto dest!: ItemCf_candidates UserCf_candidates)
  with assms(3) show ?thesis by (simp add: good_candidates_def)
qed

text \<open>
  C2. From end to end, with the item-based and the user-based retriever behind the orchestrator:
  whatever the stores hold, answer or throw, as long as the similarity scores they hold are finite
  (\<open>cf_retriever\<close>), a recommendation has distinct items, at most as many as asked for, none of them 0,
  and none that the profile of the user says he has liked, rated, found interesting or rejected.
\<close>

theorem recommendations_are_new:
  assumes "RetrievalOrchestrator_new stubs ratio = Inr orchestrator"
    "\<forall>(name, stub) \<in> set stubs. \<exists>f. stub = Some f \<and> cf_retriever f"
    "RankingServiceImpl_new (Some store) [Some (heuristic_ranker log1p store)] HeuristicRanker_kName = Inr ranking_service"
    "ComputeRetrieverMaxCandidateCount (req_max_results request) ratio \<noteq> None"
    "Recommend (engine answers orchestrator guid ranking_service) guids request RecommendResponse_default = (st, resp)"
  shows "distinct (map ci_item_id (res_candidates resp)) \<and>
    length (res_candidates resp) \<le> nat (req_max_results request) \<and>
    (res_candidates resp = [] \<or>
     (\<exists>profile. answers (req_user_id request) = Inr (Some profile) \<and>
        (\<forall>c \<in> set (res_candidates resp). ci_item_id c \<noteq> 0 \<and> ci_item_id c \<notin> positive_ids (consumed_items profile))))"
proof (cases "st = StatusOK")
  case False
  have "st = grpc_of (res_status resp) (res_msg resp)" "res_status resp = SUCCESS \<or> res_candidates resp = []"
    using Recommend_agrees [of "engine answers orchestrator guid ranking_service" guids request]
    unfolding assms(5) by blast+
  with False have "res_candidates resp = []" by (cases "res_status resp") simp_all
  then show ?thesis by simp
next
  case True
  obtain guid1 guid2 guid3 where guids: "guids = (guid1, guid2, guid3)" by (cases guids)
  obtain profile retrieved es where profile: "answers (req_user_id request) = Inr (Some profile)"
    and orch: "the (Orchestrator_Retrieve orchestrator guid (retrieve_request guid2 request profile) RetrieveResponse_default) =
      (StatusOK, retrieved)"
    and es: "length es = length (item_ids (rts_candidates retrieved))"
    and resp: "res_candidates resp = map sc_candidate (take (nat (req_max_results request))
      (ranked_for log1p store (rank_request guid3 request profile retrieved) es))"
    using assms(5) unfolding True guids engine_success [OF assms(3)] Let_def by auto
  let ?rq = "retrieve_request guid2 request profile" and ?kq = "rank_request guid3 request profile retrieved"
  let ?ranked = "ranked_for log1p store ?kq es"
  have fields: "rtq_max_candidate_count ?rq = req_max_results request" "rtq_profile ?rq = Some profile"
    "rkq_candidates ?kq = rts_candidates retrieved"
    by (simp_all add: retrieve_request_def rank_request_def)
  obtain answer where "Orchestrator_Retrieve orchestrator guid ?rq RetrieveResponse_default = Some answer"
    using orchestrator_answers [OF assms(1), of ?rq guid] assms(4) fields by auto
  with orch have "Orchestrator_Retrieve orchestrator guid ?rq RetrieveResponse_default = Some (StatusOK, retrieved)" by simp
  note orchestrated = Orchestrator_candidates [OF assms(1) this]
  have new:
    "ci_item_id c \<noteq> 0 \<and> ci_item_id c \<notin> positive_ids (consumed_items profile)" if "c \<in> set (rts_candidates retrieved)" for c
  proof -
    from orchestrated that
    obtain name f q r c' where f: "ci_item_id c \<noteq> 0" "(name, Some f) \<in> set stubs" "rvq_profile q = Some profile"
      "f q = (StatusOK, r)" "ci_item_id c = ci_item_id c'" "c' \<in> set (rvs_candidates r)"
      unfolding fields by blast
    with assms(2) have "cf_retriever f" by auto
    from cf_retriever_new [OF this f(4,6)] f show ?thesis by (simp add: request_profile_def)
  qed
  have perm: "mset (map (\<lambda>s. ci_item_id (sc_candidate s)) ?ranked) = mset (item_ids (rts_candidates retrieved))"
    using ranked_ids [of es ?kq log1p store] es unfolding fields by simp
  then have "distinct (map (\<lambda>s. ci_item_id (sc_candidate s)) ?ranked)"
    "set (map (\<lambda>s. ci_item_id (sc_candidate s)) ?ranked) \<subseteq> ci_item_id ` set (rts_candidates retrieved)"
    using mset_eq_imp_distinct_iff [OF perm] mset_eq_setD [OF perm] by auto
  note ranked = this
  have sub: "ci_item_id ` set (res_candidates resp) \<subseteq> (\<lambda>s. ci_item_id (sc_candidate s)) ` set ?ranked"
    unfolding resp by (auto dest: in_set_takeD)
  have unique: "distinct (map ci_item_id (res_candidates resp))"
    using ranked(1) unfolding resp map_map comp_def by (simp add: take_map [symmetric] distinct_take)
  have known: "ci_item_id ` set (res_candidates resp) \<subseteq> ci_item_id ` set (rts_candidates retrieved)"
    using subset_trans [OF sub] ranked(2) by simp
  have "\<forall>c \<in> set (res_candidates resp). ci_item_id c \<noteq> 0 \<and> ci_item_id c \<notin> positive_ids (consumed_items profile)"
  proof
    fix c
    assume "c \<in> set (res_candidates resp)"
    then have "ci_item_id c \<in> ci_item_id ` set (rts_candidates retrieved)" using known by (blast intro: imageI)
    then obtain c' where "c' \<in> set (rts_candidates retrieved)" "ci_item_id c = ci_item_id c'" by (rule imageE)
    with new [of c'] show "ci_item_id c \<noteq> 0 \<and> ci_item_id c \<notin> positive_ids (consumed_items profile)" by (simp only: simp_thms)
  qed
  moreover have "length (res_candidates resp) \<le> nat (req_max_results request)" by (simp add: resp)
  ultimately show ?thesis using profile unique by (simp only: simp_thms) (rule disjI2, rule exI [of _ profile], simp only: simp_thms)
qed

section \<open>What a recommendation is\<close>

lemma item_ids_of_merged:
  assumes "ids = chosen_ids m cs"
  shows "item_ids (map (merged_candidate cs) ids) = ids"
    "i \<in> set ids \<Longrightarrow> merged_candidate (map (merged_candidate cs) ids) i = merged_candidate cs i"
proof -
  have id: "ci_item_id (merged_candidate cs i) = i" "NormalizeCandidate (merged_candidate cs i) = merged_candidate cs i"
    if "i \<in> set ids" for i
    using merged_candidate_chosen [of i m cs] that by (simp_all add: assms Normalize_consistent)
  have d: "distinct ids" "0 \<notin> set ids" using chosen_ids_props [of m cs] by (simp_all add: assms)
  have "map ci_item_id (map (merged_candidate cs) ids) = ids"
    unfolding map_map comp_def by (rule map_idI) (rule id(1))
  moreover have "filter (\<lambda>i. i \<noteq> 0) ids = ids" by (rule filter_True) (use d(2) in blast)
  moreover have "firsts ids = ids" using d(1) by (simp add: firsts_def distinct_remdups_id)
  ultimately show "item_ids (map (merged_candidate cs) ids) = ids" unfolding item_ids_def by (simp only:)
  assume i: "i \<in> set ids"
  have "filter (\<lambda>j. j = i) ids = [i]" using i d(1) by (induction ids) (auto simp: filter_empty_conv)
  moreover have "filter (\<lambda>c. ci_item_id c = i) (map (merged_candidate cs) ids) =
      map (merged_candidate cs) (filter (\<lambda>j. j = i) ids)"
  proof -
    have "filter (\<lambda>j. ci_item_id (merged_candidate cs j) = i) ids = filter (\<lambda>j. j = i) ids"
      by (rule filter_cong [OF refl]) (simp add: id(1))
    then show ?thesis unfolding filter_map comp_def by (rule arg_cong)
  qed
  ultimately show "merged_candidate (map (merged_candidate cs) ids) i = merged_candidate cs i"
    by (simp add: merged_candidate_def [of "map (merged_candidate cs) ids"] id(2) [OF i])
qed

lemma task_candidates_irrelevant:
  "ScoreCandidate log1p (HeuristicRanker_CreateTask store (rank_request guid request profile r) x) =
   ScoreCandidate log1p (HeuristicRanker_CreateTask store (rank_request guid request profile r') x)"
proof -
  let ?t = "HeuristicRanker_CreateTask store (rank_request guid request profile r) x"
  let ?t' = "HeuristicRanker_CreateTask store (rank_request guid request profile r') x"
  have weights: "ht_genre_weights ?t = ht_genre_weights ?t'" "ht_tag_weights ?t = ht_tag_weights ?t'"
    "ht_negative_genre_weights ?t = ht_negative_genre_weights ?t'" "ht_negative_tag_weights ?t = ht_negative_tag_weights ?t'"
    "ht_negative_item_weights ?t = ht_negative_item_weights ?t'"
    by (simp_all add: HeuristicRanker_CreateTask_def HeuristicRankTask_new_def rank_request_def Let_def)
  have "AddItemFactors log1p ?t = AddItemFactors log1p ?t'"
    by (intro ext) (simp only: AddItemFactors_def weights)
  then show ?thesis by (intro ext) (simp only: ScoreCandidate_def weights)
qed

text \<open>
  C1. What a user gets, from end to end, when everything answers: the candidates of the retrievers
  in the order of the rounds, each item merged from all its occurrences, the first ones up to the
  wanted number, scored against his profile and their entries of the item index, and returned best
  first.
\<close>

theorem recommend_end_to_end:
  assumes "RetrievalOrchestrator_new stubs ratio = Inr orchestrator"
    "RankingServiceImpl_new (Some store) [Some (heuristic_ranker log1p store)] HeuristicRanker_kName = Inr ranking_service"
    "0 < req_user_id request" "req_user_id request \<le> int_max" "0 < req_max_results request"
    "answers (req_user_id request) = Inr (Some profile)"
    "pf_user_id profile = 0 \<or> pf_user_id profile = of_int (req_user_id request)"
    "ComputeRetrieverMaxCandidateCount (req_max_results request) ratio = Some n"
    "cs = visited stubs \<lparr>rvq_trace_id = req_request_id request, rvq_request_id = guid,
       rvq_user_id = of_int (req_user_id request), rvq_profile = Some profile, rvq_max_candidate_count = n\<rparr>"
    "ids = chosen_ids (req_max_results request) cs" "ids \<noteq> []" "store ids = Inr es" "length es = length ids"
    "task = HeuristicRanker_CreateTask store (rank_request guid3 request profile RetrieveResponse_default) None"
    "scored = map (\<lambda>(i, e). ScoreCandidate log1p task (merged_candidate cs i) e) (zip ids es)"
    "\<forall>s \<in> set scored. sc_rank_score s \<noteq> NaN"
  shows "\<exists>best. mset best = mset scored \<and> sorted_wrt rank_higher_first best \<and>
    Recommend (engine answers orchestrator guid ranking_service) (guid1, guid2, guid3) request RecommendResponse_default =
      (StatusOK, \<lparr>res_status = SUCCESS, res_msg = [], res_candidates = map sc_candidate best\<rparr>)"
proof -
  let ?rq = "retrieve_request guid2 request profile"
  let ?retrieved = "\<lparr>rts_status = RETRIEVAL_SUCCESS, rts_msg = [], rts_candidate_count = int (length ids),
      rts_candidates = map (merged_candidate cs) ids\<rparr>"
  let ?kq = "rank_request guid3 request profile ?retrieved"
  have user: "sint (of_int (req_user_id request) :: int64) = req_user_id request"
    using assms(3,4) by (intro sint_int_range) (simp add: int_range_def int_max_def int_min_def)
  have rq: "0 < sint (rtq_user_id ?rq)" "rtq_profile ?rq = Some profile"
    "ComputeRetrieverMaxCandidateCount (rtq_max_candidate_count ?rq) ratio = Some n"
    using user assms(3,8) by (simp_all add: retrieve_request_def)
  have q: "\<lparr>rvq_trace_id = req_request_id request, rvq_request_id = guid, rvq_user_id = of_int (req_user_id request),
      rvq_profile = Some profile, rvq_max_candidate_count = n\<rparr> = retriever_request guid ?rq n"
    by (simp add: retriever_request_def retrieve_request_def)
  have "accepted_responses stubs (retriever_request guid ?rq n) \<noteq> []"
  proof
    assume "accepted_responses stubs (retriever_request guid ?rq n) = []"
    then have "cs = []" by (simp add: assms(9) q visited_def round_robin.simps)
    then show False using assms(10,11) by (simp add: chosen_ids_def firsts_def)
  qed
  then have orch: "Orchestrator_Retrieve orchestrator guid ?rq RetrieveResponse_default = Some (StatusOK, ?retrieved)"
    using Orchestrator_answer [OF assms(1) rq refl, of guid]
    by (simp add: Let_def assms(9,10) q retrieve_request_def)
  have kq: "valid_rank_request ?kq"
    using user assms(3,5,7) by (auto simp: valid_rank_request_def rank_request_def)
  note merged = item_ids_of_merged [OF assms(10)]
  have "scored_items log1p (HeuristicRanker_CreateTask store ?kq None) es = scored"
  proof -
    have "rkq_candidates (ht_request (HeuristicRanker_CreateTask store ?kq None)) = map (merged_candidate cs) ids"
      by (simp add: ranked_for_scored(2)) (simp add: rank_request_def)
    then show ?thesis
      unfolding scored_items_def Let_def assms(15) assms(14)
        task_candidates_irrelevant [of log1p store guid3 request profile ?retrieved None RetrieveResponse_default]
      using merged by (auto intro!: map_cong dest: set_zip_leftD)
  qed
  note scored = this
  let ?best = "ranked_for log1p store ?kq es"
  have len: "length es = length (item_ids (rkq_candidates (ht_request (HeuristicRanker_CreateTask store ?kq None))))"
    using merged(1) assms(13) by (simp add: ranked_for_scored(2)) (simp add: rank_request_def)
  have sorted: "sorted_wrt rank_higher_first ?best" "mset ?best = mset scored"
    using ranking_sorted [OF len, of log1p] assms(16) by (simp_all add: scored)
  have "length ?best = length ids"
    using arg_cong [OF sorted(2), of size] assms(13,15) by simp
  moreover have "length ids \<le> nat (req_max_results request)" using chosen_ids_props(3) assms(10) by blast
  ultimately have all: "take (nat (req_max_results request)) ?best = ?best" by simp
  have "Recommend (engine answers orchestrator guid ranking_service) (guid1, guid2, guid3) request RecommendResponse_default =
      (StatusOK, \<lparr>res_status = SUCCESS, res_msg = [], res_candidates = map sc_candidate ?best\<rparr>)"
    unfolding engine_success [OF assms(2)] Let_def
    by (rule exI [of _ profile], rule exI [of _ ?retrieved])
      (use orch kq assms(6,11,12,13) merged(1) all in \<open>simp\<close>)
  then show ?thesis using sorted by blast
qed

text \<open>A small engine: the item-based retriever over a store that relates item 7, which user 5 likes, to 9.\<close>

definition demo_cf_stub :: "(string \<times> retriever_stub option) list" where
  "demo_cf_stub = [(''item_cf'', Some (ItemCf_Retrieve demo_item_cf))]"

definition demo_answers :: "int \<Rightarrow> Profile option throws" where
  "demo_answers i = Inr (if i = 5 then Some demo_profile else None)"

definition demo_recommend_request :: RecommendRequest where
  "demo_recommend_request = \<lparr>req_trace_id = [], req_request_id = ''t'', req_user_id = 5, req_max_results = 3\<rparr>"

definition demo_index :: item_index_store where
  "demo_index ids = Inr (map (\<lambda>_. None) ids)"

lemma demo_engine:
  "RetrievalOrchestrator_new demo_cf_stub (Fin 1) =
     Inr \<lparr>or_retriever_stubs = demo_cf_stub, or_recall_candidate_expand_ratio = Fin 1\<rparr>"
  "\<exists>ranking_service. RankingServiceImpl_new (Some demo_index) [Some (heuristic_ranker (\<lambda>x. x) demo_index)]
      HeuristicRanker_kName = Inr ranking_service"
  "ComputeRetrieverMaxCandidateCount (req_max_results demo_recommend_request) (Fin 1) = Some 3"
  by (auto simp: RetrievalOrchestrator_new_def demo_cf_stub_def fle_def RankingServiceImpl_new_def RegisterRankers_def
      RegisterRanker_def RegisterDefaultRanker_def FindRanker_def heuristic_ranker_def HeuristicRanker_kName_def
      ComputeRetrieverMaxCandidateCount_def demo_recommend_request_def to_double_def int_max_def int_min_def float_eval)

theorem recommendations_are_new_witness:
  "\<exists>ranking_service st resp.
    Recommend (engine demo_answers \<lparr>or_retriever_stubs = demo_cf_stub, or_recall_candidate_expand_ratio = Fin 1\<rparr>
      ''r'' ranking_service) (''a'', ''b'', ''c'') demo_recommend_request RecommendResponse_default = (st, resp) \<and>
    length (res_candidates resp) \<le> 3 \<and> (\<forall>c \<in> set (res_candidates resp). ci_item_id c \<notin> {7, 8})"
proof -
  obtain ranking_service where service: "RankingServiceImpl_new (Some demo_index)
      [Some (heuristic_ranker (\<lambda>x. x) demo_index)] HeuristicRanker_kName = Inr ranking_service"
    using demo_engine(2) by blast
  obtain st resp where run: "Recommend (engine demo_answers \<lparr>or_retriever_stubs = demo_cf_stub,
      or_recall_candidate_expand_ratio = Fin 1\<rparr> ''r'' ranking_service) (''a'', ''b'', ''c'') demo_recommend_request
      RecommendResponse_default = (st, resp)" by fastforce
  have retrievers: "\<forall>(name, stub) \<in> set demo_cf_stub. \<exists>f. stub = Some f \<and> cf_retriever f"
    using demo_item_cf_new demo_item_finite
    by (auto simp: demo_cf_stub_def cf_retriever_def ItemCf_default_Options_def intro!: exI)
  have "positive_ids (consumed_items demo_profile) = {7, 8}"
    by (auto simp: positive_ids_def demo_consumed)
  then have "length (res_candidates resp) \<le> 3 \<and> (\<forall>c \<in> set (res_candidates resp). ci_item_id c \<notin> {7, 8})"
    using recommendations_are_new [OF demo_engine(1) retrievers service _ run] demo_engine(3)
    by (auto simp: demo_recommend_request_def demo_answers_def)
  then show ?thesis using run by blast
qed

lemma demo_visited_cf:
  "visited demo_cf_stub demo_request = [ItemCf_candidate (Fin 1)
     \<lparr>cs_item_id = 9, cs_score = Fin 1, cs_trigger_entity_id = 7, cs_trigger_score = Fin 2,
      cs_source_score = Fin (1 / 2), cs_reason_score = Fin 1\<rparr>]"
  by (simp add: visited_def accepted_responses_def demo_cf_stub_def FetchCandidatesFromRetriever_def demo_item_cf_run
      round_robin.simps)

theorem recommend_end_to_end_witness:
  "\<exists>ranking_service c.
    Recommend (engine demo_answers \<lparr>or_retriever_stubs = demo_cf_stub, or_recall_candidate_expand_ratio = Fin 1\<rparr>
      ''r'' ranking_service) (''a'', ''b'', ''c'') demo_recommend_request RecommendResponse_default =
      (StatusOK, \<lparr>res_status = SUCCESS, res_msg = [], res_candidates = [c]\<rparr>) \<and> ci_item_id c = 9"
proof -
  obtain ranking_service where service: "RankingServiceImpl_new (Some demo_index)
      [Some (heuristic_ranker (\<lambda>x. x) demo_index)] HeuristicRanker_kName = Inr ranking_service"
    using demo_engine(2) by blast
  let ?cs = "visited demo_cf_stub demo_request"
  let ?task = "HeuristicRanker_CreateTask demo_index (rank_request ''c'' demo_recommend_request demo_profile RetrieveResponse_default) None"
  let ?s = "ScoreCandidate (\<lambda>x. x) ?task (merged_candidate ?cs 9) None"
  have id: "ci_item_id (hd ?cs) = 9" by (simp add: demo_visited_cf ItemCf_candidate_def Let_def)
  have ids: "chosen_ids (req_max_results demo_recommend_request) ?cs = [9]"
    using id by (simp add: demo_visited_cf chosen_ids_def demo_recommend_request_def firsts_def)
  have merged: "merged_candidate ?cs 9 = NormalizeCandidate (hd ?cs)"
    using id by (simp add: demo_visited_cf merged_candidate_def)
  have score: "sc_rank_score ?s \<noteq> NaN"
    unfolding merged
    by (simp add: demo_visited_cf ItemCf_candidate_def ScoreCandidate_def AddFactor_def BuildScoreFactor_def Let_def
        HeuristicRanker_CreateTask_def HeuristicRankTask_new_def rank_request_def demo_profile_def Profile_default_def
        BuildNegativeItemWeights_def LookupItemWeight_def NormalizeCandidate_def EnsureRetrievalSignals_def float_eval)
  have q: "\<lparr>rvq_trace_id = req_request_id demo_recommend_request, rvq_request_id = ''r'',
      rvq_user_id = of_int (req_user_id demo_recommend_request), rvq_profile = Some demo_profile, rvq_max_candidate_count = 3\<rparr> = demo_request"
    by (simp add: demo_recommend_request_def demo_request_def)
  have "\<exists>best. mset best = mset [?s] \<and> sorted_wrt rank_higher_first best \<and>
    Recommend (engine demo_answers \<lparr>or_retriever_stubs = demo_cf_stub, or_recall_candidate_expand_ratio = Fin 1\<rparr>
      ''r'' ranking_service) (''a'', ''b'', ''c'') demo_recommend_request RecommendResponse_default =
      (StatusOK, \<lparr>res_status = SUCCESS, res_msg = [], res_candidates = map sc_candidate best\<rparr>)"
    by (rule recommend_end_to_end [OF demo_engine(1) service, where es = "[None]" and cs = ?cs and ids = "[9]" and
          task = ?task and profile = demo_profile and n = 3])
      (use score ids q demo_engine(3) in \<open>simp_all add: demo_recommend_request_def int_max_def demo_answers_def demo_profile_def demo_index_def\<close>)
  moreover have "ci_item_id (merged_candidate ?cs 9) = 9" using id by (simp add: merged)
  ultimately show ?thesis by (intro exI [of _ ranking_service] exI [of _ "merged_candidate ?cs 9"]) (auto simp: ScoreCandidate_factors(1))
qed

end
