(* ===== verification/RedisClient.thy ===== *)
theory RedisClient
  imports TextDouble
begin

text \<open>
  \<open>RedisClient\<close> (src/src/utilities/redis_client/redis_client.cpp): the checks of its configuration,
  the keys, and the commands with their retries. The redis library is an argument: the outcome of
  each attempt of a command, its answer or the exception it throws. Every command is the same loop
  around its own \<open>try\<close> block, so the loop is one function; it also counts the pauses between
  attempts, which are the only time the client spends outside the library.
\<close>

section \<open>Configuration\<close>

record RedisRetryConfig =
  rrc_max_attempts :: int
  rrc_delay :: int

record RedisConfig =
  rdc_host :: string
  rdc_port :: int
  rdc_db :: int
  rdc_user :: string
  rdc_password :: string
  rdc_keep_alive :: bool
  rdc_connect_timeout :: int
  rdc_socket_timeout :: int
  rdc_pool_size :: nat
  rdc_pool_wait_timeout :: int
  rdc_pool_connection_lifetime :: int
  rdc_pool_connection_idle_time :: int
  rdc_retry :: RedisRetryConfig

definition RedisRetryConfig_new :: RedisRetryConfig where
  "RedisRetryConfig_new = \<lparr>rrc_max_attempts = 2, rrc_delay = 10\<rparr>"

definition RedisConfig_new :: RedisConfig where
  "RedisConfig_new =
     \<lparr>rdc_host = ''localhost'', rdc_port = 6379, rdc_db = 0, rdc_user = [], rdc_password = [],
      rdc_keep_alive = True, rdc_connect_timeout = 100, rdc_socket_timeout = 100, rdc_pool_size = 4,
      rdc_pool_wait_timeout = 50, rdc_pool_connection_lifetime = 0, rdc_pool_connection_idle_time = 0,
      rdc_retry = RedisRetryConfig_new\<rparr>"

definition ValidateNonNegativeTimeout :: "string \<Rightarrow> int \<Rightarrow> unit throws" where
  "ValidateNonNegativeTimeout name v =
     (if v < 0 then Inl (InvalidArgument (name @ '' must not be negative'')) else Inr ())"

definition ValidateRedisConfig :: "RedisConfig \<Rightarrow> unit throws" where
  "ValidateRedisConfig config =
     (if rdc_host config = [] then Inl (InvalidArgument ''RedisClient host must not be empty'')
      else if rdc_port config \<le> 0 \<or> 65535 < rdc_port config
      then Inl (InvalidArgument ''RedisClient port must be between 1 and 65535'')
      else if rdc_db config < 0 then Inl (InvalidArgument ''RedisClient db must not be negative'')
      else if rdc_pool_size config = 0
      then Inl (InvalidArgument ''RedisClient pool_size must be greater than zero'')
      else if rrc_max_attempts (rdc_retry config) \<le> 0
      then Inl (InvalidArgument ''RedisClient retry.max_attempts must be greater than zero'')
      else
        bindE (ValidateNonNegativeTimeout ''RedisClient connect_timeout'' (rdc_connect_timeout config)) (\<lambda>_.
        bindE (ValidateNonNegativeTimeout ''RedisClient socket_timeout'' (rdc_socket_timeout config)) (\<lambda>_.
        bindE (ValidateNonNegativeTimeout ''RedisClient pool_wait_timeout'' (rdc_pool_wait_timeout config)) (\<lambda>_.
        bindE (ValidateNonNegativeTimeout ''RedisClient pool_connection_lifetime''
                 (rdc_pool_connection_lifetime config)) (\<lambda>_.
        bindE (ValidateNonNegativeTimeout ''RedisClient pool_connection_idle_time''
                 (rdc_pool_connection_idle_time config)) (\<lambda>_.
        ValidateNonNegativeTimeout ''RedisClient retry.delay'' (rrc_delay (rdc_retry config))))))))"

text \<open>The client keeps its configuration; the connections are the library's.\<close>

definition RedisClient_new :: "RedisConfig \<Rightarrow> RedisConfig throws" where
  "RedisClient_new config = bindE (ValidateRedisConfig config) (\<lambda>_. Inr config)"

section \<open>Status and results\<close>

datatype RedisErrorCode =
    kNone | kInvalidArgument | kIoError | kTimeout | kClosed | kReplyError | kProtocolError | kUnknown

record RedisStatus =
  rst_ok :: bool
  rst_error_code :: RedisErrorCode
  rst_error_message :: string
  rst_attempts :: int

definition RedisStatus_default :: RedisStatus where
  "RedisStatus_default = \<lparr>rst_ok = False, rst_error_code = kNone, rst_error_message = [], rst_attempts = 0\<rparr>"

text \<open>The results differ in what they carry beside the status.\<close>

record 'v RedisResult =
  rr_status :: RedisStatus
  rr_values :: 'v

record RedisScoredMember =
  rsm_member :: string
  rsm_score :: double

type_synonym RedisStringResult = "string option RedisResult"
type_synonym RedisStringListResult = "string option list RedisResult"
type_synonym RedisScoredMemberListResult = "RedisScoredMember list RedisResult"
type_synonym RedisScoredMemberListsResult = "RedisScoredMember list list RedisResult"

definition OkStatus :: "int \<Rightarrow> RedisStatus" where
  "OkStatus attempts = \<lparr>rst_ok = True, rst_error_code = kNone, rst_error_message = [], rst_attempts = attempts\<rparr>"

definition ErrorStatus :: "RedisErrorCode \<Rightarrow> string \<Rightarrow> int \<Rightarrow> RedisStatus" where
  "ErrorStatus code message attempts =
     \<lparr>rst_ok = False, rst_error_code = code, rst_error_message = message, rst_attempts = attempts\<rparr>"

definition IsRetryable :: "RedisErrorCode \<Rightarrow> bool" where
  "IsRetryable code \<longleftrightarrow> code = kIoError \<or> code = kTimeout \<or> code = kClosed"

text \<open>The exceptions of the library, by the first handler that takes them.\<close>

datatype redis_exception =
    TimeoutError string | ClosedError string | IoError string
  | ReplyError string | ProtoError string | RedisError string

fun StatusFromException :: "redis_exception \<Rightarrow> int \<Rightarrow> RedisStatus" where
  "StatusFromException (TimeoutError m) attempts = ErrorStatus kTimeout m attempts"
| "StatusFromException (ClosedError m) attempts = ErrorStatus kClosed m attempts"
| "StatusFromException (IoError m) attempts = ErrorStatus kIoError m attempts"
| "StatusFromException (ReplyError m) attempts = ErrorStatus kReplyError m attempts"
| "StatusFromException (ProtoError m) attempts = ErrorStatus kProtocolError m attempts"
| "StatusFromException (RedisError m) attempts = ErrorStatus kUnknown m attempts"

text \<open>The handlers of timeouts, closed connections and I/O errors go on; the others return.\<close>

fun handler_returns :: "redis_exception \<Rightarrow> bool" where
  "handler_returns (TimeoutError m) \<longleftrightarrow> False"
| "handler_returns (ClosedError m) \<longleftrightarrow> False"
| "handler_returns (IoError m) \<longleftrightarrow> False"
| "handler_returns _ \<longleftrightarrow> True"

definition Redis_ParseDouble :: "string \<Rightarrow> double option" where
  "Redis_ParseDouble v =
     (case from_chars_double v of
        (ptr, error, parsed) \<Rightarrow> if error \<noteq> Ok \<or> ptr \<noteq> [] then None else Some parsed)"

section \<open>The retry loop\<close>

text \<open>A \<open>try\<close> block: the result it leaves, and the exception that left it, if any.\<close>

type_synonym 'v try_block = "int \<Rightarrow> 'v RedisResult \<Rightarrow> 'v RedisResult \<times> redis_exception option"

function retry_loop ::
  "RedisRetryConfig \<Rightarrow> 'v try_block \<Rightarrow> int \<Rightarrow> 'v RedisResult \<Rightarrow> nat \<Rightarrow> 'v RedisResult \<times> nat" where
  "retry_loop retry block attempt result sleeps =
     (if rrc_max_attempts retry < attempt then (result, sleeps)
      else
        (case block attempt result of
           (result, None) \<Rightarrow> (result, sleeps)
         | (result, Some ex) \<Rightarrow>
             (let result = result\<lparr>rr_status := StatusFromException ex attempt\<rparr> in
              if handler_returns ex then (result, sleeps)
              else
                retry_loop retry block (attempt + 1) result
                  (if attempt < rrc_max_attempts retry \<and> IsRetryable (rst_error_code (rr_status result)) \<and>
                      0 < rrc_delay retry
                   then Suc sleeps else sleeps))))"
  by pat_completeness auto
termination
  by (relation "measure (\<lambda>(retry, block, attempt, result, sleeps). nat (rrc_max_attempts retry + 1 - attempt))") auto

declare retry_loop.simps [simp del]

section \<open>Keys and commands\<close>

definition BuildRedisKey :: "string \<Rightarrow> uint64 \<Rightarrow> string" where
  "BuildRedisKey key_prefix item_id =
     (let key = rev (dropWhile (\<lambda>c. c = CHR '':'') (rev key_prefix))
      in key @ [CHR '':''] @ show_nat (unat item_id))"

definition Redis_Ping :: "RedisConfig \<Rightarrow> (int \<Rightarrow> redis_exception + unit) \<Rightarrow> unit RedisResult \<times> nat" where
  "Redis_Ping config ping =
     retry_loop (rdc_retry config) (\<lambda>attempt result.
         case ping attempt of
           Inl ex \<Rightarrow> (result, Some ex)
         | Inr _ \<Rightarrow> (result\<lparr>rr_status := OkStatus attempt\<rparr>, None))
       1 \<lparr>rr_status = RedisStatus_default, rr_values = ()\<rparr> 0"

definition Redis_Get ::
  "RedisConfig \<Rightarrow> (int \<Rightarrow> string \<Rightarrow> redis_exception + string option) \<Rightarrow> string \<Rightarrow> RedisStringResult \<times> nat" where
  "Redis_Get config get key =
     retry_loop (rdc_retry config) (\<lambda>attempt result.
         case get attempt key of
           Inl ex \<Rightarrow> (result, Some ex)
         | Inr v \<Rightarrow> (result\<lparr>rr_values := v, rr_status := OkStatus attempt\<rparr>, None))
       1 \<lparr>rr_status = RedisStatus_default, rr_values = None\<rparr> 0"

definition Redis_MGet ::
  "RedisConfig \<Rightarrow> (int \<Rightarrow> string list \<Rightarrow> redis_exception + string option list) \<Rightarrow> string list \<Rightarrow>
     RedisStringListResult \<times> nat" where
  "Redis_MGet config mget keys =
     (if keys = [] then (\<lparr>rr_status = OkStatus 0, rr_values = []\<rparr>, 0)
      else
        retry_loop (rdc_retry config) (\<lambda>attempt result.
            let result = result\<lparr>rr_values := []\<rparr> in
            case mget attempt keys of
              Inl ex \<Rightarrow> (result, Some ex)
            | Inr vs \<Rightarrow> (result\<lparr>rr_values := rr_values result @ vs, rr_status := OkStatus attempt\<rparr>, None))
          1 \<lparr>rr_status = RedisStatus_default, rr_values = []\<rparr> 0)"

text \<open>The pairs of member and score: those before the first invalid score, and whether all were valid.\<close>

fun scored_pairs :: "string list \<Rightarrow> RedisScoredMember list \<times> bool" where
  "scored_pairs (m # s # raw_values) =
     (case Redis_ParseDouble s of
        None \<Rightarrow> ([], False)
      | Some score \<Rightarrow>
          (let (pairs, valid) = scored_pairs raw_values
           in (\<lparr>rsm_member = m, rsm_score = score\<rparr> # pairs, valid)))"
| "scored_pairs _ = ([], True)"

definition odd_values_error :: string where
  "odd_values_error = ''Redis ZREVRANGE WITHSCORES returned an odd number of values''"

definition invalid_score_error :: string where
  "invalid_score_error = ''Redis ZREVRANGE WITHSCORES returned an invalid score''"

definition ZRevRangeWithScores ::
  "RedisConfig \<Rightarrow> (int \<Rightarrow> string \<Rightarrow> int \<Rightarrow> int \<Rightarrow> redis_exception + string list) \<Rightarrow> string \<Rightarrow> int \<Rightarrow> int \<Rightarrow>
     RedisScoredMemberListResult \<times> nat" where
  "ZRevRangeWithScores config zrevrange key start stop =
     retry_loop (rdc_retry config) (\<lambda>attempt result.
         case zrevrange attempt key start stop of
           Inl ex \<Rightarrow> (result, Some ex)
         | Inr raw_values \<Rightarrow>
             if length raw_values mod 2 \<noteq> 0
             then (result\<lparr>rr_status := ErrorStatus kProtocolError odd_values_error attempt\<rparr>, None)
             else
               (let (pairs, valid) = scored_pairs raw_values;
                    result = result\<lparr>rr_values := pairs\<rparr>
                in if \<not> valid
                   then (result\<lparr>rr_status := ErrorStatus kProtocolError invalid_score_error attempt\<rparr>, None)
                   else (result\<lparr>rr_status := OkStatus attempt\<rparr>, None)))
       1 \<lparr>rr_status = RedisStatus_default, rr_values = []\<rparr> 0"

text \<open>The replies of a pipeline in order; reading one may throw, and an invalid one ends the command.\<close>

fun read_replies ::
  "(redis_exception + string list) list \<Rightarrow> int \<Rightarrow> RedisScoredMemberListsResult \<Rightarrow>
     RedisScoredMemberListsResult \<times> redis_exception option" where
  "read_replies [] attempt result = (result\<lparr>rr_status := OkStatus attempt\<rparr>, None)"
| "read_replies (reply # replies) attempt result =
     (case reply of
        Inl ex \<Rightarrow> (result, Some ex)
      | Inr raw_values \<Rightarrow>
          if length raw_values mod 2 \<noteq> 0
          then (result\<lparr>rr_status := ErrorStatus kProtocolError odd_values_error attempt\<rparr>, None)
          else
            (let (pairs, valid) = scored_pairs raw_values
             in if \<not> valid
                then (result\<lparr>rr_status := ErrorStatus kProtocolError invalid_score_error attempt\<rparr>, None)
                else read_replies replies attempt (result\<lparr>rr_values := rr_values result @ [pairs]\<rparr>)))"

definition BatchZRevRangeWithScores ::
  "RedisConfig \<Rightarrow> (int \<Rightarrow> string list \<Rightarrow> int \<Rightarrow> int \<Rightarrow> redis_exception + (redis_exception + string list) list) \<Rightarrow>
     string list \<Rightarrow> int \<Rightarrow> int \<Rightarrow> RedisScoredMemberListsResult \<times> nat" where
  "BatchZRevRangeWithScores config exec keys start stop =
     (if keys = [] then (\<lparr>rr_status = OkStatus 0, rr_values = []\<rparr>, 0)
      else
        retry_loop (rdc_retry config) (\<lambda>attempt result.
            case exec attempt keys start stop of
              Inl ex \<Rightarrow> (result, Some ex)
            | Inr replies \<Rightarrow>
                if length replies \<noteq> length keys
                then (result\<lparr>rr_status := ErrorStatus kProtocolError
                        ''Redis pipeline returned unexpected number of replies'' attempt\<rparr>, None)
                else read_replies replies attempt (result\<lparr>rr_values := []\<rparr>))
          1 \<lparr>rr_status = RedisStatus_default, rr_values = []\<rparr> 0)"

section \<open>Keys\<close>

text \<open>
  Keys of different items differ, and the colons at the end of the prefix do not matter.
\<close>

theorem redis_keys:
  "(BuildRedisKey key_prefix i = BuildRedisKey key_prefix j \<longleftrightarrow> i = j) \<and>
   BuildRedisKey (key_prefix @ replicate n (CHR '':'')) i = BuildRedisKey key_prefix i"
proof -
  have "dropWhile (\<lambda>c. c = CHR '':'') (replicate n (CHR '':'') @ cs) = dropWhile (\<lambda>c. c = CHR '':'') cs" for cs
    by (induction n) simp_all
  then show ?thesis by (auto simp: BuildRedisKey_def word_unat_eq_iff)
qed

section \<open>Retries\<close>

lemma handler_goes_on: "\<not> handler_returns ex \<Longrightarrow> IsRetryable (rst_error_code (StatusFromException ex k))"
  by (cases ex) (auto simp: IsRetryable_def ErrorStatus_def)

text \<open>
  The loop in terms of its attempts: it stops at the first one whose exception, if any, is not of the
  kind that is tried again, or at the last one allowed; before it there is one pause per attempt.
  \<open>keep\<close> is what the block preserves of the result when it is left by an exception.
\<close>

definition tried_again :: "redis_exception option \<Rightarrow> bool" where
  "tried_again out \<longleftrightarrow> (\<exists>ex. out = Some ex \<and> \<not> handler_returns ex)"

definition stops_at :: "(int \<Rightarrow> redis_exception option) \<Rightarrow> int \<Rightarrow> int \<Rightarrow> int \<Rightarrow> bool" where
  "stops_at out lo hi k \<longleftrightarrow>
     lo \<le> k \<and> k \<le> hi \<and> (\<forall>j. lo \<le> j \<and> j < k \<longrightarrow> tried_again (out j)) \<and> (k < hi \<longrightarrow> \<not> tried_again (out k))"

definition left_by :: "'v RedisResult \<times> redis_exception option \<Rightarrow> int \<Rightarrow> 'v RedisResult" where
  "left_by x k = (case snd x of None \<Rightarrow> fst x | Some ex \<Rightarrow> (fst x)\<lparr>rr_status := StatusFromException ex k\<rparr>)"

lemma retry_loop_past: "rrc_max_attempts retry < attempt \<Longrightarrow> retry_loop retry block attempt result sleeps = (result, sleeps)"
  by (subst retry_loop.simps) simp

lemma retry_loop_step:
  assumes "attempt \<le> rrc_max_attempts retry"
  shows "retry_loop retry block attempt result sleeps =
    (if tried_again (snd (block attempt result))
     then retry_loop retry block (attempt + 1) (left_by (block attempt result) attempt)
            (if attempt < rrc_max_attempts retry \<and> 0 < rrc_delay retry then Suc sleeps else sleeps)
     else (left_by (block attempt result) attempt, sleeps))"
proof (cases "block attempt result")
  case (Pair r out)
  show ?thesis
  proof (cases out)
    case None
    with Pair assms show ?thesis
      by (subst retry_loop.simps) (simp add: tried_again_def left_by_def)
  next
    case (Some ex)
    with Pair assms handler_goes_on [of ex attempt] show ?thesis
      by (subst retry_loop.simps) (simp add: tried_again_def left_by_def Let_def)
  qed
qed

lemma retry_loop_stops:
  assumes "attempt \<le> rrc_max_attempts retry" "keep result" "\<And>k r. snd (block k r) = out k"
    "\<And>k r ex. keep r \<Longrightarrow> out k = Some ex \<Longrightarrow> keep (left_by (block k r) k)"
  shows "\<exists>k r. stops_at out attempt (rrc_max_attempts retry) k \<and> keep r \<and>
    retry_loop retry block attempt result sleeps =
      (left_by (block k r) k, sleeps + (if 0 < rrc_delay retry then nat (k - attempt) else 0))"
  using assms(1,2)
proof (induction "nat (rrc_max_attempts retry - attempt)" arbitrary: attempt result sleeps)
  case 0
  then have last: "attempt = rrc_max_attempts retry" by simp
  have "retry_loop retry block attempt result sleeps = (left_by (block attempt result) attempt, sleeps)"
    using last by (simp add: retry_loop_step retry_loop_past)
  then show ?case
    using 0 last by (intro exI [of _ attempt] exI [of _ result]) (auto simp: stops_at_def)
next
  case (Suc n)
  show ?case
  proof (cases "tried_again (out attempt)")
    case False
    then have "retry_loop retry block attempt result sleeps = (left_by (block attempt result) attempt, sleeps)"
      using Suc.prems(1) by (simp add: retry_loop_step assms(3))
    then show ?thesis
      using False Suc.prems by (intro exI [of _ attempt] exI [of _ result]) (auto simp: stops_at_def)
  next
    case True
    then obtain ex where ex: "out attempt = Some ex" "\<not> handler_returns ex" by (auto simp: tried_again_def)
    let ?sleeps = "if 0 < rrc_delay retry then Suc sleeps else sleeps"
    have lt: "attempt < rrc_max_attempts retry" using Suc.hyps(2) by simp
    have "retry_loop retry block attempt result sleeps =
        retry_loop retry block (attempt + 1) (left_by (block attempt result) attempt) ?sleeps"
      using lt True by (simp add: retry_loop_step assms(3))
    moreover have "keep (left_by (block attempt result) attempt)" by (rule assms(4) [OF Suc.prems(2) ex(1)])
    moreover have "n = nat (rrc_max_attempts retry - (attempt + 1))" "attempt + 1 \<le> rrc_max_attempts retry"
      using Suc.hyps(2) lt by simp_all
    ultimately obtain k r where k: "stops_at out (attempt + 1) (rrc_max_attempts retry) k" "keep r"
      "retry_loop retry block attempt result sleeps =
        (left_by (block k r) k, ?sleeps + (if 0 < rrc_delay retry then nat (k - (attempt + 1)) else 0))"
      using Suc.hyps(1) [of "attempt + 1" "left_by (block attempt result) attempt" ?sleeps] by auto
    have "stops_at out attempt (rrc_max_attempts retry) k"
      using k(1) True unfolding stops_at_def by (metis (no_types, opaque_lifting) add1_zle_eq order_le_less zless_add1_eq)
    then show ?thesis using k by (intro exI [of _ k] exI [of _ r]) (auto simp: stops_at_def)
  qed
qed

lemma scored_pairs_valid:
  "even (length raw) \<Longrightarrow> scored_pairs raw = (pairs, True) \<longleftrightarrow>
     (\<forall>j < length raw div 2. Redis_ParseDouble (raw ! (2 * j + 1)) \<noteq> None) \<and>
     pairs = map (\<lambda>j. \<lparr>rsm_member = raw ! (2 * j), rsm_score = the (Redis_ParseDouble (raw ! (2 * j + 1)))\<rparr>)
       [0..<length raw div 2]"
proof (induction raw arbitrary: pairs rule: scored_pairs.induct)
  case (1 m s raw)
  have all: "(\<forall>j < Suc n. P j) \<longleftrightarrow> P 0 \<and> (\<forall>j < n. P (Suc j))" for n P by (metis less_Suc_eq_0_disj)
  have ints: "map f [0..<Suc n] = f 0 # map (\<lambda>j. f (Suc j)) [0..<n]" for f :: "nat \<Rightarrow> RedisScoredMember" and n
    by (simp add: upt_conv_Cons map_Suc_upt [symmetric] del: upt_Suc)
  show ?case
  proof (cases "Redis_ParseDouble s")
    case None
    then show ?thesis by (auto intro!: exI [of _ 0])
  next
    case (Some x)
    have half: "length (m # s # raw) div 2 = Suc (length raw div 2)" by simp
    obtain ps v where "scored_pairs raw = (ps, v)" by fastforce
    with Some 1 show ?thesis unfolding half all ints by auto
  qed
qed auto

text \<open>
  A range read with a valid configuration: it takes the answer of the first attempt that does not
  fail with a timeout, a closed connection or an I/O error, or that of the last one allowed, and says
  which attempt it was; it pauses once before each further attempt and not otherwise. The answer is
  OK with all members and their scores in order exactly when that attempt gave pairs with valid
  scores; an exception leaves no members.
\<close>

theorem redis_range_contract:
  assumes "RedisClient_new config = Inr client"
  shows "\<exists>k result pauses. ZRevRangeWithScores client zrevrange key start stop = (result, pauses) \<and>
    stops_at (\<lambda>j. case zrevrange j key start stop of Inl ex \<Rightarrow> Some ex | Inr _ \<Rightarrow> None) 1
      (rrc_max_attempts (rdc_retry config)) k \<and>
    rst_attempts (rr_status result) = k \<and>
    pauses = (if 0 < rrc_delay (rdc_retry config) then nat (k - 1) else 0) \<and>
    (case zrevrange k key start stop of
       Inl ex \<Rightarrow> rr_status result = StatusFromException ex k \<and> rr_values result = []
     | Inr raw \<Rightarrow>
         rst_ok (rr_status result) =
           (even (length raw) \<and> (\<forall>j < length raw div 2. Redis_ParseDouble (raw ! (2 * j + 1)) \<noteq> None)) \<and>
         (if rst_ok (rr_status result)
          then rr_values result =
            map (\<lambda>j. \<lparr>rsm_member = raw ! (2 * j), rsm_score = the (Redis_ParseDouble (raw ! (2 * j + 1)))\<rparr>)
              [0..<length raw div 2]
          else rst_error_code (rr_status result) = kProtocolError))"
proof -
  have client: "client = config" "1 \<le> rrc_max_attempts (rdc_retry config)"
    using assms by (auto simp: RedisClient_new_def ValidateRedisConfig_def split: if_splits)
  let ?out = "\<lambda>j. case zrevrange j key start stop of Inl ex \<Rightarrow> Some ex | Inr _ \<Rightarrow> None"
  define block :: "RedisScoredMember list try_block" where "block = (\<lambda>attempt result.
         case zrevrange attempt key start stop of
           Inl ex \<Rightarrow> (result, Some ex)
         | Inr raw_values \<Rightarrow>
             if length raw_values mod 2 \<noteq> 0
             then (result\<lparr>rr_status := ErrorStatus kProtocolError odd_values_error attempt\<rparr>, None)
             else
               (let (pairs, valid) = scored_pairs raw_values;
                    result = result\<lparr>rr_values := pairs\<rparr>
                in if \<not> valid
                   then (result\<lparr>rr_status := ErrorStatus kProtocolError invalid_score_error attempt\<rparr>, None)
                   else (result\<lparr>rr_status := OkStatus attempt\<rparr>, None)))"
  have "\<exists>k r. stops_at ?out 1 (rrc_max_attempts (rdc_retry config)) k \<and> rr_values r = [] \<and>
    retry_loop (rdc_retry config) block 1 \<lparr>rr_status = RedisStatus_default, rr_values = []\<rparr> 0 =
      (left_by (block k r) k, 0 + (if 0 < rrc_delay (rdc_retry config) then nat (k - 1) else 0))"
    by (rule retry_loop_stops [OF client(2)])
      (auto simp: block_def left_by_def Let_def case_prod_beta split: sum.splits)
  then obtain k r where k: "stops_at ?out 1 (rrc_max_attempts (rdc_retry config)) k" "rr_values r = []"
    and run: "ZRevRangeWithScores client zrevrange key start stop =
      (left_by (block k r) k, if 0 < rrc_delay (rdc_retry config) then nat (k - 1) else 0)"
    by (auto simp: ZRevRangeWithScores_def client block_def)
  have attempts: "rst_attempts (rr_status (left_by (block k r) k)) = k"
    by (auto simp: block_def left_by_def OkStatus_def ErrorStatus_def Let_def case_prod_beta
        split: sum.split) (metis StatusFromException.simps ErrorStatus_def RedisStatus.select_convs(4) redis_exception.exhaust)
  show ?thesis
  proof (cases "zrevrange k key start stop")
    case (Inl ex)
    then show ?thesis using k run attempts by (auto simp: block_def left_by_def)
  next
    case (Inr raw)
    obtain ps v where ps: "scored_pairs raw = (ps, v)" by fastforce
    have pairs: "even (length raw) \<Longrightarrow> v \<longleftrightarrow> (\<forall>j < length raw div 2. Redis_ParseDouble (raw ! (2 * j + 1)) \<noteq> None)"
      "even (length raw) \<Longrightarrow> v \<Longrightarrow> ps = map (\<lambda>j. \<lparr>rsm_member = raw ! (2 * j),
         rsm_score = the (Redis_ParseDouble (raw ! (2 * j + 1)))\<rparr>) [0..<length raw div 2]"
      using scored_pairs_valid [of raw ps] scored_pairs_valid [of raw "map (\<lambda>j. \<lparr>rsm_member = raw ! (2 * j),
         rsm_score = the (Redis_ParseDouble (raw ! (2 * j + 1)))\<rparr>) [0..<length raw div 2]"] ps by auto
    have "rst_ok (rr_status (left_by (block k r) k)) = (even (length raw) \<and> v)"
      "even (length raw) \<and> v \<Longrightarrow> rr_values (left_by (block k r) k) = ps"
      "\<not> (even (length raw) \<and> v) \<Longrightarrow> rst_error_code (rr_status (left_by (block k r) k)) = kProtocolError"
      by (auto simp: block_def left_by_def Inr ps OkStatus_def ErrorStatus_def Let_def even_iff_mod_2_eq_zero)
    then show ?thesis using k run attempts pairs Inr by auto
  qed
qed

theorem redis_range_contract_witness:
  "\<exists>k result. ZRevRangeWithScores RedisConfig_new
      (\<lambda>j _ _ _. if j = 1 then Inl (TimeoutError ''t'') else Inr []) ''k'' 0 9 = (result, 1) \<and>
    rst_attempts (rr_status result) = k \<and> k = 2"
proof -
  have new: "RedisClient_new RedisConfig_new = Inr RedisConfig_new"
    by (simp add: RedisClient_new_def ValidateRedisConfig_def ValidateNonNegativeTimeout_def RedisConfig_new_def
        RedisRetryConfig_new_def)
  have retry: "rrc_max_attempts (rdc_retry RedisConfig_new) = 2" "rrc_delay (rdc_retry RedisConfig_new) = 10"
    by (simp_all add: RedisConfig_new_def RedisRetryConfig_new_def)
  have k: "k = 2" if "stops_at (\<lambda>j. case if j = 1 then Inl (TimeoutError ''t'') else Inr ([] :: string list) of
      Inl ex \<Rightarrow> Some ex | Inr _ \<Rightarrow> None) 1 2 k" for k
  proof (rule ccontr)
    assume "k \<noteq> 2"
    with that have "k = 1" by (simp add: stops_at_def)
    with that show False by (simp add: stops_at_def tried_again_def)
  qed
  show ?thesis
    using redis_range_contract [OF new, of "\<lambda>j _ _ _. if j = 1 then Inl (TimeoutError ''t'') else Inr []" "''k''" 0 9]
    unfolding retry by (auto dest!: k)
qed

end
