(* ===== verification/SimilarityStores.thy ===== *)
theory SimilarityStores
  imports RedisClient JsonParser TextLines RetrieverItemCf RetrieverUserCf
begin

text \<open>
  The similarity stores of the retrievers (src/src/recommendation_engine/retrieval/retrievers): the
  line parser and the stores loaded from JSON lines, and the stores over Redis sorted sets, single
  and in one pipeline. The JSON text parser, the file system and Redis are arguments.
\<close>

section \<open>A line of a similarity file\<close>

record LocalFileSimilarityNeighbor =
  lsn_id :: uint64
  lsn_score :: float64

record LocalFileSimilarityRow =
  lsr_entity_id :: uint64
  lsr_neighbors :: "LocalFileSimilarityNeighbor list"

definition Similarity_RequiredField :: "fields \<Rightarrow> string \<Rightarrow> string \<Rightarrow> Value outcome" where
  "Similarity_RequiredField fs field_name context =
     (case map_of fs field_name of
        None \<Rightarrow> throw (context @ '' is missing field '' @ field_name)
      | Some v \<Rightarrow> return v)"

definition ParsePositiveUint64 :: "string \<Rightarrow> string \<Rightarrow> uint64 outcome" where
  "ParsePositiveUint64 v context =
     (case from_chars_unsigned (2 ^ 64) v of
        (ptr, error, parsed) \<Rightarrow>
          if error \<noteq> Ok \<or> ptr \<noteq> [] \<or> parsed = 0
          then throw (context @ '' contains invalid positive uint64: '' @ v)
          else return (of_nat parsed))"

fun ReadPositiveUint64 :: "Value \<Rightarrow> string \<Rightarrow> uint64 outcome" where
  "ReadPositiveUint64 (StringValue s) context = ParsePositiveUint64 s context"
| "ReadPositiveUint64 (NumberValue number) context =
     (if \<not> isfinite number \<or> fle number (Fin 0) \<or>
         flt (to_double 18446744073709551615) number \<or> \<not> feq (ffloor number) number
      then throw (context @ '' contains invalid positive uint64'')
      else map_option (\<lambda>i. Inr (of_int i)) (double_to 0 18446744073709551615 number))"
| "ReadPositiveUint64 _ context = throw (context @ '' must be a number or string'')"

text \<open>A JSON number is taken as it is; only a text is checked to be finite.\<close>

fun ReadDouble :: "Value \<Rightarrow> string \<Rightarrow> float64 outcome" where
  "ReadDouble (NumberValue number) context = return number"
| "ReadDouble (StringValue s) context =
     (case stod s of
        None \<Rightarrow> throw (context @ '' contains invalid double'')
      | Some (parsed, parsed_size) \<Rightarrow>
          if parsed_size = length s \<and> isfinite (double_value parsed) then return (double_value parsed)
          else throw (context @ '' contains invalid double''))"
| "ReadDouble _ context = throw (context @ '' contains invalid double'')"

definition parse_neighbor :: "string \<Rightarrow> string \<Rightarrow> nat \<Rightarrow> Value \<Rightarrow> LocalFileSimilarityNeighbor outcome" where
  "parse_neighbor neighbor_id_field context i neighbor_value =
     (case neighbor_value of
        StructValue fs \<Rightarrow>
          (let neighbor_context = context @ '' neighbor '' @ show_nat i in
           andThen (Similarity_RequiredField fs neighbor_id_field neighbor_context) (\<lambda>id_value.
           andThen (ReadPositiveUint64 id_value (neighbor_context @ ''.'' @ neighbor_id_field)) (\<lambda>id.
           andThen (Similarity_RequiredField fs ''score'' neighbor_context) (\<lambda>score_value.
           andThen (ReadDouble score_value (neighbor_context @ ''.score'')) (\<lambda>score.
           return \<lparr>lsn_id = id, lsn_score = score\<rparr>)))))
      | _ \<Rightarrow> throw (context @ '' neighbor '' @ show_nat i @ '' must be an object''))"

definition ParseNeighbors :: "Value \<Rightarrow> string \<Rightarrow> string \<Rightarrow> LocalFileSimilarityNeighbor list outcome" where
  "ParseNeighbors v neighbor_id_field context =
     (case v of
        ListValue values \<Rightarrow> read_each (parse_neighbor neighbor_id_field context) 0 values
      | _ \<Rightarrow> throw (context @ '' neighbors must be an array''))"

definition ParseLocalFileSimilarityJsonlLine ::
  "fields json_text \<Rightarrow> string \<Rightarrow> string \<Rightarrow> string \<Rightarrow> string \<Rightarrow> LocalFileSimilarityRow outcome" where
  "ParseLocalFileSimilarityJsonlLine to_object line entity_id_field neighbor_id_field context =
     (case to_object line of
        Inl status \<Rightarrow> throw (''ParseLocalFileSimilarityJsonlLine failed at '' @ context @ '': '' @ status)
      | Inr fs \<Rightarrow>
          andThen (Similarity_RequiredField fs entity_id_field context) (\<lambda>id_value.
          andThen (ReadPositiveUint64 id_value (context @ ''.'' @ entity_id_field)) (\<lambda>entity_id.
          andThen (Similarity_RequiredField fs ''neighbors'' context) (\<lambda>neighbors_value.
          andThen (ParseNeighbors neighbors_value neighbor_id_field context) (\<lambda>neighbors.
          return \<lparr>lsr_entity_id = entity_id, lsr_neighbors = neighbors\<rparr>)))))"

section \<open>Stores loaded from a file\<close>

definition ToItemNeighbors :: "LocalFileSimilarityNeighbor list \<Rightarrow> ItemNeighbor list" where
  "ToItemNeighbors parsed_neighbors =
     map (\<lambda>n. \<lparr>in_item_id = lsn_id n, in_score = lsn_score n\<rparr>) parsed_neighbors"

definition ToUserNeighbors :: "LocalFileSimilarityNeighbor list \<Rightarrow> UserNeighbor list" where
  "ToUserNeighbors parsed_neighbors =
     map (\<lambda>n. \<lparr>un_user_id = lsn_id n, un_score = lsn_score n\<rparr>) parsed_neighbors"

fun load_similarity_lines ::
  "fields json_text \<Rightarrow> string \<Rightarrow> (LocalFileSimilarityNeighbor list \<Rightarrow> 'n list) \<Rightarrow> string \<Rightarrow> nat \<Rightarrow> string list \<Rightarrow>
     (uint64 \<rightharpoonup> 'n list) \<Rightarrow> (uint64 \<rightharpoonup> 'n list) outcome" where
  "load_similarity_lines to_object id_field convert file_path line_number [] loaded = return loaded"
| "load_similarity_lines to_object id_field convert file_path line_number (line # lines) loaded =
     (let line_number = Suc line_number in
      if line = [] then load_similarity_lines to_object id_field convert file_path line_number lines loaded
      else
        andThen (ParseLocalFileSimilarityJsonlLine to_object line id_field id_field
            (file_path @ '':'' @ show_nat line_number)) (\<lambda>row.
          load_similarity_lines to_object id_field convert file_path line_number lines
            (loaded(lsr_entity_id row \<mapsto> convert (lsr_neighbors row)))))"

definition LocalFileItemSimilarityStore_new ::
  "fields json_text \<Rightarrow> (string \<Rightarrow> string option) \<Rightarrow> string \<Rightarrow> (uint64 \<rightharpoonup> ItemNeighbor list) outcome" where
  "LocalFileItemSimilarityStore_new to_object read_file file_path =
     (case read_file file_path of
        None \<Rightarrow> throw (''LocalFileItemSimilarityStore::LoadFromJsonlFile failed: cannot open file '' @ file_path)
      | Some content \<Rightarrow>
          load_similarity_lines to_object ''item_id'' ToItemNeighbors file_path 0 (getlines content) Map.empty)"

definition LocalFileUserSimilarityStore_new ::
  "fields json_text \<Rightarrow> (string \<Rightarrow> string option) \<Rightarrow> string \<Rightarrow> (uint64 \<rightharpoonup> UserNeighbor list) outcome" where
  "LocalFileUserSimilarityStore_new to_object read_file file_path =
     (case read_file file_path of
        None \<Rightarrow> throw (''LocalFileUserSimilarityStore::LoadFromJsonlFile failed: cannot open file '' @ file_path)
      | Some content \<Rightarrow>
          load_similarity_lines to_object ''user_id'' ToUserNeighbors file_path 0 (getlines content) Map.empty)"

definition LocalFile_FindNeighborsByItemId :: "(uint64 \<rightharpoonup> ItemNeighbor list) \<Rightarrow> uint64 \<Rightarrow> int \<Rightarrow> ItemNeighbor list throws" where
  "LocalFile_FindNeighborsByItemId neighbors_by_item_id item_id max_neighbor_count =
     (if item_id = 0 \<or> max_neighbor_count \<le> 0 then Inr []
      else
        (case neighbors_by_item_id item_id of
           None \<Rightarrow> Inr []
         | Some ns \<Rightarrow> Inr (take (min (length ns) (nat max_neighbor_count)) ns)))"

definition LocalFile_FindNeighborsByUserId :: "(uint64 \<rightharpoonup> UserNeighbor list) \<Rightarrow> uint64 \<Rightarrow> int \<Rightarrow> UserNeighbor list throws" where
  "LocalFile_FindNeighborsByUserId neighbors_by_user_id user_id max_neighbor_count =
     (if user_id = 0 \<or> max_neighbor_count \<le> 0 then Inr []
      else
        (case neighbors_by_user_id user_id of
           None \<Rightarrow> Inr []
         | Some ns \<Rightarrow> Inr (take (min (length ns) (nat max_neighbor_count)) ns)))"

text \<open>The batch lookup that \<open>ItemSimilarityStore\<close> gives to a store that has none of its own.\<close>

definition FindNeighborsByItemIds ::
  "(uint64 \<Rightarrow> int \<Rightarrow> ItemNeighbor list throws) \<Rightarrow> uint64 list \<Rightarrow> int \<Rightarrow> ItemNeighbor list list throws" where
  "FindNeighborsByItemIds find_one item_ids max_neighbor_count =
     mapE (\<lambda>item_id. find_one item_id max_neighbor_count) item_ids"

section \<open>Stores over Redis\<close>

type_synonym zrevrange_command = "int \<Rightarrow> string \<Rightarrow> int \<Rightarrow> int \<Rightarrow> redis_exception + string list"
type_synonym pipeline_command =
  "int \<Rightarrow> string list \<Rightarrow> int \<Rightarrow> int \<Rightarrow> redis_exception + (redis_exception + string list) list"

record RedisSimilarityStore =
  rss_client :: RedisConfig
  rss_key_prefix :: string

definition ParseItemId :: "string \<Rightarrow> uint64 option" where
  "ParseItemId v =
     (case from_chars_unsigned (2 ^ 64) v of
        (ptr, error, item_id) \<Rightarrow> if error \<noteq> Ok \<or> ptr \<noteq> [] \<or> item_id = 0 then None else Some (of_nat item_id))"

definition ParseUserId :: "string \<Rightarrow> uint64 option" where
  "ParseUserId v =
     (case from_chars_unsigned (2 ^ 64) v of
        (ptr, error, user_id) \<Rightarrow> if error \<noteq> Ok \<or> ptr \<noteq> [] \<or> user_id = 0 then None else Some (of_nat user_id))"

definition RedisItemSimilarityStore_new :: "RedisConfig \<Rightarrow> string \<Rightarrow> RedisSimilarityStore throws" where
  "RedisItemSimilarityStore_new client key_prefix =
     (if key_prefix = [] then Inl (InvalidArgument ''RedisItemSimilarityStore key_prefix must not be empty'')
      else Inr \<lparr>rss_client = client, rss_key_prefix = key_prefix\<rparr>)"

definition RedisUserSimilarityStore_new :: "RedisConfig \<Rightarrow> string \<Rightarrow> RedisSimilarityStore throws" where
  "RedisUserSimilarityStore_new client key_prefix =
     (if key_prefix = [] then Inl (InvalidArgument ''RedisUserSimilarityStore key_prefix must not be empty'')
      else Inr \<lparr>rss_client = client, rss_key_prefix = key_prefix\<rparr>)"

definition item_neighbors_of :: "string \<Rightarrow> RedisScoredMember list \<Rightarrow> ItemNeighbor list throws" where
  "item_neighbors_of key values =
     mapE (\<lambda>v.
       case ParseItemId (rsm_member v) of
         None \<Rightarrow> Inl (RuntimeError (''Redis item similarity key '' @ key @
                   '' contains invalid neighbor item id: '' @ rsm_member v))
       | Some neighbor_item_id \<Rightarrow> Inr \<lparr>in_item_id = neighbor_item_id, in_score = double_value (rsm_score v)\<rparr>) values"

definition user_neighbors_of :: "string \<Rightarrow> RedisScoredMember list \<Rightarrow> UserNeighbor list throws" where
  "user_neighbors_of key values =
     mapE (\<lambda>v.
       case ParseUserId (rsm_member v) of
         None \<Rightarrow> Inl (RuntimeError (''Redis user similarity key '' @ key @
                   '' contains invalid neighbor user id: '' @ rsm_member v))
       | Some neighbor_user_id \<Rightarrow> Inr \<lparr>un_user_id = neighbor_user_id, un_score = double_value (rsm_score v)\<rparr>) values"

definition Redis_FindNeighborsByItemId ::
  "RedisSimilarityStore \<Rightarrow> zrevrange_command \<Rightarrow> uint64 \<Rightarrow> int \<Rightarrow> ItemNeighbor list throws" where
  "Redis_FindNeighborsByItemId store zrevrange item_id max_neighbor_count =
     (if item_id = 0 \<or> max_neighbor_count \<le> 0 then Inr []
      else
        (let key = BuildRedisKey (rss_key_prefix store) item_id;
             result = fst (ZRevRangeWithScores (rss_client store) zrevrange key 0 (max_neighbor_count - 1))
         in if \<not> rst_ok (rr_status result)
            then Inl (RuntimeError (''Failed to fetch item similarity from Redis key '' @ key @ '' after '' @
                   show_int (rst_attempts (rr_status result)) @ '' attempt(s): '' @
                   rst_error_message (rr_status result)))
            else item_neighbors_of key (rr_values result)))"

definition Redis_FindNeighborsByUserId ::
  "RedisSimilarityStore \<Rightarrow> zrevrange_command \<Rightarrow> uint64 \<Rightarrow> int \<Rightarrow> UserNeighbor list throws" where
  "Redis_FindNeighborsByUserId store zrevrange user_id max_neighbor_count =
     (if user_id = 0 \<or> max_neighbor_count \<le> 0 then Inr []
      else
        (let key = BuildRedisKey (rss_key_prefix store) user_id;
             result = fst (ZRevRangeWithScores (rss_client store) zrevrange key 0 (max_neighbor_count - 1))
         in if \<not> rst_ok (rr_status result)
            then Inl (RuntimeError (''Failed to fetch user similarity from Redis key '' @ key @ '' after '' @
                   show_int (rst_attempts (rr_status result)) @ '' attempt(s): '' @
                   rst_error_message (rr_status result)))
            else user_neighbors_of key (rr_values result)))"

fun valid_item_indexes :: "nat \<Rightarrow> uint64 list \<Rightarrow> (nat \<times> uint64) list" where
  "valid_item_indexes i [] = []"
| "valid_item_indexes i (item_id # item_ids) =
     (if item_id = 0 then valid_item_indexes (Suc i) item_ids
      else (i, item_id) # valid_item_indexes (Suc i) item_ids)"

fun store_neighbors ::
  "(nat \<times> string) list \<Rightarrow> RedisScoredMember list list \<Rightarrow> ItemNeighbor list list \<Rightarrow> ItemNeighbor list list throws" where
  "store_neighbors ((i, key) # rest) (values # batch) neighbors_by_item_id =
     bindE (item_neighbors_of key values) (\<lambda>neighbors.
       store_neighbors rest batch (neighbors_by_item_id[i := neighbors]))"
| "store_neighbors _ _ neighbors_by_item_id = Inr neighbors_by_item_id"

definition Redis_FindNeighborsByItemIds ::
  "RedisSimilarityStore \<Rightarrow> pipeline_command \<Rightarrow> uint64 list \<Rightarrow> int \<Rightarrow> ItemNeighbor list list throws" where
  "Redis_FindNeighborsByItemIds store exec item_ids max_neighbor_count =
     (let neighbors_by_item_id = replicate (length item_ids) [] in
      if item_ids = [] \<or> max_neighbor_count \<le> 0 then Inr neighbors_by_item_id
      else
        (let valid = valid_item_indexes 0 item_ids;
             redis_keys = map (\<lambda>(_, item_id). BuildRedisKey (rss_key_prefix store) item_id) valid
         in if redis_keys = [] then Inr neighbors_by_item_id
            else
              (let batch_result = fst (BatchZRevRangeWithScores (rss_client store) exec redis_keys 0 (max_neighbor_count - 1))
               in if \<not> rst_ok (rr_status batch_result)
                  then Inl (RuntimeError (''Failed to fetch item similarity from Redis in batch after '' @
                         show_int (rst_attempts (rr_status batch_result)) @ '' attempt(s): '' @
                         rst_error_message (rr_status batch_result)))
                  else if length (rr_values batch_result) \<noteq> length valid
                  then Inl (RuntimeError ''Redis item similarity batch lookup returned mismatched result size'')
                  else store_neighbors (zip (map fst valid) redis_keys) (rr_values batch_result) neighbors_by_item_id)))"

section \<open>Ids of a similarity file\<close>

text \<open>
  Ids read from a similarity file are never 0: what is read is a positive decimal text or a
  positive integral number, and reading is undefined for the double \<open>2 ^ 64\<close> alone.
\<close>

theorem similarity_ids_positive:
  "(ReadPositiveUint64 v context = None \<longleftrightarrow> v = NumberValue (Fin (2 ^ 64))) \<and>
   ReadPositiveUint64 v context \<noteq> return 0 \<and>
   (w \<noteq> 0 \<longrightarrow> ReadPositiveUint64 (StringValue (show_nat (unat w))) context = return w)"
proof -
  have as_text: "w \<noteq> 0 \<Longrightarrow> ReadPositiveUint64 (StringValue (show_nat (unat w))) context = return w"
    using unsigned_less [of w, where 'a = nat]
    by (simp add: ParsePositiveUint64_def from_chars_unsigned_show return_def unat_eq_zero)
  show ?thesis
  proof (cases v)
    case (NumberValue x)
    show ?thesis
    proof (cases "\<exists>n. x = Fin (of_int n)")
      case True
      then obtain n where n: "x = Fin (of_int n)" by blast
      have "(rat_of_int n = 2 ^ 64) = (n = 2 ^ 64)"
        using of_int_eq_iff [of n "2 ^ 64", where 'a = rat] by simp
      moreover have "(18446744073709551616 :: rat) < of_int n \<longleftrightarrow> 18446744073709551616 < n"
        by (metis of_int_less_iff of_int_numeral)
      moreover have "rat_of_int n < 0 \<longleftrightarrow> n < 0" "rat_of_int n = 0 \<longleftrightarrow> n = 0" by simp_all
      moreover have "(of_int n :: uint64) \<noteq> 0" if "0 < n" "n < 2 ^ 64"
        using that by (simp add: word_of_int_eq_0_iff zdvd_not_zless)
      ultimately show ?thesis
        using as_text by (auto simp: NumberValue n json_limits Let_def throw_def return_def fle_def)
    next
      case False
      then have "x \<noteq> Fin (of_int (2 ^ 64))" by blast
      then have "x \<noteq> Fin (2 ^ 64)" by simp
      moreover have "\<not> isfinite x \<or> \<not> feq (ffloor x) x"
        using False by (cases x) (auto simp: integral_rat)
      ultimately show ?thesis using as_text by (auto simp: NumberValue throw_def return_def)
    qed
  next
    case (StringValue s)
    have "parsed < 2 ^ 64" if "from_chars_unsigned (2 ^ 64) s = (r, Ok, parsed)" for r parsed
      using that by (auto simp: from_chars_unsigned.simps Let_def split: if_splits)
    then have "of_nat parsed \<noteq> (0 :: uint64)" if "from_chars_unsigned (2 ^ 64) s = (r, Ok, parsed)" "parsed \<noteq> 0" for r parsed
      using that by (fastforce simp: word_of_nat_eq_0_iff dest: nat_dvd_not_less)
    then show ?thesis
      using as_text by (auto simp: StringValue ParsePositiveUint64_def throw_def return_def split: prod.splits)
  qed (use as_text in \<open>auto simp: throw_def return_def\<close>)
qed

theorem similarity_ids_positive_witness:
  "ReadPositiveUint64 (StringValue ''7'') ''c'' = return 7"
proof -
  have "show_nat 7 = ''7''" by code_simp
  then show ?thesis using similarity_ids_positive [of NullValue "''c''" 7] by simp
qed

section \<open>A file of similarities\<close>

text \<open>The row that a line describes, wherever it stands.\<close>

definition describes_row :: "fields json_text \<Rightarrow> string \<Rightarrow> string \<Rightarrow> LocalFileSimilarityRow \<Rightarrow> bool" where
  "describes_row to_object id_field line row \<longleftrightarrow>
     (\<forall>context. ParseLocalFileSimilarityJsonlLine to_object line id_field id_field context = return row)"

lemma load_similarity_lines_describes:
  assumes "list_all2 (describes_row to_object id_field) (filter (\<lambda>l. l \<noteq> []) lines) rows"
  shows "load_similarity_lines to_object id_field convert path n lines m =
    return (m ++ map_of (map (\<lambda>r. (lsr_entity_id r, convert (lsr_neighbors r))) (rev rows)))"
  using assms
proof (induction lines arbitrary: n m rows)
  case (Cons l lines)
  show ?case
  proof (cases "l = []")
    case True
    with Cons show ?thesis by (simp add: Let_def)
  next
    case False
    with Cons.prems obtain r rs where rows: "rows = r # rs" "describes_row to_object id_field l r"
      "list_all2 (describes_row to_object id_field) (filter (\<lambda>l. l \<noteq> []) lines) rs"
      by (auto simp: list_all2_Cons1)
    have upd: "m(i \<mapsto> x) ++ f = m ++ ((\<lambda>_. None)(i \<mapsto> x) ++ f)" for i x and f :: "uint64 \<rightharpoonup> 'a list"
      by (simp only: map_add_assoc map_add_upd map_add_empty)
    let ?i = "lsr_entity_id r" and ?x = "convert (lsr_neighbors r)"
    let ?f = "map_of (map (\<lambda>r. (lsr_entity_id r, convert (lsr_neighbors r))) (rev rs))"
    have "load_similarity_lines to_object id_field convert path n (l # lines) m = return (m(?i \<mapsto> ?x) ++ ?f)"
      using False rows(2) Cons.IH [OF rows(3)] by (simp add: Let_def describes_row_def fun_upd_def)
    also have "m(?i \<mapsto> ?x) ++ ?f = m ++ map_of (map (\<lambda>r. (lsr_entity_id r, convert (lsr_neighbors r))) (rev rows))"
      unfolding upd rows(1) by simp
    finally show ?thesis .
  qed
qed simp

lemma map_of_rev_find:
  "map_of (map (\<lambda>r. (f r, g r)) rows) i = map_option g (find (\<lambda>r. f r = i) rows)"
  by (induction rows) auto

text \<open>The first neighbours, at most \<open>k\<close>, of the last row of an id.\<close>

definition first_neighbors :: "LocalFileSimilarityRow list \<Rightarrow> uint64 \<Rightarrow> int \<Rightarrow> LocalFileSimilarityNeighbor list" where
  "first_neighbors rows i k =
     (if i = 0 then []
      else
        (case find (\<lambda>r. lsr_entity_id r = i) (rev rows) of
           None \<Rightarrow> []
         | Some r \<Rightarrow> take (nat k) (lsr_neighbors r)))"

text \<open>
  A similarity file whose non-empty lines describe rows is a store that answers an id with the
  first neighbours, as many as asked for, of the last row of that id, and any other id with none; the
  item store and the user store do this alike.
\<close>

theorem similarity_file_lookup:
  assumes "read_file item_path = Some item_content" "read_file user_path = Some user_content"
    "list_all2 (describes_row to_object ''item_id'') (filter (\<lambda>l. l \<noteq> []) (getlines item_content)) item_rows"
    "list_all2 (describes_row to_object ''user_id'') (filter (\<lambda>l. l \<noteq> []) (getlines user_content)) user_rows"
  shows "\<exists>items users.
    LocalFileItemSimilarityStore_new to_object read_file item_path = return items \<and>
    LocalFileUserSimilarityStore_new to_object read_file user_path = return users \<and>
    LocalFile_FindNeighborsByItemId items i k = Inr (ToItemNeighbors (first_neighbors item_rows i k)) \<and>
    LocalFile_FindNeighborsByUserId users j k = Inr (ToUserNeighbors (first_neighbors user_rows j k))"
proof -
  let ?items = "map_of (map (\<lambda>r. (lsr_entity_id r, ToItemNeighbors (lsr_neighbors r))) (rev item_rows))"
  let ?users = "map_of (map (\<lambda>r. (lsr_entity_id r, ToUserNeighbors (lsr_neighbors r))) (rev user_rows))"
  have "LocalFileItemSimilarityStore_new to_object read_file item_path = return ?items"
    "LocalFileUserSimilarityStore_new to_object read_file user_path = return ?users"
    using assms(1,2) load_similarity_lines_describes [OF assms(3), of ToItemNeighbors item_path 0 Map.empty]
      load_similarity_lines_describes [OF assms(4), of ToUserNeighbors user_path 0 Map.empty]
    by (simp_all add: LocalFileItemSimilarityStore_new_def LocalFileUserSimilarityStore_new_def)
  moreover have "LocalFile_FindNeighborsByItemId ?items i k = Inr (ToItemNeighbors (first_neighbors item_rows i k))"
    unfolding LocalFile_FindNeighborsByItemId_def map_of_rev_find ToItemNeighbors_def first_neighbors_def
    by (simp add: take_map min_def split: option.split)
  moreover have "LocalFile_FindNeighborsByUserId ?users j k = Inr (ToUserNeighbors (first_neighbors user_rows j k))"
    unfolding LocalFile_FindNeighborsByUserId_def map_of_rev_find ToUserNeighbors_def first_neighbors_def
    by (simp add: take_map min_def split: option.split)
  ultimately show ?thesis by blast
qed

text \<open>A line of a file, for both kinds of store: entity 7 with the neighbours 9 and 4.\<close>

definition demo_row :: LocalFileSimilarityRow where
  "demo_row = \<lparr>lsr_entity_id = 7, lsr_neighbors = [\<lparr>lsn_id = 9, lsn_score = Fin 2\<rparr>, \<lparr>lsn_id = 4, lsn_score = Fin 1\<rparr>]\<rparr>"

definition demo_row_fields :: fields where
  "demo_row_fields =
     (let neighbor = (\<lambda>i s. StructValue [(''item_id'', StringValue i), (''user_id'', StringValue i), (''score'', NumberValue s)])
      in [(''item_id'', StringValue ''7''), (''user_id'', StringValue ''7''),
          (''neighbors'', ListValue [neighbor ''9'' (Fin 2), neighbor ''4'' (Fin 1)])])"

lemma demo_row_described:
  assumes "id_field \<in> {''item_id'', ''user_id''}"
  shows "describes_row (\<lambda>_. Inr demo_row_fields) id_field line demo_row"
proof -
  have digits: "from_chars_unsigned (2 ^ 64) ''7'' = ([], Ok, 7)" "from_chars_unsigned (2 ^ 64) ''9'' = ([], Ok, 9)"
    "from_chars_unsigned (2 ^ 64) ''4'' = ([], Ok, 4)"
    by (simp_all add: from_chars_unsigned.simps is_digit_def digits_val_def digit_val_def)
  show ?thesis
    using assms digits
    by (auto simp: describes_row_def ParseLocalFileSimilarityJsonlLine_def Similarity_RequiredField_def demo_row_fields_def
        demo_row_def ParseNeighbors_def parse_neighbor_def ParsePositiveUint64_def Let_def)
qed

theorem similarity_file_lookup_witness:
  "\<exists>items. LocalFileItemSimilarityStore_new (\<lambda>_. Inr demo_row_fields) (\<lambda>_. Some ''x'') ''p'' = return items \<and>
    LocalFile_FindNeighborsByItemId items 7 1 = Inr [\<lparr>in_item_id = 9, in_score = Fin 2\<rparr>]"
proof -
  have lines: "filter (\<lambda>l. l \<noteq> []) (getlines ''x'') = [''x'']"
    by (simp add: getlines_last newline_def)
  have "list_all2 (describes_row (\<lambda>_. Inr demo_row_fields) ''item_id'') (filter (\<lambda>l. l \<noteq> []) (getlines ''x'')) [demo_row]"
    "list_all2 (describes_row (\<lambda>_. Inr demo_row_fields) ''user_id'') (filter (\<lambda>l. l \<noteq> []) (getlines ''x'')) [demo_row]"
    unfolding lines by (simp_all add: demo_row_described)
  from similarity_file_lookup [of "\<lambda>_. Some ''x''" "''p''" _ "''p''", OF _ _ this, where i = 7 and k = 1]
  show ?thesis by (auto simp: demo_row_def ToItemNeighbors_def first_neighbors_def)
qed

lemma mapE_cong: "(\<And>x. x \<in> set xs \<Longrightarrow> f x = g x) \<Longrightarrow> mapE f xs = mapE g xs"
  by (induction xs) simp_all

section \<open>The pipeline and the single lookups\<close>

text \<open>What the client makes of the values of one key; \<open>None\<close> when it refuses them.\<close>

definition decode_values :: "string list \<Rightarrow> RedisScoredMember list option" where
  "decode_values raw = (if odd (length raw) \<or> \<not> snd (scored_pairs raw) then None else Some (fst (scored_pairs raw)))"

lemma ZRevRange_answered:
  assumes "1 \<le> rrc_max_attempts (rdc_retry client)"
  shows "(case decode_values raw of
      None \<Rightarrow> \<not> rst_ok (rr_status (fst (ZRevRangeWithScores client (\<lambda>_ _ _ _. Inr raw) key a b)))
    | Some vs \<Rightarrow> fst (ZRevRangeWithScores client (\<lambda>_ _ _ _. Inr raw) key a b) = \<lparr>rr_status = OkStatus 1, rr_values = vs\<rparr>)"
  using assms
  by (auto simp: ZRevRangeWithScores_def retry_loop_step decode_values_def tried_again_def left_by_def Let_def
      case_prod_beta ErrorStatus_def even_iff_mod_2_eq_zero split: option.split)

lemma ZRevRange_pointwise:
  "ZRevRangeWithScores client (\<lambda>_ key a b. Inr (raw key a b)) key a b =
     ZRevRangeWithScores client (\<lambda>_ _ _ _. Inr (raw key a b)) key a b"
  by (simp add: ZRevRangeWithScores_def)

lemma read_replies_decodes:
  "decode_values r = Some ps \<Longrightarrow>
     read_replies (Inr r # rs) k result = read_replies rs k (result\<lparr>rr_values := rr_values result @ [ps]\<rparr>)"
  by (auto simp: decode_values_def case_prod_beta even_iff_mod_2_eq_zero split: if_splits)

lemma read_replies_refuses:
  "decode_values r = None \<Longrightarrow>
     \<exists>result'. read_replies (Inr r # rs) k result = (result', None) \<and> \<not> rst_ok (rr_status result')"
  by (auto simp: decode_values_def case_prod_beta ErrorStatus_def even_iff_mod_2_eq_zero split: if_splits)

lemma read_replies_all:
  "\<forall>r \<in> set raws. decode_values r \<noteq> None \<Longrightarrow>
     read_replies (map Inr raws) k result =
       (result\<lparr>rr_values := rr_values result @ map (\<lambda>r. the (decode_values r)) raws, rr_status := OkStatus k\<rparr>, None)"
proof (induction raws arbitrary: result)
  case (Cons r raws)
  then obtain ps where "decode_values r = Some ps" by auto
  with Cons show ?case by (simp add: read_replies_decodes del: read_replies.simps(2))
qed simp

lemma read_replies_some:
  "\<exists>r \<in> set raws. decode_values r = None \<Longrightarrow>
     \<exists>result'. read_replies (map Inr raws) k result = (result', None) \<and> \<not> rst_ok (rr_status result')"
proof (induction raws arbitrary: result)
  case (Cons r raws)
  show ?case
  proof (cases "decode_values r")
    case None
    then show ?thesis using read_replies_refuses [of r "map Inr raws" k result] by simp
  next
    case (Some ps)
    with Cons show ?thesis by (simp add: read_replies_decodes del: read_replies.simps(2))
  qed
qed simp

lemma Batch_answered:
  assumes "1 \<le> rrc_max_attempts (rdc_retry client)" "keys \<noteq> []"
  shows "if \<exists>key \<in> set keys. decode_values (raw key) = None
    then \<not> rst_ok (rr_status (fst (BatchZRevRangeWithScores client (\<lambda>_ keys a b. Inr (map (\<lambda>key. Inr (raw key)) keys)) keys a b)))
    else fst (BatchZRevRangeWithScores client (\<lambda>_ keys a b. Inr (map (\<lambda>key. Inr (raw key)) keys)) keys a b) =
      \<lparr>rr_status = OkStatus 1, rr_values = map (\<lambda>key. the (decode_values (raw key))) keys\<rparr>"
proof -
  let ?r0 = "\<lparr>rr_status = RedisStatus_default, rr_values = []\<rparr> :: RedisScoredMemberListsResult"
  let ?block = "\<lambda>attempt result. read_replies (map Inr (map raw keys)) attempt (result\<lparr>rr_values := []\<rparr>)"
  have run: "BatchZRevRangeWithScores client (\<lambda>_ keys a b. Inr (map (\<lambda>key. Inr (raw key)) keys)) keys a b =
      retry_loop (rdc_retry client) ?block 1 ?r0 0"
    using assms(2) by (simp add: BatchZRevRangeWithScores_def comp_def)
  have once: "fst (retry_loop (rdc_retry client) ?block 1 ?r0 0) = fst (?block 1 ?r0)" if "snd (?block 1 ?r0) = None"
    using that assms(1) by (simp add: retry_loop_step tried_again_def left_by_def del: map_map)
  show ?thesis
  proof (cases "\<exists>key \<in> set keys. decode_values (raw key) = None")
    case True
    then have "\<exists>r \<in> set (map raw keys). decode_values r = None" by simp
    then obtain result' where "?block 1 ?r0 = (result', None)" "\<not> rst_ok (rr_status result')"
      using read_replies_some by blast
    then show ?thesis using True once unfolding run by (simp del: map_map)
  next
    case False
    then have "\<forall>r \<in> set (map raw keys). decode_values r \<noteq> None" by simp
    from read_replies_all [OF this, of 1 "?r0\<lparr>rr_values := []\<rparr>"]
    have "?block 1 ?r0 = (\<lparr>rr_status = OkStatus 1, rr_values = map (\<lambda>key. the (decode_values (raw key))) keys\<rparr>, None)"
      by (simp add: comp_def)
    with once have "fst (retry_loop (rdc_retry client) ?block 1 ?r0 0) =
        \<lparr>rr_status = OkStatus 1, rr_values = map (\<lambda>key. the (decode_values (raw key))) keys\<rparr>"
      by (simp only: fst_conv snd_conv)
    then show ?thesis using False unfolding run by (simp only: if_False)
  qed
qed

lemma store_neighbors_aligned:
  assumes "length before = i"
  shows "store_neighbors (zip (map fst (valid_item_indexes i ids)) (map (\<lambda>(_, id). key id) (valid_item_indexes i ids)))
      (map (\<lambda>(_, id). vals (key id)) (valid_item_indexes i ids)) (before @ replicate (length ids) []) =
    bindE (mapE (\<lambda>id. if id = 0 then Inr [] else item_neighbors_of (key id) (vals (key id))) ids)
      (\<lambda>r. Inr (before @ r))"
  using assms
proof (induction ids arbitrary: i before)
  case (Cons id ids)
  show ?case
  proof (cases "id = 0")
    case True
    then show ?thesis
      using Cons.IH [of "before @ [[]]" "Suc i"] Cons.prems
      by (cases "mapE (\<lambda>id. if id = 0 then Inr [] else item_neighbors_of (key id) (vals (key id))) ids") simp_all
  next
    case False
    show ?thesis
    proof (cases "item_neighbors_of (key id) (vals (key id))")
      case (Inr ns)
      then have "(before @ replicate (length (id # ids)) [])[i := ns] = (before @ [ns]) @ replicate (length ids) []"
        using Cons.prems by (simp add: list_update_append)
      then show ?thesis
        using False Inr Cons.IH [of "before @ [ns]" "Suc i"] Cons.prems
        by (cases "mapE (\<lambda>id. if id = 0 then Inr [] else item_neighbors_of (key id) (vals (key id))) ids") simp_all
    qed (use False in simp)
  qed
qed simp

lemma set_valid_item_indexes: "snd ` set (valid_item_indexes i ids) = set ids - {0}"
  by (induction ids arbitrary: i) auto

text \<open>
  C17. One pipeline instead of many lookups changes nothing: when Redis answers, the batch lookup of
  a list of ids gives, id by id, what the single lookups give, ids that are 0 included, and it fails
  exactly when one of them fails.
\<close>

theorem redis_batch_equals_single:
  assumes "RedisClient_new config = Inr client" "RedisItemSimilarityStore_new client key_prefix = Inr store"
  shows "Redis_FindNeighborsByItemIds store (\<lambda>_ keys a b. Inr (map (\<lambda>key. Inr (raw key a b)) keys)) item_ids k = Inr r \<longleftrightarrow>
    FindNeighborsByItemIds (Redis_FindNeighborsByItemId store (\<lambda>_ key a b. Inr (raw key a b))) item_ids k = Inr r"
proof -
  have store: "rss_client store = client" "1 \<le> rrc_max_attempts (rdc_retry client)"
    using assms by (auto simp: RedisItemSimilarityStore_new_def RedisClient_new_def ValidateRedisConfig_def split: if_splits)
  let ?key = "BuildRedisKey (rss_key_prefix store)"
  let ?raw = "\<lambda>key. raw key 0 (k - 1)"
  let ?valid = "valid_item_indexes 0 item_ids"
  let ?keys = "map (\<lambda>(_, item_id). ?key item_id) ?valid"
  let ?one = "\<lambda>id. if id = 0 then Inr [] else item_neighbors_of (?key id) (the (decode_values (?raw (?key id))))"
  have keys: "set ?keys = ?key ` (set item_ids - {0})"
    unfolding set_valid_item_indexes [of 0 item_ids, symmetric] by (simp add: image_image case_prod_beta)
  have single: "Redis_FindNeighborsByItemId store (\<lambda>_ key a b. Inr (raw key a b)) 0 k = Inr []"
    "id \<noteq> 0 \<Longrightarrow> decode_values (?raw (?key id)) = Some vs \<Longrightarrow>
      Redis_FindNeighborsByItemId store (\<lambda>_ key a b. Inr (raw key a b)) id k = item_neighbors_of (?key id) vs"
    "id \<noteq> 0 \<Longrightarrow> decode_values (?raw (?key id)) = None \<Longrightarrow>
      \<exists>e. Redis_FindNeighborsByItemId store (\<lambda>_ key a b. Inr (raw key a b)) id k = Inl e" if "0 < k" for id vs
    using that ZRevRange_answered [OF store(2), of "?raw (?key id)" "?key id" 0 "k - 1"]
    by (auto simp: Redis_FindNeighborsByItemId_def ZRevRange_pointwise [of client raw] store Let_def OkStatus_def)
  have pointwise: "BatchZRevRangeWithScores client (\<lambda>_ keys a b. Inr (map (\<lambda>key. Inr (raw key a b)) keys)) ?keys 0 (k - 1) =
      BatchZRevRangeWithScores client (\<lambda>_ keys a b. Inr (map (\<lambda>key. Inr (?raw key)) keys)) ?keys 0 (k - 1)"
    by (simp add: BatchZRevRangeWithScores_def)
  show ?thesis
  proof (cases "k \<le> 0 \<or> item_ids = []")
    case True
    have "mapE (\<lambda>id. Inr []) item_ids = Inr (map (\<lambda>_. []) item_ids)" by (rule mapE_total) simp
    then show ?thesis
      using True by (auto simp: Redis_FindNeighborsByItemIds_def FindNeighborsByItemIds_def
          Redis_FindNeighborsByItemId_def map_replicate_const)
  next
    case False
    then have k: "0 < k" "item_ids \<noteq> []" by auto
    show ?thesis
    proof (cases "\<exists>key \<in> set ?keys. decode_values (?raw key) = None")
      case True
      then obtain id where id: "id \<in> set item_ids" "id \<noteq> 0" "decode_values (?raw (?key id)) = None"
        unfolding keys by blast
      then obtain e where "Redis_FindNeighborsByItemId store (\<lambda>_ key a b. Inr (raw key a b)) id k = Inl e"
        using single(3) [OF k(1)] by blast
      then have "\<nexists>r. FindNeighborsByItemIds (Redis_FindNeighborsByItemId store (\<lambda>_ key a b. Inr (raw key a b))) item_ids k = Inr r"
        using id(1) by (auto simp: FindNeighborsByItemIds_def mapE_Inr_iff list_all2_conv_all_nth in_set_conv_nth)
      moreover have "?keys \<noteq> []" using True by auto
      moreover have "\<not> rst_ok (rr_status (fst (BatchZRevRangeWithScores client
          (\<lambda>_ keys a b. Inr (map (\<lambda>key. Inr (raw key a b)) keys)) ?keys 0 (k - 1))))"
        using Batch_answered [OF store(2) \<open>?keys \<noteq> []\<close>, of ?raw 0 "k - 1"] True unfolding pointwise by (simp only: if_True not_False_eq_True)
      ultimately show ?thesis
        using k by (simp add: Redis_FindNeighborsByItemIds_def store Let_def)
    next
      case False
      then have ok: "\<forall>id \<in> set item_ids - {0}. decode_values (?raw (?key id)) \<noteq> None" unfolding keys by simp
      have "FindNeighborsByItemIds (Redis_FindNeighborsByItemId store (\<lambda>_ key a b. Inr (raw key a b))) item_ids k = mapE ?one item_ids"
        unfolding FindNeighborsByItemIds_def
        using ok single(1,2) [OF k(1)] by (intro mapE_cong) auto
      moreover have "Redis_FindNeighborsByItemIds store (\<lambda>_ keys a b. Inr (map (\<lambda>key. Inr (raw key a b)) keys)) item_ids k = mapE ?one item_ids"
      proof (cases "?keys = []")
        case True
        then have "set item_ids - {0} = {}" using keys by simp
        then have "mapE ?one item_ids = Inr (map (\<lambda>_. []) item_ids)" by (intro mapE_total) auto
        with True k show ?thesis by (simp add: Redis_FindNeighborsByItemIds_def Let_def map_replicate_const)
      next
        case nonempty: False
        have batch: "fst (BatchZRevRangeWithScores client (\<lambda>_ keys a b. Inr (map (\<lambda>key. Inr (raw key a b)) keys)) ?keys 0 (k - 1)) =
            \<lparr>rr_status = OkStatus 1, rr_values = map (\<lambda>key. the (decode_values (?raw key))) ?keys\<rparr>"
          using False Batch_answered [OF store(2) nonempty, of ?raw 0 "k - 1"] unfolding pointwise by (simp only: if_False)
        have "store_neighbors (zip (map fst ?valid) ?keys) (map (\<lambda>key. the (decode_values (?raw key))) ?keys) (replicate (length item_ids) []) =
            mapE ?one item_ids"
        proof -
          have "map (\<lambda>key. the (decode_values (?raw key))) ?keys = map (\<lambda>(_, id). the (decode_values (?raw (?key id)))) ?valid"
            by (simp add: comp_def case_prod_beta)
          moreover have "bindE m (\<lambda>r. Inr ([] @ r)) = m" for m :: "ItemNeighbor list list throws" by (cases m) simp_all
          ultimately show ?thesis
            using store_neighbors_aligned [of "[]" 0 item_ids ?key "\<lambda>key. the (decode_values (?raw key))"]
            by (simp del: map_map)
        qed
        with nonempty k batch show ?thesis
          by (simp add: Redis_FindNeighborsByItemIds_def Let_def store OkStatus_def)
      qed
      ultimately show ?thesis by simp
    qed
  qed
qed

theorem redis_batch_equals_single_witness:
  "\<exists>store. RedisItemSimilarityStore_new RedisConfig_new ''sim'' = Inr store \<and>
    Redis_FindNeighborsByItemIds store (\<lambda>_ keys a b. Inr (map (\<lambda>key. Inr []) keys)) [7, 0] 5 = Inr [[], []]"
proof -
  let ?store = "\<lparr>rss_client = RedisConfig_new, rss_key_prefix = ''sim''\<rparr>"
  have new: "RedisClient_new RedisConfig_new = Inr RedisConfig_new"
    by (simp add: RedisClient_new_def ValidateRedisConfig_def ValidateNonNegativeTimeout_def RedisConfig_new_def
        RedisRetryConfig_new_def)
  have store: "RedisItemSimilarityStore_new RedisConfig_new ''sim'' = Inr ?store"
    by (simp add: RedisItemSimilarityStore_new_def)
  have "FindNeighborsByItemIds (Redis_FindNeighborsByItemId ?store (\<lambda>_ key a b. Inr [])) [7, 0] 5 = Inr [[], []]"
    by (simp add: FindNeighborsByItemIds_def Redis_FindNeighborsByItemId_def ZRevRangeWithScores_def retry_loop_step
        RedisConfig_new_def RedisRetryConfig_new_def tried_again_def left_by_def OkStatus_def item_neighbors_of_def Let_def)
  with redis_batch_equals_single [OF new store, of "\<lambda>_ _ _. []" "[7, 0]" 5] store show ?thesis by blast
qed

end
