(* ===== verification/ResourcePools.thy ===== *)
theory ResourcePools
  imports Prelude
begin

text \<open>
  src/src/utilities/resource_pool/resource_pool.h and the pool of curl handles built on it,
  src/src/utilities/http_client/curl_handle_pool.cpp. A pool and the leases on its resources are one
  state; threads interleave at the pool's mutex, so a step is one operation run under it. The resources
  are the objects the factory returned; the lemmas show that no two leases hold the same one and that
  none is lost.
\<close>

section \<open>The pool\<close>

record PoolConfig =
  pc_pool_size :: nat
  pc_acquire_timeout :: int

definition PoolConfig_default :: PoolConfig where
  "PoolConfig_default = \<lparr>pc_pool_size = 4, pc_acquire_timeout = 1000\<rparr>"

record 'r ResourcePool =
  rp_config :: PoolConfig
  rp_resources :: "'r list"
  rp_available :: "'r list"

text \<open>The constructor's loop; the i-th call of the factory returns a resource, null, or throws.\<close>

fun create_resources :: "(nat \<Rightarrow> 'r option throws) \<Rightarrow> nat list \<Rightarrow> 'r list \<Rightarrow> 'r list throws" where
  "create_resources factory [] made = Inr made"
| "create_resources factory (i # is) made =
     (case factory i of
        Inl e \<Rightarrow> Inl e
      | Inr None \<Rightarrow> Inl (RuntimeError ''ResourcePool factory returned null resource'')
      | Inr (Some r) \<Rightarrow> create_resources factory is (made @ [r]))"

definition ResourcePool_create :: "PoolConfig \<Rightarrow> (nat \<Rightarrow> 'r option throws) option \<Rightarrow> 'r ResourcePool throws" where
  "ResourcePool_create config factory =
     (if pc_pool_size config = 0 then Inl (InvalidArgument ''ResourcePool pool_size must be greater than zero'')
      else
        (case factory of
           None \<Rightarrow> Inl (InvalidArgument ''ResourcePool factory must not be empty'')
         | Some produce \<Rightarrow>
             (case create_resources produce [0..<pc_pool_size config] [] of
                Inl e \<Rightarrow> Inl e
              | Inr rs \<Rightarrow> Inr \<lparr>rp_config = config, rp_resources = rs, rp_available = rs\<rparr>)))"

definition ResourcePool_default :: "(nat \<Rightarrow> 'r option throws) option \<Rightarrow> 'r ResourcePool throws" where
  "ResourcePool_default factory = ResourcePool_create PoolConfig_default factory"

definition pool_size :: "'r ResourcePool \<Rightarrow> nat" where
  "pool_size pool = length (rp_resources pool)"

definition pool_available :: "'r ResourcePool \<Rightarrow> nat" where
  "pool_available pool = length (rp_available pool)"

section \<open>Leases\<close>

record 'r Lease =
  pl_pool :: bool
  pl_resource :: "'r option"

definition Lease_empty :: "'r Lease" where
  "Lease_empty = \<lparr>pl_pool = False, pl_resource = None\<rparr>"

definition Lease_of :: "'r \<Rightarrow> 'r Lease" where
  "Lease_of r = \<lparr>pl_pool = True, pl_resource = Some r\<rparr>"

text \<open>
  \<open>Acquire\<close> at the moment its wait ends: the predicate holds, or the timeout has passed and it still
  does not.
\<close>

definition Pool_Acquire :: "'r ResourcePool \<Rightarrow> 'r Lease option \<times> 'r ResourcePool" where
  "Pool_Acquire pool =
     (if rp_available pool = [] then (None, pool)
      else (Some (Lease_of (last (rp_available pool))), pool\<lparr>rp_available := butlast (rp_available pool)\<rparr>))"

definition Pool_Release :: "'r \<Rightarrow> 'r ResourcePool \<Rightarrow> 'r ResourcePool" where
  "Pool_Release r pool =
     (if r \<in> set (rp_available pool) then pool else pool\<lparr>rp_available := rp_available pool @ [r]\<rparr>)"

definition Lease_Release :: "'r Lease \<Rightarrow> 'r ResourcePool \<Rightarrow> 'r Lease \<times> 'r ResourcePool" where
  "Lease_Release lease pool =
     (case pl_resource lease of
        None \<Rightarrow> (lease, pool)
      | Some r \<Rightarrow> if pl_pool lease then (Lease_empty, Pool_Release r pool) else (lease, pool))"

text \<open>The move constructor returns the new lease and what it leaves behind.\<close>

definition Lease_move :: "'r Lease \<Rightarrow> 'r Lease \<times> 'r Lease" where
  "Lease_move other =
     (\<lparr>pl_pool = pl_pool other, pl_resource = pl_resource other\<rparr>,
      other\<lparr>pl_pool := False, pl_resource := None\<rparr>)"

section \<open>Steps of the pool and its leases\<close>

record 'r PoolState =
  ps_pool :: "'r ResourcePool"
  ps_leases :: "nat \<rightharpoonup> 'r Lease"

text \<open>Move assignment between two leases of the state; \<open>this != &other\<close> is that their names differ.\<close>

definition Lease_assign :: "nat \<Rightarrow> nat \<Rightarrow> 'r PoolState \<Rightarrow> 'r PoolState" where
  "Lease_assign i j s =
     (if i = j then s
      else
        (case (ps_leases s i, ps_leases s j) of
           (Some this, Some other) \<Rightarrow>
             (let pool = snd (Lease_Release this (ps_pool s));
                  (moved, left) = Lease_move other
              in \<lparr>ps_pool = pool, ps_leases = (ps_leases s)(i \<mapsto> moved, j \<mapsto> left)\<rparr>)
         | _ \<Rightarrow> s))"

definition Lease_destroy :: "nat \<Rightarrow> 'r PoolState \<Rightarrow> 'r PoolState" where
  "Lease_destroy i s =
     (case ps_leases s i of
        None \<Rightarrow> s
      | Some lease \<Rightarrow>
          \<lparr>ps_pool = snd (Lease_Release lease (ps_pool s)), ps_leases = (ps_leases s)(i := None)\<rparr>)"

inductive pool_step :: "'r PoolState \<Rightarrow> 'r PoolState \<Rightarrow> bool" where
  acquired: "\<lbrakk>Pool_Acquire (ps_pool s) = (Some lease, pool); ps_leases s i = None\<rbrakk> \<Longrightarrow>
    pool_step s \<lparr>ps_pool = pool, ps_leases = (ps_leases s)(i \<mapsto> lease)\<rparr>"
| timed_out: "Pool_Acquire (ps_pool s) = (None, pool) \<Longrightarrow> pool_step s (s\<lparr>ps_pool := pool\<rparr>)"
| declared: "ps_leases s i = None \<Longrightarrow> pool_step s (s\<lparr>ps_leases := (ps_leases s)(i \<mapsto> Lease_empty)\<rparr>)"
| moved: "\<lbrakk>ps_leases s j = Some other; ps_leases s i = None; Lease_move other = (moved, left)\<rbrakk> \<Longrightarrow>
    pool_step s (s\<lparr>ps_leases := (ps_leases s)(i \<mapsto> moved, j \<mapsto> left)\<rparr>)"
| assigned: "\<lbrakk>ps_leases s i = Some this; ps_leases s j = Some other\<rbrakk> \<Longrightarrow> pool_step s (Lease_assign i j s)"
| destroyed: "ps_leases s i = Some lease \<Longrightarrow> pool_step s (Lease_destroy i s)"

inductive pool_reachable :: "'r PoolState \<Rightarrow> 'r PoolState \<Rightarrow> bool" for s0 where
  start: "pool_reachable s0 s0"
| step: "\<lbrakk>pool_reachable s0 s; pool_step s t\<rbrakk> \<Longrightarrow> pool_reachable s0 t"

definition fresh_pool :: "'r ResourcePool \<Rightarrow> 'r PoolState" where
  "fresh_pool pool = \<lparr>ps_pool = pool, ps_leases = Map.empty\<rparr>"

section \<open>Every resource has one owner\<close>

definition held :: "'r PoolState \<Rightarrow> nat \<rightharpoonup> 'r" where
  "held s i = Option.bind (ps_leases s i) pl_resource"

text \<open>
  The resources \<open>rs\<close> are the available ones and the ones held, each once and held by one lease.
\<close>

definition owned_once :: "'r list \<Rightarrow> (nat \<rightharpoonup> 'r) \<Rightarrow> 'r set \<Rightarrow> bool" where
  "owned_once free H rs \<longleftrightarrow>
     distinct free \<and> set free \<union> ran H = rs \<and> set free \<inter> ran H = {} \<and>
     (\<forall>i j r. H i = Some r \<longrightarrow> H j = Some r \<longrightarrow> i = j)"

definition pool_inv :: "'r set \<Rightarrow> 'r PoolState \<Rightarrow> bool" where
  "pool_inv rs s \<longleftrightarrow>
     (\<forall>i lease. ps_leases s i = Some lease \<longrightarrow> (pl_pool lease \<longleftrightarrow> pl_resource lease \<noteq> None)) \<and>
     owned_once (rp_available (ps_pool s)) (held s) rs \<and>
     finite (dom (ps_leases s))"

lemma owned_once_take:
  assumes "owned_once free H rs" "free \<noteq> []" "H i = None"
  shows "owned_once (butlast free) (H(i \<mapsto> last free)) rs"
proof -
  obtain fs r where free: "free = fs @ [r]" using assms(2) by (cases free rule: rev_cases) auto
  have ran: "ran (H(i \<mapsto> r)) = insert r (ran H)" using assms(3) by simp
  have "r \<notin> ran H" using assms(1) free by (auto simp: owned_once_def)
  then show ?thesis
    using assms(1,3) unfolding free by (auto simp: owned_once_def ran ranI)
qed

lemma ran_remove:
  assumes "\<forall>i j r. H i = Some r \<longrightarrow> H j = Some r \<longrightarrow> i = j" "H i = Some r"
  shows "ran (H(i := None)) = ran H - {r}"
proof (rule set_eqI)
  fix x
  have "x \<in> ran (H(i := None)) \<longleftrightarrow> (\<exists>k. k \<noteq> i \<and> H k = Some x)" by (simp add: ran_def) blast
  also have "\<dots> \<longleftrightarrow> x \<in> ran H \<and> x \<noteq> r" using assms by (simp add: ran_def) (metis option.inject)
  finally show "x \<in> ran (H(i := None)) \<longleftrightarrow> x \<in> ran H - {r}" by simp
qed

lemma owned_once_give:
  assumes "owned_once free H rs" "H i = Some r"
  shows "r \<notin> set free" "owned_once (free @ [r]) (H(i := None)) rs"
proof -
  have r: "r \<in> ran H" using assms(2) by (rule ranI)
  have own: "distinct free" "set free \<union> ran H = rs" "set free \<inter> ran H = {}"
    and inj: "\<forall>i j r. H i = Some r \<longrightarrow> H j = Some r \<longrightarrow> i = j"
    using assms(1) unfolding owned_once_def by blast+
  show notin: "r \<notin> set free" using own(3) r by blast
  have ran: "ran (H(i := None)) = ran H - {r}" by (rule ran_remove [OF inj assms(2)])
  have "\<forall>k j r. (H(i := None)) k = Some r \<longrightarrow> (H(i := None)) j = Some r \<longrightarrow> k = j"
    using inj by simp
  moreover have "distinct (free @ [r])" using own(1) notin by simp
  moreover have "set (free @ [r]) \<union> (ran H - {r}) = rs" "set (free @ [r]) \<inter> (ran H - {r}) = {}"
    using own(2,3) r by auto
  ultimately show "owned_once (free @ [r]) (H(i := None)) rs"
    unfolding owned_once_def ran by blast
qed

lemma owned_once_move:
  assumes "owned_once free H rs" "H i = None" "i \<noteq> j"
  shows "owned_once free (H(i := H j, j := None)) rs"
proof -
  let ?from = "\<lambda>k. if k = i then j else k"
  have own: "distinct free" "set free \<union> ran H = rs" "set free \<inter> ran H = {}"
    and inj: "H k = Some r \<Longrightarrow> H l = Some r \<Longrightarrow> k = l" for k l r
    using assms(1) unfolding owned_once_def by blast+
  have at: "(H(i := H j, j := None)) k = Some r \<longleftrightarrow> k \<noteq> j \<and> H (?from k) = Some r" for k r
    using assms(3) by simp
  have "x \<in> ran (H(i := H j, j := None)) \<longleftrightarrow> x \<in> ran H" for x
  proof
    assume "x \<in> ran (H(i := H j, j := None))"
    then obtain k where "(H(i := H j, j := None)) k = Some x" unfolding ran_def by blast
    then show "x \<in> ran H" unfolding at using ranI by fast
  next
    assume "x \<in> ran H"
    then obtain k where k: "H k = Some x" unfolding ran_def by blast
    then have "k \<noteq> i" using assms(2) by auto
    then have "(H(i := H j, j := None)) (if k = j then i else k) = Some x"
      unfolding at using k assms(3) by (cases "k = j") auto
    then show "x \<in> ran (H(i := H j, j := None))" by (rule ranI)
  qed
  then have ran: "ran (H(i := H j, j := None)) = ran H" by blast
  have "k = l" if "(H(i := H j, j := None)) k = Some r" "(H(i := H j, j := None)) l = Some r" for k l r
  proof -
    note k = at [THEN iffD1, OF that(1)] and l = at [THEN iffD1, OF that(2)]
    have "?from k = ?from l" by (rule inj [OF conjunct2 [OF k] conjunct2 [OF l]])
    then show ?thesis using conjunct1 [OF k] conjunct1 [OF l] by (auto split: if_split_asm)
  qed
  with own show ?thesis unfolding owned_once_def ran by blast
qed

lemma held_set: "held \<lparr>ps_pool = p, ps_leases = L\<rparr> = (\<lambda>i. Option.bind (L i) pl_resource)"
  by (simp add: held_def fun_eq_iff)

lemma pool_inv_initial:
  assumes "distinct (rp_available pool)"
  shows "pool_inv (set (rp_available pool)) (fresh_pool pool)"
proof -
  have "held (fresh_pool pool) = Map.empty" by (simp add: fun_eq_iff held_def fresh_pool_def)
  with assms show ?thesis by (simp add: pool_inv_def fresh_pool_def owned_once_def)
qed

text \<open>Giving the resource of lease \<open>i\<close> back.\<close>

lemma Lease_Release_owned:
  assumes "pool_inv rs s" "ps_leases s i = Some lease"
  shows "owned_once (rp_available (snd (Lease_Release lease (ps_pool s)))) ((held s)(i := None)) rs"
    "rp_resources (snd (Lease_Release lease (ps_pool s))) = rp_resources (ps_pool s)"
proof -
  have own: "owned_once (rp_available (ps_pool s)) (held s) rs"
    and pool: "pl_pool lease \<longleftrightarrow> pl_resource lease \<noteq> None"
    using assms by (simp_all add: pool_inv_def)
  have h: "held s i = pl_resource lease" using assms(2) by (simp add: held_def)
  show "owned_once (rp_available (snd (Lease_Release lease (ps_pool s)))) ((held s)(i := None)) rs"
  proof (cases "pl_resource lease")
    case None
    with h own show ?thesis by (simp add: Lease_Release_def fun_upd_idem)
  next
    case (Some r)
    with pool have "pl_pool lease" by simp
    with Some owned_once_give [OF own, of i r] h show ?thesis
      by (simp add: Lease_Release_def Pool_Release_def)
  qed
  show "rp_resources (snd (Lease_Release lease (ps_pool s))) = rp_resources (ps_pool s)"
    by (simp add: Lease_Release_def Pool_Release_def split: option.splits)
qed

lemma held_leases:
  "held (s\<lparr>ps_leases := L(i \<mapsto> lease)\<rparr>) = (held (s\<lparr>ps_leases := L\<rparr>))(i := pl_resource lease)"
  "held (s\<lparr>ps_leases := L(i := None)\<rparr>) = (held (s\<lparr>ps_leases := L\<rparr>))(i := None)"
  "held (s\<lparr>ps_leases := ps_leases s\<rparr>) = held s"
  "held (s\<lparr>ps_pool := pool\<rparr>) = held s"
  "held \<lparr>ps_pool = pool, ps_leases = L\<rparr> = held (s\<lparr>ps_leases := L\<rparr>)"
  by (simp_all add: held_def fun_eq_iff)

lemma pool_step_inv:
  assumes "pool_step s t" "pool_inv rs s"
  shows "pool_inv rs t \<and> rp_resources (ps_pool t) = rp_resources (ps_pool s)"
  using assms
proof (induction rule: pool_step.induct)
  case (acquired s lease pool i)
  have ne: "rp_available (ps_pool s) \<noteq> []" and lease: "lease = Lease_of (last (rp_available (ps_pool s)))"
    and pool: "pool = (ps_pool s)\<lparr>rp_available := butlast (rp_available (ps_pool s))\<rparr>"
    using acquired.hyps(1) by (auto simp: Pool_Acquire_def split: if_splits)
  have none: "held s i = None" using acquired.hyps(2) by (simp add: held_def)
  have "owned_once (butlast (rp_available (ps_pool s))) ((held s)(i \<mapsto> last (rp_available (ps_pool s)))) rs"
    using acquired.prems ne none by (intro owned_once_take) (simp_all add: pool_inv_def)
  with acquired.prems show ?case
    by (simp add: pool_inv_def held_leases(5) [of "(ps_pool s)\<lparr>rp_available := butlast (rp_available (ps_pool s))\<rparr>" _ s] held_leases
        lease pool Lease_of_def)
next
  case (timed_out s pool)
  then have "pool = ps_pool s" by (auto simp: Pool_Acquire_def split: if_splits)
  with timed_out.prems show ?case by simp
next
  case (declared s i)
  have "(held s)(i := None) = held s" using declared.hyps by (simp add: held_def fun_eq_iff)
  with declared.prems show ?case
    by (simp add: pool_inv_def held_leases Lease_empty_def)
next
  case (moved s j other i moved left)
  have ij: "i \<noteq> j" using moved.hyps by auto
  have m: "moved = \<lparr>pl_pool = pl_pool other, pl_resource = pl_resource other\<rparr>"
    "left = other\<lparr>pl_pool := False, pl_resource := None\<rparr>"
    using moved.hyps(3) by (simp_all add: Lease_move_def)
  have h: "held s j = pl_resource other" "held s i = None" using moved.hyps by (simp_all add: held_def)
  have "owned_once (rp_available (ps_pool s)) ((held s)(i := held s j, j := None)) rs"
    using moved.prems h ij by (intro owned_once_move) (simp_all add: pool_inv_def)
  with moved.prems moved.hyps(1) show ?case
    by (simp add: pool_inv_def held_leases m h)
next
  case (assigned s i this j other)
  show ?case
  proof (cases "i = j")
    case True
    with assigned.prems show ?thesis by (simp add: Lease_assign_def)
  next
    case False
    let ?pool = "snd (Lease_Release this (ps_pool s))"
    have h: "held s j = pl_resource other" using assigned.hyps by (simp add: held_def)
    have "owned_once (rp_available ?pool) ((held s)(i := held s j, j := None)) rs"
      using owned_once_move [OF Lease_Release_owned(1) [OF assigned.prems assigned.hyps(1)], of i j] False by simp
    with assigned.prems assigned.hyps False Lease_Release_owned(2) [OF assigned.prems assigned.hyps(1)] show ?thesis
      by (simp add: Lease_assign_def pool_inv_def held_leases(5) [of ?pool _ s] held_leases h Lease_move_def)
  qed
next
  case (destroyed s i lease)
  with Lease_Release_owned [OF destroyed.prems destroyed.hyps] show ?case
    by (simp add: Lease_destroy_def pool_inv_def held_leases(5) [of "snd (Lease_Release lease (ps_pool s))" _ s] held_leases)
qed

lemma pool_reachable_inv:
  assumes "pool_reachable s0 s" "pool_inv rs s0"
  shows "pool_inv rs s \<and> rp_resources (ps_pool s) = rp_resources (ps_pool s0)"
  using assms by (induction rule: pool_reachable.induct) (auto dest: pool_step_inv)

lemma create_resources_made:
  assumes "create_resources factory is made = Inr rs"
  shows "\<exists>new. rs = made @ new \<and> map (Inr \<circ> Some) new = map factory is"
  using assms
proof (induction "is" arbitrary: made)
  case (Cons i "is")
  then obtain r where r: "factory i = Inr (Some r)" and rest: "create_resources factory is (made @ [r]) = Inr rs"
    by (auto split: sum.splits option.splits)
  from Cons.IH [OF rest] r show ?case by force
qed simp

lemma ResourcePool_create_made:
  assumes "ResourcePool_create config (Some factory) = Inr pool"
  shows "0 < pc_pool_size config" "pool_size pool = pc_pool_size config"
    "map (Inr \<circ> Some) (rp_resources pool) = map factory [0..<pc_pool_size config]"
    "rp_available pool = rp_resources pool"
proof -
  from assms obtain rs where rs: "create_resources factory [0..<pc_pool_size config] [] = Inr rs"
    and pos: "0 < pc_pool_size config" and pool: "pool = \<lparr>rp_config = config, rp_resources = rs, rp_available = rs\<rparr>"
    by (auto simp: ResourcePool_create_def split: if_splits sum.splits)
  note made = create_resources_made [OF rs, simplified]
  from made have "length rs = pc_pool_size config" by (metis diff_zero length_map length_upt)
  with made pos pool show "0 < pc_pool_size config" "pool_size pool = pc_pool_size config"
    "map (Inr \<circ> Some) (rp_resources pool) = map factory [0..<pc_pool_size config]"
    "rp_available pool = rp_resources pool"
    by (simp_all add: pool_size_def)
qed

text \<open>The number of leases that hold a resource.\<close>

lemma owned_once_count:
  assumes "owned_once free H (set rs)" "distinct rs" "finite (dom H)"
  shows "length free + card (dom H) = length rs"
proof -
  have own: "distinct free" "set free \<union> ran H = set rs" "set free \<inter> ran H = {}"
    and inj: "H k = Some r \<Longrightarrow> H l = Some r \<Longrightarrow> k = l" for k l r
    using assms(1) unfolding owned_once_def by blast+
  have "inj_on H (dom H)" by (rule inj_onI) (auto intro: inj)
  then have "card (H ` dom H) = card (dom H)" by (rule card_image)
  moreover have "H ` dom H = Some ` ran H" by (force simp: ran_def dom_def image_iff)
  ultimately have "card (ran H) = card (dom H)" by (simp add: card_image)
  moreover have "card (set free \<union> ran H) = card (set free) + card (ran H)"
    using own(3) assms(3) by (intro card_Un_disjoint) (auto simp: finite_ran)
  ultimately show ?thesis using own(1,2) assms(2) by (simp add: distinct_card)
qed

text \<open>
  C23. Exclusive ownership. Start from a pool whose factory made distinct objects and run any sequence of
  acquisitions, timeouts, moves, assignments and destructions of leases: no two leases hold the same
  resource, no held resource is available to another thread, the guard of \<open>Release\<close> against returning a
  resource twice never fires, and no resource is lost: the available and the held ones are all of them.
\<close>

theorem pool_exclusive:
  assumes "ResourcePool_create config (Some factory) = Inr pool"
    and "inj_on factory {..<pc_pool_size config}"
    and "pool_reachable (fresh_pool pool) s"
  shows "(held s i = Some r \<and> held s j = Some r \<longrightarrow> i = j) \<and>
    (held s i = Some r \<longrightarrow> r \<in> set (rp_resources pool) \<and> r \<notin> set (rp_available (ps_pool s))) \<and>
    distinct (rp_available (ps_pool s)) \<and>
    pool_available (ps_pool s) + card (dom (held s)) = pc_pool_size config"
proof -
  note made = ResourcePool_create_made [OF assms(1)]
  have "distinct (map factory [0..<pc_pool_size config])"
    using assms(2) by (simp add: distinct_map atLeast_upt [symmetric] lessThan_atLeast0)
  then have dist: "distinct (rp_resources pool)"
    unfolding made(3) [symmetric] by (simp only: distinct_map)
  have "pool_inv (set (rp_resources pool)) s"
    using pool_reachable_inv [OF assms(3) pool_inv_initial] made(4) dist by simp
  then have own: "owned_once (rp_available (ps_pool s)) (held s) (set (rp_resources pool))"
    and fin: "finite (dom (ps_leases s))"
    by (simp_all add: pool_inv_def)
  have "dom (held s) \<subseteq> dom (ps_leases s)" by (auto simp: held_def Option.bind_eq_Some_conv)
  then have "finite (dom (held s))" using fin by (rule finite_subset)
  from owned_once_count [OF own dist this] made(2)
  have "pool_available (ps_pool s) + card (dom (held s)) = pc_pool_size config"
    by (simp add: pool_available_def pool_size_def)
  moreover have "held s i = Some r \<and> held s j = Some r \<longrightarrow> i = j" "distinct (rp_available (ps_pool s))"
    using own unfolding owned_once_def by blast+
  moreover have "held s i = Some r \<longrightarrow> r \<in> set (rp_resources pool) \<and> r \<notin> set (rp_available (ps_pool s))"
    using own ranI [of "held s" i r] unfolding owned_once_def by blast
  ultimately show ?thesis by blast
qed

lemma pool_exclusive_witness:
  "\<exists>pool s. ResourcePool_create \<lparr>pc_pool_size = 2, pc_acquire_timeout = 5\<rparr> (Some (\<lambda>i. Inr (Some i))) = Inr pool \<and>
     pool_reachable (fresh_pool pool) s \<and> held s 0 = Some (1 :: nat) \<and>
     pool_available (ps_pool s) + card (dom (held s)) = 2"
proof -
  let ?config = "\<lparr>pc_pool_size = 2, pc_acquire_timeout = 5\<rparr>" and ?factory = "\<lambda>i :: nat. (Inr (Some i) :: nat option throws)"
  let ?pool = "\<lparr>rp_config = ?config, rp_resources = [0, 1], rp_available = [0, 1 :: nat]\<rparr>"
  let ?left = "?pool\<lparr>rp_available := [0]\<rparr>"
  let ?s = "\<lparr>ps_pool = ?left, ps_leases = [0 \<mapsto> Lease_of 1]\<rparr>"
  have made: "ResourcePool_create ?config (Some ?factory) = Inr ?pool"
    by (simp add: ResourcePool_create_def upt_rec numeral_2_eq_2)
  have "pool_step (fresh_pool ?pool) \<lparr>ps_pool = ?left, ps_leases = (ps_leases (fresh_pool ?pool))(0 \<mapsto> Lease_of 1)\<rparr>"
    by (rule pool_step.acquired) (simp_all add: fresh_pool_def Pool_Acquire_def)
  then have "pool_step (fresh_pool ?pool) ?s" by (simp add: fresh_pool_def)
  then have reach: "pool_reachable (fresh_pool ?pool) ?s" by (rule pool_reachable.step [OF pool_reachable.start])
  have inj: "inj_on ?factory {..<pc_pool_size ?config}" by (simp add: inj_on_def)
  have "pool_available (ps_pool ?s) + card (dom (held ?s)) = 2"
    using pool_exclusive [OF made inj reach] by simp
  moreover have "held ?s 0 = Some 1" by (simp add: held_def Lease_of_def)
  ultimately show ?thesis using made reach by blast
qed

section \<open>The pool of curl handles\<close>

text \<open>
  A handle is what \<open>curl_easy_init\<close> returned; the library is a parameter: whether \<open>curl_global_init\<close>
  succeeds, and the handle or null of each call of \<open>curl_easy_init\<close>.
\<close>

definition CurlGlobalInitializer_create :: "bool \<Rightarrow> unit throws" where
  "CurlGlobalInitializer_create init_ok =
     (if init_ok then Inr () else Inl (RuntimeError ''curl_global_init failed''))"

definition CurlHandle_create :: "'c option \<Rightarrow> 'c throws" where
  "CurlHandle_create curl =
     (case curl of None \<Rightarrow> Inl (RuntimeError ''curl_easy_init failed'') | Some c \<Rightarrow> Inr c)"

definition CurlPoolConfig_default :: PoolConfig where
  "CurlPoolConfig_default = \<lparr>pc_pool_size = 4, pc_acquire_timeout = 1000\<rparr>"

definition CreateResourcePoolConfig :: "PoolConfig \<Rightarrow> PoolConfig" where
  "CreateResourcePoolConfig config =
     \<lparr>pc_pool_size = pc_pool_size config, pc_acquire_timeout = pc_acquire_timeout config\<rparr>"

definition CurlHandlePool_create :: "bool \<Rightarrow> (nat \<Rightarrow> 'c option) \<Rightarrow> PoolConfig \<Rightarrow> 'c ResourcePool throws" where
  "CurlHandlePool_create init_ok easy_init config =
     (case CurlGlobalInitializer_create init_ok of
        Inl e \<Rightarrow> Inl e
      | Inr _ \<Rightarrow>
          ResourcePool_create (CreateResourcePoolConfig config)
            (Some (\<lambda>i. case CurlHandle_create (easy_init i) of Inl e \<Rightarrow> Inl e | Inr h \<Rightarrow> Inr (Some h))))"

definition CurlHandlePool_default :: "bool \<Rightarrow> (nat \<Rightarrow> 'c option) \<Rightarrow> 'c ResourcePool throws" where
  "CurlHandlePool_default init_ok easy_init = CurlHandlePool_create init_ok easy_init CurlPoolConfig_default"

definition CurlHandlePool_Acquire :: "'c ResourcePool \<Rightarrow> 'c Lease option \<times> 'c ResourcePool" where
  "CurlHandlePool_Acquire pool =
     (case Pool_Acquire pool of
        (None, pool) \<Rightarrow> (None, pool)
      | (Some lease, pool) \<Rightarrow> (Some (fst (Lease_move lease)), pool))"

definition CurlLease_get :: "'c Lease \<Rightarrow> 'c option" where
  "CurlLease_get lease = (if pl_resource lease \<noteq> None then pl_resource lease else None)"

lemma CurlHandlePool_Acquire_eq: "CurlHandlePool_Acquire pool = Pool_Acquire pool"
  by (simp add: CurlHandlePool_Acquire_def Pool_Acquire_def Lease_move_def Lease_of_def)

text \<open>The handle pool never has a null handle: one that curl does not give makes the constructor throw.\<close>

lemma CurlHandlePool_handles:
  assumes "CurlHandlePool_create init_ok easy_init config = Inr pool"
  shows "init_ok" "map Some (rp_resources pool) = map easy_init [0..<pc_pool_size config]"
    "rp_available pool = rp_resources pool"
proof -
  let ?make = "\<lambda>i. case CurlHandle_create (easy_init i) of Inl e \<Rightarrow> Inl e | Inr h \<Rightarrow> Inr (Some h)"
  from assms show "init_ok"
    by (auto simp: CurlHandlePool_create_def CurlGlobalInitializer_create_def split: if_splits)
  have made: "ResourcePool_create (CreateResourcePoolConfig config) (Some ?make) = Inr pool"
    using assms by (simp add: CurlHandlePool_create_def split: sum.splits)
  note facts = ResourcePool_create_made [OF made]
  show "rp_available pool = rp_resources pool" by (rule facts(4))
  let ?n = "pc_pool_size config"
  have eq: "map (Inr \<circ> Some) (rp_resources pool) = map ?make [0..<?n]"
    using facts(3) by (simp add: CreateResourcePoolConfig_def)
  then have len: "length (rp_resources pool) = ?n" by (metis diff_zero length_map length_upt)
  show "map Some (rp_resources pool) = map easy_init [0..<?n]"
  proof (rule nth_equalityI)
    fix i
    assume "i < length (map Some (rp_resources pool))"
    then have i: "i < ?n" using len by simp
    then have "map (Inr \<circ> Some) (rp_resources pool) ! i = map ?make [0..<?n] ! i" using eq by simp
    then have "?make i = Inr (Some (rp_resources pool ! i))" using i len by simp
    then have "easy_init i = Some (rp_resources pool ! i)"
      by (auto simp: CurlHandle_create_def split: option.splits sum.splits)
    with i len show "map Some (rp_resources pool) ! i = map easy_init [0..<?n] ! i" by simp
  qed (simp add: len)
qed

end
