(* ===== verification/RuntimeUtilities.thy ===== *)
theory RuntimeUtilities
  imports TextLines
begin

text \<open>
  src/src/utilities/runtime_utilities/runtime_utilities.cpp: the deadline of a server call, base64,
  environment variables, the search for a workspace file, the checks of timeouts, trimming and the
  text of a generated id. The environment, the file system, the clocks and the random bytes are
  arguments. A path is its text in the generic format of POSIX.
\<close>

section \<open>Deadlines\<close>

datatype RpcDeadlineStatus = kOk | kCancelled | kClientDeadlineExceeded | kServerDeadlineExceeded

record ServerContext =
  sx_cancelled :: bool
  sx_deadline :: int

definition CheckGrpcServerDeadline :: "ServerContext option \<Rightarrow> int \<Rightarrow> int \<Rightarrow> int \<Rightarrow> RpcDeadlineStatus" where
  "CheckGrpcServerDeadline ctx server_deadline system_now steady_now =
     (if (case ctx of None \<Rightarrow> False | Some c \<Rightarrow> sx_cancelled c) then kCancelled
      else if (case ctx of None \<Rightarrow> False | Some c \<Rightarrow> sx_deadline c \<le> system_now) then kClientDeadlineExceeded
      else if server_deadline \<le> steady_now then kServerDeadlineExceeded
      else kOk)"

section \<open>Base64\<close>

definition kBase64Chars :: string where
  "kBase64Chars = ''ABCDEFGHIJKLMNOPQRSTUVWXYZabcdefghijklmnopqrstuvwxyz0123456789+/''"

abbreviation byte_of :: "char \<Rightarrow> nat" where
  "byte_of c \<equiv> of_char c"

text \<open>One turn of the loop: up to three bytes give four characters.\<close>

definition base64_group :: "string \<Rightarrow> string" where
  "base64_group input =
     (let b0 = byte_of (input ! 0);
          b1 = (if 1 < length input then byte_of (input ! 1) else 0);
          b2 = (if 2 < length input then byte_of (input ! 2) else 0)
      in [kBase64Chars ! drop_bit 2 b0,
          kBase64Chars ! (or (push_bit 4 (and b0 3)) (drop_bit 4 b1)),
          (if 1 < length input then kBase64Chars ! (or (push_bit 2 (and b1 15)) (drop_bit 6 b2)) else CHR ''=''),
          (if 2 < length input then kBase64Chars ! (and b2 63) else CHR ''='')])"

fun Base64Encode :: "string \<Rightarrow> string" where
  "Base64Encode (a # b # c # input) = base64_group [a, b, c] @ Base64Encode input"
| "Base64Encode [] = []"
| "Base64Encode input = base64_group input"

section \<open>The environment\<close>

definition GetEnvOrDefault :: "(string \<Rightarrow> string option) \<Rightarrow> string \<Rightarrow> string \<Rightarrow> string" where
  "GetEnvOrDefault getenv name default_value =
     (if name = [] then default_value
      else
        (case getenv (c_str name) of
           None \<Rightarrow> default_value
         | Some v \<Rightarrow> if v = [] then default_value else v))"

definition GetEnvFlagOrDefault :: "(string \<Rightarrow> string option) \<Rightarrow> string \<Rightarrow> bool \<Rightarrow> bool" where
  "GetEnvFlagOrDefault getenv name default_value =
     (let v = GetEnvOrDefault getenv name [] in
      if v = [] then default_value
      else v = ''1'' \<or> v = ''true'' \<or> v = ''TRUE'' \<or> v = ''yes'' \<or> v = ''YES'')"

section \<open>Paths\<close>

definition is_slash :: "char \<Rightarrow> bool" where
  "is_slash c \<longleftrightarrow> c = CHR ''/''"

definition is_absolute :: "string \<Rightarrow> bool" where
  "is_absolute p \<longleftrightarrow> (case p of [] \<Rightarrow> False | c # _ \<Rightarrow> is_slash c)"

definition root_path :: "string \<Rightarrow> string" where
  "root_path p = takeWhile is_slash p"

definition parent_path :: "string \<Rightarrow> string" where
  "parent_path p =
     (if list_all is_slash p then p
      else
        (let stem = rev (dropWhile (\<lambda>c. \<not> is_slash c) (rev p));
             parent = trim_right is_slash stem
         in if parent = [] then stem else parent))"

definition path_append :: "string \<Rightarrow> string \<Rightarrow> string" where
  "path_append dir p =
     (if is_absolute p then p
      else if dir = [] \<or> is_slash (last dir) then dir @ p
      else dir @ ''/'' @ p)"

definition absolute :: "string \<Rightarrow> string \<Rightarrow> string" where
  "absolute cwd p = path_append cwd p"

lemma length_trim_right: "length (trim_right f s) \<le> length s"
  using length_dropWhile_le [of f "rev s"] by (simp add: trim_right_def)

lemma parent_path_shorter:
  assumes "p \<noteq> root_path p"
  shows "length (parent_path p) < length p"
proof -
  have notall: "\<not> list_all is_slash p"
    using assms by (metis list_all_iff root_path_def takeWhile_eq_all_conv)
  then have ne: "p \<noteq> []" by auto
  let ?stem = "rev (dropWhile (\<lambda>c. \<not> is_slash c) (rev p))"
  show ?thesis
  proof (cases "is_slash (last p)")
    case True
    then have stem: "?stem = p"
      using ne by (cases p rule: rev_cases) auto
    obtain q c where p: "p = q @ [c]" "is_slash c" using True ne by (cases p rule: rev_cases) auto
    have "length (trim_right is_slash p) \<le> length q"
      using p by (simp add: trim_right_def length_dropWhile_le [of is_slash "rev q", simplified])
    moreover have "trim_right is_slash p \<noteq> []"
      using notall by (auto simp: trim_right_def list_all_iff)
    ultimately show ?thesis using notall stem p by (simp add: parent_path_def Let_def)
  next
    case False
    obtain q c where p: "p = q @ [c]" "\<not> is_slash c" using False ne by (cases p rule: rev_cases) auto
    have "length ?stem \<le> length q"
      using p length_dropWhile_le [of "\<lambda>c. \<not> is_slash c" "rev q"] by simp
    moreover have "length (parent_path p) \<le> length ?stem"
      using notall length_trim_right [of is_slash ?stem] by (simp add: parent_path_def Let_def)
    ultimately show ?thesis using p by simp
  qed
qed

text \<open>The directories from \<open>dir\<close> up to its root.\<close>

function ancestors :: "string \<Rightarrow> string list" where
  "ancestors dir = (if dir = root_path dir then [dir] else dir # ancestors (parent_path dir))"
  by pat_completeness auto
termination
  by (relation "measure length") (use parent_path_shorter in auto)

declare ancestors.simps [simp del]

definition AddAncestorDirectories :: "string \<Rightarrow> string list \<Rightarrow> string list" where
  "AddAncestorDirectories base_dir search_dirs =
     (if base_dir = [] then search_dirs else search_dirs @ ancestors base_dir)"

lemma length_takeWhile_drop: "dropWhile f p \<noteq> [] \<Longrightarrow> length (dropWhile (\<lambda>c. \<not> f c) (dropWhile f p)) < length p"
proof -
  assume ne: "dropWhile f p \<noteq> []"
  then have "\<not> f (hd (dropWhile f p))" by (rule hd_dropWhile)
  then have "length (dropWhile (\<lambda>c. \<not> f c) (dropWhile f p)) \<le> length (tl (dropWhile f p))"
    using ne by (cases "dropWhile f p") (simp_all add: length_dropWhile_le)
  also have "\<dots> < length (dropWhile f p)" using ne by simp
  also have "\<dots> \<le> length p" by (rule length_dropWhile_le)
  finally show ?thesis .
qed

text \<open>The file names between the slashes of a path.\<close>

function path_names :: "string \<Rightarrow> string list" where
  "path_names p =
     (let rest = dropWhile is_slash p in
      if rest = [] then []
      else takeWhile (\<lambda>c. \<not> is_slash c) rest # path_names (dropWhile (\<lambda>c. \<not> is_slash c) rest))"
  by pat_completeness auto
termination
proof (relation "measure length")
  fix p rest
  assume "rest = dropWhile is_slash p" "rest \<noteq> []"
  then show "(dropWhile (\<lambda>c. \<not> is_slash c) rest, p) \<in> measure length"
    by (simp only: in_measure) (rule length_takeWhile_drop)
qed simp

declare path_names.simps [simp del]

text \<open>
  \<open>lexically_normal\<close>: the names kept, the last one first, and whether the path ends in a separator.
\<close>

fun normal_names :: "bool \<Rightarrow> string list \<Rightarrow> string list \<Rightarrow> bool \<Rightarrow> string list \<times> bool" where
  "normal_names rooted [] kept ends = (kept, ends)"
| "normal_names rooted (name # names) kept ends =
     (if name = ''.'' then normal_names rooted names kept True
      else if name = ''..'' then
        (case kept of
           k # ks \<Rightarrow>
             if k \<noteq> ''..'' then normal_names rooted names ks True
             else normal_names rooted names (''..'' # kept) False
         | [] \<Rightarrow>
             if rooted then normal_names rooted names [] True
             else normal_names rooted names [''..''] False)
      else normal_names rooted names (name # kept) False)"

fun join_names :: "string list \<Rightarrow> string" where
  "join_names [] = []"
| "join_names [name] = name"
| "join_names (name # names) = name @ ''/'' @ join_names names"

definition lexically_normal :: "string \<Rightarrow> string" where
  "lexically_normal p =
     (if p = [] then []
      else
        (let (kept, ends) = normal_names (is_absolute p) (path_names p) [] False;
             ends = (ends \<or> is_slash (last p));
             root = (if is_absolute p then ''/'' else [])
         in if kept = [] then (if is_absolute p then root else ''.'')
            else root @ join_names (rev kept) @ (if ends \<and> hd kept \<noteq> ''..'' then ''/'' else [])))"

definition NormalizePath :: "string \<Rightarrow> string" where
  "NormalizePath p = lexically_normal p"

definition ResolveWorkspaceRelativePath ::
  "(string \<Rightarrow> bool) \<Rightarrow> string \<Rightarrow> string \<Rightarrow> string \<Rightarrow> string" where
  "ResolveWorkspaceRelativePath file_exists cwd p executable_path =
     (if p = [] then p
      else if is_absolute p then p
      else
        (let executable_dir = parent_path (absolute cwd executable_path);
             search_dirs = (if executable_path \<noteq> [] then AddAncestorDirectories executable_dir [] else []);
             search_dirs = AddAncestorDirectories cwd search_dirs
         in case find (\<lambda>dir. file_exists (path_append dir p)) search_dirs of
              Some dir \<Rightarrow> NormalizePath (path_append dir p)
            | None \<Rightarrow>
                if executable_path \<noteq> [] then NormalizePath (path_append executable_dir p)
                else NormalizePath (path_append cwd p)))"

section \<open>Timeouts\<close>

definition ValidateTimeoutNotGreater :: "string \<Rightarrow> int \<Rightarrow> string \<Rightarrow> int \<Rightarrow> unit throws" where
  "ValidateTimeoutNotGreater inner_key inner outer_key outer =
     (if inner \<le> outer then Inr ()
      else Inl (InvalidArgument (inner_key @ '' ('' @ show_int inner @ '' ms) must be less than or equal to '' @
             outer_key @ '' ('' @ show_int outer @ '' ms)'')))"

definition ValidateTimeoutSumNotGreater ::
  "string \<Rightarrow> int \<Rightarrow> string \<Rightarrow> int \<Rightarrow> string \<Rightarrow> int \<Rightarrow> unit throws" where
  "ValidateTimeoutSumNotGreater first_inner_key first_inner second_inner_key second_inner outer_key outer =
     (if first_inner + second_inner \<le> outer then Inr ()
      else Inl (InvalidArgument (first_inner_key @ '' ('' @ show_int first_inner @ '' ms) + '' @
             second_inner_key @ '' ('' @ show_int second_inner @ '' ms) must be less than or equal to '' @
             outer_key @ '' ('' @ show_int outer @ '' ms)'')))"

section \<open>Trimming\<close>

definition TrimLeadingSlashes :: "string \<Rightarrow> string" where
  "TrimLeadingSlashes v = trim_left is_slash v"

definition TrimTrailingSlashes :: "string \<Rightarrow> string" where
  "TrimTrailingSlashes v = trim_right is_slash v"

text \<open>\<open>std::isspace\<close> in the C locale: space, tab, line feed, vertical tab, form feed, carriage return.\<close>

definition isspace :: "char \<Rightarrow> bool" where
  "isspace c \<longleftrightarrow> c = CHR 0x20 \<or> byte_of c \<in> {9..13}"

definition TrimWhitespace :: "string \<Rightarrow> string" where
  "TrimWhitespace v = trim_both isspace v"

section \<open>Generated ids\<close>

definition hex_digit :: "nat \<Rightarrow> char" where
  "hex_digit d = ''0123456789abcdef'' ! d"

definition hex_byte :: "8 word \<Rightarrow> string" where
  "hex_byte b = [hex_digit (unat b div 16), hex_digit (unat b mod 16)]"

text \<open>The text of the 16 random bytes, with the version and the variant written into two of them.\<close>

definition GenerateGuid :: "(nat \<Rightarrow> 8 word) \<Rightarrow> string" where
  "GenerateGuid random_byte =
     (let guid = map random_byte [0..<16];
          guid = guid[6 := or (and (guid ! 6) 0x0F) 0x40];
          guid = guid[8 := or (and (guid ! 8) 0x3F) 0x80];
          hex = (\<lambda>i j. concat (map (\<lambda>k. hex_byte (guid ! k)) [i..<j]))
      in hex 0 4 @ ''-'' @ hex 4 6 @ ''-'' @ hex 6 8 @ ''-'' @ hex 8 10 @ ''-'' @ hex 10 16)"

section \<open>Base64 is read back\<close>

text \<open>Specification: the decoder of the alphabet, four characters at a time.\<close>

definition base64_value :: "char \<Rightarrow> nat" where
  "base64_value c = length (takeWhile (\<lambda>d. d \<noteq> c) kBase64Chars)"

fun base64_decode :: "string \<Rightarrow> string" where
  "base64_decode (c0 # c1 # c2 # c3 # cs) =
     (let v0 = base64_value c0; v1 = base64_value c1; v2 = base64_value c2; v3 = base64_value c3
      in (char_of (4 * v0 + v1 div 16) :: char) #
         (if c2 = CHR ''='' then []
          else char_of (16 * (v1 mod 16) + v2 div 4) #
            (if c3 = CHR ''='' then [] else [char_of (64 * (v2 mod 4) + v3)])) @
         base64_decode cs)"
| "base64_decode _ = []"

lemma base64_index:
  assumes "i < 64"
  shows "base64_value (kBase64Chars ! i) = i" "kBase64Chars ! i \<noteq> CHR ''=''" "kBase64Chars ! i \<in> set kBase64Chars"
proof -
  have all: "\<forall>i \<in> set [0..<64]. base64_value (kBase64Chars ! i) = i \<and> kBase64Chars ! i \<noteq> CHR ''='' \<and>
      kBase64Chars ! i \<in> set kBase64Chars"
    by code_simp
  from assms have "i \<in> set [0..<64]" by simp
  with all show "base64_value (kBase64Chars ! i) = i" "kBase64Chars ! i \<noteq> CHR ''=''" "kBase64Chars ! i \<in> set kBase64Chars"
    by blast+
qed

lemma byte_parts:
  assumes "a < 256" "b < 256"
  shows "or (push_bit 4 (and a 3)) (drop_bit 4 b) = 16 * (a mod 4) + b div (16 :: nat)"
    "or (push_bit 2 (and a 15)) (drop_bit 6 b) = 4 * (a mod 16) + b div (64 :: nat)"
    "and a 63 = a mod 64" "drop_bit 2 a = a div 4"
proof -
  have ored: "or (push_bit n x) y = 2 ^ n * x + y" if "y < 2 ^ n" for n x y :: nat
  proof -
    have "or (push_bit n x) y = or (push_bit n x) (take_bit n y)" using that by (simp add: take_bit_nat_eq_self)
    also have "\<dots> = push_bit n x + take_bit n y"
      by (subst disjunctive_add_eq_or) (auto intro!: bit_eqI simp: bit_simps)
    also have "\<dots> = 2 ^ n * x + y" using that by (simp add: push_bit_eq_mult take_bit_nat_eq_self)
    finally show ?thesis .
  qed
  have masks: "and a 3 = a mod 4" "and a 15 = a mod 16" "and a 63 = a mod 64"
  proof -
    have "and a 3 = take_bit 2 a" "and a 15 = take_bit 4 a" "and a 63 = take_bit 6 a"
      by (simp_all add: take_bit_eq_mask mask_eq_exp_minus_1)
    then show "and a 3 = a mod 4" "and a 15 = a mod 16" "and a 63 = a mod 64" by (simp_all add: take_bit_eq_mod)
  qed
  show "or (push_bit 4 (and a 3)) (drop_bit 4 b) = 16 * (a mod 4) + b div (16 :: nat)"
    using ored [of "b div 16" 4 "a mod 4"] assms by (simp add: masks drop_bit_eq_div)
  show "or (push_bit 2 (and a 15)) (drop_bit 6 b) = 4 * (a mod 16) + b div (64 :: nat)"
    using ored [of "b div 64" 2 "a mod 16"] assms by (simp add: masks drop_bit_eq_div)
  show "and a 63 = a mod 64" by (rule masks)
  show "drop_bit 2 a = a div 4" by (simp add: drop_bit_eq_div)
qed

lemma byte_char [simp]: "char_of (byte_of c) = c" "byte_of c < 256"
  by simp_all

lemma base64_group_eq:
  "base64_group [a] = [kBase64Chars ! (byte_of a div 4), kBase64Chars ! (16 * (byte_of a mod 4)), CHR ''='', CHR ''='']"
  "base64_group [a, b] =
     [kBase64Chars ! (byte_of a div 4), kBase64Chars ! (16 * (byte_of a mod 4) + byte_of b div 16),
      kBase64Chars ! (4 * (byte_of b mod 16)), CHR ''='']"
  "base64_group [a, b, c] =
     [kBase64Chars ! (byte_of a div 4), kBase64Chars ! (16 * (byte_of a mod 4) + byte_of b div 16),
      kBase64Chars ! (4 * (byte_of b mod 16) + byte_of c div 64), kBase64Chars ! (byte_of c mod 64)]"
proof -
  have a0: "or (push_bit 4 (and (byte_of a) 3)) (drop_bit 4 0) = 16 * (byte_of a mod 4)"
    using byte_parts(1) [OF byte_char(2) [of a], of 0] by simp
  have b0: "or (push_bit 2 (and (byte_of b) 15)) (drop_bit 6 0) = 4 * (byte_of b mod 16)"
    using byte_parts(2) [OF byte_char(2) [of b], of 0] by simp
  note ab = byte_parts [OF byte_char(2) [of a] byte_char(2) [of b]]
    and bc = byte_parts [OF byte_char(2) [of b] byte_char(2) [of c]]
    and cc = byte_parts(3,4) [OF byte_char(2) [of c] byte_char(2) [of c]]
  have at: "[x, y, z] ! 1 = y" "[x, y, z] ! 2 = z" "[x, y] ! 1 = y" "[x, y, z] ! 0 = x" "[x, y] ! 0 = x" "[x] ! 0 = x"
    for x y z :: char by simp_all
  have len: "length [x, y, z] = 3" "length [x, y] = 2" "length [x] = 1" for x y z :: char by simp_all
  have less: "(1 < (3 :: nat)) = True" "(2 < (3 :: nat)) = True" "(1 < (2 :: nat)) = True" "(2 < (2 :: nat)) = False"
    "(1 < (1 :: nat)) = False" "(2 < (1 :: nat)) = False"
    by simp_all
  note sel = base64_group_def Let_def at len less if_True if_False
  show "base64_group [a] = [kBase64Chars ! (byte_of a div 4), kBase64Chars ! (16 * (byte_of a mod 4)), CHR ''='', CHR ''='']"
    unfolding sel ab(4) a0 by (rule refl)
  show "base64_group [a, b] =
     [kBase64Chars ! (byte_of a div 4), kBase64Chars ! (16 * (byte_of a mod 4) + byte_of b div 16),
      kBase64Chars ! (4 * (byte_of b mod 16)), CHR ''='']"
    unfolding sel ab(4) ab(1) b0 by (rule refl)
  show "base64_group [a, b, c] =
     [kBase64Chars ! (byte_of a div 4), kBase64Chars ! (16 * (byte_of a mod 4) + byte_of b div 16),
      kBase64Chars ! (4 * (byte_of b mod 16) + byte_of c div 64), kBase64Chars ! (byte_of c mod 64)]"
    unfolding sel ab(4) ab(1) bc(2) cc(1) by (rule refl)
qed

lemma split_byte:
  fixes x m n :: nat
  assumes "x < m * n" "0 < n"
  shows "x div n < m" "x mod n < n" "n * (x div n) + x mod n = x"
  using assms by (simp_all add: less_mult_imp_div_less)

lemma pack:
  fixes q r n :: nat
  assumes "r < n"
  shows "(n * q + r) div n = q" "(n * q + r) mod n = r"
  using assms by simp_all

lemma sextets:
  assumes "x < 256" "y < 256" "z < (256 :: nat)"
  shows "x div 4 < 64" "16 * (x mod 4) + y div 16 < 64" "4 * (y mod 16) + z div 64 < 64" "z mod 64 < 64"
    "16 * (x mod 4) < 64" "4 * (y mod 16) < 64"
proof -
  note x = split_byte [of x 64 4] and y = split_byte [of y 16 16] and z = split_byte [of z 4 64]
  show "x div 4 < 64" "z mod 64 < 64" using x(1) z(2) assms by simp_all
  have "x mod 4 < 4" "y div 16 < 16" "y mod 16 < 16" "z div 64 < 4" using x(2) y(1,2) z(1) assms by simp_all
  then show "16 * (x mod 4) + y div 16 < 64" "4 * (y mod 16) + z div 64 < 64" "16 * (x mod 4) < 64" "4 * (y mod 16) < 64"
    by linarith+
qed

lemma from_sextets:
  assumes "x < 256" "y < 256" "z < (256 :: nat)"
  shows "4 * (x div 4) + (16 * (x mod 4) + y div 16) div 16 = x" "4 * (x div 4) + (16 * (x mod 4)) div 16 = x"
    "16 * ((16 * (x mod 4) + y div 16) mod 16) + (4 * (y mod 16) + z div 64) div 4 = y"
    "16 * ((16 * (x mod 4) + y div 16) mod 16) + (4 * (y mod 16)) div 4 = y"
    "64 * ((4 * (y mod 16) + z div 64) mod 4) + z mod 64 = z"
proof -
  have y: "y div 16 < 16" and z: "z div 64 < 4" using split_byte(1) [of y 16 16] split_byte(1) [of z 4 64] assms by simp_all
  note p = pack(1) [OF y] pack(2) [OF y] pack(1) [OF z] pack(2) [OF z]
  have ten: "(16 * q) div 16 = q" "(4 * q) div 4 = q" for q :: nat by simp_all
  show "4 * (x div 4) + (16 * (x mod 4) + y div 16) div 16 = x" "4 * (x div 4) + (16 * (x mod 4)) div 16 = x"
    unfolding p ten by (rule mult_div_mod_eq)+
  show "16 * ((16 * (x mod 4) + y div 16) mod 16) + (4 * (y mod 16) + z div 64) div 4 = y"
    "16 * ((16 * (x mod 4) + y div 16) mod 16) + (4 * (y mod 16)) div 4 = y"
    unfolding p ten by (rule mult_div_mod_eq)+
  show "64 * ((4 * (y mod 16) + z div 64) mod 4) + z mod 64 = z"
    unfolding p by (rule mult_div_mod_eq)
qed

lemma base64_group_decode:
  "base64_decode (base64_group [a] @ cs) = a # base64_decode cs"
  "base64_decode (base64_group [a, b] @ cs) = a # b # base64_decode cs"
  "base64_decode (base64_group [a, b, c] @ cs) = a # b # c # base64_decode cs"
proof -
  note lt = byte_char(2) [of a] byte_char(2) [of b] byte_char(2) [of c]
  note i = base64_index [OF sextets(1) [OF lt]] base64_index [OF sextets(2) [OF lt]] base64_index [OF sextets(3) [OF lt]]
    base64_index [OF sextets(4) [OF lt]] base64_index [OF sextets(5) [OF lt]] base64_index [OF sextets(6) [OF lt]]
  note d = i from_sextets [OF lt]
  show "base64_decode (base64_group [a] @ cs) = a # base64_decode cs"
    unfolding base64_group_eq append_Cons append_Nil base64_decode.simps Let_def d by simp
  show "base64_decode (base64_group [a, b] @ cs) = a # b # base64_decode cs"
    unfolding base64_group_eq append_Cons append_Nil base64_decode.simps Let_def d by (simp add: d)
  show "base64_decode (base64_group [a, b, c] @ cs) = a # b # c # base64_decode cs"
    unfolding base64_group_eq append_Cons append_Nil base64_decode.simps Let_def d by (simp add: d)
qed

lemma base64_group_chars:
  assumes "input \<in> {[a], [a, b], [a, b, c]}"
  shows "set (base64_group input) \<subseteq> set kBase64Chars \<union> {CHR ''=''}" "length (base64_group input) = 4"
proof -
  note lt = byte_char(2) [of a] byte_char(2) [of b] byte_char(2) [of c]
  show "set (base64_group input) \<subseteq> set kBase64Chars \<union> {CHR ''=''}" "length (base64_group input) = 4"
    using assms sextets [OF lt, THEN base64_index(3)] by (auto simp: base64_group_eq)
qed

lemma Base64_decodes: "base64_decode (Base64Encode input) = input"
  by (induction input rule: Base64Encode.induct [case_names three none one two])
    (use base64_group_decode(1) [of _ "[]"] base64_group_decode(2) [of _ _ "[]"] in
      \<open>simp_all add: base64_group_decode(3)\<close>)

text \<open>
  C22. Base64 is lossless: decoding gives the input back, for every string of bytes; the text has four
  characters for every three bytes begun, each of the alphabet or the padding.
\<close>

theorem base64_roundtrip:
  "base64_decode (Base64Encode input) = input \<and>
   length (Base64Encode input) = 4 * ((length input + 2) div 3) \<and>
   set (Base64Encode input) \<subseteq> set kBase64Chars \<union> {CHR ''=''}"
proof (induction input rule: Base64Encode.induct [case_names three none one two])
  case (three a b c input)
  have "(length (a # b # c # input) + 2) div 3 = Suc ((length input + 2) div 3)" by simp
  with three show ?case
    using base64_group_chars [of "[a, b, c]" a b c] by (simp add: base64_group_decode(3) del: length_Cons)
next
  case none
  show ?case by simp
next
  case (one v)
  show ?case using base64_group_chars [of "[v]" v] base64_group_decode(1) [of v "[]"] by simp
next
  case (two v va)
  show ?case using base64_group_chars [of "[v, va]" v va] base64_group_decode(2) [of v va "[]"] by simp
qed

end
