(* ===== verification/HttpClient.thy ===== *)
theory HttpClient
  imports ResourcePools RuntimeUtilities
begin

text \<open>
  src/src/utilities/http_client: the requests and results of http_client.h and the client of
  curl_http_client.cpp. What the client sees of the outside (the clock, whether the pool gives a handle,
  the transfers of libcurl) depends on what happened before: the state of the model is the list of the
  events so far, and the environment is functions of that list. Times are in milliseconds, the clock in
  nanoseconds.
\<close>

section \<open>Requests and results\<close>

datatype HttpMethod = kGet | kPost | kPut | kDelete | kPatch | kHead

record HttpHeader =
  hh_name :: string
  hh_value :: string

record HttpRequest =
  hq_method :: HttpMethod
  hq_url :: string
  hq_headers :: "HttpHeader list"
  hq_body :: string
  hq_timeout :: "int option"

record HttpResponse =
  hs_status_code :: int
  hs_headers :: "HttpHeader list"
  hs_body :: string

datatype HttpErrorCode = kNone | kPoolAcquireTimeout | kTransportError | kHttpStatusError | kInvalidArgument

record HttpResult =
  hr_error_code :: HttpErrorCode
  hr_error_message :: string
  hr_response :: HttpResponse

definition HttpRequest_default :: HttpRequest where
  "HttpRequest_default = \<lparr>hq_method = kGet, hq_url = [], hq_headers = [], hq_body = [], hq_timeout = None\<rparr>"

definition HttpResponse_default :: HttpResponse where
  "HttpResponse_default = \<lparr>hs_status_code = 0, hs_headers = [], hs_body = []\<rparr>"

definition HttpResult_default :: HttpResult where
  "HttpResult_default = \<lparr>hr_error_code = kNone, hr_error_message = [], hr_response = HttpResponse_default\<rparr>"

definition HttpResult_ok :: "HttpResult \<Rightarrow> bool" where
  "HttpResult_ok result \<longleftrightarrow> hr_error_code result = kNone"

text \<open>\<open>Get\<close> and \<open>Post\<close> of the interface build the request that \<open>Execute\<close> runs.\<close>

definition GetRequest :: "string \<Rightarrow> HttpHeader list \<Rightarrow> int option \<Rightarrow> HttpRequest" where
  "GetRequest url headers timeout =
     HttpRequest_default\<lparr>hq_method := kGet, hq_url := url, hq_headers := headers, hq_timeout := timeout\<rparr>"

definition PostRequest :: "string \<Rightarrow> string \<Rightarrow> HttpHeader list \<Rightarrow> int option \<Rightarrow> HttpRequest" where
  "PostRequest url body headers timeout =
     HttpRequest_default\<lparr>hq_method := kPost, hq_url := url, hq_headers := headers, hq_body := body,
       hq_timeout := timeout\<rparr>"

section \<open>Configuration\<close>

record RetryConfig =
  rc_max_attempts :: int
  rc_delay :: int

definition RetryConfig_default :: RetryConfig where
  "RetryConfig_default = \<lparr>rc_max_attempts = 1, rc_delay = 0\<rparr>"

record CurlConfig =
  cc_pool_size :: nat
  cc_acquire_timeout :: int
  cc_request_timeout :: int
  cc_connect_timeout :: int
  cc_acquire_retry :: RetryConfig
  cc_connect_retry :: RetryConfig
  cc_request_retry :: RetryConfig
  cc_follow_redirects :: bool
  cc_verify_ssl :: bool
  cc_ca_cert_path :: string
  cc_resolve_hosts :: "string list"

definition CurlConfig_default :: CurlConfig where
  "CurlConfig_default =
     \<lparr>cc_pool_size = 4, cc_acquire_timeout = 1000, cc_request_timeout = 5000, cc_connect_timeout = 1000,
      cc_acquire_retry = RetryConfig_default, cc_connect_retry = RetryConfig_default,
      cc_request_retry = RetryConfig_default, cc_follow_redirects = True, cc_verify_ssl = True,
      cc_ca_cert_path = [], cc_resolve_hosts = []\<rparr>"

definition ValidateRetryConfig :: "string \<Rightarrow> RetryConfig \<Rightarrow> unit throws" where
  "ValidateRetryConfig name rc =
     (if rc_max_attempts rc \<le> 0 then Inl (InvalidArgument (name @ ''.max_attempts must be greater than 0''))
      else if rc_delay rc < 0 then Inl (InvalidArgument (name @ ''.delay must not be negative''))
      else Inr ())"

definition ValidateCurlHttpClientConfig :: "CurlConfig \<Rightarrow> unit throws" where
  "ValidateCurlHttpClientConfig config =
     (case ValidateRetryConfig ''CurlHttpClient acquire_retry'' (cc_acquire_retry config) of
        Inl e \<Rightarrow> Inl e
      | Inr _ \<Rightarrow>
          (case ValidateRetryConfig ''CurlHttpClient connect_retry'' (cc_connect_retry config) of
             Inl e \<Rightarrow> Inl e
           | Inr _ \<Rightarrow> ValidateRetryConfig ''CurlHttpClient request_retry'' (cc_request_retry config)))"

definition CreateCurlHandlePoolConfig :: "CurlConfig \<Rightarrow> PoolConfig" where
  "CreateCurlHandlePoolConfig config =
     \<lparr>pc_pool_size = cc_pool_size config, pc_acquire_timeout = cc_acquire_timeout config\<rparr>"

record 'c CurlHttpClient =
  ch_config :: CurlConfig
  ch_pool :: "'c ResourcePool"

definition CurlHttpClient_create :: "bool \<Rightarrow> (nat \<Rightarrow> 'c option) \<Rightarrow> CurlConfig \<Rightarrow> 'c CurlHttpClient throws" where
  "CurlHttpClient_create init_ok easy_init config =
     (case CurlHandlePool_create init_ok easy_init (CreateCurlHandlePoolConfig config) of
        Inl e \<Rightarrow> Inl e
      | Inr pool \<Rightarrow>
          (case ValidateCurlHttpClientConfig config of
             Inl e \<Rightarrow> Inl e
           | Inr _ \<Rightarrow> Inr \<lparr>ch_config = config, ch_pool = pool\<rparr>))"

definition CurlHttpClient_of_pool :: "'c ResourcePool option \<Rightarrow> CurlConfig \<Rightarrow> 'c CurlHttpClient throws" where
  "CurlHttpClient_of_pool pool config =
     (case pool of
        None \<Rightarrow> Inl (InvalidArgument ''CurlHttpClient pool must not be null'')
      | Some pool \<Rightarrow>
          (case ValidateCurlHttpClientConfig config of
             Inl e \<Rightarrow> Inl e
           | Inr _ \<Rightarrow> Inr \<lparr>ch_config = config, ch_pool = pool\<rparr>))"

section \<open>Transfers\<close>

datatype CURLcode =
  CURLE_OK | CURLE_COULDNT_RESOLVE_PROXY | CURLE_COULDNT_RESOLVE_HOST | CURLE_COULDNT_CONNECT |
  CURLE_SSL_CONNECT_ERROR | CURLE_SEND_ERROR | CURLE_RECV_ERROR | CURLE_GOT_NOTHING | CURLE_PARTIAL_FILE |
  CURLE_OPERATION_TIMEDOUT | CURLE_OTHER int

text \<open>The options set on a handle before it performs.\<close>

datatype CurlMethod = OptHttpGet | OptPost | OptNoBody | OptCustomRequest string

record CurlTransfer =
  ct_url :: string
  ct_follow_location :: bool
  ct_verify_peer :: int
  ct_verify_host :: int
  ct_ca_info :: "string option"
  ct_ca_path :: "string option"
  ct_connect_timeout :: int
  ct_timeout :: int
  ct_headers :: "string list"
  ct_resolve :: "string list"
  ct_method :: CurlMethod
  ct_post_fields :: "string option"

text \<open>
  What a transfer does to the client: its code, the response code \<open>curl_easy_getinfo\<close> gives after it, the
  chunks handed to the body callback, the lines handed to the header callback, the error buffer.
\<close>

record CurlOutcome =
  co_code :: CURLcode
  co_response_code :: int
  co_body_chunks :: "string list"
  co_header_lines :: "string list"
  co_error_buffer :: string

datatype RetryStage = StageNone | StageConnect | StageRequest

definition WriteBodyCallback :: "string \<Rightarrow> string \<Rightarrow> string" where
  "WriteBodyCallback chunk body = body @ chunk"

definition kHttpPrefix :: string where
  "kHttpPrefix = ''HTTP/''"

definition WriteHeaderCallback :: "string \<Rightarrow> HttpHeader list \<Rightarrow> HttpHeader list" where
  "WriteHeaderCallback bytes headers =
     (let line = TrimWhitespace bytes in
      if line = [] \<or> take (length kHttpPrefix) line = kHttpPrefix then headers
      else if CHR '':'' \<notin> set line then headers
      else headers @ [\<lparr>hh_name = TrimWhitespace (takeWhile (\<lambda>c. c \<noteq> CHR '':'') line),
                        hh_value = TrimWhitespace (tl (dropWhile (\<lambda>c. c \<noteq> CHR '':'') line))\<rparr>])"

fun MethodName :: "HttpMethod \<Rightarrow> string" where
  "MethodName kGet = ''GET''"
| "MethodName kPost = ''POST''"
| "MethodName kPut = ''PUT''"
| "MethodName kDelete = ''DELETE''"
| "MethodName kPatch = ''PATCH''"
| "MethodName kHead = ''HEAD''"

definition MethodAllowsBody :: "HttpMethod \<Rightarrow> bool" where
  "MethodAllowsBody m \<longleftrightarrow> m = kPost \<or> m = kPut \<or> m = kPatch \<or> m = kDelete"

fun ConfigureMethod :: "HttpMethod \<Rightarrow> CurlMethod" where
  "ConfigureMethod kGet = OptHttpGet"
| "ConfigureMethod kPost = OptPost"
| "ConfigureMethod kHead = OptNoBody"
| "ConfigureMethod m = OptCustomRequest (MethodName m)"

definition ConfigureBody :: "HttpRequest \<Rightarrow> string option" where
  "ConfigureBody request = (if MethodAllowsBody (hq_method request) then Some (hq_body request) else None)"

definition kMinHttpStatusCode :: int where "kMinHttpStatusCode = 100"

definition kMaxHttpStatusCode :: int where "kMaxHttpStatusCode = 599"

definition IsSupportedHttpStatusCode :: "int \<Rightarrow> bool" where
  "IsSupportedHttpStatusCode status \<longleftrightarrow> kMinHttpStatusCode \<le> status \<and> status \<le> kMaxHttpStatusCode"

definition IsRetryableConnectError :: "CURLcode \<Rightarrow> bool" where
  "IsRetryableConnectError code \<longleftrightarrow>
     code = CURLE_COULDNT_RESOLVE_PROXY \<or> code = CURLE_COULDNT_RESOLVE_HOST \<or> code = CURLE_COULDNT_CONNECT \<or>
     code = CURLE_SSL_CONNECT_ERROR"

definition IsRetryableRequestError :: "CURLcode \<Rightarrow> bool" where
  "IsRetryableRequestError code \<longleftrightarrow>
     code = CURLE_SEND_ERROR \<or> code = CURLE_RECV_ERROR \<or> code = CURLE_GOT_NOTHING \<or>
     code = CURLE_PARTIAL_FILE \<or> code = CURLE_OPERATION_TIMEDOUT"

definition IsRetryableHttpStatus :: "int \<Rightarrow> bool" where
  "IsRetryableHttpStatus status \<longleftrightarrow> status = 429 \<or> 500 \<le> status"

definition CreateInvalidArgumentResult :: "string \<Rightarrow> HttpResult" where
  "CreateInvalidArgumentResult message =
     HttpResult_default\<lparr>hr_error_code := kInvalidArgument, hr_error_message := message\<rparr>"

definition CreateUnsupportedHttpStatusResult :: "int \<Rightarrow> HttpResponse \<Rightarrow> HttpResult" where
  "CreateUnsupportedHttpStatusResult status response =
     HttpResult_default\<lparr>hr_error_code := kTransportError,
       hr_error_message := ''HTTP response status is outside supported range: '' @ show_int status,
       hr_response := response\<rparr>"

definition CreateDeadlineExceededResult :: HttpResult where
  "CreateDeadlineExceededResult =
     HttpResult_default\<lparr>hr_error_code := kTransportError,
       hr_error_message := ''HTTP request timed out before retry attempt''\<rparr>"

definition MinTimeout :: "int \<Rightarrow> int \<Rightarrow> int" where
  "MinTimeout a b = (if a \<le> b then a else b)"

section \<open>One attempt\<close>

datatype HttpEvent =
  ClockRead int | HandleAcquired int | AcquireTimedOut int | HandleReleased | Appended string bool |
  Performed CurlTransfer CurlOutcome | Slept int

type_synonym HttpLog = "HttpEvent list"

record HttpEnv =
  he_clock :: "HttpLog \<Rightarrow> int"
  he_acquire :: "HttpLog \<Rightarrow> int \<Rightarrow> bool"
  he_append :: "HttpLog \<Rightarrow> string \<Rightarrow> bool"
  he_perform :: "HttpLog \<Rightarrow> CurlTransfer \<Rightarrow> CurlOutcome"
  he_strerror :: "CURLcode \<Rightarrow> string"

definition RemainingTimeout :: "HttpEnv \<Rightarrow> int option \<Rightarrow> HttpLog \<Rightarrow> int option \<times> HttpLog" where
  "RemainingTimeout env deadline log =
     (case deadline of
        None \<Rightarrow> (None, log)
      | Some d \<Rightarrow>
          (let now = he_clock env log; log = log @ [ClockRead now]; remaining = d - now in
           if remaining \<le> 0 then (Some 0, log)
           else
             (let remaining_ms = remaining div 1000000 in
              if remaining_ms \<le> 0 then (Some 0, log) else (Some remaining_ms, log))))"

definition HasTimeRemaining :: "HttpEnv \<Rightarrow> int option \<Rightarrow> HttpLog \<Rightarrow> bool \<times> HttpLog" where
  "HasTimeRemaining env deadline log =
     (case RemainingTimeout env deadline log of
        (None, log) \<Rightarrow> (True, log)
      | (Some remaining, log) \<Rightarrow> (0 < remaining, log))"

definition BoundByDeadline :: "HttpEnv \<Rightarrow> int \<Rightarrow> int option \<Rightarrow> HttpLog \<Rightarrow> int \<times> HttpLog" where
  "BoundByDeadline env timeout deadline log =
     (case RemainingTimeout env deadline log of
        (None, log) \<Rightarrow> (timeout, log)
      | (Some remaining, log) \<Rightarrow> (MinTimeout timeout remaining, log))"

definition SleepBeforeRetry :: "HttpEnv \<Rightarrow> int \<Rightarrow> int option \<Rightarrow> HttpLog \<Rightarrow> HttpLog" where
  "SleepBeforeRetry env delay deadline log =
     (case BoundByDeadline env delay deadline log of
        (bounded, log) \<Rightarrow> if 0 < bounded then log @ [Slept bounded] else log)"

text \<open>A list of headers or hosts, appended one by one; \<open>None\<close> when one cannot be.\<close>

fun AppendAll :: "HttpEnv \<Rightarrow> string list \<Rightarrow> string list \<Rightarrow> HttpLog \<Rightarrow> string list option \<times> HttpLog" where
  "AppendAll env [] made log = (Some made, log)"
| "AppendAll env (v # vs) made log =
     (let ok = he_append env log (c_str v); log = log @ [Appended (c_str v) ok] in
      if ok then AppendAll env vs (made @ [c_str v]) log else (None, log))"

definition serialize_header :: "HttpHeader \<Rightarrow> string" where
  "serialize_header header = hh_name header @ '': '' @ hh_value header"

definition configured_transfer :: "CurlConfig \<Rightarrow> HttpRequest \<Rightarrow> int \<Rightarrow> string list \<Rightarrow> string list \<Rightarrow> CurlTransfer" where
  "configured_transfer config request timeout headers hosts =
     (let ca = cc_ca_cert_path config; ca_dir = parent_path ca in
      \<lparr>ct_url = c_str (hq_url request),
       ct_follow_location = cc_follow_redirects config,
       ct_verify_peer = (if cc_verify_ssl config then 1 else 0),
       ct_verify_host = (if cc_verify_ssl config then 2 else 0),
       ct_ca_info = (if ca \<noteq> [] then Some (c_str ca) else None),
       ct_ca_path = (if ca \<noteq> [] \<and> ca_dir \<noteq> [] then Some (c_str ca_dir) else None),
       ct_connect_timeout = MinTimeout (cc_connect_timeout config) timeout,
       ct_timeout = timeout,
       ct_headers = headers,
       ct_resolve = hosts,
       ct_method = ConfigureMethod (hq_method request),
       ct_post_fields = ConfigureBody request\<rparr>)"

definition received_response :: "CurlOutcome \<Rightarrow> HttpResponse" where
  "received_response out =
     HttpResponse_default\<lparr>hs_body := fold WriteBodyCallback (co_body_chunks out) [],
       hs_headers := fold WriteHeaderCallback (co_header_lines out) []\<rparr>"

text \<open>The result of a transfer and how it may be retried.\<close>

definition attempt_result :: "(CURLcode \<Rightarrow> string) \<Rightarrow> CurlOutcome \<Rightarrow> HttpResult \<times> RetryStage" where
  "attempt_result strerror out =
     (let response = received_response out; code = co_code out; status = co_response_code out in
      if code \<noteq> CURLE_OK then
        (HttpResult_default\<lparr>hr_response := response, hr_error_code := kTransportError,
           hr_error_message :=
             (if c_str (co_error_buffer out) \<noteq> [] then c_str (co_error_buffer out) else strerror code)\<rparr>,
         if code = CURLE_OPERATION_TIMEDOUT \<and> status = 0 then StageConnect
         else if IsRetryableConnectError code then StageConnect
         else if IsRetryableRequestError code then StageRequest
         else StageNone)
      else if \<not> IsSupportedHttpStatusCode status then
        (CreateUnsupportedHttpStatusResult status response, StageNone)
      else
        (let response = response\<lparr>hs_status_code := status\<rparr>;
             result = HttpResult_default\<lparr>hr_response := response\<rparr>
         in if status < 200 \<or> 400 \<le> status then
              (result\<lparr>hr_error_code := kHttpStatusError,
                 hr_error_message := ''HTTP request returned status '' @ show_int status\<rparr>,
               if IsRetryableHttpStatus status then StageRequest else StageNone)
            else (result, StageNone)))"

text \<open>The lease is an argument by value: its handle goes back to the pool when the attempt returns.\<close>

definition PerformOnceWithLease ::
  "HttpEnv \<Rightarrow> CurlConfig \<Rightarrow> HttpRequest \<Rightarrow> int \<Rightarrow> HttpLog \<Rightarrow> (HttpResult \<times> RetryStage) \<times> HttpLog" where
  "PerformOnceWithLease env config request timeout log =
     (case AppendAll env (map serialize_header (hq_headers request)) [] log of
        (None, log) \<Rightarrow>
          ((CreateInvalidArgumentResult ''Failed to allocate curl request header list'', StageNone),
           log @ [HandleReleased])
      | (Some headers, log) \<Rightarrow>
          (case AppendAll env (cc_resolve_hosts config) [] log of
             (None, log) \<Rightarrow>
               ((CreateInvalidArgumentResult ''Failed to allocate curl host resolve list'', StageNone),
                log @ [HandleReleased])
           | (Some hosts, log) \<Rightarrow>
               (let transfer = configured_transfer config request timeout headers hosts;
                    out = he_perform env log transfer
                in (attempt_result (he_strerror env) out, log @ [Performed transfer out, HandleReleased]))))"

section \<open>Execute\<close>

datatype AcquireOutcome = AcquireLease | AcquireNone | AcquireDeadline

text \<open>The attempts to acquire a handle that are left, counted from the current one.\<close>

function AcquireLoop :: "HttpEnv \<Rightarrow> CurlConfig \<Rightarrow> int option \<Rightarrow> int \<Rightarrow> HttpLog \<Rightarrow> AcquireOutcome \<times> HttpLog" where
  "AcquireLoop env config deadline i log =
     (if rc_max_attempts (cc_acquire_retry config) < i then (AcquireNone, log)
      else
        (case BoundByDeadline env (cc_acquire_timeout config) deadline log of
           (timeout, log) \<Rightarrow>
             if timeout \<le> 0 then (AcquireDeadline, log)
             else if he_acquire env log timeout then (AcquireLease, log @ [HandleAcquired timeout])
             else
               (let log = log @ [AcquireTimedOut timeout];
                    log = (if i < rc_max_attempts (cc_acquire_retry config)
                           then SleepBeforeRetry env (rc_delay (cc_acquire_retry config)) deadline log else log)
                in AcquireLoop env config deadline (i + 1) log)))"
  by pat_completeness auto
termination
  by (relation "measure (\<lambda>(env, config, deadline, i, log). nat (rc_max_attempts (cc_acquire_retry config) + 1 - i))")
    auto

declare AcquireLoop.simps [simp del]

text \<open>One turn of the loop: the result it returns, or the failed result and the stage to retry.\<close>

definition ExecuteTurn ::
  "HttpEnv \<Rightarrow> CurlConfig \<Rightarrow> HttpRequest \<Rightarrow> int option \<Rightarrow> HttpLog \<Rightarrow> (HttpResult + HttpResult \<times> RetryStage) \<times> HttpLog" where
  "ExecuteTurn env config request deadline log =
     (case HasTimeRemaining env deadline log of
        (False, log) \<Rightarrow> (Inl CreateDeadlineExceededResult, log)
      | (True, log) \<Rightarrow>
          (case AcquireLoop env config deadline 1 log of
             (AcquireDeadline, log) \<Rightarrow> (Inl CreateDeadlineExceededResult, log)
           | (AcquireNone, log) \<Rightarrow>
               (Inl (HttpResult_default\<lparr>hr_error_code := kPoolAcquireTimeout,
                  hr_error_message := ''Timed out acquiring curl handle from HTTP pool after '' @
                    show_int (rc_max_attempts (cc_acquire_retry config)) @ '' attempt(s)''\<rparr>), log)
           | (AcquireLease, log) \<Rightarrow>
               (case BoundByDeadline env (cc_request_timeout config) deadline log of
                  (timeout, log) \<Rightarrow>
                    if timeout \<le> 0 then (Inl CreateDeadlineExceededResult, log @ [HandleReleased])
                    else
                      (case PerformOnceWithLease env config request timeout log of
                         ((result, stage), log) \<Rightarrow>
                           if HttpResult_ok result \<or> stage = StageNone then (Inl result, log)
                           else (Inr (result, stage), log)))))"

function ExecuteLoop ::
  "HttpEnv \<Rightarrow> CurlConfig \<Rightarrow> HttpRequest \<Rightarrow> int option \<Rightarrow> int \<Rightarrow> int \<Rightarrow> HttpLog \<Rightarrow> HttpResult \<times> HttpLog" where
  "ExecuteLoop env config request deadline connects requests log =
     (case ExecuteTurn env config request deadline log of
        (Inl result, log) \<Rightarrow> (result, log)
      | (Inr (result, stage), log) \<Rightarrow>
          if stage = StageConnect then
            if rc_max_attempts (cc_connect_retry config) \<le> connects + 1 then (result, log)
            else ExecuteLoop env config request deadline (connects + 1) requests
              (SleepBeforeRetry env (rc_delay (cc_connect_retry config)) deadline log)
          else
            if rc_max_attempts (cc_request_retry config) \<le> requests + 1 then (result, log)
            else ExecuteLoop env config request deadline connects (requests + 1)
              (SleepBeforeRetry env (rc_delay (cc_request_retry config)) deadline log))"
  by pat_completeness auto
termination
  by (relation "measure (\<lambda>(env, config, request, deadline, connects, requests, log).
      nat (rc_max_attempts (cc_connect_retry config) - connects) +
      nat (rc_max_attempts (cc_request_retry config) - requests))") auto

declare ExecuteLoop.simps [simp del]

definition Execute :: "HttpEnv \<Rightarrow> CurlConfig \<Rightarrow> HttpRequest \<Rightarrow> HttpLog \<Rightarrow> HttpResult \<times> HttpLog" where
  "Execute env config request log =
     (if hq_url request = [] then (CreateInvalidArgumentResult ''HTTP request URL must not be empty'', log)
      else
        (case hq_timeout request of
           None \<Rightarrow> ExecuteLoop env config request None 0 0 log
         | Some timeout \<Rightarrow>
             (let now = he_clock env log in
              ExecuteLoop env config request (Some (now + timeout * 1000000)) 0 0 (log @ [ClockRead now]))))"

section \<open>What a call may do\<close>

text \<open>
  Specification of a run: every wait and every transfer is bounded by its configured timeout and ends,
  counted from the clock's last reading, by the deadline.
\<close>

definition by_deadline :: "int option \<Rightarrow> int option \<Rightarrow> int \<Rightarrow> bool" where
  "by_deadline deadline now timeout \<longleftrightarrow>
     (case deadline of
        None \<Rightarrow> True
      | Some d \<Rightarrow> (case now of None \<Rightarrow> False | Some t \<Rightarrow> t + timeout * 1000000 \<le> d))"

fun in_budget :: "CurlConfig \<Rightarrow> int option \<Rightarrow> int option \<Rightarrow> HttpLog \<Rightarrow> bool" where
  "in_budget config deadline now [] \<longleftrightarrow> True"
| "in_budget config deadline now (ClockRead t # es) \<longleftrightarrow> in_budget config deadline (Some t) es"
| "in_budget config deadline now (HandleAcquired timeout # es) \<longleftrightarrow>
     0 < timeout \<and> timeout \<le> cc_acquire_timeout config \<and> by_deadline deadline now timeout \<and>
     in_budget config deadline now es"
| "in_budget config deadline now (AcquireTimedOut timeout # es) \<longleftrightarrow>
     0 < timeout \<and> timeout \<le> cc_acquire_timeout config \<and> by_deadline deadline now timeout \<and>
     in_budget config deadline now es"
| "in_budget config deadline now (Performed transfer out # es) \<longleftrightarrow>
     0 < ct_timeout transfer \<and> ct_timeout transfer \<le> cc_request_timeout config \<and>
     ct_connect_timeout transfer \<le> cc_connect_timeout config \<and>
     ct_connect_timeout transfer \<le> ct_timeout transfer \<and> by_deadline deadline now (ct_timeout transfer) \<and>
     in_budget config deadline now es"
| "in_budget config deadline now (Slept d # es) \<longleftrightarrow>
     0 < d \<and> by_deadline deadline now d \<and> in_budget config deadline now es"
| "in_budget config deadline now (e # es) \<longleftrightarrow> in_budget config deadline now es"

text \<open>
  Every sleep is paid for by a failure right before it and at most as long as the delay configured for that
  failure: of the wait for a handle, of the connection, or of the request. \<open>delay\<close> is what may be
  slept next.
\<close>

definition connect_failed :: "CurlOutcome \<Rightarrow> bool" where
  "connect_failed out \<longleftrightarrow>
     co_code out = CURLE_OPERATION_TIMEDOUT \<and> co_response_code out = 0 \<or> IsRetryableConnectError (co_code out)"

definition retry_delay :: "CurlConfig \<Rightarrow> CurlOutcome \<Rightarrow> int" where
  "retry_delay config out =
     rc_delay (if connect_failed out then cc_connect_retry config else cc_request_retry config)"

fun delay_after :: "CurlConfig \<Rightarrow> int \<Rightarrow> HttpLog \<Rightarrow> int" where
  "delay_after config delay [] = delay"
| "delay_after config delay (AcquireTimedOut timeout # es) = delay_after config (rc_delay (cc_acquire_retry config)) es"
| "delay_after config delay (Performed transfer out # es) = delay_after config (retry_delay config out) es"
| "delay_after config delay (HandleAcquired timeout # es) = delay_after config 0 es"
| "delay_after config delay (Slept d # es) = delay_after config 0 es"
| "delay_after config delay (e # es) = delay_after config delay es"

fun paced :: "CurlConfig \<Rightarrow> int \<Rightarrow> HttpLog \<Rightarrow> bool" where
  "paced config delay [] \<longleftrightarrow> True"
| "paced config delay (Slept d # es) \<longleftrightarrow> d \<le> delay \<and> paced config 0 es"
| "paced config delay (e # es) \<longleftrightarrow> paced config (delay_after config delay [e]) es"

text \<open>Whether the call holds a handle after the events; \<open>None\<close> when it misused one.\<close>

fun handle_state :: "bool \<Rightarrow> HttpLog \<Rightarrow> bool option" where
  "handle_state h [] = Some h"
| "handle_state h (HandleAcquired timeout # es) = (if h then None else handle_state True es)"
| "handle_state h (HandleReleased # es) = (if h then handle_state False es else None)"
| "handle_state h (Performed transfer out # es) = (if h then handle_state h es else None)"
| "handle_state h (AcquireTimedOut timeout # es) = (if h then None else handle_state h es)"
| "handle_state h (Slept d # es) = (if h then None else handle_state h es)"
| "handle_state h (e # es) = handle_state h es"

text \<open>The outcomes of the transfers.\<close>

fun performed :: "HttpLog \<Rightarrow> CurlOutcome list" where
  "performed [] = []"
| "performed (Performed transfer out # es) = out # performed es"
| "performed (e # es) = performed es"

fun last_reading :: "int option \<Rightarrow> HttpLog \<Rightarrow> int option" where
  "last_reading now [] = now"
| "last_reading now (ClockRead t # es) = last_reading (Some t) es"
| "last_reading now (e # es) = last_reading now es"

lemma performed_append [simp]: "performed (es @ fs) = performed es @ performed fs"
  by (induction es rule: performed.induct) simp_all

lemma handle_state_append [simp]: "handle_state h (es @ fs) = Option.bind (handle_state h es) (\<lambda>h. handle_state h fs)"
  by (induction h es rule: handle_state.induct) simp_all

lemma in_budget_append [simp]:
  "in_budget config deadline now (es @ fs) \<longleftrightarrow>
     in_budget config deadline now es \<and> in_budget config deadline (last_reading now es) fs"
  by (induction config deadline now es rule: in_budget.induct) auto

lemma in_budget_later: "in_budget config deadline None es \<Longrightarrow> in_budget config deadline now es"
proof (induction config deadline "None :: int option" es rule: in_budget.induct)
qed (auto simp: by_deadline_def split: option.splits)

text \<open>A run from one log to a later one that keeps to the budget, with and without a handle at its ends.\<close>

definition runs :: "CurlConfig \<Rightarrow> int option \<Rightarrow> bool \<Rightarrow> bool \<Rightarrow> CurlOutcome list \<Rightarrow> HttpLog \<Rightarrow> HttpLog \<Rightarrow> bool" where
  "runs config deadline h h' outs log log' \<longleftrightarrow>
     (\<exists>es. log' = log @ es \<and> in_budget config deadline None es \<and> handle_state h es = Some h' \<and> performed es = outs)"

lemma runs_refl [simp, intro]: "runs config deadline h h [] log log"
  by (simp add: runs_def)

lemma runs_trans:
  assumes "runs config deadline h h' outs log log'" "runs config deadline h' h'' outs' log' log''"
  shows "runs config deadline h h'' (outs @ outs') log log''"
proof -
  from assms obtain es fs where log: "log' = log @ es" "log'' = log' @ fs"
    and ok: "in_budget config deadline None es" "in_budget config deadline None fs"
    and hs: "handle_state h es = Some h'" "handle_state h' fs = Some h''"
    and outs: "performed es = outs" "performed fs = outs'"
    unfolding runs_def by blast
  have "in_budget config deadline None (es @ fs)" using ok in_budget_later by simp
  then show ?thesis using log hs outs unfolding runs_def by (intro exI [of _ "es @ fs"]) simp
qed

lemma runs_step:
  assumes "log' = log @ es" "in_budget config deadline None es" "handle_state h es = Some h'" "performed es = outs"
  shows "runs config deadline h h' outs log log'"
  using assms unfolding runs_def by blast

text \<open>
  Bounding a timeout reads the clock when there is a deadline; what is bounded may be waited for right
  after that reading.
\<close>

definition bounding :: "int option \<Rightarrow> HttpLog \<Rightarrow> int \<Rightarrow> bool" where
  "bounding deadline es timeout \<longleftrightarrow>
     (\<forall>e \<in> set es. \<exists>t. e = ClockRead t) \<and> by_deadline deadline (last_reading None es) timeout"

lemma clock_reads:
  assumes "\<forall>e \<in> set es. \<exists>t. e = ClockRead t"
  shows "in_budget config deadline now es" "handle_state h es = Some h" "performed es = []"
proof -
  show "in_budget config deadline now es" using assms by (induction es arbitrary: now) auto
  show "handle_state h es = Some h" using assms by (induction es) auto
  show "performed es = []" using assms by (induction es) auto
qed

lemma BoundByDeadline_bounds:
  assumes "BoundByDeadline env timeout deadline log = (bounded, log')"
  shows "\<exists>es. log' = log @ es \<and> bounded \<le> timeout \<and> (0 < bounded \<longrightarrow> bounding deadline es bounded) \<and>
    (\<forall>e \<in> set es. \<exists>t. e = ClockRead t)"
proof (cases deadline)
  case None
  with assms show ?thesis
    by (auto simp: BoundByDeadline_def RemainingTimeout_def bounding_def by_deadline_def)
next
  case (Some d)
  let ?now = "he_clock env log"
  have mul: "(d - ?now) div 1000000 * 1000000 \<le> d - ?now" by linarith
  show ?thesis
  proof (intro exI [of _ "[ClockRead ?now]"] conjI)
    show "log' = log @ [ClockRead ?now]" "bounded \<le> timeout"
      using assms Some by (auto simp: BoundByDeadline_def RemainingTimeout_def Let_def MinTimeout_def split: if_splits)
    show "0 < bounded \<longrightarrow> bounding deadline [ClockRead ?now] bounded"
    proof
      assume pos: "0 < bounded"
      then have "bounded \<le> (d - ?now) div 1000000"
        using assms Some
        by (auto simp: BoundByDeadline_def RemainingTimeout_def Let_def MinTimeout_def split: if_splits)
      then have "bounded * 1000000 \<le> d - ?now" using mul by linarith
      then show "bounding deadline [ClockRead ?now] bounded" by (simp add: bounding_def by_deadline_def Some)
    qed
  qed simp
qed

lemma BoundByDeadline_runs:
  assumes "BoundByDeadline env timeout deadline log = (bounded, log')"
  shows "runs config deadline h h [] log log'" "bounded \<le> timeout"
    "\<lbrakk>0 < bounded; \<And>now. by_deadline deadline now bounded \<Longrightarrow> in_budget config deadline now fs;
      handle_state h fs = Some h'\<rbrakk> \<Longrightarrow> runs config deadline h h' (performed fs) log (log' @ fs)"
proof -
  obtain es where es: "log' = log @ es" "bounded \<le> timeout" "0 < bounded \<longrightarrow> bounding deadline es bounded"
    and reads: "\<forall>e \<in> set es. \<exists>t. e = ClockRead t"
    using BoundByDeadline_bounds [OF assms] by blast
  note quiet = clock_reads [OF reads]
  show "runs config deadline h h [] log log'" using es(1) quiet by (intro runs_step)
  show "bounded \<le> timeout" by (rule es(2))
  assume pos: "0 < bounded" and fs: "\<And>now. by_deadline deadline now bounded \<Longrightarrow> in_budget config deadline now fs"
    and hs: "handle_state h fs = Some h'"
  have "by_deadline deadline (last_reading None es) bounded" using es(3) pos by (simp add: bounding_def)
  then have "in_budget config deadline None (es @ fs)" using quiet(1) fs by simp
  moreover have "handle_state h (es @ fs) = Some h'" "performed (es @ fs) = performed fs" using quiet hs by simp_all
  ultimately show "runs config deadline h h' (performed fs) log (log' @ fs)"
    using es(1) by (intro runs_step [of _ _ "es @ fs"]) simp_all
qed

lemma HasTimeRemaining_runs:
  assumes "HasTimeRemaining env deadline log = (b, log')"
  shows "runs config deadline h h [] log log'"
proof (cases deadline)
  case None
  with assms show ?thesis by (simp add: HasTimeRemaining_def RemainingTimeout_def)
next
  case (Some d)
  with assms have "log' = log @ [ClockRead (he_clock env log)]"
    by (auto simp: HasTimeRemaining_def RemainingTimeout_def Let_def split: if_splits)
  then show ?thesis by (rule runs_step) simp_all
qed

lemma SleepBeforeRetry_runs: "runs config deadline False False [] log (SleepBeforeRetry env delay deadline log)"
proof -
  obtain bounded log' where b: "BoundByDeadline env delay deadline log = (bounded, log')" by fastforce
  note r = BoundByDeadline_runs [OF b]
  show ?thesis
  proof (cases "0 < bounded")
    case True
    with r(3) [where fs = "[Slept bounded]" and h = False and h' = False and config = config] show ?thesis by (simp add: SleepBeforeRetry_def b)
  next
    case False
    with r(1) show ?thesis by (simp add: SleepBeforeRetry_def b)
  qed
qed

lemma AcquireLoop_runs:
  assumes "AcquireLoop env config deadline i log = (outcome, log')"
  shows "runs config deadline False (outcome = AcquireLease) [] log log'"
  using assms
proof (induction env config deadline i log rule: AcquireLoop.induct)
  case (1 env config deadline i log)
  let ?max = "rc_max_attempts (cc_acquire_retry config)"
  show ?case
  proof (cases "?max < i")
    case True
    with "1.prems" show ?thesis by (subst (asm) AcquireLoop.simps) auto
  next
    case False
    obtain timeout log1 where b: "BoundByDeadline env (cc_acquire_timeout config) deadline log = (timeout, log1)"
      by fastforce
    note r = BoundByDeadline_runs [OF b]
    note prems = "1.prems" [unfolded AcquireLoop.simps [of env config deadline i log] b prod.case Let_def]
    consider (late) "timeout \<le> 0" | (got) "0 < timeout" "he_acquire env log1 timeout"
      | (again) "0 < timeout" "\<not> he_acquire env log1 timeout" by linarith
    then show ?thesis
    proof cases
      case late
      with prems False r(1) [where h = False and config = config] show ?thesis by auto
    next
      case got
      with prems False r(2) r(3) [where fs = "[HandleAcquired timeout]" and h = False and h' = True and config = config] show ?thesis by auto
    next
      case again
      let ?log2 = "log1 @ [AcquireTimedOut timeout]"
      let ?log3 = "if i < ?max then SleepBeforeRetry env (rc_delay (cc_acquire_retry config)) deadline ?log2 else ?log2"
      have two: "runs config deadline False False [] log ?log2"
        using r(2) r(3) [where fs = "[AcquireTimedOut timeout]" and h = False and h' = False and config = config] again by simp
      have "runs config deadline False False [] ?log2 ?log3" using SleepBeforeRetry_runs by simp
      then have three: "runs config deadline False False [] log ?log3" using runs_trans [OF two] by fastforce
      from prems False again have rest: "AcquireLoop env config deadline (i + 1) ?log3 = (outcome, log')" by simp
      have "runs config deadline False (outcome = AcquireLease) [] ?log3 log'"
        using "1.IH" [OF False b [symmetric] _ _ refl refl] again rest by simp
      then show ?thesis using runs_trans [OF three] by fastforce
    qed
  qed
qed

lemma AppendAll_runs:
  assumes "AppendAll env vs made log = (result, log')"
  shows "\<exists>es. log' = log @ es \<and> (\<forall>now. in_budget config deadline now es) \<and>
    handle_state h es = Some h \<and> performed es = [] \<and> (\<forall>now. last_reading now es = now)"
  using assms
proof (induction env vs made log rule: AppendAll.induct)
  case (2 env v vs made log)
  let ?e = "Appended (c_str v) (he_append env log (c_str v))"
  show ?case
  proof (cases "he_append env log (c_str v)")
    case True
    with "2.prems" obtain es where "log' = (log @ [?e]) @ es" "\<forall>now. in_budget config deadline now es"
      "handle_state h es = Some h" "performed es = []" "\<forall>now. last_reading now es = now"
      using "2.IH" [OF refl refl] by auto
    then show ?thesis by (intro exI [of _ "?e # es"]) simp
  next
    case False
    with "2.prems" show ?thesis by (intro exI [of _ "[?e]"]) (simp add: Let_def)
  qed
qed simp

lemma attempt_result_ok:
  "HttpResult_ok (fst (attempt_result strerror out)) \<longleftrightarrow>
     co_code out = CURLE_OK \<and> 200 \<le> co_response_code out \<and> co_response_code out < 400"
  by (auto simp: attempt_result_def HttpResult_ok_def HttpResult_default_def CreateUnsupportedHttpStatusResult_def
      IsSupportedHttpStatusCode_def kMinHttpStatusCode_def kMaxHttpStatusCode_def Let_def)

lemma attempt_result_retried:
  "snd (attempt_result strerror out) \<noteq> StageNone \<Longrightarrow> \<not> HttpResult_ok (fst (attempt_result strerror out))"
  by (auto simp: attempt_result_def HttpResult_ok_def HttpResult_default_def CreateUnsupportedHttpStatusResult_def
      Let_def split: if_splits)

lemma not_ok_results [simp]:
  "\<not> HttpResult_ok (CreateInvalidArgumentResult message)" "\<not> HttpResult_ok CreateDeadlineExceededResult"
  "\<not> HttpResult_ok (HttpResult_default\<lparr>hr_error_code := kPoolAcquireTimeout, hr_error_message := message\<rparr>)"
  by (simp_all add: HttpResult_ok_def CreateInvalidArgumentResult_def CreateDeadlineExceededResult_def HttpResult_default_def)

text \<open>The result of an attempt, by the transfers it made.\<close>

definition explains :: "(CURLcode \<Rightarrow> string) \<Rightarrow> CurlOutcome list \<Rightarrow> HttpResult \<times> RetryStage \<Rightarrow> bool" where
  "explains strerror outs attempt \<longleftrightarrow>
     (outs = [] \<and> \<not> HttpResult_ok (fst attempt) \<and> snd attempt = StageNone) \<or>
     (\<exists>out. outs = [out] \<and> attempt = attempt_result strerror out)"

lemma PerformOnceWithLease_runs:
  assumes "BoundByDeadline env (cc_request_timeout config) deadline log = (timeout, log1)" "0 < timeout"
    and "PerformOnceWithLease env config request timeout log1 = (attempt, log')"
  shows "\<exists>outs. runs config deadline True False outs log log' \<and> explains (he_strerror env) outs attempt"
proof -
  note r = BoundByDeadline_runs [OF assms(1)]
  obtain headers log2 where h: "AppendAll env (map serialize_header (hq_headers request)) [] log1 = (headers, log2)"
    by fastforce
  obtain hosts log3 where k: "AppendAll env (cc_resolve_hosts config) [] log2 = (hosts, log3)" by fastforce
  from AppendAll_runs [OF h] obtain es where es: "log2 = log1 @ es" "\<forall>now. in_budget config deadline now es"
    "handle_state True es = Some True" "performed es = []" "\<forall>now. last_reading now es = now" by blast
  from AppendAll_runs [OF k] obtain fs where fs: "log3 = log2 @ fs" "\<forall>now. in_budget config deadline now fs"
    "handle_state True fs = Some True" "performed fs = []" "\<forall>now. last_reading now fs = now" by blast
  note code = assms(3) [unfolded PerformOnceWithLease_def h prod.case]
  show ?thesis
  proof (cases headers)
    case None
    with code have "log' = log1 @ es @ [HandleReleased]" "\<not> HttpResult_ok (fst attempt)" "snd attempt = StageNone"
      using es(1) by auto
    moreover have "runs config deadline True False [] log (log1 @ es @ [HandleReleased])"
      using r(3) [where fs = "es @ [HandleReleased]" and h = True and h' = False and config = config] assms(2) es by simp
    ultimately show ?thesis unfolding explains_def by blast
  next
    case (Some hs)
    note code = code [unfolded Some option.case k prod.case]
    show ?thesis
    proof (cases hosts)
      case None
      with code have "log' = log1 @ es @ fs @ [HandleReleased]" "\<not> HttpResult_ok (fst attempt)" "snd attempt = StageNone"
        using es(1) fs(1) by auto
      moreover have "runs config deadline True False [] log (log1 @ es @ fs @ [HandleReleased])"
        using r(3) [where fs = "es @ fs @ [HandleReleased]" and h = True and h' = False and config = config] assms(2) es fs
        by simp
      ultimately show ?thesis unfolding explains_def by blast
    next
      case (Some ks)
      let ?transfer = "configured_transfer config request timeout hs ks"
      let ?out = "he_perform env log3 ?transfer"
      let ?fs = "es @ fs @ [Performed ?transfer ?out, HandleReleased]"
      have t: "ct_timeout ?transfer = timeout" "ct_connect_timeout ?transfer \<le> timeout"
        "ct_connect_timeout ?transfer \<le> cc_connect_timeout config"
        by (simp_all add: configured_transfer_def Let_def MinTimeout_def)
      from code Some have "log' = log1 @ ?fs" "attempt = attempt_result (he_strerror env) ?out"
        using es(1) fs(1) by (auto simp: Let_def)
      moreover have "runs config deadline True False [?out] log (log1 @ ?fs)"
        using r(2) r(3) [where fs = ?fs and h = True and h' = False and config = config] assms(2) es fs t by simp
      ultimately show ?thesis unfolding explains_def by blast
    qed
  qed
qed

lemma ExecuteTurn_runs:
  assumes "ExecuteTurn env config request deadline log = (turn, log')"
  shows "\<exists>outs. runs config deadline False False outs log log' \<and>
    (case turn of
       Inl result \<Rightarrow> \<exists>stage. explains (he_strerror env) outs (result, stage) \<and> (HttpResult_ok result \<or> stage = StageNone)
     | Inr attempt \<Rightarrow> explains (he_strerror env) outs attempt \<and> snd attempt \<noteq> StageNone)"
proof -
  obtain left log1 where t: "HasTimeRemaining env deadline log = (left, log1)" by fastforce
  obtain got log2 where a: "AcquireLoop env config deadline 1 log1 = (got, log2)" by fastforce
  obtain timeout log3 where b: "BoundByDeadline env (cc_request_timeout config) deadline log2 = (timeout, log3)"
    by fastforce
  obtain result stage log4 where p: "PerformOnceWithLease env config request timeout log3 = ((result, stage), log4)"
    by (metis prod.exhaust)
  note r1 = HasTimeRemaining_runs [OF t, of config False]
  have r2: "runs config deadline False (got = AcquireLease) [] log log2"
    using runs_trans [OF r1 AcquireLoop_runs [OF a]] by simp
  note code = assms [unfolded ExecuteTurn_def t prod.case a b p]
  have quiet: "explains (he_strerror env) [] (result, StageNone)" if "\<not> HttpResult_ok result" for result
    using that by (simp add: explains_def)
  show ?thesis
  proof (cases left)
    case False
    with code r1 quiet show ?thesis by auto
  next
    case True
    then have left: "left = True" by simp
    note code = code [unfolded left bool.case]
    show ?thesis
    proof (cases got)
      case AcquireLease
      note code = code [unfolded AcquireLease AcquireOutcome.case]
      note r2 = r2 [unfolded AcquireLease simp_thms]
      show ?thesis
      proof (cases "timeout \<le> 0")
        case True
        have r3: "runs config deadline True True [] log2 log3" by (rule BoundByDeadline_runs(1) [OF b])
        have r4: "runs config deadline True False [] log3 (log3 @ [HandleReleased])"
          by (rule runs_step [of _ _ "[HandleReleased]"]) simp_all
        have "runs config deadline False False [] log (log3 @ [HandleReleased])"
          using runs_trans [OF r2 runs_trans [OF r3 r4]] by simp
        with code True quiet show ?thesis by auto
      next
        case False
        then obtain outs where "runs config deadline True False outs log2 log4"
          and ex: "explains (he_strerror env) outs (result, stage)"
          using PerformOnceWithLease_runs [OF b _ p] by auto
        then have "runs config deadline False False outs log log4" using runs_trans [OF r2] by fastforce
        note ends = this ex
        show ?thesis
        proof (cases "HttpResult_ok result \<or> stage = StageNone")
          case True
          with code False have "turn = Inl result" "log' = log4" by simp_all
          with ends True show ?thesis by (simp only: sum.case) blast
        next
          case False
          with code \<open>\<not> timeout \<le> 0\<close> have "turn = Inr (result, stage)" "log' = log4" by simp_all
          with ends False show ?thesis by (simp only: sum.case snd_conv) blast
        qed
      qed
    qed (use code r2 quiet in \<open>auto\<close>)
  qed
qed

text \<open>
  The result of a call by its transfers: all but the last were to be retried, and it succeeds just when
  the last one did, whose result it then is.
\<close>

definition answers :: "(CURLcode \<Rightarrow> string) \<Rightarrow> CurlOutcome list \<Rightarrow> HttpResult \<Rightarrow> bool" where
  "answers strerror outs result \<longleftrightarrow>
     (\<forall>out \<in> set (butlast outs). snd (attempt_result strerror out) \<noteq> StageNone) \<and>
     (HttpResult_ok result \<longleftrightarrow> outs \<noteq> [] \<and> HttpResult_ok (fst (attempt_result strerror (last outs)))) \<and>
     (HttpResult_ok result \<longrightarrow> result = fst (attempt_result strerror (last outs)))"

lemma answers_explained:
  "explains strerror outs (result, stage) \<Longrightarrow> answers strerror outs result"
  unfolding explains_def answers_def by (metis butlast.simps(2) butlast.simps(1) empty_iff empty_set fst_conv last.simps list.distinct(1))

lemma answers_retried:
  assumes "explains strerror outs attempt" "snd attempt \<noteq> StageNone" "answers strerror outs' result"
  shows "answers strerror (outs @ outs') result" "length outs = 1"
proof -
  from assms(1,2) obtain out where out: "outs = [out]" "attempt = attempt_result strerror out"
    by (auto simp: explains_def)
  show "length outs = 1" by (simp add: out)
  have not_ok: "\<not> HttpResult_ok (fst (attempt_result strerror out))"
    using attempt_result_retried assms(2) out(2) by blast
  show "answers strerror (outs @ outs') result"
  proof (cases outs')
    case Nil
    with assms(3) not_ok show ?thesis by (simp add: answers_def out(1))
  next
    case (Cons o' os)
    have eqs: "butlast (outs @ outs') = out # butlast outs'" "last (outs @ outs') = last outs'"
      "outs @ outs' \<noteq> []" "outs' \<noteq> []" by (simp_all add: Cons out(1))
    show ?thesis
      using assms(2,3) eqs(3,4) unfolding answers_def eqs(1,2) out(2) list.set by blast
  qed
qed

lemma ExecuteLoop_runs:
  assumes "ExecuteLoop env config request deadline connects requests log = (result, log')"
    and "connects < rc_max_attempts (cc_connect_retry config)" "requests < rc_max_attempts (cc_request_retry config)"
  shows "\<exists>outs. runs config deadline False False outs log log' \<and> answers (he_strerror env) outs result \<and>
    int (length outs) < rc_max_attempts (cc_connect_retry config) - connects +
      (rc_max_attempts (cc_request_retry config) - requests)"
  using assms
proof (induction env config request deadline connects requests log rule: ExecuteLoop.induct)
  case (1 env config request deadline connects requests log)
  let ?cmax = "rc_max_attempts (cc_connect_retry config)" and ?rmax = "rc_max_attempts (cc_request_retry config)"
  obtain turn log1 where turn: "ExecuteTurn env config request deadline log = (turn, log1)" by fastforce
  from ExecuteTurn_runs [OF turn] obtain outs where r: "runs config deadline False False outs log log1"
    and ex: "case turn of
       Inl result \<Rightarrow> \<exists>stage. explains (he_strerror env) outs (result, stage) \<and> (HttpResult_ok result \<or> stage = StageNone)
     | Inr attempt \<Rightarrow> explains (he_strerror env) outs attempt \<and> snd attempt \<noteq> StageNone" by blast
  note code = "1.prems"(1) [unfolded ExecuteLoop.simps [of env config request deadline connects requests log] turn prod.case]
  show ?case
  proof (cases turn)
    case (Inl res)
    with ex obtain stage where "explains (he_strerror env) outs (res, stage)" by auto
    then have "answers (he_strerror env) outs res" "length outs \<le> 1"
      by (auto intro: answers_explained) (auto simp: explains_def)
    with code Inl r "1.prems"(2,3) show ?thesis by auto
  next
    case (Inr attempt)
    obtain res stage where att: "attempt = (res, stage)" by fastforce
    note ex = ex [unfolded Inr sum.case att snd_conv]
    note code = code [unfolded Inr att sum.case prod.case]
    have one: "length outs = 1" and here: "answers (he_strerror env) outs res"
      using ex by (auto simp: explains_def intro: answers_explained)
    have stop: ?thesis if "result = res" "log' = log1"
      using that r here one "1.prems"(2,3) by auto
    have continue: ?thesis
      if "runs config deadline False False [] log1 log2"
        and "\<exists>outs. runs config deadline False False outs log2 log' \<and> answers (he_strerror env) outs result \<and>
          int (length outs) < ?cmax - connects + (?rmax - requests) - 1" for log2
    proof -
      from that(2) obtain outs' where o: "runs config deadline False False outs' log2 log'"
        "answers (he_strerror env) outs' result" "int (length outs') < ?cmax - connects + (?rmax - requests) - 1" by blast
      have "runs config deadline False False (outs @ outs') log log'"
        using runs_trans [OF r runs_trans [OF that(1) o(1)]] by simp
      moreover have "answers (he_strerror env) (outs @ outs') result"
        using answers_retried(1) ex o(2) by fastforce
      moreover have "int (length (outs @ outs')) < ?cmax - connects + (?rmax - requests)" using o(3) one by simp
      ultimately show ?thesis by blast
    qed
    show ?thesis
    proof (cases "stage = StageConnect")
      case True
      show ?thesis
      proof (cases "?cmax \<le> connects + 1")
        case True
        with code \<open>stage = StageConnect\<close> stop show ?thesis by simp
      next
        case False
        let ?log2 = "SleepBeforeRetry env (rc_delay (cc_connect_retry config)) deadline log1"
        from code True False have "ExecuteLoop env config request deadline (connects + 1) requests ?log2 = (result, log')"
          by simp
        then show ?thesis
          using "1.IH"(1) [OF turn [symmetric] Inr att [symmetric] True False] False "1.prems"(3)
          by (intro continue [OF SleepBeforeRetry_runs]) (simp add: algebra_simps)
      qed
    next
      case False
      note notc = False
      show ?thesis
      proof (cases "?rmax \<le> requests + 1")
        case True
        with code notc stop show ?thesis by simp
      next
        case False
        let ?log2 = "SleepBeforeRetry env (rc_delay (cc_request_retry config)) deadline log1"
        from code notc False have "ExecuteLoop env config request deadline connects (requests + 1) ?log2 = (result, log')"
          by simp
        then show ?thesis
          using "1.IH"(2) [OF turn [symmetric] Inr att [symmetric] notc False] False "1.prems"(2)
          by (intro continue [OF SleepBeforeRetry_runs]) (simp add: algebra_simps)
      qed
    qed
  qed
qed

section \<open>A call of Execute\<close>

definition request_deadline :: "HttpEnv \<Rightarrow> HttpRequest \<Rightarrow> HttpLog \<Rightarrow> int option" where
  "request_deadline env request log = map_option (\<lambda>t. he_clock env log + t * 1000000) (hq_timeout request)"

lemma ValidateRetryConfig_ok: "ValidateRetryConfig name rc = Inr u \<longleftrightarrow> 0 < rc_max_attempts rc \<and> 0 \<le> rc_delay rc"
  by (auto simp: ValidateRetryConfig_def)

lemma ValidateCurlHttpClientConfig_ok:
  assumes "ValidateCurlHttpClientConfig config = Inr u"
  shows "0 < rc_max_attempts (cc_acquire_retry config)" "0 < rc_max_attempts (cc_connect_retry config)"
    "0 < rc_max_attempts (cc_request_retry config)"
  using assms by (auto simp: ValidateCurlHttpClientConfig_def ValidateRetryConfig_ok split: sum.splits)

lemma Execute_runs:
  assumes "ValidateCurlHttpClientConfig config = Inr ()"
  shows "\<exists>outs. runs config (request_deadline env request log) False False outs log (snd (Execute env config request log)) \<and>
    answers (he_strerror env) outs (fst (Execute env config request log)) \<and>
    int (length outs) < rc_max_attempts (cc_connect_retry config) + rc_max_attempts (cc_request_retry config)"
proof -
  note pos = ValidateCurlHttpClientConfig_ok [OF assms]
  note loop = ExecuteLoop_runs [OF surjective_pairing pos(2,3)]
  show ?thesis
  proof (cases "hq_url request = []")
    case True
    have "answers (he_strerror env) [] (CreateInvalidArgumentResult ''HTTP request URL must not be empty'')"
      by (simp add: answers_def)
    then show ?thesis using pos by (intro exI [of _ "[]"]) (simp add: Execute_def True)
  next
    case False
    show ?thesis
    proof (cases "hq_timeout request")
      case None
      with False loop [where env = env and request = request and deadline = None and log = log] show ?thesis by (simp add: Execute_def request_deadline_def)
    next
      case (Some t)
      let ?now = "he_clock env log"
      let ?deadline = "Some (?now + t * 1000000)"
      obtain outs where r: "runs config ?deadline False False outs (log @ [ClockRead ?now])
          (snd (ExecuteLoop env config request ?deadline 0 0 (log @ [ClockRead ?now])))"
        and rest: "answers (he_strerror env) outs (fst (ExecuteLoop env config request ?deadline 0 0 (log @ [ClockRead ?now])))"
          "int (length outs) < rc_max_attempts (cc_connect_retry config) + rc_max_attempts (cc_request_retry config)"
        using loop [where env = env and request = request and deadline = ?deadline and log = "log @ [ClockRead ?now]"] by auto
      have "runs config ?deadline False False [] log (log @ [ClockRead ?now])"
        by (rule runs_step [of _ _ "[ClockRead ?now]"]) simp_all
      from runs_trans [OF this r] rest False Some show ?thesis
        by (auto simp: Execute_def request_deadline_def Let_def)
    qed
  qed
qed

section \<open>Sleeping\<close>

definition paces :: "CurlConfig \<Rightarrow> int \<Rightarrow> int \<Rightarrow> HttpLog \<Rightarrow> HttpLog \<Rightarrow> bool" where
  "paces config d d' log log' \<longleftrightarrow> (\<exists>es. log' = log @ es \<and> paced config d es \<and> delay_after config d es = d')"

lemma delay_after_append [simp]: "delay_after config d (es @ fs) = delay_after config (delay_after config d es) fs"
  by (induction config d es rule: delay_after.induct) simp_all

lemma paced_append [simp]: "paced config d (es @ fs) \<longleftrightarrow> paced config d es \<and> paced config (delay_after config d es) fs"
  by (induction config d es rule: paced.induct) simp_all

lemma paces_trans: "paces config d d' log log' \<Longrightarrow> paces config d' d'' log' log'' \<Longrightarrow> paces config d d'' log log''"
  unfolding paces_def by (metis append.assoc delay_after_append paced_append)

lemma paces_refl [intro]: "paces config d d log log"
  by (simp add: paces_def)

lemma paces_event: "paced config d [e] \<Longrightarrow> paces config d (delay_after config d [e]) log (log @ [e])"
  by (auto simp: paces_def)

lemma RemainingTimeout_paces: "RemainingTimeout env deadline log = (r, log') \<Longrightarrow> paces config d d log log'"
  by (auto simp: RemainingTimeout_def paces_def Let_def split: option.splits if_splits)

lemma BoundByDeadline_paces:
  "BoundByDeadline env timeout deadline log = (bounded, log') \<Longrightarrow> paces config d d log log' \<and> bounded \<le> timeout"
  using RemainingTimeout_paces [of env deadline log]
  by (auto simp: BoundByDeadline_def MinTimeout_def split: prod.splits option.splits)

lemma SleepBeforeRetry_paces: "\<exists>d'. paces config delay d' log (SleepBeforeRetry env delay deadline log)"
proof -
  obtain bounded log' where b: "BoundByDeadline env delay deadline log = (bounded, log')" by fastforce
  note p = BoundByDeadline_paces [OF b, of config delay]
  then have "paces config delay 0 log (log' @ [Slept bounded])"
    using paces_event [of config delay "Slept bounded" log'] paces_trans by fastforce
  with p show ?thesis by (auto simp: SleepBeforeRetry_def b)
qed

lemma AcquireLoop_paces:
  assumes "AcquireLoop env config deadline i log = (outcome, log')"
  shows "\<exists>d'. paces config d d' log log'"
  using assms
proof (induction env config deadline i log arbitrary: d rule: AcquireLoop.induct)
  case (1 env config deadline i log)
  let ?max = "rc_max_attempts (cc_acquire_retry config)" and ?delay = "rc_delay (cc_acquire_retry config)"
  obtain timeout log1 where b: "BoundByDeadline env (cc_acquire_timeout config) deadline log = (timeout, log1)"
    by fastforce
  note p = BoundByDeadline_paces [OF b, of config, THEN conjunct1]
  note prems = "1.prems" [unfolded AcquireLoop.simps [of env config deadline i log] b prod.case Let_def]
  let ?log2 = "log1 @ [AcquireTimedOut timeout]"
  let ?log3 = "if i < ?max then SleepBeforeRetry env ?delay deadline ?log2 else ?log2"
  consider (stop) "?max < i \<or> timeout \<le> 0" | (got) "i \<le> ?max" "0 < timeout" "he_acquire env log1 timeout"
    | (again) "i \<le> ?max" "0 < timeout" "\<not> he_acquire env log1 timeout" by linarith
  then show ?case
  proof cases
    case stop
    with prems p show ?thesis by (auto split: if_splits)
  next
    case got
    with prems have "log' = log1 @ [HandleAcquired timeout]" by auto
    with paces_trans [OF p paces_event [of config d "HandleAcquired timeout" log1]] show ?thesis by auto
  next
    case again
    have two: "paces config d ?delay log ?log2"
      using paces_trans [OF p paces_event [of config d "AcquireTimedOut timeout" log1]] by simp
    obtain d3 where "paces config ?delay d3 ?log2 ?log3"
      using SleepBeforeRetry_paces [of config ?delay ?log2 env deadline] by (cases "i < ?max") auto
    with two have three: "paces config d d3 log ?log3" by (rule paces_trans)
    from prems again have rest: "AcquireLoop env config deadline (i + 1) ?log3 = (outcome, log')" by simp
    have "\<exists>d'. paces config d3 d' ?log3 log'"
      using "1.IH" [OF _ b [symmetric] _ _ refl refl] again rest by simp
    with three show ?thesis by (blast intro: paces_trans)
  qed
qed

lemma AppendAll_paces: "AppendAll env vs made log = (result, log') \<Longrightarrow> paces config d d log log'"
proof (induction env vs made log rule: AppendAll.induct)
  case (2 env v vs made log)
  let ?log1 = "log @ [Appended (c_str v) (he_append env log (c_str v))]"
  have "paces config d d log ?log1"
    using paces_event [of config d "Appended (c_str v) (he_append env log (c_str v))" log] by simp
  with 2 show ?case by (auto simp: Let_def intro: paces_trans split: if_splits)
qed auto

text \<open>The delay of the stage that is to be retried.\<close>

definition stage_delay :: "CurlConfig \<Rightarrow> RetryStage \<Rightarrow> int" where
  "stage_delay config stage = rc_delay (if stage = StageConnect then cc_connect_retry config else cc_request_retry config)"

lemma attempt_stage_delay:
  "snd (attempt_result strerror out) \<noteq> StageNone \<Longrightarrow> retry_delay config out = stage_delay config (snd (attempt_result strerror out))"
  by (auto simp: attempt_result_def retry_delay_def stage_delay_def connect_failed_def IsRetryableConnectError_def Let_def
      split: if_splits)

lemma PerformOnceWithLease_paces:
  assumes "PerformOnceWithLease env config request timeout log = ((result, stage), log')"
  shows "\<exists>d'. paces config d d' log log' \<and> (stage \<noteq> StageNone \<longrightarrow> d' = stage_delay config stage)"
proof -
  obtain headers log2 where h: "AppendAll env (map serialize_header (hq_headers request)) [] log = (headers, log2)"
    by fastforce
  obtain hosts log3 where k: "AppendAll env (cc_resolve_hosts config) [] log2 = (hosts, log3)" by fastforce
  note p2 = AppendAll_paces [OF h, of config d]
  note p3 = paces_trans [OF p2 AppendAll_paces [OF k]]
  have released: "paces config e e l (l @ [HandleReleased])" for e l
    using paces_event [of config e HandleReleased l] by simp
  note code = assms [unfolded PerformOnceWithLease_def h k prod.case Let_def]
  show ?thesis
  proof (cases "headers = None \<or> hosts = None")
    case True
    with code paces_trans [OF p2 released] paces_trans [OF p3 released] show ?thesis
      by (auto split: option.splits)
  next
    case False
    then obtain hs ks where some: "headers = Some hs" "hosts = Some ks" by auto
    let ?transfer = "configured_transfer config request timeout hs ks"
    let ?out = "he_perform env log3 ?transfer"
    have "paces config d (retry_delay config ?out) log (log3 @ [Performed ?transfer ?out])"
      using paces_trans [OF p3 paces_event [of config d "Performed ?transfer ?out" log3]] by simp
    from paces_trans [OF this released]
    have "paces config d (retry_delay config ?out) log (log3 @ [Performed ?transfer ?out, HandleReleased])" by simp
    moreover have "attempt_result (he_strerror env) ?out = (result, stage)"
      "log' = log3 @ [Performed ?transfer ?out, HandleReleased]" using code some by simp_all
    ultimately show ?thesis using attempt_stage_delay [of "he_strerror env" ?out config] by auto
  qed
qed

lemma ExecuteTurn_paces:
  assumes "ExecuteTurn env config request deadline log = (turn, log')"
  shows "\<exists>d'. paces config d d' log log' \<and> (case turn of Inl _ \<Rightarrow> True | Inr (_, stage) \<Rightarrow> d' = stage_delay config stage)"
proof -
  obtain left log1 where t: "HasTimeRemaining env deadline log = (left, log1)" by fastforce
  obtain got log2 where a: "AcquireLoop env config deadline 1 log1 = (got, log2)" by fastforce
  obtain timeout log3 where b: "BoundByDeadline env (cc_request_timeout config) deadline log2 = (timeout, log3)"
    by fastforce
  obtain result stage log4 where p: "PerformOnceWithLease env config request timeout log3 = ((result, stage), log4)"
    by (metis prod.exhaust)
  have p1: "paces config d d log log1"
    using t RemainingTimeout_paces [of env deadline log] by (auto simp: HasTimeRemaining_def split: prod.splits option.splits)
  obtain d2 where "paces config d d2 log1 log2" using AcquireLoop_paces [OF a] by blast
  with p1 have p2: "paces config d d2 log log2" by (rule paces_trans)
  have p3: "paces config d d2 log log3" using paces_trans [OF p2] BoundByDeadline_paces [OF b] by blast
  have p3': "paces config d d2 log (log3 @ [HandleReleased])"
    using paces_trans [OF p3 paces_event [of config d2 HandleReleased log3]] by simp
  obtain d4 where p4: "paces config d2 d4 log3 log4" "stage \<noteq> StageNone \<longrightarrow> d4 = stage_delay config stage"
    using PerformOnceWithLease_paces [OF p] by blast
  note p4' = paces_trans [OF p3 p4(1)]
  note code = assms [unfolded ExecuteTurn_def t prod.case a b p]
  show ?thesis
  proof (cases left)
    case False
    with code p1 show ?thesis by auto
  next
    case True
    with code show ?thesis using p2 p3' p4' p4(2) by (auto split: AcquireOutcome.splits if_splits)
  qed
qed

lemma ExecuteLoop_paces:
  assumes "ExecuteLoop env config request deadline connects requests log = (result, log')"
  shows "\<exists>d'. paces config d d' log log'"
  using assms
proof (induction env config request deadline connects requests log arbitrary: d rule: ExecuteLoop.induct)
  case (1 env config request deadline connects requests log)
  obtain turn log1 where turn: "ExecuteTurn env config request deadline log = (turn, log1)" by fastforce
  obtain d1 where p: "paces config d d1 log log1"
    "case turn of Inl _ \<Rightarrow> True | Inr (_, stage) \<Rightarrow> d1 = stage_delay config stage" using ExecuteTurn_paces [OF turn] by blast
  note code = "1.prems" [unfolded ExecuteLoop.simps [of env config request deadline connects requests log] turn prod.case]
  show ?case
  proof (cases turn)
    case (Inl res)
    with code p(1) show ?thesis by auto
  next
    case (Inr attempt)
    obtain res stage where att: "attempt = (res, stage)" by fastforce
    let ?log2 = "SleepBeforeRetry env d1 deadline log1"
    obtain d2 where "paces config d1 d2 log1 ?log2" using SleepBeforeRetry_paces by blast
    then have p2: "paces config d d2 log ?log2" by (rule paces_trans [OF p(1)])
    have d1: "d1 = stage_delay config stage" using p(2) by (simp add: Inr att)
    note IH = "1.IH" [OF turn [symmetric] Inr att [symmetric]]
    show ?thesis
    proof (cases "stage = StageConnect")
      case True
      with code IH(1) [OF True] p2 p(1) show ?thesis
        by (auto simp: Inr att d1 stage_delay_def split: if_splits) (blast intro: paces_trans)
    next
      case False
      with code IH(2) [OF False] p2 p(1) show ?thesis
        by (auto simp: Inr att d1 stage_delay_def split: if_splits) (blast intro: paces_trans)
    qed
  qed
qed

lemma Execute_paced: "\<exists>es. snd (Execute env config request log) = log @ es \<and> paced config d es"
proof -
  have loop: "\<exists>es. snd (ExecuteLoop env config request deadline 0 0 log1) = log1 @ es \<and> paced config d es" for deadline log1
    using ExecuteLoop_paces [OF surjective_pairing, where env = env and config = config and d = d and request = request
        and deadline = deadline and connects = 0 and requests = 0 and log = log1] by (auto simp: paces_def)
  show ?thesis
  proof (cases "hq_url request = [] \<or> hq_timeout request = None")
    case True
    with loop [of None log] show ?thesis by (auto simp: Execute_def)
  next
    case False
    then obtain t where t: "hq_url request \<noteq> []" "hq_timeout request = Some t" by auto
    let ?now = "he_clock env log"
    from loop [of "Some (?now + t * 1000000)" "log @ [ClockRead ?now]"] t show ?thesis
      by (auto simp: Execute_def Let_def)
  qed
qed


text \<open>
  C25. The result of a call: it is a success just when its last transfer ended with \<open>CURLE_OK\<close> and a status
  of 200 to 399, and then carries that status, the headers and the body received; every transfer before
  the last one had failed in a way that is to be retried.
\<close>

theorem http_execute_answers:
  assumes "ValidateCurlHttpClientConfig config = Inr ()"
    and "Execute env config request [] = (result, log)"
  shows "(HttpResult_ok result \<longleftrightarrow> performed log \<noteq> [] \<and> co_code (last (performed log)) = CURLE_OK \<and>
      200 \<le> co_response_code (last (performed log)) \<and> co_response_code (last (performed log)) < 400) \<and>
    (HttpResult_ok result \<longrightarrow> hr_response result =
      (received_response (last (performed log)))\<lparr>hs_status_code := co_response_code (last (performed log))\<rparr>) \<and>
    (\<forall>out \<in> set (butlast (performed log)).
      IsRetryableConnectError (co_code out) \<or> IsRetryableRequestError (co_code out) \<or>
      co_code out = CURLE_OK \<and> IsRetryableHttpStatus (co_response_code out))"
proof -
  obtain outs where "runs config (request_deadline env request []) False False outs [] log"
    and ans: "answers (he_strerror env) outs result"
    using Execute_runs [OF assms(1), of env request "[]"] assms(2) by auto
  then have outs: "performed log = outs" by (auto simp: runs_def)
  have retried: "IsRetryableConnectError (co_code out) \<or> IsRetryableRequestError (co_code out) \<or>
      co_code out = CURLE_OK \<and> IsRetryableHttpStatus (co_response_code out)"
    if "snd (attempt_result (he_strerror env) out) \<noteq> StageNone" for out
    using that by (auto simp: attempt_result_def Let_def IsRetryableRequestError_def split: if_splits)
  have response: "hr_response (fst (attempt_result (he_strerror env) out)) =
      (received_response out)\<lparr>hs_status_code := co_response_code out\<rparr>"
    if "HttpResult_ok (fst (attempt_result (he_strerror env) out))" for out
    using that [unfolded attempt_result_ok]
    by (simp add: attempt_result_def Let_def IsSupportedHttpStatusCode_def kMinHttpStatusCode_def kMaxHttpStatusCode_def)
  show ?thesis
    using ans retried response unfolding outs answers_def attempt_result_ok [of "he_strerror env"] by metis
qed

text \<open>A server that fails once with 503 and then answers; the second transfer is the result.\<close>

definition witness_env :: HttpEnv where
  "witness_env =
     \<lparr>he_clock = (\<lambda>log. 1000000 * int (length log)), he_acquire = (\<lambda>log timeout. True), he_append = (\<lambda>log v. True),
      he_perform = (\<lambda>log transfer. \<lparr>co_code = CURLE_OK, co_response_code = (if performed log = [] then 503 else 200),
        co_body_chunks = [''o'', ''k''], co_header_lines = [''HTTP/1.1 200'', ''a: b''], co_error_buffer = []\<rparr>),
      he_strerror = (\<lambda>code. ''error'')\<rparr>"

definition witness_config :: CurlConfig where
  "witness_config = CurlConfig_default\<lparr>cc_request_retry := \<lparr>rc_max_attempts = 2, rc_delay = 3\<rparr>\<rparr>"

definition witness_request :: HttpRequest where
  "witness_request = GetRequest ''http://h'' [] (Some 100)"

lemma witness_run:
  "ValidateCurlHttpClientConfig witness_config = Inr ()"
  "HttpResult_ok (fst (Execute witness_env witness_config witness_request []))"
  "map co_response_code (performed (snd (Execute witness_env witness_config witness_request []))) = [503, 200]"
  by code_simp+


lemma http_execute_answers_witness:
  "map co_response_code (performed (snd (Execute witness_env witness_config witness_request []))) = [503, 200] \<and>
   HttpResult_ok (fst (Execute witness_env witness_config witness_request [])) \<and>
   co_code (last (performed (snd (Execute witness_env witness_config witness_request [])))) = CURLE_OK"
  using http_execute_answers [OF witness_run(1) surjective_pairing] witness_run(2,3) by blast

end
