(* ===== verification/ElasticsearchStores.thy ===== *)
theory ElasticsearchStores
  imports HttpClient ItemIndexStore ProfileStores
begin

text \<open>
  src/src/utilities/elasticsearch_client and the two stores on it, elasticsearch_item_index_store.cpp and
  elasticsearch_profile_store.cpp. The HTTP client behind it is a function from a request and a state to a
  result and a state; \<open>Execute\<close> of the curl client is one (the interpretation \<open>curl\<close>), a server in a test
  is another. The id of a user is the \<open>int\<close> of the source, 32 bits.
\<close>

section \<open>The client\<close>

type_synonym int32 = "32 word"

type_synonym 's http_execute = "HttpRequest \<Rightarrow> 's \<Rightarrow> HttpResult \<times> 's"

record ElasticsearchResult =
  er_ok :: bool
  er_status_code :: int
  er_body :: string
  er_error_message :: string

record ElasticsearchConfig =
  ec_base_url :: string
  ec_username :: string
  ec_password :: string
  ec_request_timeout :: "int option"
  ec_http_config :: CurlConfig

definition kDefaultRequestTimeoutMs :: int where "kDefaultRequestTimeoutMs = 100"
definition kDefaultHttpClientAcquireTimeoutMs :: int where "kDefaultHttpClientAcquireTimeoutMs = 30"
definition kDefaultHttpClientRequestTimeoutMs :: int where "kDefaultHttpClientRequestTimeoutMs = 30"
definition kDefaultHttpClientConnectTimeoutMs :: int where "kDefaultHttpClientConnectTimeoutMs = 20"
definition kDefaultHttpClientRetryMaxAttempts :: int where "kDefaultHttpClientRetryMaxAttempts = 3"
definition kDefaultHttpClientRetryDelayMs :: int where "kDefaultHttpClientRetryDelayMs = 0"

definition ElasticsearchConfig_default :: ElasticsearchConfig where
  "ElasticsearchConfig_default =
     (let retry = \<lparr>rc_max_attempts = kDefaultHttpClientRetryMaxAttempts, rc_delay = kDefaultHttpClientRetryDelayMs\<rparr> in
      \<lparr>ec_base_url = [], ec_username = [], ec_password = [],
       ec_request_timeout = Some kDefaultRequestTimeoutMs,
       ec_http_config = CurlConfig_default\<lparr>
         cc_acquire_timeout := kDefaultHttpClientAcquireTimeoutMs,
         cc_request_timeout := kDefaultHttpClientRequestTimeoutMs,
         cc_connect_timeout := kDefaultHttpClientConnectTimeoutMs,
         cc_acquire_retry := retry, cc_connect_retry := retry, cc_request_retry := retry\<rparr>\<rparr>)"

definition ElasticsearchResult_of :: "HttpResult \<Rightarrow> ElasticsearchResult" where
  "ElasticsearchResult_of http_result =
     \<lparr>er_ok = HttpResult_ok http_result,
      er_status_code = hs_status_code (hr_response http_result),
      er_body = hs_body (hr_response http_result),
      er_error_message = hr_error_message http_result\<rparr>"

definition ValidateElasticsearchTimeoutConfig :: "ElasticsearchConfig \<Rightarrow> unit throws" where
  "ValidateElasticsearchTimeoutConfig config =
     (let http = ec_http_config config in
      case ValidateTimeoutNotGreater ''elasticsearch.http_config.connect_timeout'' (cc_connect_timeout http)
             ''elasticsearch.http_config.request_timeout'' (cc_request_timeout http) of
        Inl e \<Rightarrow> Inl e
      | Inr _ \<Rightarrow>
          (case ec_request_timeout config of
             None \<Rightarrow> Inr ()
           | Some budget \<Rightarrow>
               (case ValidateTimeoutNotGreater ''elasticsearch.http_config.acquire_timeout'' (cc_acquire_timeout http)
                       ''elasticsearch.request_timeout'' budget of
                  Inl e \<Rightarrow> Inl e
                | Inr _ \<Rightarrow>
                    (case ValidateTimeoutNotGreater ''elasticsearch.http_config.request_timeout'' (cc_request_timeout http)
                            ''elasticsearch.request_timeout'' budget of
                       Inl e \<Rightarrow> Inl e
                     | Inr _ \<Rightarrow>
                         ValidateTimeoutSumNotGreater
                           ''elasticsearch.http_config.acquire_timeout'' (cc_acquire_timeout http)
                           ''elasticsearch.http_config.request_timeout'' (cc_request_timeout http)
                           ''elasticsearch.request_timeout'' budget))))"

text \<open>The constructor; the client is its configuration with the base URL trimmed.\<close>

definition ElasticsearchClient_new :: "bool \<Rightarrow> ElasticsearchConfig \<Rightarrow> ElasticsearchConfig throws" where
  "ElasticsearchClient_new http_client_is_null config =
     (if http_client_is_null then Inl (InvalidArgument ''ElasticsearchClient http_client must not be null'')
      else
        (let config = config\<lparr>ec_base_url := TrimTrailingSlashes (ec_base_url config)\<rparr> in
         if ec_base_url config = [] then Inl (InvalidArgument ''ElasticsearchClient base_url must not be empty'')
         else (case ValidateElasticsearchTimeoutConfig config of Inl e \<Rightarrow> Inl e | Inr _ \<Rightarrow> Inr config)))"

text \<open>\<open>Create\<close> with a configuration: the curl client it makes, and the client.\<close>

definition ElasticsearchClient_create ::
  "bool \<Rightarrow> (nat \<Rightarrow> 'c option) \<Rightarrow> ElasticsearchConfig \<Rightarrow> ('c CurlHttpClient \<times> ElasticsearchConfig) throws" where
  "ElasticsearchClient_create init_ok easy_init config =
     (case CurlHttpClient_create init_ok easy_init (ec_http_config config) of
        Inl e \<Rightarrow> Inl e
      | Inr http_client \<Rightarrow>
          (case ElasticsearchClient_new False config of
             Inl e \<Rightarrow> Inl e
           | Inr client \<Rightarrow> Inr (http_client, client)))"

definition BuildUrl :: "ElasticsearchConfig \<Rightarrow> string \<Rightarrow> string" where
  "BuildUrl config p = ec_base_url config @ ''/'' @ TrimLeadingSlashes p"

definition BuildHeaders :: "ElasticsearchConfig \<Rightarrow> bool \<Rightarrow> HttpHeader list" where
  "BuildHeaders config has_body =
     [\<lparr>hh_name = ''Accept'', hh_value = ''application/json''\<rparr>] @
     (if has_body then [\<lparr>hh_name = ''Content-Type'', hh_value = ''application/json''\<rparr>] else []) @
     (if ec_username config \<noteq> [] \<or> ec_password config \<noteq> []
      then [\<lparr>hh_name = ''Authorization'',
             hh_value = ''Basic '' @ Base64Encode (ec_username config @ '':'' @ ec_password config)\<rparr>]
      else [])"

definition Es_Health :: "ElasticsearchConfig \<Rightarrow> 's http_execute \<Rightarrow> 's \<Rightarrow> ElasticsearchResult \<times> 's" where
  "Es_Health config http s =
     (case http (GetRequest (BuildUrl config ''/_cluster/health'') (BuildHeaders config False) (ec_request_timeout config)) s of
        (result, s) \<Rightarrow> (ElasticsearchResult_of result, s))"

definition document_request :: "ElasticsearchConfig \<Rightarrow> string \<Rightarrow> string \<Rightarrow> HttpRequest" where
  "document_request config index_name doc =
     GetRequest (BuildUrl config (TrimLeadingSlashes index_name @ ''/_doc/'' @ TrimLeadingSlashes doc))
       (BuildHeaders config False) (ec_request_timeout config)"

definition Es_Get :: "ElasticsearchConfig \<Rightarrow> 's http_execute \<Rightarrow> string \<Rightarrow> string \<Rightarrow> 's \<Rightarrow> ElasticsearchResult \<times> 's" where
  "Es_Get config http index_name doc s =
     (case http (document_request config index_name doc) s of (result, s) \<Rightarrow> (ElasticsearchResult_of result, s))"

definition search_request :: "ElasticsearchConfig \<Rightarrow> string \<Rightarrow> string \<Rightarrow> HttpRequest" where
  "search_request config index_name query_json =
     PostRequest (BuildUrl config (TrimLeadingSlashes index_name @ ''/_search'')) query_json
       (BuildHeaders config True) (ec_request_timeout config)"

definition Es_Search :: "ElasticsearchConfig \<Rightarrow> 's http_execute \<Rightarrow> string \<Rightarrow> string \<Rightarrow> 's \<Rightarrow> ElasticsearchResult \<times> 's" where
  "Es_Search config http index_name query_json s =
     (case http (search_request config index_name query_json) s of (result, s) \<Rightarrow> (ElasticsearchResult_of result, s))"

section \<open>The item index store\<close>

definition kHttpNotFoundStatusCode :: int where "kHttpNotFoundStatusCode = 404"

definition kEsFoundField :: string where "kEsFoundField = ''found''"

definition kEsSourceField :: string where "kEsSourceField = ''_source''"

record ElasticsearchStore =
  es_client :: ElasticsearchConfig
  es_index :: string

definition ElasticsearchItemIndexStore_new :: "ElasticsearchConfig \<Rightarrow> string \<Rightarrow> ElasticsearchStore throws" where
  "ElasticsearchItemIndexStore_new client index_name =
     (if index_name = [] then Inl (RuntimeError ''ElasticsearchItemIndexStore index must not be empty'')
      else Inr \<lparr>es_client = client, es_index = index_name\<rparr>)"

definition ParseItemFromGetResponse :: "fields json_text \<Rightarrow> string \<Rightarrow> ItemIndexEntry option outcome" where
  "ParseItemFromGetResponse to_object response_body =
     andThen (ParseObject to_object response_body ''Elasticsearch response'') (\<lambda>response_fields.
     andThen (RequiredField response_fields ''found'' ''Elasticsearch response'') (\<lambda>found.
       (case found of
          BoolValue b \<Rightarrow>
            if \<not> b then return None
            else
              (case FindField response_fields kEsSourceField of
                 None \<Rightarrow> throw ''Elasticsearch response is missing JSON field: _source''
               | Some (StructValue source) \<Rightarrow>
                   andThen (ParseEntryFromJsonObject source ''Elasticsearch _source'') (\<lambda>entry. return (Some entry))
               | Some _ \<Rightarrow> throw ''Elasticsearch _source field is not a JSON object.'')
        | _ \<Rightarrow> throw ''Elasticsearch response.found must be a bool.'')))"

definition ElasticsearchItemIndexStore_FindByItemId ::
  "fields json_text \<Rightarrow> ElasticsearchStore \<Rightarrow> 's http_execute \<Rightarrow> uint64 \<Rightarrow> 's \<Rightarrow> ItemIndexEntry option outcome \<times> 's" where
  "ElasticsearchItemIndexStore_FindByItemId to_object store http item_id s =
     (case Es_Get (es_client store) http (es_index store) (show_nat (unat item_id)) s of
        (result, s) \<Rightarrow>
          (if \<not> er_ok result then
             if er_status_code result = kHttpNotFoundStatusCode then return None
             else throw (''Failed to fetch item index from Elasticsearch: status='' @ show_int (er_status_code result) @
                    '' error='' @ er_error_message result @ '' body='' @ er_body result)
           else ParseItemFromGetResponse to_object (er_body result), s))"

section \<open>The profile store\<close>

text \<open>Looks a field up and writes its value, or the error, through the pointers.\<close>

definition RequireField :: "fields \<Rightarrow> string \<Rightarrow> string + Value" where
  "RequireField fs name =
     (case map_of fs name of
        None \<Rightarrow> Inl (''Elasticsearch response is missing JSON field: '' @ name)
      | Some value \<Rightarrow> Inr value)"

text \<open>\<open>bool_value()\<close> of a protobuf value is false for a value of another kind.\<close>

definition bool_value :: "Value \<Rightarrow> bool" where
  "bool_value v \<longleftrightarrow> v = BoolValue True"

definition ElasticsearchProfileStore_new :: "ElasticsearchConfig \<Rightarrow> string \<Rightarrow> ElasticsearchStore throws" where
  "ElasticsearchProfileStore_new client index_name =
     (if index_name = [] then Inl (RuntimeError ''ElasticsearchProfileStore index must not be empty'')
      else Inr \<lparr>es_client = client, es_index = index_name\<rparr>)"

text \<open>Returns whether there is a profile, and the profile written.\<close>

definition ParseProfileFromGetResponse ::
  "fields json_text \<Rightarrow> (fields \<Rightarrow> string + string) \<Rightarrow> Profile json_to_message \<Rightarrow> string \<Rightarrow> Profile \<Rightarrow> (bool \<times> Profile) throws" where
  "ParseProfileFromGetResponse to_object to_json parse response_body profile =
     (case to_object response_body of
        Inl status \<Rightarrow> Inl (RuntimeError (''Failed to parse Elasticsearch JSON response: '' @ status))
      | Inr response_fields \<Rightarrow>
          (case RequireField response_fields kEsFoundField of
             Inl error_msg \<Rightarrow> Inl (RuntimeError error_msg)
           | Inr found \<Rightarrow>
               if \<not> bool_value found then Inr (False, profile)
               else
                 (case RequireField response_fields kEsSourceField of
                    Inl error_msg \<Rightarrow> Inl (RuntimeError error_msg)
                  | Inr (StructValue source) \<Rightarrow>
                      (case to_json source of
                         Inl status \<Rightarrow> Inl (RuntimeError (''Failed to serialize Elasticsearch _source JSON: '' @ status))
                       | Inr profile_json \<Rightarrow>
                           (case JsonToPB parse profile_json (Some profile) (Some []) of
                              (ok, profile', error_msg) \<Rightarrow>
                                if ok then Inr (True, the profile')
                                else Inl (RuntimeError (''Failed to parse Profile protobuf: '' @ the error_msg))))
                  | Inr _ \<Rightarrow> Inl (RuntimeError ''Elasticsearch _source field is not a JSON object.''))))"

definition ElasticsearchProfileStore_FindByUserId ::
  "fields json_text \<Rightarrow> (fields \<Rightarrow> string + string) \<Rightarrow> Profile json_to_message \<Rightarrow>
     ElasticsearchStore \<Rightarrow> 's http_execute \<Rightarrow> int32 \<Rightarrow> 's \<Rightarrow> Profile option throws \<times> 's" where
  "ElasticsearchProfileStore_FindByUserId to_object to_json parse store http user_id s =
     (case Es_Get (es_client store) http (es_index store) (show_int (sint user_id)) s of
        (result, s) \<Rightarrow>
          (if \<not> er_ok result then
             if er_status_code result = kHttpNotFoundStatusCode then Inr None
             else Inl (RuntimeError (''Failed to fetch profile from Elasticsearch: status='' @
                    show_int (er_status_code result) @ '' error='' @ er_error_message result @
                    '' body='' @ er_body result))
           else
             (case ParseProfileFromGetResponse to_object to_json parse (er_body result) Profile_default of
                Inl e \<Rightarrow> Inl e
              | Inr (found, profile) \<Rightarrow> Inr (if found then Some profile else None)), s))"

section \<open>HTTP clients\<close>

text \<open>
  What the stores rely on: an HTTP client succeeds only with a status of 200 to 399. So a store answers
  with a document only when the server sent one.
\<close>

locale http_transport =
  fixes http :: "HttpRequest \<Rightarrow> 's \<Rightarrow> HttpResult \<times> 's"
  assumes ok_status: "HttpResult_ok (fst (http request s)) \<Longrightarrow>
    200 \<le> hs_status_code (hr_response (fst (http request s))) \<and> hs_status_code (hr_response (fst (http request s))) < 400"
begin

lemma er_ok_status:
  "er_ok (fst (Es_Get client http index_name doc s)) \<Longrightarrow>
    200 \<le> er_status_code (fst (Es_Get client http index_name doc s)) \<and>
    er_status_code (fst (Es_Get client http index_name doc s)) < 400"
  using ok_status [of "document_request client index_name doc" s]
  by (simp add: Es_Get_def ElasticsearchResult_of_def split: prod.splits)

lemma item_found_status:
  assumes "fst (ElasticsearchItemIndexStore_FindByItemId to_object store http item_id s) = return (Some e)"
  shows "200 \<le> er_status_code (fst (Es_Get (es_client store) http (es_index store) (show_nat (unat item_id)) s)) \<and>
    er_status_code (fst (Es_Get (es_client store) http (es_index store) (show_nat (unat item_id)) s)) < 400"
proof (rule er_ok_status)
  show "er_ok (fst (Es_Get (es_client store) http (es_index store) (show_nat (unat item_id)) s))"
    using assms
    by (auto simp: ElasticsearchItemIndexStore_FindByItemId_def return_def throw_def split: prod.splits if_splits)
qed

end

lemma ExecuteLoop_ok:
  assumes "HttpResult_ok (fst (ExecuteLoop env config request deadline connects requests evs))"
  shows "\<exists>out. fst (ExecuteLoop env config request deadline connects requests evs) = fst (attempt_result (he_strerror env) out)"
  using assms
proof (induction env config request deadline connects requests evs rule: ExecuteLoop.induct)
  case (1 env config request deadline connects requests evs)
  obtain turn evs1 where turn: "ExecuteTurn env config request deadline evs = (turn, evs1)" by fastforce
  from ExecuteTurn_runs [OF turn] obtain outs where
    ex: "case turn of
       Inl result \<Rightarrow> \<exists>stage. explains (he_strerror env) outs (result, stage) \<and> (HttpResult_ok result \<or> stage = StageNone)
     | Inr attempt \<Rightarrow> explains (he_strerror env) outs attempt \<and> snd attempt \<noteq> StageNone" by blast
  note eq = ExecuteLoop.simps [of env config request deadline connects requests evs]
  show ?case
  proof (cases turn)
    case (Inl res)
    with ex obtain stage where "explains (he_strerror env) outs (res, stage)" by auto
    then show ?thesis
      using "1.prems" unfolding eq turn Inl explains_def by (simp only: prod.case sum.case fst_conv) (metis fst_conv)
  next
    case (Inr attempt)
    obtain res stage where att: "attempt = (res, stage)" by fastforce
    have "\<not> HttpResult_ok res"
      using ex unfolding Inr att sum.case explains_def snd_conv fst_conv using attempt_result_retried by (metis fst_conv snd_conv)
    with "1.prems" "1.IH"(1) [OF turn [symmetric] Inr att [symmetric]] "1.IH"(2) [OF turn [symmetric] Inr att [symmetric]]
    show ?thesis unfolding eq turn Inr att by (simp only: prod.case sum.case) (simp split: if_splits)
  qed
qed

lemma Execute_ok:
  assumes "HttpResult_ok (fst (Execute env config request evs))"
  shows "\<exists>out. fst (Execute env config request evs) = fst (attempt_result (he_strerror env) out)"
  using assms ExecuteLoop_ok unfolding Execute_def by (auto simp: Let_def split: if_splits option.splits)

interpretation curl: http_transport "Execute env config" for env config
proof unfold_locales
  fix request evs
  assume ok: "HttpResult_ok (fst (Execute env config request evs))"
  then obtain out where out: "fst (Execute env config request evs) = fst (attempt_result (he_strerror env) out)"
    using Execute_ok by blast
  have "co_code out = CURLE_OK" "200 \<le> co_response_code out" "co_response_code out < 400"
    using ok unfolding out attempt_result_ok by simp_all
  then show "200 \<le> hs_status_code (hr_response (fst (Execute env config request evs))) \<and>
      hs_status_code (hr_response (fst (Execute env config request evs))) < 400"
    unfolding out
    by (simp add: attempt_result_def Let_def IsSupportedHttpStatusCode_def kMinHttpStatusCode_def kMaxHttpStatusCode_def
        HttpResult_default_def)
qed

section \<open>Requests\<close>

lemma TrimTrailingSlashes_last: "TrimTrailingSlashes v \<noteq> [] \<Longrightarrow> last (TrimTrailingSlashes v) \<noteq> CHR ''/''"
  using hd_dropWhile [of is_slash "rev v"]
  by (simp add: TrimTrailingSlashes_def trim_right_def last_rev is_slash_def)

lemma TrimLeadingSlashes_idem: "TrimLeadingSlashes (TrimLeadingSlashes v @ w) = TrimLeadingSlashes v @ w"
  if "TrimLeadingSlashes v \<noteq> []"
proof -
  have "\<not> is_slash (hd (TrimLeadingSlashes v))"
    using hd_dropWhile [of is_slash v] that by (simp add: TrimLeadingSlashes_def trim_left_def)
  then show ?thesis
    using that by (cases "TrimLeadingSlashes v") (simp_all add: TrimLeadingSlashes_def [of "_ @ _"] TrimLeadingSlashes_def [of "_ # _"] trim_left_def)
qed

lemma ElasticsearchClient_new_ok:
  assumes "ElasticsearchClient_new null config = Inr client"
  shows "client = config\<lparr>ec_base_url := TrimTrailingSlashes (ec_base_url config)\<rparr>"
    "TrimTrailingSlashes (ec_base_url config) \<noteq> []"
    "cc_connect_timeout (ec_http_config config) \<le> cc_request_timeout (ec_http_config config)"
    "\<And>budget. ec_request_timeout config = Some budget \<Longrightarrow>
       cc_acquire_timeout (ec_http_config config) + cc_request_timeout (ec_http_config config) \<le> budget"
  using assms
  by (auto simp: ElasticsearchClient_new_def ValidateElasticsearchTimeoutConfig_def Let_def
      ValidateTimeoutNotGreater_def ValidateTimeoutSumNotGreater_def split: if_splits sum.splits option.splits)

lemma BuildHeaders_authorization:
  "\<lparr>hh_name = ''Authorization'', hh_value = v\<rparr> \<in> set (BuildHeaders config has_body) \<longleftrightarrow>
     (ec_username config \<noteq> [] \<or> ec_password config \<noteq> []) \<and>
     v = ''Basic '' @ Base64Encode (ec_username config @ '':'' @ ec_password config)"
  by (auto simp: BuildHeaders_def)

text \<open>
  A client of Elasticsearch exists only for a base URL with something left of it once the slashes at
  its end are gone and for timeouts that fit: a wait for a handle and a transfer fit into the budget of an
  operation, the connection into the transfer. A document is then asked for with GET under exactly one
  slash between base, index and id, however many the caller wrote, within the budget, and with an
  Authorization header just when there are credentials, from which the server reads back the user name
  and the password.
\<close>

theorem elasticsearch_document_request:
  assumes "ElasticsearchClient_new null config = Inr client" "TrimLeadingSlashes index_name \<noteq> []"
  shows "hq_method (document_request client index_name doc) = kGet \<and>
    hq_url (document_request client index_name doc) =
      TrimTrailingSlashes (ec_base_url config) @ ''/'' @ TrimLeadingSlashes index_name @ ''/_doc/'' @ TrimLeadingSlashes doc \<and>
    TrimTrailingSlashes (ec_base_url config) \<noteq> [] \<and> last (TrimTrailingSlashes (ec_base_url config)) \<noteq> CHR ''/'' \<and>
    (\<lparr>hh_name = ''Authorization'', hh_value = v\<rparr> \<in> set (hq_headers (document_request client index_name doc)) \<longleftrightarrow>
      (ec_username config \<noteq> [] \<or> ec_password config \<noteq> []) \<and>
      (\<exists>c. v = ''Basic '' @ c \<and> c = Base64Encode (base64_decode c) \<and>
        base64_decode c = ec_username config @ '':'' @ ec_password config)) \<and>
    cc_connect_timeout (ec_http_config config) \<le> cc_request_timeout (ec_http_config config) \<and>
    (case hq_timeout (document_request client index_name doc) of
       None \<Rightarrow> ec_request_timeout config = None
     | Some budget \<Rightarrow> ec_request_timeout config = Some budget \<and>
         cc_acquire_timeout (ec_http_config config) + cc_request_timeout (ec_http_config config) \<le> budget)"
proof -
  note ok = ElasticsearchClient_new_ok [OF assms(1)]
  have url: "hq_url (document_request client index_name doc) =
      TrimTrailingSlashes (ec_base_url config) @ ''/'' @ TrimLeadingSlashes index_name @ ''/_doc/'' @ TrimLeadingSlashes doc"
    using TrimLeadingSlashes_idem [OF assms(2), of "''/_doc/'' @ TrimLeadingSlashes doc"]
    by (simp add: document_request_def GetRequest_def HttpRequest_default_def BuildUrl_def ok(1))
  have auth: "(\<exists>c. v = ''Basic '' @ c \<and> c = Base64Encode (base64_decode c) \<and> base64_decode c = p) \<longleftrightarrow>
      v = ''Basic '' @ Base64Encode p" for p
    using Base64_decodes [of p] by auto
  have rest: "hq_method (document_request client index_name doc) = kGet"
    "hq_headers (document_request client index_name doc) = BuildHeaders client False"
    "hq_timeout (document_request client index_name doc) = ec_request_timeout config"
    by (simp_all add: document_request_def GetRequest_def HttpRequest_default_def ok(1))
  have names: "ec_username client = ec_username config" "ec_password client = ec_password config"
    by (simp_all add: ok(1))
  show ?thesis
    using ok(2-4) TrimTrailingSlashes_last [OF ok(2)] url
    unfolding rest auth BuildHeaders_authorization names by (cases "ec_request_timeout config") auto
qed

lemma elasticsearch_document_request_witness:
  "\<exists>client. ElasticsearchClient_new False
      (ElasticsearchConfig_default\<lparr>ec_base_url := ''http://es:9200//'', ec_username := ''u'', ec_password := ''p''\<rparr>) = Inr client \<and>
    hq_url (document_request client ''/items'' ''7'') = ''http://es:9200/items/_doc/7''"
proof -
  let ?config = "ElasticsearchConfig_default\<lparr>ec_base_url := ''http://es:9200//'', ec_username := ''u'', ec_password := ''p''\<rparr>"
  let ?client = "?config\<lparr>ec_base_url := ''http://es:9200''\<rparr>"
  have new: "ElasticsearchClient_new False ?config = Inr ?client" by code_simp
  have trim: "TrimLeadingSlashes ''/items'' = ''items''" "TrimTrailingSlashes ''http://es:9200//'' = ''http://es:9200''"
    "TrimLeadingSlashes ''7'' = ''7''" by code_simp+
  then have ne: "TrimLeadingSlashes ''/items'' \<noteq> []" by simp
  have "hq_url (document_request ?client ''/items'' ''7'') = ''http://es:9200/items/_doc/7''"
    using elasticsearch_document_request [OF new ne, of "''7''"] trim by simp
  with new show ?thesis by blast
qed

section \<open>Documents\<close>

text \<open>The bodies of a get response: the one that says there is no document, and the one that holds one.\<close>

definition says_absent :: "fields json_text \<Rightarrow> string \<Rightarrow> bool" where
  "says_absent to_object body \<longleftrightarrow>
     (\<exists>object. to_object body = Inr object \<and> map_of object ''found'' = Some (BoolValue False))"

definition holds_document :: "fields json_text \<Rightarrow> string \<Rightarrow> fields \<Rightarrow> bool" where
  "holds_document to_object body doc \<longleftrightarrow>
     (\<exists>object. to_object body = Inr object \<and>
       map_of object ''found'' = Some (BoolValue True) \<and> map_of object ''_source'' = Some (StructValue doc))"

lemma item_find_eq:
  "fst (ElasticsearchItemIndexStore_FindByItemId to_object store http item_id s) =
     (let r = fst (Es_Get (es_client store) http (es_index store) (show_nat (unat item_id)) s) in
      if \<not> er_ok r then
        if er_status_code r = 404 then return None
        else throw (''Failed to fetch item index from Elasticsearch: status='' @ show_int (er_status_code r) @
               '' error='' @ er_error_message r @ '' body='' @ er_body r)
      else ParseItemFromGetResponse to_object (er_body r))"
  by (simp add: ElasticsearchItemIndexStore_FindByItemId_def kHttpNotFoundStatusCode_def Let_def split: prod.splits)

lemma profile_find_eq:
  "fst (ElasticsearchProfileStore_FindByUserId to_object to_json parse store http user_id s) =
     (let r = fst (Es_Get (es_client store) http (es_index store) (show_int (sint user_id)) s) in
      if \<not> er_ok r then
        if er_status_code r = 404 then Inr None
        else Inl (RuntimeError (''Failed to fetch profile from Elasticsearch: status='' @
               show_int (er_status_code r) @ '' error='' @ er_error_message r @ '' body='' @ er_body r))
      else
        (case ParseProfileFromGetResponse to_object to_json parse (er_body r) Profile_default of
           Inl e \<Rightarrow> Inl e
         | Inr (found, profile) \<Rightarrow> Inr (if found then Some profile else None)))"
  by (simp add: ElasticsearchProfileStore_FindByUserId_def kHttpNotFoundStatusCode_def Let_def split: prod.splits)

lemma item_response_source:
  assumes "holds_document to_object body doc"
  shows "ParseItemFromGetResponse to_object body =
    andThen (ParseEntryFromJsonObject doc ''Elasticsearch _source'') (\<lambda>entry. return (Some entry))"
  using assms
  by (auto simp: holds_document_def ParseItemFromGetResponse_def ParseObject_def RequiredField_def FindField_def kEsSourceField_def)

lemma item_response_other:
  assumes "\<And>doc. \<not> holds_document to_object body doc" "\<not> says_absent to_object body"
  shows "\<exists>msg. ParseItemFromGetResponse to_object body = throw msg"
  using assms
  by (auto simp: holds_document_def says_absent_def ParseItemFromGetResponse_def ParseObject_def RequiredField_def FindField_def
      kEsSourceField_def throw_def split: sum.splits option.splits Value.splits bool.splits)

lemma item_response_absent: "says_absent to_object body \<Longrightarrow> ParseItemFromGetResponse to_object body = return None"
  by (auto simp: says_absent_def ParseItemFromGetResponse_def ParseObject_def RequiredField_def FindField_def)

lemma holds_document_unique:
  "holds_document to_object body doc \<Longrightarrow> holds_document to_object body doc' \<Longrightarrow> doc' = doc"
  "holds_document to_object body doc \<Longrightarrow> \<not> says_absent to_object body"
  by (auto simp: holds_document_def says_absent_def)

text \<open>What is made of a response with a success status: nothing, an entry, or undefined behaviour in reading the entry.\<close>

lemma item_response:
  "ParseItemFromGetResponse to_object body = return None \<longleftrightarrow> says_absent to_object body"
  "ParseItemFromGetResponse to_object body = return (Some e) \<longleftrightarrow>
     (\<exists>doc. holds_document to_object body doc \<and> ParseEntryFromJsonObject doc ''Elasticsearch _source'' = return e)"
  "ParseItemFromGetResponse to_object body = None \<longleftrightarrow>
     (\<exists>doc. holds_document to_object body doc \<and> ParseEntryFromJsonObject doc ''Elasticsearch _source'' = None)"
proof -
  have undefined: "andThen m (\<lambda>entry. return (Some entry)) = None \<longleftrightarrow> m = None"
    "andThen m (\<lambda>entry. return (Some entry)) \<noteq> return None" for m :: "ItemIndexEntry outcome"
    by (auto simp: andThen_None andThen_eq_return) (simp add: return_def)?
  consider (doc) doc where "holds_document to_object body doc" | (absent) "says_absent to_object body"
    | (other) "\<And>doc. \<not> holds_document to_object body doc" "\<not> says_absent to_object body" by blast
  then have "(ParseItemFromGetResponse to_object body = return None \<longleftrightarrow> says_absent to_object body) \<and>
    (ParseItemFromGetResponse to_object body = return (Some e) \<longleftrightarrow>
     (\<exists>doc. holds_document to_object body doc \<and> ParseEntryFromJsonObject doc ''Elasticsearch _source'' = return e)) \<and>
    (ParseItemFromGetResponse to_object body = None \<longleftrightarrow>
     (\<exists>doc. holds_document to_object body doc \<and> ParseEntryFromJsonObject doc ''Elasticsearch _source'' = None))"
  proof cases
    case doc
    have unique: "holds_document to_object body d \<longleftrightarrow> d = doc" "says_absent to_object body \<longleftrightarrow> False" for d
      using doc holds_document_unique [OF doc] by blast+
    show ?thesis
      unfolding item_response_source [OF doc] undefined(1) unique simp_thms
      using undefined(2) by (simp add: andThen_eq_return)
  next
    case absent
    then have "\<not> holds_document to_object body doc" for doc using holds_document_unique(2) by blast
    with item_response_absent [OF absent] absent show ?thesis by (simp add: return_def)
  next
    case other
    from item_response_other [OF other] obtain msg where "ParseItemFromGetResponse to_object body = throw msg" ..
    with other show ?thesis by (simp add: throw_def return_def)
  qed
  then show "ParseItemFromGetResponse to_object body = return None \<longleftrightarrow> says_absent to_object body"
    "ParseItemFromGetResponse to_object body = return (Some e) \<longleftrightarrow>
     (\<exists>doc. holds_document to_object body doc \<and> ParseEntryFromJsonObject doc ''Elasticsearch _source'' = return e)"
    "ParseItemFromGetResponse to_object body = None \<longleftrightarrow>
     (\<exists>doc. holds_document to_object body doc \<and> ParseEntryFromJsonObject doc ''Elasticsearch _source'' = None)" by blast+
qed

lemma profile_response:
  "(\<exists>p. ParseProfileFromGetResponse to_object to_json parse body Profile_default = Inr (False, p)) \<longleftrightarrow>
     (\<exists>object v. to_object body = Inr object \<and> map_of object ''found'' = Some v \<and> v \<noteq> BoolValue True)"
  "ParseProfileFromGetResponse to_object to_json parse body Profile_default = Inr (True, p) \<longleftrightarrow>
     (\<exists>doc json. holds_document to_object body doc \<and> to_json doc = Inr json \<and> parse json Profile_default = (None, p))"
  by (auto simp: ParseProfileFromGetResponse_def RequireField_def kEsFoundField_def kEsSourceField_def bool_value_def
      holds_document_def JsonToPB_def split: sum.splits option.splits Value.splits prod.splits if_splits)

section \<open>A server with the documents of a file\<close>

text \<open>
  The documented get API of Elasticsearch over HTTP: \<open>GET base/index/_doc/id\<close>, with the credentials if there
  are any, is answered with the document of that index and id, or with status 404 or a response that says
  that there is none. \<open>docs\<close> is what the server holds; nothing is said of any other request.
\<close>

definition authorized :: "string \<Rightarrow> string \<Rightarrow> HttpRequest \<Rightarrow> bool" where
  "authorized username password request \<longleftrightarrow>
     username = [] \<and> password = [] \<or>
     (\<exists>h \<in> set (hq_headers request). hh_name h = ''Authorization'' \<and>
       (\<exists>c. hh_value h = ''Basic '' @ c \<and> base64_decode c = username @ '':'' @ password))"

definition answers_get :: "fields json_text \<Rightarrow> fields option \<Rightarrow> HttpResult \<Rightarrow> bool" where
  "answers_get to_object doc result \<longleftrightarrow>
     (case doc of
        None \<Rightarrow>
          \<not> HttpResult_ok result \<and> hs_status_code (hr_response result) = 404 \<or>
          HttpResult_ok result \<and> says_absent to_object (hs_body (hr_response result))
      | Some source \<Rightarrow> HttpResult_ok result \<and> holds_document to_object (hs_body (hr_response result)) source)"

definition serves ::
  "fields json_text \<Rightarrow> string \<Rightarrow> string \<Rightarrow> string \<Rightarrow> (string \<Rightarrow> string \<Rightarrow> fields option) \<Rightarrow> 's http_execute \<Rightarrow> bool" where
  "serves to_object base username password docs http \<longleftrightarrow>
     (\<forall>request s index_name doc_id.
        hq_method request = kGet \<and> hq_url request = base @ ''/'' @ index_name @ ''/_doc/'' @ doc_id \<and>
        CHR ''/'' \<notin> set index_name \<and> CHR ''/'' \<notin> set doc_id \<and> authorized username password request \<longrightarrow>
        answers_get to_object (docs index_name doc_id) (fst (http request s)))"

text \<open>Documents written one after the other: of those with the same id, the last.\<close>

definition written :: "(string \<times> fields) list \<Rightarrow> string \<Rightarrow> fields option" where
  "written uploads = map_of (rev uploads)"

lemma written_lookup:
  assumes "\<And>i. key i = key j \<longleftrightarrow> i = j"
  shows "written (map (\<lambda>(doc, e). (key (k e), doc)) items) (key j) = map_option fst (find (\<lambda>(doc, e). k e = j) (rev items))"
proof -
  have "map_of (map (\<lambda>(doc, e). (key (k e), doc)) xs) (key j) = map_option fst (find (\<lambda>(doc, e). k e = j) xs)" for xs
  proof (induction xs)
    case (Cons x xs)
    obtain doc e where x: "x = (doc, e)" by fastforce
    show ?case using assms [of "k e"] Cons.IH by (cases "k e = j") (auto simp: x)
  qed simp
  then show ?thesis by (simp add: written_def rev_map)
qed

lemma find_member: "find P xs = Some x \<Longrightarrow> x \<in> set xs"
  by (induction xs) (auto split: if_splits)

lemma find_snd: "find (\<lambda>e. P e) (map snd xs) = map_option snd (find (\<lambda>(doc, e). P e) xs)"
  by (induction xs) auto

lemma no_slash_trim: "CHR ''/'' \<notin> set v \<Longrightarrow> TrimLeadingSlashes v = v"
  by (cases v) (auto simp: TrimLeadingSlashes_def trim_left_def is_slash_def)

lemma show_no_slash: "CHR ''/'' \<notin> set (show_nat n)" "CHR ''/'' \<notin> set (show_int i)"
proof -
  show nat: "CHR ''/'' \<notin> set (show_nat n)" for n using show_nat_digits [of n] by (auto simp: is_digit_def)
  show "CHR ''/'' \<notin> set (show_int i)" by (simp add: show_int_def nat)
qed

lemma document_request_served:
  assumes "ElasticsearchClient_new null config = Inr client" "index_name \<noteq> []"
    and "CHR ''/'' \<notin> set index_name" "CHR ''/'' \<notin> set doc_id"
    and "serves to_object (TrimTrailingSlashes (ec_base_url config)) (ec_username config) (ec_password config) docs http"
  shows "answers_get to_object (docs index_name doc_id) (fst (http (document_request client index_name doc_id) s))"
proof -
  note ok = ElasticsearchClient_new_ok [OF assms(1)]
  have trim: "TrimLeadingSlashes index_name = index_name" "TrimLeadingSlashes doc_id = doc_id"
    using assms(3,4) by (simp_all add: no_slash_trim)
  have "hq_url (document_request client index_name doc_id) =
      TrimTrailingSlashes (ec_base_url config) @ ''/'' @ index_name @ ''/_doc/'' @ doc_id"
    using TrimLeadingSlashes_idem [of index_name "''/_doc/'' @ doc_id"] assms(2)
    by (simp add: document_request_def GetRequest_def HttpRequest_default_def BuildUrl_def ok(1) trim)
  moreover have "hq_method (document_request client index_name doc_id) = kGet"
    by (simp add: document_request_def GetRequest_def HttpRequest_default_def)
  moreover have "authorized (ec_username config) (ec_password config) (document_request client index_name doc_id)"
    using Base64_decodes [of "ec_username config @ '':'' @ ec_password config"]
    by (auto simp: authorized_def document_request_def GetRequest_def HttpRequest_default_def BuildHeaders_def ok(1))
  ultimately show ?thesis using assms(3-5) unfolding serves_def by blast
qed

lemma Es_Get_result:
  "er_ok (fst (Es_Get client http index_name doc_id s)) = HttpResult_ok (fst (http (document_request client index_name doc_id) s))"
  "er_status_code (fst (Es_Get client http index_name doc_id s)) =
     hs_status_code (hr_response (fst (http (document_request client index_name doc_id) s)))"
  "er_body (fst (Es_Get client http index_name doc_id s)) =
     hs_body (hr_response (fst (http (document_request client index_name doc_id) s)))"
  by (simp_all add: Es_Get_def ElasticsearchResult_of_def split: prod.splits)

lemma item_find_served:
  assumes "answers_get to_object doc
      (fst (http (document_request (es_client store) (es_index store) (show_nat (unat item_id))) s))"
    and "\<And>source. doc = Some source \<Longrightarrow> describes source (entry source)"
  shows "fst (ElasticsearchItemIndexStore_FindByItemId to_object store http item_id s) = return (map_option entry doc)"
proof (cases doc)
  case None
  with assms(1) show ?thesis
    by (auto simp: item_find_eq Let_def Es_Get_result answers_get_def item_response_absent)
next
  case (Some source)
  with assms show ?thesis
    by (auto simp: item_find_eq Let_def Es_Get_result answers_get_def item_response_source describes_def)
qed

lemma profile_find_served:
  assumes "answers_get to_object doc
      (fst (http (document_request (es_client store) (es_index store) (show_int (sint user_id))) s))"
    and "\<And>source. doc = Some source \<Longrightarrow> (\<exists>json. to_json source = Inr json \<and> parse json Profile_default = (None, profile source))"
  shows "fst (ElasticsearchProfileStore_FindByUserId to_object to_json parse store http user_id s) = Inr (map_option profile doc)"
proof (cases doc)
  case None
  let ?r = "fst (Es_Get (es_client store) http (es_index store) (show_int (sint user_id)) s)"
  have "\<exists>p. ParseProfileFromGetResponse to_object to_json parse (er_body ?r) Profile_default = Inr (False, p)"
    if "says_absent to_object (er_body ?r)"
    unfolding profile_response(1) using that by (auto simp: says_absent_def)
  with None assms(1) show ?thesis
    by (auto simp: profile_find_eq Let_def Es_Get_result answers_get_def)
next
  case (Some source)
  let ?r = "fst (Es_Get (es_client store) http (es_index store) (show_int (sint user_id)) s)"
  have "ParseProfileFromGetResponse to_object to_json parse (er_body ?r) Profile_default = Inr (True, profile source)"
    unfolding profile_response(2) using assms Some by (auto simp: answers_get_def Es_Get_result)
  with Some assms(1) show ?thesis by (auto simp: profile_find_eq Let_def Es_Get_result answers_get_def)
qed

lemma local_item_index:
  assumes "read_file path = Some content" "FirstNonBlankChar content \<notin> {CHR 0x00, CHR ''[''}"
    and "list_all2 (\<lambda>l (doc, e). to_object l = Inr doc \<and> describes doc e) (filter (\<lambda>l. \<not> IsBlank l) (getlines content)) items"
  shows "LocalFileItemIndexStore_new to_object to_value read_file path = return (index_of (map snd items))"
    "index_of (map snd items) i = map_option snd (find (\<lambda>(doc, e). ix_item_id e = i) (rev items))"
proof -
  have "list_all2 (\<lambda>l e. \<exists>object. to_object l = Inr object \<and> describes object e)
      (filter (\<lambda>l. \<not> IsBlank l) (getlines content)) (map snd items)"
    unfolding list_all2_map2 using assms(3) by (rule list_all2_mono) auto
  from parse_lines_describes [OF this, of 0 Map.empty]
  have "parse_lines to_object 0 (getlines content) Map.empty = return (index_of (map snd items))"
    by (simp add: foldl_AddEntry)
  then show "LocalFileItemIndexStore_new to_object to_value read_file path = return (index_of (map snd items))"
    using assms(1,2)
    by (simp add: LocalFileItemIndexStore_new_def LocalFileItemIndexStore_LoadFromFile_def Let_def
        ParseJsonlContent_def return_def)
  have "map_of (map (\<lambda>e. (ix_item_id e, e)) xs) i = find (\<lambda>e. ix_item_id e = i) xs" for xs :: "ItemIndexEntry list"
    by (induction xs) auto
  then show "index_of (map snd items) i = map_option snd (find (\<lambda>(doc, e). ix_item_id e = i) (rev items))"
    by (simp only: index_of_def rev_map find_snd)
qed

lemma local_profiles:
  assumes "read_file path = Some content"
    and "list_all2 (\<lambda>l (doc, p). to_object l = Inr doc \<and> profile_of_line parse l = Inr p) (filter (\<lambda>l. \<not> IsBlank l) (getlines content)) users"
  shows "LocalFileProfileStore_new parse read_file path = Inr (users_of (map snd users))"
    "users_of (map snd users) i = map_option snd (find (\<lambda>(doc, p). sint (pf_user_id p) = i) (rev users))"
proof -
  have "list_all2 (\<lambda>l p. profile_of_line parse l = Inr p) (filter (\<lambda>l. \<not> IsBlank l) (getlines content)) (map snd users)"
    unfolding list_all2_map2 using assms(2) by (rule list_all2_mono) auto
  from load_profile_lines_ok [OF this, of 0 "[]" "Some []"]
  show "LocalFileProfileStore_new parse read_file path = Inr (users_of (map snd users))"
    by (simp add: LocalFileProfileStore_new_def LoadProfilesFromJsonlFile_def assms(1) users_of_def [of "[]", abs_def])
  show "users_of (map snd users) i = map_option snd (find (\<lambda>(doc, p). sint (pf_user_id p) = i) (rev users))"
    by (simp only: users_of_def rev_map find_snd)
qed


text \<open>A server with one item and one user, and the files they come from.\<close>

lemma document_path_inject:
  assumes "CHR ''/'' \<notin> set i" "CHR ''/'' \<notin> set j"
  shows "i @ ''/_doc/'' @ d = j @ ''/_doc/'' @ e \<longleftrightarrow> i = j \<and> d = e"
proof
  assume eq: "i @ ''/_doc/'' @ d = j @ ''/_doc/'' @ e"
  have "takeWhile (\<lambda>c. c \<noteq> CHR ''/'') (k @ ''/_doc/'' @ r) = k" if "CHR ''/'' \<notin> set k" for k r
    using that by (auto simp: takeWhile_append takeWhile_eq_all_conv)
  from this [OF assms(1), of d] this [OF assms(2), of e] have "i = j" unfolding eq by simp
  with eq show "i = j \<and> d = e" by simp
qed simp

definition demo_documents :: "string \<Rightarrow> string \<Rightarrow> fields option" where
  "demo_documents index_name doc_id =
     (if index_name = ''i'' \<and> doc_id = ''7'' then Some (entry_json (demo_entry 7 ''t''))
      else if index_name = ''u'' \<and> doc_id = ''5'' then Some [] else None)"

definition demo_http :: "HttpRequest \<Rightarrow> unit \<Rightarrow> HttpResult \<times> unit" where
  "demo_http request s =
     (let found = (\<lambda>body. HttpResult_default\<lparr>hr_response := HttpResponse_default\<lparr>hs_status_code := 200, hs_body := body\<rparr>\<rparr>) in
      (if hq_url request = ''b/i/_doc/7'' then found ''D''
       else if hq_url request = ''b/u/_doc/5'' then found ''E''
       else HttpResult_default\<lparr>hr_error_code := kHttpStatusError,
              hr_response := HttpResponse_default\<lparr>hs_status_code := 404\<rparr>\<rparr>, s))"

definition demo_object :: "fields json_text" where
  "demo_object l =
     Inr (if l = ''D'' then [(''found'', BoolValue True), (''_source'', StructValue (entry_json (demo_entry 7 ''t'')))]
          else if l = ''E'' then [(''found'', BoolValue True), (''_source'', StructValue [])]
          else if l = ''d'' then entry_json (demo_entry 7 ''t'') else [])"

definition demo_parse :: "Profile json_to_message" where
  "demo_parse json m = (None, m\<lparr>pf_user_id := 5\<rparr>)"

lemma demo_serves: "serves demo_object ''b'' [] [] demo_documents demo_http"
  unfolding serves_def
proof (intro allI impI, elim conjE)
  fix request :: HttpRequest and s index_name doc_id
  assume url: "hq_url request = ''b'' @ ''/'' @ index_name @ ''/_doc/'' @ doc_id" and slash: "CHR ''/'' \<notin> set index_name"
  have "hq_url request = ''b/i/_doc/7'' \<longleftrightarrow> index_name = ''i'' \<and> doc_id = ''7''"
    "hq_url request = ''b/u/_doc/5'' \<longleftrightarrow> index_name = ''u'' \<and> doc_id = ''5''"
    using document_path_inject [OF slash, of "''i''" doc_id "''7''"] document_path_inject [OF slash, of "''u''" doc_id "''5''"]
    by (simp_all add: url)
  then show "answers_get demo_object (demo_documents index_name doc_id) (fst (demo_http request s))"
    by (auto simp: demo_documents_def demo_http_def demo_object_def Let_def answers_get_def holds_document_def
        HttpResult_ok_def HttpResult_default_def HttpResponse_default_def)
qed

lemma demo_files:
  "FirstNonBlankChar ''d'' \<notin> {CHR 0x00, CHR ''[''}" "filter (\<lambda>l. \<not> IsBlank l) (getlines ''d'') = [''d'']"
  "filter (\<lambda>l. \<not> IsBlank l) (getlines ''p'') = [''p'']"
  "demo_documents ''i'' = written (map (\<lambda>(doc, e). (show_nat (unat (ix_item_id e)), doc))
     [(entry_json (demo_entry 7 ''t''), demo_entry 7 ''t'')])"
  "demo_documents ''u'' = written (map (\<lambda>(doc, p). (show_int (sint (pf_user_id p)), doc))
     [([], Profile_default\<lparr>pf_user_id := 5\<rparr>)])"
proof -
  show "FirstNonBlankChar ''d'' \<notin> {CHR 0x00, CHR ''[''}" by (simp add: FirstNonBlankChar_def is_blank_char_def)
  show "filter (\<lambda>l. \<not> IsBlank l) (getlines ''d'') = [''d'']" "filter (\<lambda>l. \<not> IsBlank l) (getlines ''p'') = [''p'']"
    by (simp_all add: getlines_last newline_def IsBlank_def is_blank_char_def)
  have seven: "show_nat 7 = ''7''" and five: "show_int 5 = ''5''" by code_simp+
  show "demo_documents ''i'' = written (map (\<lambda>(doc, e). (show_nat (unat (ix_item_id e)), doc))
     [(entry_json (demo_entry 7 ''t''), demo_entry 7 ''t'')])"
    by (rule ext) (simp add: demo_documents_def written_def demo_entry_def seven)
  show "demo_documents ''u'' = written (map (\<lambda>(doc, p). (show_int (sint (pf_user_id p)), doc))
     [([], Profile_default\<lparr>pf_user_id := 5\<rparr>)])"
    by (rule ext) (simp add: demo_documents_def written_def five)
qed


text \<open>
  C27. Over the curl client no failure passes for an absent document, and none for a document. An item, or a
  profile, is answered only when the server answered with a status of 200 to 399 and a JSON object whose
  \<open>found\<close> is true, and then it is what is read from the object under \<open>_source\<close>. No item, or no profile, is
  answered only for the status 404, or a status of 200 to 399 with a JSON object whose \<open>found\<close> is there and
  not true; for items it must be the value false. Any other failure of the call is the exception that
  says its status, its error and its body, and what is left is an exception too: the lookup of an item
  is undefined in one case only, when reading the entry of such a document is (its JSON number \<open>2 ^ 64\<close>).
\<close>

theorem elasticsearch_fails_closed:
  "(let answer = fst (ElasticsearchItemIndexStore_FindByItemId to_object store (Execute env config) item_id evs);
        r = fst (Es_Get (es_client store) (Execute env config) (es_index store) (show_nat (unat item_id)) evs);
        success = (er_ok r \<and> 200 \<le> er_status_code r \<and> er_status_code r < 400)
    in (\<forall>e. answer = return (Some e) \<longleftrightarrow>
          success \<and> (\<exists>doc. holds_document to_object (er_body r) doc \<and>
            ParseEntryFromJsonObject doc ''Elasticsearch _source'' = return e)) \<and>
       (answer = return None \<longleftrightarrow> er_status_code r = 404 \<and> \<not> er_ok r \<or> success \<and> says_absent to_object (er_body r)) \<and>
       (answer = None \<longleftrightarrow>
          success \<and> (\<exists>doc. holds_document to_object (er_body r) doc \<and>
            ParseEntryFromJsonObject doc ''Elasticsearch _source'' = None)) \<and>
       (success \<or> er_status_code r = 404 \<or>
          answer = throw (''Failed to fetch item index from Elasticsearch: status='' @ show_int (er_status_code r) @
               '' error='' @ er_error_message r @ '' body='' @ er_body r))) \<and>
   (let answer = fst (ElasticsearchProfileStore_FindByUserId to_object to_json parse store (Execute env config) user_id evs);
        r = fst (Es_Get (es_client store) (Execute env config) (es_index store) (show_int (sint user_id)) evs);
        success = (er_ok r \<and> 200 \<le> er_status_code r \<and> er_status_code r < 400)
    in (\<forall>p. answer = Inr (Some p) \<longleftrightarrow>
          success \<and> (\<exists>doc json. holds_document to_object (er_body r) doc \<and> to_json doc = Inr json \<and>
            parse json Profile_default = (None, p))) \<and>
       (answer = Inr None \<longleftrightarrow>
          er_status_code r = 404 \<and> \<not> er_ok r \<or>
          success \<and> (\<exists>object v. to_object (er_body r) = Inr object \<and> map_of object ''found'' = Some v \<and> v \<noteq> BoolValue True)) \<and>
       (success \<or> er_status_code r = 404 \<or>
          answer = Inl (RuntimeError (''Failed to fetch profile from Elasticsearch: status='' @ show_int (er_status_code r) @
               '' error='' @ er_error_message r @ '' body='' @ er_body r))))"
  (is "?items \<and> ?users")
proof
  let ?r = "fst (Es_Get (es_client store) (Execute env config) (es_index store) (show_nat (unat item_id)) evs)"
  have "er_ok ?r \<longleftrightarrow> er_ok ?r \<and> 200 \<le> er_status_code ?r \<and> er_status_code ?r < 400" using curl.er_ok_status by blast
  then show ?items
    unfolding item_find_eq Let_def
    by (cases "er_ok ?r"; cases "er_status_code ?r = 404") (simp_all add: item_response, simp_all add: return_def throw_def)
next
  let ?r = "fst (Es_Get (es_client store) (Execute env config) (es_index store) (show_int (sint user_id)) evs)"
  let ?parsed = "ParseProfileFromGetResponse to_object to_json parse (er_body ?r) Profile_default"
  have ok: "er_ok ?r \<longleftrightarrow> er_ok ?r \<and> 200 \<le> er_status_code ?r \<and> er_status_code ?r < 400" using curl.er_ok_status by blast
  have "(case ?parsed of Inl e \<Rightarrow> Inl e | Inr (found, profile) \<Rightarrow> Inr (if found then Some profile else None)) = Inr None \<longleftrightarrow>
      (\<exists>p. ?parsed = Inr (False, p))"
    "(case ?parsed of Inl e \<Rightarrow> Inl e | Inr (found, profile) \<Rightarrow> Inr (if found then Some profile else None)) = Inr (Some p) \<longleftrightarrow>
      ?parsed = Inr (True, p)" for p
    by (auto split: sum.splits prod.splits)
  note parsed = this [unfolded profile_response]
  show ?users
    unfolding profile_find_eq Let_def
    using ok by (cases "er_ok ?r"; cases "er_status_code ?r = 404") (simp_all add: parsed)
qed

end
