(* ===== verification/PoolWakeups.thy ===== *)
theory PoolWakeups
  imports ResourcePools
begin

text \<open>
  The waiting of src/src/utilities/resource_pool/resource_pool.h: threads that sleep in \<open>Acquire\<close> on the
  condition variable, and \<open>Release\<close>, which notifies one of them after it has left the mutex. A step is what
  one thread does under the mutex, or the delivery of a notification. No wake-up is lost.
\<close>

section \<open>Threads at the pool\<close>

text \<open>
  The pool; the threads asleep in \<open>wait_for\<close>; those awake that have yet to check the predicate under the
  mutex; and the notifications that a \<open>Release\<close> still has to give.
\<close>

record 'r Waiting =
  wt_pool :: "'r ResourcePool"
  wt_asleep :: "nat set"
  wt_awake :: "nat set"
  wt_notifies :: nat

text \<open>What happens without a new call of the pool: notifications arrive and awake threads check again.\<close>

inductive settle_step :: "'r Waiting \<Rightarrow> 'r Waiting \<Rightarrow> bool" where
  notified: "\<lbrakk>wt_notifies s = Suc n; t \<in> wt_asleep s\<rbrakk> \<Longrightarrow>
    settle_step s (s\<lparr>wt_notifies := n, wt_asleep := wt_asleep s - {t}, wt_awake := insert t (wt_awake s)\<rparr>)"
| unheard: "\<lbrakk>wt_notifies s = Suc n; wt_asleep s = {}\<rbrakk> \<Longrightarrow> settle_step s (s\<lparr>wt_notifies := n\<rparr>)"
| served: "\<lbrakk>t \<in> wt_awake s; Pool_Acquire (wt_pool s) = (Some lease, pool)\<rbrakk> \<Longrightarrow>
    settle_step s (s\<lparr>wt_pool := pool, wt_awake := wt_awake s - {t}\<rparr>)"
| sleeps_again: "\<lbrakk>t \<in> wt_awake s; Pool_Acquire (wt_pool s) = (None, pool)\<rbrakk> \<Longrightarrow>
    settle_step s (s\<lparr>wt_pool := pool, wt_asleep := insert t (wt_asleep s), wt_awake := wt_awake s - {t}\<rparr>)"
| gives_up: "\<lbrakk>t \<in> wt_awake s; Pool_Acquire (wt_pool s) = (None, pool)\<rbrakk> \<Longrightarrow>
    settle_step s (s\<lparr>wt_pool := pool, wt_awake := wt_awake s - {t}\<rparr>)"

text \<open>
  All that can happen: a thread calls \<open>Acquire\<close> and is served or falls asleep, wakes without a notification
  (its timeout or spuriously), releases a resource, or the above.
\<close>

inductive wait_step :: "'r Waiting \<Rightarrow> 'r Waiting \<Rightarrow> bool" where
  enters_served: "Pool_Acquire (wt_pool s) = (Some lease, pool) \<Longrightarrow> wait_step s (s\<lparr>wt_pool := pool\<rparr>)"
| enters_sleep: "\<lbrakk>Pool_Acquire (wt_pool s) = (None, pool); t \<notin> wt_asleep s \<union> wt_awake s\<rbrakk> \<Longrightarrow>
    wait_step s (s\<lparr>wt_pool := pool, wt_asleep := insert t (wt_asleep s)\<rparr>)"
| wakes: "t \<in> wt_asleep s \<Longrightarrow>
    wait_step s (s\<lparr>wt_asleep := wt_asleep s - {t}, wt_awake := insert t (wt_awake s)\<rparr>)"
| releases: "wait_step s (s\<lparr>wt_pool := Pool_Release r (wt_pool s), wt_notifies := Suc (wt_notifies s)\<rparr>)"
| settles: "settle_step s t \<Longrightarrow> wait_step s t"

definition nobody_waits :: "'r ResourcePool \<Rightarrow> 'r Waiting" where
  "nobody_waits pool = \<lparr>wt_pool = pool, wt_asleep = {}, wt_awake = {}, wt_notifies = 0\<rparr>"

section \<open>No lost wake-up\<close>

text \<open>While a thread sleeps, each available resource has a wake-up of its own under way.\<close>

definition wakeups_ok :: "'r Waiting \<Rightarrow> bool" where
  "wakeups_ok s \<longleftrightarrow>
     finite (wt_awake s) \<and> wt_asleep s \<inter> wt_awake s = {} \<and>
     (wt_asleep s \<noteq> {} \<longrightarrow> length (rp_available (wt_pool s)) \<le> wt_notifies s + card (wt_awake s))"

lemma Pool_Acquire_available:
  "Pool_Acquire pool = (Some lease, pool') \<Longrightarrow> Suc (length (rp_available pool')) = length (rp_available pool)"
  "Pool_Acquire pool = (None, pool') \<Longrightarrow> pool' = pool \<and> rp_available pool = []"
  by (auto simp: Pool_Acquire_def split: if_splits)

lemma Pool_Release_available: "length (rp_available (Pool_Release r pool)) \<le> Suc (length (rp_available pool))"
  by (simp add: Pool_Release_def)

lemma awake_card:
  "finite A \<Longrightarrow> t \<in> A \<Longrightarrow> Suc (card (A - {t})) = card A"
  "finite A \<Longrightarrow> t \<notin> A \<Longrightarrow> card (insert t A) = Suc (card A)"
  by (rule card_Suc_Diff1, assumption+) simp

lemma settle_step_ok:
  assumes "settle_step s t" "wakeups_ok s"
  shows "wakeups_ok t"
  using assms
proof cases
  case (notified n x)
  then have "x \<notin> wt_awake s" using assms(2) by (auto simp: wakeups_ok_def)
  with notified assms(2) show ?thesis by (auto simp: wakeups_ok_def)
next
  case (unheard n)
  with assms(2) show ?thesis by (simp add: wakeups_ok_def)
next
  case (served x lease pool)
  then show ?thesis using assms(2) Pool_Acquire_available(1) [OF served(3)] awake_card(1) [of "wt_awake s" x]
    by (auto simp: wakeups_ok_def)
next
  case (sleeps_again x pool)
  then show ?thesis using assms(2) Pool_Acquire_available(2) [OF sleeps_again(3)] by (auto simp: wakeups_ok_def)
next
  case (gives_up x pool)
  then show ?thesis using assms(2) Pool_Acquire_available(2) [OF gives_up(3)] by (auto simp: wakeups_ok_def)
qed

lemma wait_step_ok:
  assumes "wait_step s t" "wakeups_ok s"
  shows "wakeups_ok t"
  using assms
proof cases
  case (enters_served lease pool)
  with assms(2) Pool_Acquire_available(1) [OF enters_served(2)] show ?thesis by (auto simp: wakeups_ok_def)
next
  case (enters_sleep pool x)
  with assms(2) Pool_Acquire_available(2) [OF enters_sleep(2)] show ?thesis by (auto simp: wakeups_ok_def)
next
  case (wakes x)
  then have "x \<notin> wt_awake s" using assms(2) by (auto simp: wakeups_ok_def)
  with wakes assms(2) show ?thesis by (auto simp: wakeups_ok_def)
next
  case (releases r)
  with assms(2) Pool_Release_available [of r "wt_pool s"] show ?thesis by (auto simp: wakeups_ok_def)
next
  case settles
  with assms(2) show ?thesis by (rule settle_step_ok [rotated])
qed

lemma reachable_ok: "wait_step\<^sup>*\<^sup>* (nobody_waits pool) s \<Longrightarrow> wakeups_ok s"
proof (induction rule: rtranclp_induct)
  case base
  show ?case by (simp add: nobody_waits_def wakeups_ok_def)
next
  case (step t u)
  then show ?case by (blast intro: wait_step_ok)
qed

section \<open>Settling\<close>

definition wakeups_left :: "'r Waiting \<Rightarrow> nat" where
  "wakeups_left s = 2 * wt_notifies s + card (wt_awake s)"

lemma settle_step_measure:
  assumes "settle_step s t" "wakeups_ok s"
  shows "wakeups_left t < wakeups_left s"
  using assms
proof cases
  case (notified n x)
  then have "x \<notin> wt_awake s" using assms(2) by (auto simp: wakeups_ok_def)
  with notified assms(2) show ?thesis by (simp add: wakeups_ok_def wakeups_left_def)
next
  case (unheard n)
  then show ?thesis by (simp add: wakeups_left_def)
next
  case (served x lease pool)
  then show ?thesis using assms(2) awake_card(1) [of "wt_awake s" x] by (simp add: wakeups_ok_def wakeups_left_def)
next
  case (sleeps_again x pool)
  then show ?thesis using assms(2) awake_card(1) [of "wt_awake s" x] by (simp add: wakeups_ok_def wakeups_left_def)
next
  case (gives_up x pool)
  then show ?thesis using assms(2) awake_card(1) [of "wt_awake s" x] by (simp add: wakeups_ok_def wakeups_left_def)
qed

lemma settle_path_length:
  assumes "(settle_step ^^ n) s t" "wakeups_ok s"
  shows "wakeups_ok t \<and> wakeups_left t + n \<le> wakeups_left s"
  using assms
proof (induction n arbitrary: t)
  case (Suc n)
  then obtain u where u: "(settle_step ^^ n) s u" "settle_step u t" by auto
  with Suc show ?case using settle_step_ok settle_step_measure [OF u(2)] by fastforce
qed simp

lemma settled:
  assumes "\<nexists>t. settle_step s t"
  shows "wt_notifies s = 0" "wt_awake s = {}"
proof -
  show "wt_notifies s = 0"
  proof (rule ccontr)
    assume "wt_notifies s \<noteq> 0"
    then obtain n where n: "wt_notifies s = Suc n" using not0_implies_Suc by blast
    then show False using assms settle_step.notified [OF n] settle_step.unheard [OF n] by blast
  qed
  show "wt_awake s = {}"
  proof (rule ccontr)
    assume "wt_awake s \<noteq> {}"
    then obtain t where t: "t \<in> wt_awake s" by auto
    obtain lease pool where "Pool_Acquire (wt_pool s) = (lease, pool)" by fastforce
    then show False using assms settle_step.served [OF t] settle_step.gives_up [OF t] by (cases lease) auto
  qed
qed

text \<open>
  C35. A sleeping thread is woken. From every state that any interleaving of acquisitions, timeouts,
  spurious wake-ups and releases reaches, the wake-ups that are under way settle in a bounded number of
  steps, in whatever order they run; and once they have, no thread sleeps while a resource is available.
\<close>

theorem pool_wakes_sleepers:
  assumes "wait_step\<^sup>*\<^sup>* (nobody_waits pool) s"
  shows "((settle_step ^^ n) s t \<longrightarrow> n \<le> 2 * wt_notifies s + card (wt_awake s)) \<and>
    (settle_step\<^sup>*\<^sup>* s t \<and> (\<nexists>u. settle_step t u) \<longrightarrow> wt_asleep t = {} \<or> rp_available (wt_pool t) = [])"
proof (intro conjI impI)
  note ok = reachable_ok [OF assms]
  show "n \<le> 2 * wt_notifies s + card (wt_awake s)" if "(settle_step ^^ n) s t"
    using settle_path_length [OF that ok] by (simp add: wakeups_left_def)
  assume "settle_step\<^sup>*\<^sup>* s t \<and> (\<nexists>u. settle_step t u)"
  then have path: "settle_step\<^sup>*\<^sup>* s t" and done': "\<nexists>u. settle_step t u" by blast+
  from path ok have "wakeups_ok t" by (induction rule: rtranclp_induct) (auto intro: settle_step_ok)
  with settled [OF done'] show "wt_asleep t = {} \<or> rp_available (wt_pool t) = []" by (auto simp: wakeups_ok_def)
qed

text \<open>One resource is taken, a second thread sleeps, the resource comes back: the sleeper gets it.\<close>

lemma pool_wakes_sleepers_witness:
  "\<exists>s t :: nat Waiting. wt_asleep s = {7} \<and> rp_available (wt_pool s) = [0] \<and> settle_step\<^sup>*\<^sup>* s t \<and>
     (wt_asleep t = {} \<or> rp_available (wt_pool t) = [])"
proof -
  let ?pool = "\<lambda>free. \<lparr>rp_config = PoolConfig_default, rp_resources = [0 :: nat], rp_available = free\<rparr>"
  let ?s1 = "(nobody_waits (?pool [0]))\<lparr>wt_pool := ?pool []\<rparr>"
  let ?s2 = "?s1\<lparr>wt_pool := ?pool [], wt_asleep := insert 7 (wt_asleep ?s1)\<rparr>"
  let ?s3 = "?s2\<lparr>wt_pool := Pool_Release 0 (wt_pool ?s2), wt_notifies := Suc (wt_notifies ?s2)\<rparr>"
  let ?s4 = "?s3\<lparr>wt_notifies := 0, wt_asleep := wt_asleep ?s3 - {7}, wt_awake := insert 7 (wt_awake ?s3)\<rparr>"
  let ?s5 = "?s4\<lparr>wt_pool := ?pool [], wt_awake := wt_awake ?s4 - {7}\<rparr>"
  have "wait_step (nobody_waits (?pool [0])) ?s1"
    by (rule wait_step.enters_served) (simp add: nobody_waits_def Pool_Acquire_def)
  then have "wait_step\<^sup>*\<^sup>* (nobody_waits (?pool [0])) ?s1" by (rule r_into_rtranclp)
  moreover have "wait_step ?s1 ?s2"
    by (rule wait_step.enters_sleep) (simp_all add: nobody_waits_def Pool_Acquire_def)
  ultimately have "wait_step\<^sup>*\<^sup>* (nobody_waits (?pool [0])) ?s2" by (rule rtranclp.rtrancl_into_rtrancl)
  then have reach: "wait_step\<^sup>*\<^sup>* (nobody_waits (?pool [0])) ?s3"
    by (rule rtranclp.rtrancl_into_rtrancl) (rule wait_step.releases)
  have "settle_step ?s3 ?s4"
    by (rule settle_step.notified) (simp_all add: nobody_waits_def)
  then have "settle_step\<^sup>*\<^sup>* ?s3 ?s4" by (rule r_into_rtranclp)
  moreover have "settle_step ?s4 ?s5"
    by (rule settle_step.served) (simp_all add: nobody_waits_def Pool_Acquire_def Pool_Release_def)
  ultimately have path: "settle_step\<^sup>*\<^sup>* ?s3 ?s5" by (rule rtranclp.rtrancl_into_rtrancl)
  have stuck: "\<not> settle_step ?s5 u" for u
    by (auto simp: nobody_waits_def elim: settle_step.cases)
  have "wt_asleep ?s5 = {} \<or> rp_available (wt_pool ?s5) = []"
    by (rule pool_wakes_sleepers [OF reach, of 0 ?s5, THEN conjunct2, rule_format]) (use path stuck in blast)
  moreover have "wt_asleep ?s3 = {7}" "rp_available (wt_pool ?s3) = [0]"
    by (simp_all add: nobody_waits_def Pool_Release_def)
  ultimately show ?thesis using path by blast
qed

end
