(* ===== verification/Configuration.thy ===== *)
theory Configuration
  imports RuntimeUtilities TextDouble "HOL-Library.Char_ord" "HOL-Library.List_Lexorder" "HOL-Library.Product_Lexorder"
begin

text \<open>
  The table of src/src/utilities/global_config/global_config.cpp: every field of the configuration with
  its key, its command line name, its type and its default; the values as the canonical texts of their
  types; the reads by type. Loading the configuration is in \<open>ConfigLoading\<close>.
\<close>

section \<open>The table\<close>

datatype ValueType = kString | kInt | kDouble | kUInt16 | kBool

datatype Field =
  kConfigPath | kServerHost | kServerPort | kLogLevel | kProfileServiceHost | kProfileServicePort |
  kRetrievalServiceHost | kRetrievalServicePort | kRankingServiceHost | kRankingServicePort |
  kRetrievalRecallCandidateExpandRatio | kRetrieverItemCfHost | kRetrieverItemCfPort |
  kRetrieverUserCfHost | kRetrieverUserCfPort | kRetrieverMaxTriggerSeedCount |
  kRetrieverItemCfScoreMultiplier | kRetrieverUserCfScoreMultiplier | kUserCfTriggerSeedUserCount |
  kProfileStoreType | kProfileStoreDataPath | kItemIndexStoreType | kItemIndexStoreDataPath |
  kRankingRankers | kRankingDefaultRanker | kSimilarityStoreType | kSimilarityDataPath |
  kLocalCacheCapacity | kLocalCacheTtlSeconds | kElasticsearchBaseUrl | kElasticsearchIndex |
  kElasticsearchUsername | kElasticsearchPassword | kElasticsearchPasswordEnv |
  kElasticsearchRequestTimeoutMs | kElasticsearchHttpClientPoolSize |
  kElasticsearchHttpClientAcquireTimeoutMs | kElasticsearchHttpClientRequestTimeoutMs |
  kElasticsearchHttpClientConnectTimeoutMs | kElasticsearchHttpClientAcquireRetryMaxAttempts |
  kElasticsearchHttpClientAcquireRetryDelayMs | kElasticsearchHttpClientConnectRetryMaxAttempts |
  kElasticsearchHttpClientConnectRetryDelayMs | kElasticsearchHttpClientRequestRetryMaxAttempts |
  kElasticsearchHttpClientRequestRetryDelayMs | kElasticsearchHttpClientFollowRedirects |
  kElasticsearchHttpClientVerifySsl | kElasticsearchHttpClientCaCertPath | kRedisHost | kRedisPort |
  kRedisDb | kRedisUsername | kRedisPassword | kRedisPasswordEnv | kRedisKeyPrefix |
  kRedisConnectTimeoutMs | kRedisSocketTimeoutMs | kRedisPoolSize | kRedisPoolWaitTimeoutMs |
  kRedisRetryMaxAttempts | kRedisRetryDelayMs | kRedisCommandBatchSize

record ConfigEntry =
  ce_field :: Field
  ce_key :: string
  ce_argument_name :: string
  ce_value_type :: ValueType
  ce_default_value :: string

definition config_entry :: "Field \<Rightarrow> string \<Rightarrow> string \<Rightarrow> ValueType \<Rightarrow> string \<Rightarrow> ConfigEntry" where
  "config_entry f k a t d =
     \<lparr>ce_field = f, ce_key = k, ce_argument_name = a, ce_value_type = t, ce_default_value = d\<rparr>"

definition kConfigEntries :: "ConfigEntry list" where
  "kConfigEntries =
    [config_entry kConfigPath ''config.path'' ''config_path'' kString ''config.debug.yaml'',
     config_entry kServerHost ''server.host'' ''host'' kString ''127.0.0.1'',
     config_entry kServerPort ''server.port'' ''port'' kUInt16 ''50000'',
     config_entry kLogLevel ''server.log_level'' ''log_level'' kString ''INFO'',
     config_entry kProfileServiceHost ''profile_service.host'' ''profile_service_host'' kString ''localhost'',
     config_entry kProfileServicePort ''profile_service.port'' ''profile_service_port'' kUInt16 ''50100'',
     config_entry kRetrievalServiceHost ''retrieval_service.host'' ''retrieval_service_host'' kString ''localhost'',
     config_entry kRetrievalServicePort ''retrieval_service.port'' ''retrieval_service_port'' kUInt16 ''50200'',
     config_entry kRankingServiceHost ''ranking_service.host'' ''ranking_service_host'' kString ''localhost'',
     config_entry kRankingServicePort ''ranking_service.port'' ''ranking_service_port'' kUInt16 ''50300'',
     config_entry kRetrievalRecallCandidateExpandRatio ''retrieval.recall_candidate_expand_ratio'' ''recall_candidate_expand_ratio'' kDouble ''1.0'',
     config_entry kRetrieverItemCfHost ''retriever_item_cf.host'' ''retriever_item_cf_host'' kString ''localhost'',
     config_entry kRetrieverItemCfPort ''retriever_item_cf.port'' ''retriever_item_cf_port'' kUInt16 ''50210'',
     config_entry kRetrieverUserCfHost ''retriever_user_cf.host'' ''retriever_user_cf_host'' kString ''localhost'',
     config_entry kRetrieverUserCfPort ''retriever_user_cf.port'' ''retriever_user_cf_port'' kUInt16 ''50220'',
     config_entry kRetrieverMaxTriggerSeedCount ''retriever.max_trigger_seed_count'' ''retriever_max_trigger_seed_count'' kInt ''24'',
     config_entry kRetrieverItemCfScoreMultiplier ''retriever_item_cf.score_multiplier'' ''item_cf_score_multiplier'' kDouble ''1.0'',
     config_entry kRetrieverUserCfScoreMultiplier ''retriever_user_cf.score_multiplier'' ''user_cf_score_multiplier'' kDouble ''1.0'',
     config_entry kUserCfTriggerSeedUserCount ''retriever_user_cf.trigger_seed_user_count'' ''user_cf_trigger_seed_user_count'' kInt ''10'',
     config_entry kProfileStoreType ''profile_store.type'' ''store_type'' kString ''local'',
     config_entry kProfileStoreDataPath ''profile_store.data_path'' ''data_path'' kString ''tests/testdata/recommendation_engine/local_recommendation_fixture/profiles.jsonl'',
     config_entry kItemIndexStoreType ''item_index_store.type'' ''item_index_store_type'' kString ''local'',
     config_entry kItemIndexStoreDataPath ''item_index_store.data_path'' ''item_index_data_path'' kString ''tests/testdata/recommendation_engine/local_recommendation_fixture/item_index.jsonl'',
     config_entry kRankingRankers ''ranking.rankers'' ''ranking_rankers'' kString ''heuristic_v1'',
     config_entry kRankingDefaultRanker ''ranking.default_ranker'' ''ranking_default_ranker'' kString ''heuristic_v1'',
     config_entry kSimilarityStoreType ''similarity_store.type'' ''similarity_store_type'' kString ''redis'',
     config_entry kSimilarityDataPath ''similarity_store.data_path'' ''similarity_data_path'' kString [],
     config_entry kLocalCacheCapacity ''local_cache.capacity'' ''cache_capacity'' kInt ''0'',
     config_entry kLocalCacheTtlSeconds ''local_cache.ttl_seconds'' ''cache_ttl_seconds'' kInt ''300'',
     config_entry kElasticsearchBaseUrl ''elasticsearch.base_url'' ''es_base_url'' kString [],
     config_entry kElasticsearchIndex ''elasticsearch.index'' ''es_index'' kString ''movielens_32m_user_profile'',
     config_entry kElasticsearchUsername ''elasticsearch.username'' ''es_username'' kString ''elastic'',
     config_entry kElasticsearchPassword ''elasticsearch.password'' ''es_password'' kString [],
     config_entry kElasticsearchPasswordEnv ''elasticsearch.password_env'' ''es_password_env'' kString ''ES_PASSWORD'',
     config_entry kElasticsearchRequestTimeoutMs ''elasticsearch.request_timeout_ms'' ''es_request_timeout_ms'' kInt ''100'',
     config_entry kElasticsearchHttpClientPoolSize ''elasticsearch.http_client.curl_handle_pool.pool_size'' ''es_http_client_curl_handle_pool_size'' kInt ''4'',
     config_entry kElasticsearchHttpClientAcquireTimeoutMs ''elasticsearch.http_client.curl_handle_pool.acquire_timeout_ms'' ''es_http_client_curl_handle_pool_acquire_timeout_ms'' kInt ''30'',
     config_entry kElasticsearchHttpClientRequestTimeoutMs ''elasticsearch.http_client.request_timeout_ms'' ''es_http_client_request_timeout_ms'' kInt ''30'',
     config_entry kElasticsearchHttpClientConnectTimeoutMs ''elasticsearch.http_client.connect_timeout_ms'' ''es_http_client_connect_timeout_ms'' kInt ''20'',
     config_entry kElasticsearchHttpClientAcquireRetryMaxAttempts ''elasticsearch.http_client.curl_handle_pool.retry.max_attempts'' ''es_http_client_curl_handle_pool_retry_max_attempts'' kInt ''3'',
     config_entry kElasticsearchHttpClientAcquireRetryDelayMs ''elasticsearch.http_client.curl_handle_pool.retry.delay_ms'' ''es_http_client_curl_handle_pool_retry_delay_ms'' kInt ''0'',
     config_entry kElasticsearchHttpClientConnectRetryMaxAttempts ''elasticsearch.http_client.connect_retry.max_attempts'' ''es_http_client_connect_retry_max_attempts'' kInt ''3'',
     config_entry kElasticsearchHttpClientConnectRetryDelayMs ''elasticsearch.http_client.connect_retry.delay_ms'' ''es_http_client_connect_retry_delay_ms'' kInt ''0'',
     config_entry kElasticsearchHttpClientRequestRetryMaxAttempts ''elasticsearch.http_client.request_retry.max_attempts'' ''es_http_client_request_retry_max_attempts'' kInt ''3'',
     config_entry kElasticsearchHttpClientRequestRetryDelayMs ''elasticsearch.http_client.request_retry.delay_ms'' ''es_http_client_request_retry_delay_ms'' kInt ''0'',
     config_entry kElasticsearchHttpClientFollowRedirects ''elasticsearch.http_client.follow_redirects'' ''es_http_client_follow_redirects'' kBool ''true'',
     config_entry kElasticsearchHttpClientVerifySsl ''elasticsearch.http_client.verify_ssl'' ''es_http_client_verify_ssl'' kBool ''true'',
     config_entry kElasticsearchHttpClientCaCertPath ''elasticsearch.http_client.ca_cert_path'' ''es_http_client_ca_cert_path'' kString [],
     config_entry kRedisHost ''redis.host'' ''redis_host'' kString ''localhost'',
     config_entry kRedisPort ''redis.port'' ''redis_port'' kUInt16 ''6379'',
     config_entry kRedisDb ''redis.db'' ''redis_db'' kInt ''0'',
     config_entry kRedisUsername ''redis.username'' ''redis_username'' kString [],
     config_entry kRedisPassword ''redis.password'' ''redis_password'' kString [],
     config_entry kRedisPasswordEnv ''redis.password_env'' ''redis_password_env'' kString ''REDIS_PASSWORD'',
     config_entry kRedisKeyPrefix ''redis.key_prefix'' ''redis_key_prefix'' kString ''rec:item_cf:v1:neighbors'',
     config_entry kRedisConnectTimeoutMs ''redis.connect_timeout_ms'' ''redis_connect_timeout_ms'' kInt ''100'',
     config_entry kRedisSocketTimeoutMs ''redis.socket_timeout_ms'' ''redis_socket_timeout_ms'' kInt ''100'',
     config_entry kRedisPoolSize ''redis.pool_size'' ''redis_pool_size'' kInt ''4'',
     config_entry kRedisPoolWaitTimeoutMs ''redis.pool_wait_timeout_ms'' ''redis_pool_wait_timeout_ms'' kInt ''50'',
     config_entry kRedisRetryMaxAttempts ''redis.retry.max_attempts'' ''redis_retry_max_attempts'' kInt ''2'',
     config_entry kRedisRetryDelayMs ''redis.retry.delay_ms'' ''redis_retry_delay_ms'' kInt ''10'',
     config_entry kRedisCommandBatchSize ''redis.command_batch_size'' ''redis_command_batch_size'' kInt ''8'']"

definition EntryForField :: "Field \<Rightarrow> ConfigEntry throws" where
  "EntryForField field =
     (case find (\<lambda>entry. ce_field entry = field) kConfigEntries of
        None \<Rightarrow> Inl (InvalidArgument ''Unknown global config field'')
      | Some entry \<Rightarrow> Inr entry)"

definition FindEntryByYamlKey :: "string \<Rightarrow> ConfigEntry option" where
  "FindEntryByYamlKey key = find (\<lambda>entry. ce_key entry = key) kConfigEntries"

definition FindEntryByArgumentName :: "string \<Rightarrow> ConfigEntry option" where
  "FindEntryByArgumentName name = find (\<lambda>entry. ce_argument_name entry = name \<or> ce_key entry = name) kConfigEntries"

definition Key :: "Field \<Rightarrow> string throws" where
  "Key field = bindE (EntryForField field) (\<lambda>entry. Inr (ce_key entry))"

section \<open>Typed values\<close>

definition Lowercase :: "string \<Rightarrow> string" where
  "Lowercase v = map lower_char v"

definition ParseIntValue :: "string \<Rightarrow> string \<Rightarrow> int throws" where
  "ParseIntValue key v =
     (case from_chars_signed int_min int_max v of
        (rest, ec, parsed) \<Rightarrow>
          if ec \<noteq> Ok \<or> rest \<noteq> [] then Inl (InvalidArgument (''Invalid integer config value for key: '' @ key))
          else Inr parsed)"

definition ParseBoolValue :: "string \<Rightarrow> string \<Rightarrow> bool throws" where
  "ParseBoolValue key v =
     (let normalized = Lowercase v in
      if normalized \<in> {''true'', ''1'', ''yes'', ''on''} then Inr True
      else if normalized \<in> {''false'', ''0'', ''no'', ''off''} then Inr False
      else Inl (InvalidArgument (''Invalid boolean config value for key: '' @ key)))"

text \<open>\<open>stod\<close> throws \<open>out_of_range\<close> when there is a number and \<open>invalid_argument\<close> when there is none.\<close>

definition stod_scans :: "string \<Rightarrow> bool" where
  "stod_scans cs =
     (let body = dropWhile is_space cs in
      scan_unsigned True (if (\<exists>r. body = CHR ''-'' # r) \<or> (\<exists>r. body = CHR ''+'' # r) then tl body else body) \<noteq> None)"

lemmas stod_scans_code [code] = stod_scans_def [unfolded ex_Cons_eq]

definition ParseDoubleValue :: "string \<Rightarrow> string \<Rightarrow> double throws" where
  "ParseDoubleValue key v =
     (case stod v of
        None \<Rightarrow>
          if stod_scans v then Inl (OutOfRange (''Double config value is out of range for key: '' @ key))
          else Inl (InvalidArgument (''Invalid double config value for key: '' @ key))
      | Some (parsed, parsed_length) \<Rightarrow>
          if parsed_length \<noteq> length v \<or> \<not> isfinite (double_value parsed)
          then Inl (InvalidArgument (''Invalid double config value for key: '' @ key))
          else Inr parsed)"

text \<open>\<open>std::to_string\<close> of a finite \<open>double\<close>: \<open>%f\<close>, six decimals, the exact value rounded to nearest.\<close>

definition six_digits :: "nat \<Rightarrow> string" where
  "six_digits n = replicate (6 - length (show_nat n)) (CHR ''0'') @ show_nat n"

definition to_string_rat :: "rat \<Rightarrow> string" where
  "to_string_rat q =
     (let n = nat (rint (\<bar>q\<bar> * 1000000)) in
      (if q < 0 then ''-'' else []) @ show_nat (n div 1000000) @ ''.'' @ six_digits (n mod 1000000))"

fun to_string_double :: "double \<Rightarrow> string" where
  "to_string_double NegativeZero = ''-'' @ to_string_rat 0"
| "to_string_double (Plain (Fin q)) = to_string_rat q"
| "to_string_double (Plain PInf) = ''inf''"
| "to_string_double (Plain NInf) = ''-inf''"
| "to_string_double (Plain NaN) = ''nan''"

definition uint16_max :: int where
  "uint16_max = 65535"

definition CanonicalizeValue :: "ConfigEntry \<Rightarrow> string \<Rightarrow> string throws" where
  "CanonicalizeValue entry v =
     (case ce_value_type entry of
        kString \<Rightarrow> Inr v
      | kInt \<Rightarrow> bindE (ParseIntValue (ce_key entry) v) (\<lambda>parsed. Inr (show_int parsed))
      | kDouble \<Rightarrow> bindE (ParseDoubleValue (ce_key entry) v) (\<lambda>parsed. Inr (to_string_double parsed))
      | kUInt16 \<Rightarrow>
          bindE (ParseIntValue (ce_key entry) v) (\<lambda>parsed.
            if parsed < 0 \<or> uint16_max < parsed
            then Inl (OutOfRange (''Config value is outside uint16_t range for key: '' @ ce_key entry))
            else Inr (show_int parsed))
      | kBool \<Rightarrow> bindE (ParseBoolValue (ce_key entry) v) (\<lambda>b. Inr (if b then ''true'' else ''false'')))"

definition quoted :: "string \<Rightarrow> string" where
  "quoted v = [CHR 0x27] @ v @ [CHR 0x27]"

section \<open>The configuration\<close>

record GlobalConfig =
  gc_values :: "Field \<rightharpoonup> string"
  gc_service_name :: string

definition GlobalConfig_empty :: GlobalConfig where
  "GlobalConfig_empty = \<lparr>gc_values = Map.empty, gc_service_name = []\<rparr>"

fun default_values :: "ConfigEntry list \<Rightarrow> GlobalConfig \<Rightarrow> unit throws \<times> GlobalConfig" where
  "default_values [] c = (Inr (), c)"
| "default_values (entry # es) c =
     (case CanonicalizeValue entry (ce_default_value entry) of
        Inl e \<Rightarrow> (Inl e, c)
      | Inr v \<Rightarrow> default_values es (c\<lparr>gc_values := (gc_values c)(ce_field entry \<mapsto> v)\<rparr>))"

definition ResetToDefaults :: "GlobalConfig \<Rightarrow> unit throws \<times> GlobalConfig" where
  "ResetToDefaults c = default_values kConfigEntries (c\<lparr>gc_values := Map.empty, gc_service_name := []\<rparr>)"

definition GlobalConfig_Initialize :: "string \<Rightarrow> GlobalConfig \<Rightarrow> unit throws \<times> GlobalConfig" where
  "GlobalConfig_Initialize service_name c =
     (if service_name = [] then (Inl (InvalidArgument ''service_name must not be empty''), c)
      else if gc_service_name c = [] then (Inr (), c\<lparr>gc_service_name := service_name\<rparr>)
      else if gc_service_name c \<noteq> service_name then
        (Inl (InvalidArgument (''GlobalConfig already initialized for service '' @ quoted (gc_service_name c) @
           '', cannot re-initialize with '' @ quoted service_name)), c)
      else (Inr (), c))"

definition GlobalConfig_Set :: "Field \<Rightarrow> string \<Rightarrow> GlobalConfig \<Rightarrow> unit throws \<times> GlobalConfig" where
  "GlobalConfig_Set field v c =
     (case EntryForField field of
        Inl e \<Rightarrow> (Inl e, c)
      | Inr entry \<Rightarrow>
          (case CanonicalizeValue entry v of
             Inl e \<Rightarrow> (Inl e, c)
           | Inr canonical \<Rightarrow> (Inr (), c\<lparr>gc_values := (gc_values c)(field \<mapsto> canonical)\<rparr>)))"

section \<open>Reading values\<close>

definition GetString :: "GlobalConfig \<Rightarrow> Field \<Rightarrow> string throws" where
  "GetString c field =
     (case gc_values c field of
        None \<Rightarrow> bindE (Key field) (\<lambda>key. Inl (InvalidArgument (''Global config field has no value: '' @ key)))
      | Some v \<Rightarrow> Inr v)"

definition GetInt :: "GlobalConfig \<Rightarrow> Field \<Rightarrow> int throws" where
  "GetInt c field = bindE (Key field) (\<lambda>key. bindE (GetString c field) (ParseIntValue key))"

definition GetDouble :: "GlobalConfig \<Rightarrow> Field \<Rightarrow> float64 throws" where
  "GetDouble c field = bindE (Key field) (\<lambda>key. bindE (GetString c field) (\<lambda>v.
     bindE (ParseDoubleValue key v) (\<lambda>parsed. Inr (double_value parsed))))"

definition GetNonNegativeInt :: "GlobalConfig \<Rightarrow> Field \<Rightarrow> int throws" where
  "GetNonNegativeInt c field =
     bindE (GetInt c field) (\<lambda>v. if v < 0
       then bindE (Key field) (\<lambda>key. Inl (InvalidArgument (key @ '' must not be negative''))) else Inr v)"

definition GetPositiveInt :: "GlobalConfig \<Rightarrow> Field \<Rightarrow> int throws" where
  "GetPositiveInt c field =
     bindE (GetNonNegativeInt c field) (\<lambda>v. if v \<le> 0
       then bindE (Key field) (\<lambda>key. Inl (InvalidArgument (key @ '' must be greater than 0''))) else Inr v)"

definition GetPositiveDouble :: "GlobalConfig \<Rightarrow> Field \<Rightarrow> float64 throws" where
  "GetPositiveDouble c field =
     bindE (GetDouble c field) (\<lambda>v. if fle v (Fin 0)
       then bindE (Key field) (\<lambda>key. Inl (InvalidArgument (key @ '' must be greater than 0''))) else Inr v)"

definition GetUInt16 :: "GlobalConfig \<Rightarrow> Field \<Rightarrow> 16 word throws" where
  "GetUInt16 c field =
     bindE (GetInt c field) (\<lambda>parsed. if parsed < 0 \<or> uint16_max < parsed
       then bindE (Key field) (\<lambda>key. Inl (OutOfRange (''Config value is outside uint16_t range for key: '' @ key)))
       else Inr (word_of_int parsed))"

definition GetBool :: "GlobalConfig \<Rightarrow> Field \<Rightarrow> bool throws" where
  "GetBool c field = bindE (Key field) (\<lambda>key. bindE (GetString c field) (ParseBoolValue key))"

definition GetAddress :: "GlobalConfig \<Rightarrow> Field \<Rightarrow> Field \<Rightarrow> string throws" where
  "GetAddress c host_field port_field =
     bindE (GetString c host_field) (\<lambda>host.
     bindE (GetUInt16 c port_field) (\<lambda>port. Inr (host @ '':'' @ show_nat (unat port))))"

definition GetServiceName :: "GlobalConfig \<Rightarrow> string throws" where
  "GetServiceName c =
     (if gc_service_name c = [] then Inl (InvalidArgument ''GlobalConfig service_name is not initialized'')
      else Inr (gc_service_name c))"

section \<open>Lists of values\<close>

text \<open>The turn of the loop at each comma.\<close>

function SplitCommaSeparatedValues :: "string \<Rightarrow> string list" where
  "SplitCommaSeparatedValues v =
     (let element = TrimWhitespace (takeWhile (\<lambda>c. c \<noteq> CHR '','') v);
          kept = (if element \<noteq> [] then [element] else [])
      in if CHR '','' \<notin> set v then kept
         else kept @ SplitCommaSeparatedValues (tl (dropWhile (\<lambda>c. c \<noteq> CHR '','') v)))"
  by pat_completeness auto
termination
proof (relation "measure length")
  fix v :: string and element kept
  assume "\<not> CHR '','' \<notin> set v"
  then have ne: "dropWhile (\<lambda>c. c \<noteq> CHR '','') v \<noteq> []" by auto
  then have "length (tl (dropWhile (\<lambda>c. c \<noteq> CHR '','') v)) < length (dropWhile (\<lambda>c. c \<noteq> CHR '','') v)" by simp
  also have "\<dots> \<le> length v" by (rule length_dropWhile_le)
  finally show "(tl (dropWhile (\<lambda>c. c \<noteq> CHR '','') v), v) \<in> measure length" by simp
qed simp

declare SplitCommaSeparatedValues.simps [simp del]

fun join_values :: "string \<Rightarrow> string list \<Rightarrow> string" where
  "join_values joined [] = joined"
| "join_values joined (v # vs) =
     (if v = [] then join_values joined vs
      else join_values ((if joined \<noteq> [] then joined @ '','' else joined) @ v) vs)"

definition JoinCommaSeparatedValues :: "string list \<Rightarrow> string" where
  "JoinCommaSeparatedValues vs = join_values [] vs"

definition GetRankingRankers :: "GlobalConfig \<Rightarrow> string list throws" where
  "GetRankingRankers c = bindE (GetString c kRankingRankers) (\<lambda>v. Inr (SplitCommaSeparatedValues v))"

section \<open>The accessors\<close>

definition GetConfigPath :: "GlobalConfig \<Rightarrow> string throws" where
  "GetConfigPath c = GetString c kConfigPath"

definition GetServerHost :: "GlobalConfig \<Rightarrow> string throws" where
  "GetServerHost c = GetString c kServerHost"

definition GetServerPort :: "GlobalConfig \<Rightarrow> 16 word throws" where
  "GetServerPort c = GetUInt16 c kServerPort"

definition GetListenAddress :: "GlobalConfig \<Rightarrow> string throws" where
  "GetListenAddress c = GetAddress c kServerHost kServerPort"

definition GetLogLevel :: "GlobalConfig \<Rightarrow> string throws" where
  "GetLogLevel c = GetString c kLogLevel"

definition GetProfileServiceHost :: "GlobalConfig \<Rightarrow> string throws" where
  "GetProfileServiceHost c = GetString c kProfileServiceHost"

definition GetProfileServicePort :: "GlobalConfig \<Rightarrow> 16 word throws" where
  "GetProfileServicePort c = GetUInt16 c kProfileServicePort"

definition GetProfileServiceAddress :: "GlobalConfig \<Rightarrow> string throws" where
  "GetProfileServiceAddress c = GetAddress c kProfileServiceHost kProfileServicePort"

definition GetRetrievalServiceHost :: "GlobalConfig \<Rightarrow> string throws" where
  "GetRetrievalServiceHost c = GetString c kRetrievalServiceHost"

definition GetRetrievalServicePort :: "GlobalConfig \<Rightarrow> 16 word throws" where
  "GetRetrievalServicePort c = GetUInt16 c kRetrievalServicePort"

definition GetRetrievalServiceAddress :: "GlobalConfig \<Rightarrow> string throws" where
  "GetRetrievalServiceAddress c = GetAddress c kRetrievalServiceHost kRetrievalServicePort"

definition GetRankingServiceHost :: "GlobalConfig \<Rightarrow> string throws" where
  "GetRankingServiceHost c = GetString c kRankingServiceHost"

definition GetRankingServicePort :: "GlobalConfig \<Rightarrow> 16 word throws" where
  "GetRankingServicePort c = GetUInt16 c kRankingServicePort"

definition GetRankingServiceAddress :: "GlobalConfig \<Rightarrow> string throws" where
  "GetRankingServiceAddress c = GetAddress c kRankingServiceHost kRankingServicePort"

definition GetRetrieverItemCfHost :: "GlobalConfig \<Rightarrow> string throws" where
  "GetRetrieverItemCfHost c = GetString c kRetrieverItemCfHost"

definition GetRetrieverItemCfPort :: "GlobalConfig \<Rightarrow> 16 word throws" where
  "GetRetrieverItemCfPort c = GetUInt16 c kRetrieverItemCfPort"

definition GetRetrieverItemCfAddress :: "GlobalConfig \<Rightarrow> string throws" where
  "GetRetrieverItemCfAddress c = GetAddress c kRetrieverItemCfHost kRetrieverItemCfPort"

definition GetRetrieverUserCfHost :: "GlobalConfig \<Rightarrow> string throws" where
  "GetRetrieverUserCfHost c = GetString c kRetrieverUserCfHost"

definition GetRetrieverUserCfPort :: "GlobalConfig \<Rightarrow> 16 word throws" where
  "GetRetrieverUserCfPort c = GetUInt16 c kRetrieverUserCfPort"

definition GetRetrieverUserCfAddress :: "GlobalConfig \<Rightarrow> string throws" where
  "GetRetrieverUserCfAddress c = GetAddress c kRetrieverUserCfHost kRetrieverUserCfPort"

definition GetRetrievalRecallCandidateExpandRatio :: "GlobalConfig \<Rightarrow> float64 throws" where
  "GetRetrievalRecallCandidateExpandRatio c = GetPositiveDouble c kRetrievalRecallCandidateExpandRatio"

definition GetRetrieverMaxTriggerSeedCount :: "GlobalConfig \<Rightarrow> int throws" where
  "GetRetrieverMaxTriggerSeedCount c = GetPositiveInt c kRetrieverMaxTriggerSeedCount"

definition GetRetrieverItemCfScoreMultiplier :: "GlobalConfig \<Rightarrow> float64 throws" where
  "GetRetrieverItemCfScoreMultiplier c = GetPositiveDouble c kRetrieverItemCfScoreMultiplier"

definition GetRetrieverUserCfScoreMultiplier :: "GlobalConfig \<Rightarrow> float64 throws" where
  "GetRetrieverUserCfScoreMultiplier c = GetPositiveDouble c kRetrieverUserCfScoreMultiplier"

definition GetUserCfTriggerSeedUserCount :: "GlobalConfig \<Rightarrow> int throws" where
  "GetUserCfTriggerSeedUserCount c = GetPositiveInt c kUserCfTriggerSeedUserCount"

definition GetProfileStoreType :: "GlobalConfig \<Rightarrow> string throws" where
  "GetProfileStoreType c = GetString c kProfileStoreType"

definition GetProfileStoreDataPath :: "GlobalConfig \<Rightarrow> string throws" where
  "GetProfileStoreDataPath c = GetString c kProfileStoreDataPath"

definition GetItemIndexStoreType :: "GlobalConfig \<Rightarrow> string throws" where
  "GetItemIndexStoreType c = GetString c kItemIndexStoreType"

definition GetItemIndexStoreDataPath :: "GlobalConfig \<Rightarrow> string throws" where
  "GetItemIndexStoreDataPath c = GetString c kItemIndexStoreDataPath"

definition GetRankingDefaultRanker :: "GlobalConfig \<Rightarrow> string throws" where
  "GetRankingDefaultRanker c = GetString c kRankingDefaultRanker"

definition GetSimilarityStoreType :: "GlobalConfig \<Rightarrow> string throws" where
  "GetSimilarityStoreType c = GetString c kSimilarityStoreType"

definition GetSimilarityDataPath :: "GlobalConfig \<Rightarrow> string throws" where
  "GetSimilarityDataPath c = GetString c kSimilarityDataPath"

definition GetLocalCacheCapacity :: "GlobalConfig \<Rightarrow> int throws" where
  "GetLocalCacheCapacity c = GetInt c kLocalCacheCapacity"

definition GetLocalCacheTtlSeconds :: "GlobalConfig \<Rightarrow> int throws" where
  "GetLocalCacheTtlSeconds c = GetInt c kLocalCacheTtlSeconds"

definition GetLocalCacheCapacityKey :: "string throws" where
  "GetLocalCacheCapacityKey = Key kLocalCacheCapacity"

definition GetLocalCacheTtlSecondsKey :: "string throws" where
  "GetLocalCacheTtlSecondsKey = Key kLocalCacheTtlSeconds"

definition GetElasticsearchBaseUrl :: "GlobalConfig \<Rightarrow> string throws" where
  "GetElasticsearchBaseUrl c = GetString c kElasticsearchBaseUrl"

definition GetElasticsearchIndex :: "GlobalConfig \<Rightarrow> string throws" where
  "GetElasticsearchIndex c = GetString c kElasticsearchIndex"

definition GetElasticsearchUsername :: "GlobalConfig \<Rightarrow> string throws" where
  "GetElasticsearchUsername c = GetString c kElasticsearchUsername"

definition GetElasticsearchPassword :: "GlobalConfig \<Rightarrow> string throws" where
  "GetElasticsearchPassword c = GetString c kElasticsearchPassword"

definition GetElasticsearchPasswordEnv :: "GlobalConfig \<Rightarrow> string throws" where
  "GetElasticsearchPasswordEnv c = GetString c kElasticsearchPasswordEnv"

definition GetElasticsearchRequestTimeoutMs :: "GlobalConfig \<Rightarrow> int throws" where
  "GetElasticsearchRequestTimeoutMs c = GetPositiveInt c kElasticsearchRequestTimeoutMs"

definition GetElasticsearchHttpClientPoolSize :: "GlobalConfig \<Rightarrow> int throws" where
  "GetElasticsearchHttpClientPoolSize c = GetPositiveInt c kElasticsearchHttpClientPoolSize"

definition GetElasticsearchHttpClientAcquireTimeoutMs :: "GlobalConfig \<Rightarrow> int throws" where
  "GetElasticsearchHttpClientAcquireTimeoutMs c = GetPositiveInt c kElasticsearchHttpClientAcquireTimeoutMs"

definition GetElasticsearchHttpClientRequestTimeoutMs :: "GlobalConfig \<Rightarrow> int throws" where
  "GetElasticsearchHttpClientRequestTimeoutMs c = GetPositiveInt c kElasticsearchHttpClientRequestTimeoutMs"

definition GetElasticsearchHttpClientConnectTimeoutMs :: "GlobalConfig \<Rightarrow> int throws" where
  "GetElasticsearchHttpClientConnectTimeoutMs c = GetPositiveInt c kElasticsearchHttpClientConnectTimeoutMs"

definition GetElasticsearchHttpClientAcquireRetryMaxAttempts :: "GlobalConfig \<Rightarrow> int throws" where
  "GetElasticsearchHttpClientAcquireRetryMaxAttempts c = GetPositiveInt c kElasticsearchHttpClientAcquireRetryMaxAttempts"

definition GetElasticsearchHttpClientAcquireRetryDelayMs :: "GlobalConfig \<Rightarrow> int throws" where
  "GetElasticsearchHttpClientAcquireRetryDelayMs c = GetNonNegativeInt c kElasticsearchHttpClientAcquireRetryDelayMs"

definition GetElasticsearchHttpClientConnectRetryMaxAttempts :: "GlobalConfig \<Rightarrow> int throws" where
  "GetElasticsearchHttpClientConnectRetryMaxAttempts c = GetPositiveInt c kElasticsearchHttpClientConnectRetryMaxAttempts"

definition GetElasticsearchHttpClientConnectRetryDelayMs :: "GlobalConfig \<Rightarrow> int throws" where
  "GetElasticsearchHttpClientConnectRetryDelayMs c = GetNonNegativeInt c kElasticsearchHttpClientConnectRetryDelayMs"

definition GetElasticsearchHttpClientRequestRetryMaxAttempts :: "GlobalConfig \<Rightarrow> int throws" where
  "GetElasticsearchHttpClientRequestRetryMaxAttempts c = GetPositiveInt c kElasticsearchHttpClientRequestRetryMaxAttempts"

definition GetElasticsearchHttpClientRequestRetryDelayMs :: "GlobalConfig \<Rightarrow> int throws" where
  "GetElasticsearchHttpClientRequestRetryDelayMs c = GetNonNegativeInt c kElasticsearchHttpClientRequestRetryDelayMs"

definition GetElasticsearchHttpClientFollowRedirects :: "GlobalConfig \<Rightarrow> bool throws" where
  "GetElasticsearchHttpClientFollowRedirects c = GetBool c kElasticsearchHttpClientFollowRedirects"

definition GetElasticsearchHttpClientVerifySsl :: "GlobalConfig \<Rightarrow> bool throws" where
  "GetElasticsearchHttpClientVerifySsl c = GetBool c kElasticsearchHttpClientVerifySsl"

definition GetElasticsearchHttpClientCaCertPath :: "GlobalConfig \<Rightarrow> string throws" where
  "GetElasticsearchHttpClientCaCertPath c = GetString c kElasticsearchHttpClientCaCertPath"

definition GetElasticsearchRequestTimeoutMsKey :: "string throws" where
  "GetElasticsearchRequestTimeoutMsKey = Key kElasticsearchRequestTimeoutMs"

definition GetElasticsearchHttpClientAcquireTimeoutMsKey :: "string throws" where
  "GetElasticsearchHttpClientAcquireTimeoutMsKey = Key kElasticsearchHttpClientAcquireTimeoutMs"

definition GetElasticsearchHttpClientRequestTimeoutMsKey :: "string throws" where
  "GetElasticsearchHttpClientRequestTimeoutMsKey = Key kElasticsearchHttpClientRequestTimeoutMs"

definition GetElasticsearchHttpClientConnectTimeoutMsKey :: "string throws" where
  "GetElasticsearchHttpClientConnectTimeoutMsKey = Key kElasticsearchHttpClientConnectTimeoutMs"

definition GetRedisHost :: "GlobalConfig \<Rightarrow> string throws" where
  "GetRedisHost c = GetString c kRedisHost"

definition GetRedisPort :: "GlobalConfig \<Rightarrow> 16 word throws" where
  "GetRedisPort c = GetUInt16 c kRedisPort"

definition GetRedisDb :: "GlobalConfig \<Rightarrow> int throws" where
  "GetRedisDb c = GetNonNegativeInt c kRedisDb"

definition GetRedisUsername :: "GlobalConfig \<Rightarrow> string throws" where
  "GetRedisUsername c = GetString c kRedisUsername"

definition GetRedisPassword :: "GlobalConfig \<Rightarrow> string throws" where
  "GetRedisPassword c = GetString c kRedisPassword"

definition GetRedisPasswordEnv :: "GlobalConfig \<Rightarrow> string throws" where
  "GetRedisPasswordEnv c = GetString c kRedisPasswordEnv"

definition GetRedisKeyPrefix :: "GlobalConfig \<Rightarrow> string throws" where
  "GetRedisKeyPrefix c = GetString c kRedisKeyPrefix"

definition GetRedisConnectTimeoutMs :: "GlobalConfig \<Rightarrow> int throws" where
  "GetRedisConnectTimeoutMs c = GetNonNegativeInt c kRedisConnectTimeoutMs"

definition GetRedisSocketTimeoutMs :: "GlobalConfig \<Rightarrow> int throws" where
  "GetRedisSocketTimeoutMs c = GetNonNegativeInt c kRedisSocketTimeoutMs"

definition GetRedisPoolSize :: "GlobalConfig \<Rightarrow> int throws" where
  "GetRedisPoolSize c = GetPositiveInt c kRedisPoolSize"

definition GetRedisPoolWaitTimeoutMs :: "GlobalConfig \<Rightarrow> int throws" where
  "GetRedisPoolWaitTimeoutMs c = GetNonNegativeInt c kRedisPoolWaitTimeoutMs"

definition GetRedisRetryMaxAttempts :: "GlobalConfig \<Rightarrow> int throws" where
  "GetRedisRetryMaxAttempts c = GetPositiveInt c kRedisRetryMaxAttempts"

definition GetRedisRetryDelayMs :: "GlobalConfig \<Rightarrow> int throws" where
  "GetRedisRetryDelayMs c = GetNonNegativeInt c kRedisRetryDelayMs"

definition GetRedisCommandBatchSize :: "GlobalConfig \<Rightarrow> int throws" where
  "GetRedisCommandBatchSize c = GetPositiveInt c kRedisCommandBatchSize"

end
