(* ===== verification/ConfigLoading.thy ===== *)
theory ConfigLoading
  imports Configuration
begin

text \<open>
  How the configuration is filled, src/src/utilities/global_config/global_config.cpp: the YAML file, the
  command line, the search for the file and what is logged of the result. The YAML library is an argument,
  the text of a file to its tree; a state-changing function returns what it throws and the configuration
  it leaves.
\<close>

section \<open>YAML\<close>

datatype Yaml =
    YamlUndefined
  | YamlNull
  | YamlScalar string
  | YamlSequence "Yaml list"
  | YamlMap "(Yaml \<times> Yaml) list"

text \<open>\<open>std::map<string, string>\<close>: its entries in the order of the keys.\<close>

type_synonym string_map = "(string \<times> string) list"

fun map_set :: "string \<Rightarrow> string \<Rightarrow> string_map \<Rightarrow> string_map" where
  "map_set k v [] = [(k, v)]"
| "map_set k v ((k', v') # m) =
     (if k = k' then (k, v) # m
      else if k < k' then (k, v) # (k', v') # m
      else (k', v') # map_set k v m)"

definition JoinKey :: "string \<Rightarrow> string \<Rightarrow> string" where
  "JoinKey prefix key = (if prefix = [] then key else prefix @ ''.'' @ key)"

fun FlattenYamlNode :: "Yaml \<Rightarrow> string \<Rightarrow> string_map \<Rightarrow> string_map throws"
  and flatten_map :: "(Yaml \<times> Yaml) list \<Rightarrow> string \<Rightarrow> string_map \<Rightarrow> string_map throws"
  and flatten_sequence :: "nat \<Rightarrow> Yaml list \<Rightarrow> string \<Rightarrow> string_map \<Rightarrow> string_map throws" where
  "FlattenYamlNode YamlUndefined prefix m = Inr m"
| "FlattenYamlNode YamlNull prefix m = Inr m"
| "FlattenYamlNode (YamlScalar s) prefix m =
     (if prefix = [] then Inl (InvalidArgument ''YAML root scalar cannot be converted to keyed config'')
      else Inr (map_set prefix s m))"
| "FlattenYamlNode (YamlMap es) prefix m = flatten_map es prefix m"
| "FlattenYamlNode (YamlSequence nodes) prefix m =
     (if prefix = [] then Inl (InvalidArgument ''YAML root sequence cannot be converted to keyed config'')
      else flatten_sequence 0 nodes prefix m)"
| "flatten_map [] prefix m = Inr m"
| "flatten_map ((key, node) # es) prefix m =
     (case key of
        YamlScalar k \<Rightarrow>
          (case FlattenYamlNode node (JoinKey prefix k) m of
             Inl e \<Rightarrow> Inl e
           | Inr m \<Rightarrow> flatten_map es prefix m)
      | _ \<Rightarrow> Inl (InvalidArgument ''YAML config keys must be scalars''))"
| "flatten_sequence i [] prefix m = Inr m"
| "flatten_sequence i (node # nodes) prefix m =
     (case FlattenYamlNode node (JoinKey prefix (show_nat i)) m of
        Inl e \<Rightarrow> Inl e
      | Inr m \<Rightarrow> flatten_sequence (Suc i) nodes prefix m)"

definition StartsWith :: "string \<Rightarrow> string \<Rightarrow> bool" where
  "StartsWith v prefix \<longleftrightarrow> length prefix \<le> length v \<and> take (length prefix) v = prefix"

definition kRankerPrefix :: string where
  "kRankerPrefix = ''ranking.rankers.''"

definition ParseRankingRankerArrayIndex :: "string \<Rightarrow> int option" where
  "ParseRankingRankerArrayIndex key =
     (if \<not> StartsWith key kRankerPrefix then None
      else
        (let index_text = drop (length kRankerPrefix) key in
         if index_text = [] then None
         else
           (case from_chars_signed int_min int_max index_text of
              (rest, ec, parsed) \<Rightarrow> if ec \<noteq> Ok \<or> rest \<noteq> [] \<or> parsed < 0 then None else Some parsed)))"

text \<open>The loop of \<open>ApplyFile\<close>: the rankers found so far, and the configuration.\<close>

fun apply_loaded :: "string_map \<Rightarrow> (int \<times> string) list \<Rightarrow> GlobalConfig \<Rightarrow> (int \<times> string) list throws \<times> GlobalConfig" where
  "apply_loaded [] rankers c = (Inr rankers, c)"
| "apply_loaded ((key, v) # m) rankers c =
     (case ParseRankingRankerArrayIndex key of
        Some i \<Rightarrow> apply_loaded m (rankers @ [(i, v)]) c
      | None \<Rightarrow>
          (case FindEntryByYamlKey key of
             None \<Rightarrow> (Inl (InvalidArgument (''Unknown YAML config key: '' @ key)), c)
           | Some entry \<Rightarrow>
               (case GlobalConfig_Set (ce_field entry) v c of
                  (Inl e, c) \<Rightarrow> (Inl e, c)
                | (Inr _, c) \<Rightarrow> apply_loaded m rankers c)))"

definition ApplyFile :: "(string \<Rightarrow> string + Yaml) \<Rightarrow> string \<Rightarrow> GlobalConfig \<Rightarrow> unit throws \<times> GlobalConfig" where
  "ApplyFile load_file file_path c =
     (case load_file file_path of
        Inl msg \<Rightarrow>
          (Inl (InvalidArgument (''Failed to load YAML config file '' @ quoted file_path @ '': '' @ msg)), c)
      | Inr node \<Rightarrow>
          (case FlattenYamlNode node [] [] of
             Inl e \<Rightarrow> (Inl e, c)
           | Inr loaded_values \<Rightarrow>
               (case apply_loaded loaded_values [] c of
                  (Inl e, c) \<Rightarrow> (Inl e, c)
                | (Inr ranking_rankers, c) \<Rightarrow>
                    if ranking_rankers = [] then (Inr (), c)
                    else
                      (let names = map (\<lambda>(i, name). TrimWhitespace name) (sort ranking_rankers);
                           ranker_names = filter (\<lambda>name. name \<noteq> []) names
                       in GlobalConfig_Set kRankingRankers (JoinCommaSeparatedValues ranker_names) c))))"

text \<open>\<open>exists\<close> gives whether the file is there, or the message of its error code.\<close>

definition ApplyFileIfExists ::
  "(string \<Rightarrow> string + bool) \<Rightarrow> (string \<Rightarrow> string + Yaml) \<Rightarrow> string \<Rightarrow> GlobalConfig \<Rightarrow> unit throws \<times> GlobalConfig" where
  "ApplyFileIfExists file_exists load_file file_path c =
     (case file_exists file_path of
        Inl msg \<Rightarrow>
          (Inl (InvalidArgument (''Failed to inspect YAML config file '' @ quoted file_path @ '': '' @ msg)), c)
      | Inr False \<Rightarrow> (Inr (), c)
      | Inr True \<Rightarrow> ApplyFile load_file file_path c)"

section \<open>The command line\<close>

text \<open>An argument without its dashes: the name, and the value after the first equals sign.\<close>

definition split_argument :: "string \<Rightarrow> string \<times> string option" where
  "split_argument arg =
     (if CHR ''='' \<in> set arg
      then (takeWhile (\<lambda>c. c \<noteq> CHR ''='') arg, Some (tl (dropWhile (\<lambda>c. c \<noteq> CHR ''='') arg)))
      else (arg, None))"

text \<open>The value of an argument and the arguments left after it.\<close>

definition ReadArgumentValue ::
  "string list \<Rightarrow> string \<Rightarrow> string option \<Rightarrow> ConfigEntry \<Rightarrow> (string \<times> string list) throws" where
  "ReadArgumentValue rest name inline_value entry =
     (case inline_value of
        Some v \<Rightarrow> Inr (v, rest)
      | None \<Rightarrow>
          if ce_value_type entry = kBool then Inr (''true'', rest)
          else
            (case rest of
               [] \<Rightarrow> Inl (InvalidArgument (''Missing value for command line argument: --'' @ name))
             | v # rest \<Rightarrow> Inr (v, rest)))"

text \<open>The dashes taken off, and whether a \<open>no\<close> before the name of a boolean field was.\<close>

definition negated_argument :: "string \<Rightarrow> string \<times> bool" where
  "negated_argument arg =
     (if StartsWith arg ''no'' then
        (case FindEntryByArgumentName (drop 2 arg) of
           Some entry \<Rightarrow> if ce_value_type entry = kBool then (drop 2 arg, True) else (arg, False)
         | None \<Rightarrow> (arg, False))
      else (arg, False))"

lemma ReadArgumentValue_rest:
  "ReadArgumentValue rest name inline_value entry = Inr (v, rest') \<Longrightarrow> length rest' \<le> length rest"
  by (auto simp: ReadArgumentValue_def split: option.splits if_splits list.splits)

text \<open>One argument: the field and the value it sets, and the arguments left.\<close>

definition read_argument :: "string \<Rightarrow> string list \<Rightarrow> ((ConfigEntry \<times> string) \<times> string list) throws" where
  "read_argument raw_arg rest =
     (if \<not> StartsWith raw_arg ''--'' then
        Inl (InvalidArgument (''Unexpected positional command line argument: '' @ raw_arg))
      else
        (let (arg, negated_bool) = negated_argument (drop 2 raw_arg);
             (name, inline_value) = split_argument arg
         in case FindEntryByArgumentName name of
              None \<Rightarrow> Inl (InvalidArgument (''Unknown command line argument: --'' @ name))
            | Some entry \<Rightarrow>
                if negated_bool then
                  if inline_value \<noteq> None then
                    Inl (InvalidArgument (''Negated boolean argument does not accept a value: --no'' @ name))
                  else Inr ((entry, ''false''), rest)
                else bindE (ReadArgumentValue rest name inline_value entry) (\<lambda>(v, rest). Inr ((entry, v), rest))))"

lemma read_argument_rest: "read_argument raw_arg rest = Inr (r, rest') \<Longrightarrow> length rest' \<le> length rest"
  using ReadArgumentValue_rest
  by (auto simp: read_argument_def Let_def split: if_splits prod.splits option.splits)

text \<open>The arguments after the program's name.\<close>

function ConfigArguments_Apply :: "string list \<Rightarrow> GlobalConfig \<Rightarrow> unit throws \<times> GlobalConfig" where
  "ConfigArguments_Apply [] c = (Inr (), c)"
| "ConfigArguments_Apply (raw_arg # rest) c =
     (if raw_arg = ''--'' then (Inr (), c)
      else
        (case read_argument raw_arg rest of
           Inl e \<Rightarrow> (Inl e, c)
         | Inr ((entry, v), rest') \<Rightarrow>
             if ce_field entry = kConfigPath then ConfigArguments_Apply rest' c
             else
               (case GlobalConfig_Set (ce_field entry) v c of
                  (Inl e, c) \<Rightarrow> (Inl e, c)
                | (Inr _, c) \<Rightarrow> ConfigArguments_Apply rest' c)))"
  by pat_completeness auto
termination
  by (relation "measure (\<lambda>(args, c). length args)") (auto dest: read_argument_rest)

section \<open>The configuration file of a process\<close>

record StartupConfigPath =
  sc_path :: string
  sc_from_command_line :: bool

fun find_startup_path :: "string list \<Rightarrow> StartupConfigPath option throws" where
  "find_startup_path [] = Inr None"
| "find_startup_path (raw_arg # rest) =
     (if \<not> StartsWith raw_arg ''--'' then find_startup_path rest
      else
        (case split_argument (drop 2 raw_arg) of
           (name, inline_value) \<Rightarrow>
             (case FindEntryByArgumentName name of
                None \<Rightarrow> find_startup_path rest
              | Some entry \<Rightarrow>
                  if ce_field entry \<noteq> kConfigPath then find_startup_path rest
                  else
                    (case inline_value of
                       Some v \<Rightarrow> Inr (Some \<lparr>sc_path = v, sc_from_command_line = True\<rparr>)
                     | None \<Rightarrow>
                         (case rest of
                            [] \<Rightarrow> Inl (InvalidArgument (''Missing value for command line argument: --'' @ name))
                          | v # _ \<Rightarrow> Inr (Some \<lparr>sc_path = v, sc_from_command_line = True\<rparr>))))))"

definition FindStartupConfigPath :: "string list \<Rightarrow> GlobalConfig \<Rightarrow> StartupConfigPath throws" where
  "FindStartupConfigPath args c =
     bindE (find_startup_path args) (\<lambda>found.
       (case found of
          Some p \<Rightarrow> Inr p
        | None \<Rightarrow> bindE (GetConfigPath c) (\<lambda>p. Inr \<lparr>sc_path = p, sc_from_command_line = False\<rparr>)))"

definition ResolveStartupConfigPath :: "(string \<Rightarrow> bool) \<Rightarrow> string \<Rightarrow> StartupConfigPath \<Rightarrow> string \<Rightarrow> string" where
  "ResolveStartupConfigPath file_exists cwd startup_config_path executable_path =
     (let p = sc_path startup_config_path in
      if p = [] then p
      else if is_absolute p then p
      else
        (let executable_relative_path =
               lexically_normal (path_append (parent_path (absolute cwd executable_path)) p)
         in if sc_from_command_line startup_config_path \<or> file_exists executable_relative_path
            then executable_relative_path
            else
              (let current_path_relative = lexically_normal (path_append cwd p) in
               if file_exists current_path_relative then current_path_relative else executable_relative_path)))"

definition ApplyStartupFile ::
  "(string \<Rightarrow> bool) \<Rightarrow> string \<Rightarrow> (string \<Rightarrow> string + Yaml) \<Rightarrow> string list \<Rightarrow> string \<Rightarrow> GlobalConfig \<Rightarrow>
     unit throws \<times> GlobalConfig" where
  "ApplyStartupFile file_exists cwd load_file args executable_path c =
     (case FindStartupConfigPath args c of
        Inl e \<Rightarrow> (Inl e, c)
      | Inr startup_config_path \<Rightarrow>
          (let resolved_config_path = ResolveStartupConfigPath file_exists cwd startup_config_path executable_path in
           if \<not> sc_from_command_line startup_config_path \<and> \<not> file_exists resolved_config_path then (Inr (), c)
           else
             (case ApplyFile load_file resolved_config_path c of
                (Inl e, c) \<Rightarrow> (Inl e, c)
              | (Inr _, c) \<Rightarrow> GlobalConfig_Set kConfigPath resolved_config_path c)))"

text \<open>The start of a process, as \<open>RunGrpcService\<close> does it; \<open>argv\<close> with the program's name first.\<close>

definition load_configuration ::
  "(string \<Rightarrow> bool) \<Rightarrow> string \<Rightarrow> (string \<Rightarrow> string + Yaml) \<Rightarrow> string \<Rightarrow> string list \<Rightarrow> GlobalConfig \<Rightarrow>
     unit throws \<times> GlobalConfig" where
  "load_configuration file_exists cwd load_file service_name argv c =
     (case GlobalConfig_Initialize service_name c of
        (Inl e, c) \<Rightarrow> (Inl e, c)
      | (Inr _, c) \<Rightarrow>
          (case ApplyStartupFile file_exists cwd load_file (tl argv) (hd argv) c of
             (Inl e, c) \<Rightarrow> (Inl e, c)
           | (Inr _, c) \<Rightarrow> ConfigArguments_Apply (tl argv) c))"

section \<open>What is logged\<close>

definition kRedactedValue :: string where
  "kRedactedValue = ''<redacted>''"

definition BelongsToConfigSection :: "string \<Rightarrow> string \<Rightarrow> bool" where
  "BelongsToConfigSection key config_key_prefix \<longleftrightarrow>
     config_key_prefix = [] \<or>
     StartsWith key config_key_prefix \<and>
       (length key = length config_key_prefix \<or> key ! length config_key_prefix = CHR ''.'')"

definition GetResolvedValues :: "GlobalConfig \<Rightarrow> (string \<times> string) list throws" where
  "GetResolvedValues c =
     mapE (\<lambda>entry. bindE (GetString c (ce_field entry)) (\<lambda>v. Inr (ce_key entry, v))) kConfigEntries"

fun has_word :: "string \<Rightarrow> string \<Rightarrow> bool" where
  "has_word w [] \<longleftrightarrow> w = []"
| "has_word w (c # cs) \<longleftrightarrow> take (length w) (c # cs) = w \<or> has_word w cs"

definition IsSensitiveConfigKey :: "string \<Rightarrow> bool" where
  "IsSensitiveConfigKey key \<longleftrightarrow> has_word ''password'' key"

definition redacted :: "string \<times> string \<Rightarrow> string \<times> string" where
  "redacted kv = (case kv of (key, v) \<Rightarrow> (key, if IsSensitiveConfigKey key then kRedactedValue else v))"

text \<open>The fields handed to the logger.\<close>

definition LogResolvedConfig :: "GlobalConfig \<Rightarrow> (string \<times> string) list throws" where
  "LogResolvedConfig c = bindE (GetResolvedValues c) (\<lambda>vs. Inr (map redacted vs))"

definition LogResolvedConfigSection :: "string \<Rightarrow> GlobalConfig \<Rightarrow> (string \<times> string) list throws" where
  "LogResolvedConfigSection config_key_prefix c =
     bindE (GetResolvedValues c) (\<lambda>vs.
       Inr ((''config_section'', config_key_prefix) #
         map redacted (filter (\<lambda>(key, v). BelongsToConfigSection key config_key_prefix) vs)))"

end
