(* ===== verification/ConfigContract.thy ===== *)
theory ConfigContract
  imports ConfigLoading
begin

text \<open>
  What the configuration promises: after any loading every field holds the canonical text of a value of
  its type, so reads by type do not fail.
\<close>

section \<open>The table\<close>

lemma EntryForField_entry:
  assumes "EntryForField field = Inr entry"
  shows "ce_field entry = field" "entry \<in> set kConfigEntries"
  using assms by (auto simp: EntryForField_def find_Some_iff split: option.splits)

lemma table_fields:
  "map ce_field kConfigEntries =
    [kConfigPath, kServerHost, kServerPort, kLogLevel, kProfileServiceHost, kProfileServicePort,
     kRetrievalServiceHost, kRetrievalServicePort, kRankingServiceHost, kRankingServicePort,
     kRetrievalRecallCandidateExpandRatio, kRetrieverItemCfHost, kRetrieverItemCfPort,
     kRetrieverUserCfHost, kRetrieverUserCfPort, kRetrieverMaxTriggerSeedCount,
     kRetrieverItemCfScoreMultiplier, kRetrieverUserCfScoreMultiplier, kUserCfTriggerSeedUserCount,
     kProfileStoreType, kProfileStoreDataPath, kItemIndexStoreType, kItemIndexStoreDataPath,
     kRankingRankers, kRankingDefaultRanker, kSimilarityStoreType, kSimilarityDataPath,
     kLocalCacheCapacity, kLocalCacheTtlSeconds, kElasticsearchBaseUrl, kElasticsearchIndex,
     kElasticsearchUsername, kElasticsearchPassword, kElasticsearchPasswordEnv,
     kElasticsearchRequestTimeoutMs, kElasticsearchHttpClientPoolSize,
     kElasticsearchHttpClientAcquireTimeoutMs, kElasticsearchHttpClientRequestTimeoutMs,
     kElasticsearchHttpClientConnectTimeoutMs, kElasticsearchHttpClientAcquireRetryMaxAttempts,
     kElasticsearchHttpClientAcquireRetryDelayMs, kElasticsearchHttpClientConnectRetryMaxAttempts,
     kElasticsearchHttpClientConnectRetryDelayMs, kElasticsearchHttpClientRequestRetryMaxAttempts,
     kElasticsearchHttpClientRequestRetryDelayMs, kElasticsearchHttpClientFollowRedirects,
     kElasticsearchHttpClientVerifySsl, kElasticsearchHttpClientCaCertPath, kRedisHost, kRedisPort,
     kRedisDb, kRedisUsername, kRedisPassword, kRedisPasswordEnv, kRedisKeyPrefix,
     kRedisConnectTimeoutMs, kRedisSocketTimeoutMs, kRedisPoolSize, kRedisPoolWaitTimeoutMs,
     kRedisRetryMaxAttempts, kRedisRetryDelayMs, kRedisCommandBatchSize]"
  by code_simp

lemma all_fields: "field \<in> ce_field ` set kConfigEntries"
proof -
  have "field \<in> set (map ce_field kConfigEntries)"
    unfolding table_fields by (cases field) (simp_all only: list.set insert_iff simp_thms)
  then show ?thesis by simp
qed

lemma EntryForField_total: "\<exists>entry. EntryForField field = Inr entry"
proof -
  have "find (\<lambda>entry. ce_field entry = field) kConfigEntries \<noteq> None"
    using all_fields [of field] by (auto simp: find_None_iff)
  then show ?thesis by (auto simp: EntryForField_def split: option.splits)
qed

lemma table_distinct: "distinct (map ce_key kConfigEntries)" "distinct (map ce_field kConfigEntries)"
  "distinct (map ce_argument_name kConfigEntries)"
  by code_simp+

lemma EntryForField_iff: "EntryForField field = Inr entry \<longleftrightarrow> entry \<in> set kConfigEntries \<and> ce_field entry = field"
proof
  assume "entry \<in> set kConfigEntries \<and> ce_field entry = field"
  then show "EntryForField field = Inr entry"
    using EntryForField_total [of field] EntryForField_entry table_distinct(2)
    by (metis (no_types, lifting) distinct_map inj_onD)
qed (use EntryForField_entry in auto)

section \<open>Canonical texts\<close>

lemma ParseIntValue_show [simp]: "int_min \<le> i \<Longrightarrow> i \<le> int_max \<Longrightarrow> ParseIntValue key (show_int i) = Inr i"
  by (simp add: ParseIntValue_def from_chars_signed_show)

lemma ParseIntValue_range: "ParseIntValue key v = Inr i \<Longrightarrow> int_min \<le> i \<and> i \<le> int_max"
  by (auto simp: ParseIntValue_def from_chars_signed.simps Let_def split: prod.splits if_splits)

lemma Lowercase_bools: "ParseBoolValue key ''true'' = Inr True" "ParseBoolValue key ''false'' = Inr False"
proof -
  have "Lowercase ''true'' = ''true''" "Lowercase ''false'' = ''false''" by code_simp+
  then show "ParseBoolValue key ''true'' = Inr True" "ParseBoolValue key ''false'' = Inr False"
    by (simp_all add: ParseBoolValue_def)
qed

text \<open>Six decimals: the text of \<open>n\<close> millionths is read as \<open>n / 10^6\<close>, rounded to the nearest double.\<close>

lemma show_nat_length: "n < 10 ^ Suc k \<Longrightarrow> length (show_nat n) \<le> Suc k"
proof (induction k arbitrary: n)
  case 0
  then show ?case by (simp add: show_nat.simps [of n])
next
  case (Suc k)
  then have "n div 10 < 10 ^ Suc k" by (simp add: less_mult_imp_div_less)
  with Suc.IH [of "n div 10"] show ?case by (simp add: show_nat.simps [of n])
qed

lemma digits_val_append: "digits_val (xs @ ys) = digits_val xs * 10 ^ length ys + digits_val ys"
proof (induction ys rule: rev_induct)
  case Nil
  show ?case by (simp add: digits_val_def [of "[]"])
next
  case (snoc y ys)
  have "digits_val (xs @ ys @ [y]) = 10 * digits_val (xs @ ys) + digit_val y"
    using digits_val_snoc [of "xs @ ys" y] by simp
  with snoc.IH show ?case by (simp add: distrib_left)
qed

lemma six_digits:
  "set (six_digits n) \<subseteq> {c. is_digit c}" "digits_val (six_digits n) = n" "n < 1000000 \<Longrightarrow> length (six_digits n) = 6"
proof -
  have zeros: "digits_val (replicate k (CHR ''0'') @ s) = digits_val s" for k s
    by (induction k) (simp_all add: digits_val_def digit_val_def)
  show "digits_val (six_digits n) = n" by (simp add: six_digits_def zeros digits_val_show_nat)
  show "set (six_digits n) \<subseteq> {c. is_digit c}"
    using show_nat_digits [of n] by (auto simp: six_digits_def is_digit_def)
  assume "n < 1000000"
  then show "length (six_digits n) = 6"
    using show_nat_length [of n 5] by (simp add: six_digits_def)
qed

definition millionths :: "nat \<Rightarrow> string" where
  "millionths n = show_nat (n div 1000000) @ ''.'' @ six_digits (n mod 1000000)"

lemma digit_not_letter: "is_digit c \<Longrightarrow> lower_char c = c \<and> c \<notin> {CHR ''i'', CHR ''n'', CHR ''x'', CHR ''.'', CHR ''-'', CHR ''+''} \<and> \<not> is_space c"
  by (auto simp: is_digit_def lower_char_def is_space_def Let_def)

lemma scan_decimal_millionths: "scan_decimal (millionths n) = Some (of_nat n / 1000000, [])"
proof -
  let ?a = "show_nat (n div 1000000)" and ?b = "six_digits (n mod 1000000)"
  have a: "takeWhile is_digit (?a @ CHR ''.'' # ?b) = ?a" "dropWhile is_digit (?a @ CHR ''.'' # ?b) = CHR ''.'' # ?b"
    using show_nat_digits [of "n div 1000000"] by (simp_all add: takeWhile_append dropWhile_append is_digit_def takeWhile_eq_all_conv dropWhile_eq_Nil_conv)
  have b: "takeWhile is_digit ?b = ?b" "dropWhile is_digit ?b = []"
    using six_digits(1) by (auto simp: takeWhile_eq_all_conv dropWhile_eq_Nil_conv)
  have frac: "scan_fraction is_digit (millionths n) = Some (?a, ?b, [])"
    using a b by (simp add: scan_fraction_def millionths_def)
  have val: "value_in_base 10 digit_val (?a @ ?b) = n"
    by (simp add: value_in_base_10 digits_val_append six_digits digits_val_show_nat)
  have len: "length ?b = 6" by (simp add: six_digits)
  have pow: "(10 :: rat) powi (0 - int 6) = 1 / 1000000" by (simp add: power_int_def power_one_over)
  have e: "scan_exponent (CHR ''e'') [] = (0, [])" by (simp add: scan_exponent_def)
  show ?thesis unfolding scan_decimal_def frac option.case prod.case e Let_def val len pow by simp
qed

lemma millionths_chars:
  obtains d e r where "millionths n = d # e # r" "is_digit d" "is_digit e \<or> e = CHR ''.''"
proof (cases "show_nat (n div 1000000)")
  case (Cons d ds)
  have digits: "is_digit d" "\<forall>c \<in> set ds. is_digit c" using show_nat_digits [of "n div 1000000"] Cons by auto
  show ?thesis
  proof (cases ds)
    case Nil
    with that Cons digits show ?thesis by (simp add: millionths_def)
  next
    case (Cons e es)
    with that \<open>show_nat (n div 1000000) = d # ds\<close> digits show ?thesis by (simp add: millionths_def)
  qed
qed simp

lemma scan_unsigned_millionths: "scan_unsigned True (millionths n) = Some (Inl (of_nat n / 1000000), [])"
proof -
  obtain d e r where m: "millionths n = d # e # r" "is_digit d" "is_digit e \<or> e = CHR ''.''" by (rule millionths_chars)
  have e: "lower_char e \<noteq> CHR ''x''" using m(3) digit_not_letter [of e] by (auto simp: lower_char_def)
  have "\<not> starts_with_word ''infinity'' (millionths n)" "\<not> starts_with_word ''inf'' (millionths n)"
    "\<not> starts_with_word ''nan'' (millionths n)" "\<not> starts_with_word ''0x'' (millionths n)"
    using digit_not_letter [OF m(2)] e by (auto simp: starts_with_word_def m(1))
  then show ?thesis by (simp add: scan_unsigned_def scan_decimal_millionths)
qed

lemma stod_millionths:
  assumes "\<not> out_of_double_range (of_nat n / 1000000)"
  shows "stod ((if neg then ''-'' else []) @ millionths n) =
    Some (signed_number neg (of_nat n / 1000000), length ((if neg then ''-'' else []) @ millionths n))"
proof -
  obtain d e r where m: "millionths n = d # e # r" "is_digit d" by (rule millionths_chars)
  note d = digit_not_letter [OF m(2)]
  have minus: "\<not> is_space (CHR ''-'')" by (simp add: is_space_def)
  show ?thesis
  proof (cases neg)
    case True
    then show ?thesis
      using assms scan_unsigned_millionths [of n] minus by (simp add: stod_def Let_def)
  next
    case False
    then show ?thesis
      using assms scan_unsigned_millionths [of n] d by (simp add: stod_def Let_def m(1))
  qed
qed

lemma large_double_integral:
  assumes "rnd q = Fin q" "2 ^ 53 \<le> \<bar>q\<bar>"
  shows "\<exists>m. q = of_int m"
proof -
  have q: "q \<noteq> 0" "round53 q = q" using assms by (auto simp: rnd_def Let_def split: if_splits)
  have "(2 :: rat) powi 53 \<le> \<bar>q\<bar>" using assms(2) by simp
  also have "\<dots> < 2 powi (ilog2 \<bar>q\<bar> + 1)" using ilog2_bounds [of "\<bar>q\<bar>"] q(1) by simp
  finally have "53 < ilog2 \<bar>q\<bar> + 1" by (simp only: powi2_less_iff)
  then have pos: "0 \<le> quantum q" by (simp add: quantum_def)
  have "q = of_int (rint (q / 2 powi quantum q)) * 2 powi quantum q"
    using q by (simp add: round53_def)
  also have "\<dots> = of_int (rint (q / 2 powi quantum q) * 2 ^ nat (quantum q))"
    using pos by (simp add: power_int_def)
  finally show ?thesis by blast
qed

lemma millionths_of_double:
  assumes "rnd q = Fin q"
  shows "\<not> out_of_double_range (of_nat (nat (rint (\<bar>q\<bar> * 1000000))) / 1000000)"
proof -
  define n where "n = nat (rint (\<bar>q\<bar> * 1000000))"
  let ?r = "of_nat n / 1000000 :: rat"
  have nonneg: "0 \<le> rint (\<bar>q\<bar> * 1000000)" using rint_mono [of 0 "\<bar>q\<bar> * 1000000"] rint_of_int [of 0] by simp
  then have n: "(of_nat n :: rat) = of_int (rint (\<bar>q\<bar> * 1000000))" by (simp add: n_def)
  have "\<bar>\<bar>q\<bar> * 1000000 - of_nat n\<bar> \<le> 1 / 2" unfolding n by (rule rint_close)
  then have "of_nat n \<le> \<bar>q\<bar> * 1000000 + 1 / 2" by linarith
  then have close: "?r \<le> \<bar>q\<bar> + 1" by simp
  obtain r' where r': "rnd ?r = Fin r'"
  proof (cases "\<bar>q\<bar> < 2 ^ 53")
    case True
    with close have "?r \<le> of_int 1 * 2 powi 54" by simp
    from rnd_mono [OF this] have "rnd ?r \<le> Fin (2 powi 54)" using rnd_exact [of 1 54] by simp
    moreover have "Fin 0 \<le> rnd ?r" by (rule rnd_nonneg) simp
    ultimately show ?thesis using that by (cases "rnd ?r") auto
  next
    case False
    then obtain m where m: "q = of_int m" using large_double_integral [OF assms] by auto
    have "rint (\<bar>q\<bar> * 1000000) = \<bar>m\<bar> * 1000000"
      using rint_of_int [of "\<bar>m\<bar> * 1000000"] by (simp add: m)
    then have "?r = \<bar>q\<bar>" using n by (simp add: m)
    moreover have "rnd \<bar>q\<bar> = Fin \<bar>q\<bar>"
      using assms round53_minus [of q] by (cases "0 \<le> q") (auto simp: rnd_def Let_def split: if_splits)
    ultimately show ?thesis using that by simp
  qed
  have "?r = 0 \<or> 1 / 2 ^ 1022 \<le> r'"
  proof (cases "n = 0")
    case False
    then have "1 \<le> (of_nat n :: rat)" by simp
    then have "of_int 1 * 2 powi (- 20) \<le> ?r" by (simp add: power_int_def field_simps)
    from rnd_mono [OF this] have "2 powi (- 20) \<le> r'" using rnd_exact [of 1 "- 20"] r' by simp
    moreover have "(1 :: rat) / 2 ^ 1022 \<le> 2 powi (- 20)"
      using power_int_increasing [of "- 1022" "- 20" "2 :: rat"] by (simp add: power_int_minus_divide)
    ultimately show ?thesis by simp
  qed simp
  then have "r' = ?r \<or> \<not> \<bar>r'\<bar> < 1 / 2 ^ 1022" using r' by auto
  then show ?thesis unfolding n_def [symmetric] by (auto simp: out_of_double_range_def r')
qed

lemma to_string_double_millionths:
  assumes "double_value x = Fin q"
  shows "to_string_double x = (if x = NegativeZero \<or> q < 0 then ''-'' else []) @ millionths (nat (rint (\<bar>q\<bar> * 1000000)))"
  using assms by (cases x) (auto simp: to_string_rat_def millionths_def Let_def)

lemma signed_number_value: "double_value (signed_number neg q) = rnd (if neg then - q else q)"
  by (auto simp: signed_number_def rnd_def Let_def round53_minus split: if_splits)

lemma finite_in_range:
  assumes "\<not> out_of_double_range r"
  shows "\<exists>a. rnd r = Fin a" "\<exists>a. rnd (- r) = Fin a"
proof -
  from assms obtain a where "rnd r = Fin a" by (auto simp: out_of_double_range_def split: float64.splits)
  then show "\<exists>a. rnd r = Fin a" "\<exists>a. rnd (- r) = Fin a"
    by (auto simp: rnd_def Let_def round53_minus split: if_splits)
qed

text \<open>What is read back is the value rounded to millionths, without the sign of a zero.\<close>

lemma ParseDoubleValue_canonical:
  assumes "double_value x = Fin q" "rnd q = Fin q"
  shows "\<exists>a y. rnd (of_int (rint (q * 1000000)) / 1000000) = Fin a \<and> double_value y = Fin a \<and>
    ParseDoubleValue key (to_string_double x) = Inr y"
proof -
  let ?neg = "x = NegativeZero \<or> q < 0" 
  let ?n = "nat (rint (\<bar>q\<bar> * 1000000))"
  have nonneg: "0 \<le> rint (\<bar>q\<bar> * 1000000)" using rint_mono [of 0 "\<bar>q\<bar> * 1000000"] rint_of_int [of 0] by simp
  have zero: "x = NegativeZero \<Longrightarrow> q = 0" using assms(1) by auto
  then have read: "(if ?neg then - (of_nat ?n / 1000000) else of_nat ?n / 1000000) = (of_int (rint (q * 1000000)) / 1000000 :: rat)"
    using nonneg rint_minus [of "q * 1000000"] rint_of_int [of 0] by auto
  note range = millionths_of_double [OF assms(2)]
  let ?y = "signed_number ?neg (of_nat ?n / 1000000)"
  have y: "double_value ?y = rnd (of_int (rint (q * 1000000)) / 1000000)"
    unfolding signed_number_value read ..
  obtain a where a: "rnd (of_int (rint (q * 1000000)) / 1000000) = Fin a"
    using finite_in_range [OF range] unfolding read [symmetric] by (cases ?neg) auto
  moreover have "stod (to_string_double x) = Some (?y, length (to_string_double x))"
    using stod_millionths [OF range, of ?neg] unfolding to_string_double_millionths [OF assms(1)] .
  ultimately show ?thesis using y by (simp add: ParseDoubleValue_def)
qed

section \<open>Every value has its type\<close>

definition canonical_text :: "ValueType \<Rightarrow> string \<Rightarrow> bool" where
  "canonical_text t v \<longleftrightarrow>
     (case t of
        kString \<Rightarrow> True
      | kInt \<Rightarrow> \<exists>i. int_min \<le> i \<and> i \<le> int_max \<and> v = show_int i
      | kUInt16 \<Rightarrow> \<exists>i. 0 \<le> i \<and> i \<le> uint16_max \<and> v = show_int i
      | kBool \<Rightarrow> v = ''true'' \<or> v = ''false''
      | kDouble \<Rightarrow> \<exists>x q. double_value x = Fin q \<and> rnd q = Fin q \<and> v = to_string_double x)"

lemma ParseDoubleValue_finite:
  assumes "ParseDoubleValue key v = Inr x"
  shows "\<exists>q. double_value x = Fin q \<and> rnd q = Fin q"
proof -
  obtain n where s: "stod v = Some (x, n)" "isfinite (double_value x)"
    using assms by (auto simp: ParseDoubleValue_def split: option.splits if_splits prod.splits)
  from s(2) obtain q where q: "double_value x = Fin q" by (cases "double_value x") auto
  with stod_representable [OF s(1)] show ?thesis by simp
qed

lemma CanonicalizeValue_canonical:
  assumes "CanonicalizeValue entry v = Inr w"
  shows "canonical_text (ce_value_type entry) w"
proof (cases "ce_value_type entry")
  case kString
  then show ?thesis by (simp add: canonical_text_def)
next
  case kInt
  with assms show ?thesis by (auto simp: canonical_text_def CanonicalizeValue_def dest: ParseIntValue_range)
next
  case kDouble
  with assms obtain x where x: "ParseDoubleValue (ce_key entry) v = Inr x" "w = to_string_double x"
    by (auto simp: CanonicalizeValue_def)
  with ParseDoubleValue_finite [OF x(1)] kDouble show ?thesis by (auto simp: canonical_text_def)
next
  case kUInt16
  with assms show ?thesis by (auto simp: canonical_text_def CanonicalizeValue_def split: if_splits)
next
  case kBool
  with assms show ?thesis by (auto simp: canonical_text_def CanonicalizeValue_def split: if_splits)
qed

definition config_ok :: "GlobalConfig \<Rightarrow> bool" where
  "config_ok c \<longleftrightarrow>
     (\<forall>entry \<in> set kConfigEntries. \<exists>v. gc_values c (ce_field entry) = Some v \<and> canonical_text (ce_value_type entry) v)"

lemma config_ok_update:
  assumes "config_ok c" "EntryForField field = Inr entry" "canonical_text (ce_value_type entry) v"
  shows "config_ok (c\<lparr>gc_values := (gc_values c)(field \<mapsto> v)\<rparr>)"
  unfolding config_ok_def
proof
  fix e
  assume e: "e \<in> set kConfigEntries"
  show "\<exists>w. gc_values (c\<lparr>gc_values := (gc_values c)(field \<mapsto> v)\<rparr>) (ce_field e) = Some w \<and> canonical_text (ce_value_type e) w"
  proof (cases "ce_field e = field")
    case True
    with e have "EntryForField field = Inr e" by (simp add: EntryForField_iff)
    with assms(2,3) True show ?thesis by simp
  next
    case False
    with assms(1) e show ?thesis by (auto simp: config_ok_def)
  qed
qed

lemma GlobalConfig_Set_ok: "config_ok c \<Longrightarrow> config_ok (snd (GlobalConfig_Set field v c))"
  by (auto simp: GlobalConfig_Set_def config_ok_update CanonicalizeValue_canonical split: sum.splits)

lemma apply_loaded_ok: "config_ok c \<Longrightarrow> config_ok (snd (apply_loaded m rankers c))"
proof (induction m rankers c rule: apply_loaded.induct)
  case (2 key v m rankers c)
  then show ?case
    using GlobalConfig_Set_ok [of c]
    by (auto split: option.splits sum.splits prod.splits) (metis snd_conv)+
qed simp

lemma ApplyFile_ok: "config_ok c \<Longrightarrow> config_ok (snd (ApplyFile load_file path c))"
  using apply_loaded_ok [of c] GlobalConfig_Set_ok
  by (auto simp: ApplyFile_def Let_def split: sum.splits prod.splits) (metis snd_conv)+

lemma ApplyStartupFile_ok: "config_ok c \<Longrightarrow> config_ok (snd (ApplyStartupFile file_exists cwd load_file args exe c))"
  using ApplyFile_ok [of c load_file] GlobalConfig_Set_ok
  by (auto simp: ApplyStartupFile_def Let_def split: sum.splits prod.splits) (metis snd_conv)+

lemma ConfigArguments_Apply_ok: "config_ok c \<Longrightarrow> config_ok (snd (ConfigArguments_Apply args c))"
proof (induction args c rule: ConfigArguments_Apply.induct)
  case (2 raw_arg rest c)
  then show ?case
    using GlobalConfig_Set_ok [of c]
    by (auto split: sum.splits prod.splits) (metis snd_conv)+
qed simp

lemma GlobalConfig_Initialize_ok: "config_ok c \<Longrightarrow> config_ok (snd (GlobalConfig_Initialize name c))"
  by (simp add: GlobalConfig_Initialize_def config_ok_def)

lemma load_configuration_ok:
  "config_ok c \<Longrightarrow> config_ok (snd (load_configuration file_exists cwd load_file name argv c))"
  using GlobalConfig_Initialize_ok [of c name] ApplyStartupFile_ok ConfigArguments_Apply_ok
  by (auto simp: load_configuration_def split: sum.splits prod.splits) (metis snd_conv)+

text \<open>The defaults are values of their types.\<close>

lemma default_texts:
  "set (map ce_default_value (filter (\<lambda>e. ce_value_type e = kInt \<or> ce_value_type e = kUInt16) kConfigEntries)) \<subseteq>
     {''0'', ''2'', ''3'', ''4'', ''8'', ''10'', ''20'', ''24'', ''30'', ''50'', ''100'', ''300'', ''6379'', ''50000'', ''50100'', ''50200'', ''50210'', ''50220'', ''50300''}"
  "set (map ce_default_value (filter (\<lambda>e. ce_value_type e = kDouble) kConfigEntries)) \<subseteq> {''1.0''}"
  "set (map ce_default_value (filter (\<lambda>e. ce_value_type e = kBool) kConfigEntries)) \<subseteq> {''true''}"
  by code_simp+

lemma default_numbers:
  "{''0'', ''2'', ''3'', ''4'', ''8'', ''10'', ''20'', ''24'', ''30'', ''50'', ''100'', ''300'', ''6379'', ''50000'', ''50100'', ''50200'', ''50210'', ''50220'', ''50300''} \<subseteq> show_int ` {0..uint16_max}"
proof -
  have chars: "char_of (48 :: nat) = CHR ''0''" "char_of (49 :: nat) = CHR ''1''" "char_of (50 :: nat) = CHR ''2''" "char_of (51 :: nat) = CHR ''3''" "char_of (52 :: nat) = CHR ''4''" "char_of (53 :: nat) = CHR ''5''" "char_of (54 :: nat) = CHR ''6''" "char_of (55 :: nat) = CHR ''7''" "char_of (56 :: nat) = CHR ''8''" "char_of (57 :: nat) = CHR ''9''"
    by code_simp+
  have numbers: "show_int 0 = ''0''" "show_int 2 = ''2''" "show_int 3 = ''3''" "show_int 4 = ''4''"
    "show_int 8 = ''8''" "show_int 10 = ''10''" "show_int 20 = ''20''" "show_int 24 = ''24''"
    "show_int 30 = ''30''" "show_int 50 = ''50''" "show_int 100 = ''100''" "show_int 300 = ''300''"
    "show_int 6379 = ''6379''" "show_int 50000 = ''50000''" "show_int 50100 = ''50100''" "show_int 50200 = ''50200''"
    "show_int 50210 = ''50210''" "show_int 50220 = ''50220''" "show_int 50300 = ''50300''"
    by (simp_all add: show_int_def show_nat.simps digit_char_def chars)
  have texts: "show_int ` {0, 2, 3, 4, 8, 10, 20, 24, 30, 50, 100, 300, 6379, 50000, 50100, 50200, 50210, 50220, 50300} =
      {''0'', ''2'', ''3'', ''4'', ''8'', ''10'', ''20'', ''24'', ''30'', ''50'', ''100'', ''300'', ''6379'', ''50000'', ''50100'', ''50200'', ''50210'', ''50220'', ''50300''}"
    unfolding image_insert image_empty numbers by (rule refl)
  show ?thesis unfolding texts [symmetric] by (rule image_mono) (simp add: uint16_max_def)
qed

lemma stod_one: "stod ''1.0'' = Some (Plain (Fin 1), 3)"
proof -
  have scan: "scan_unsigned True ''1.0'' = Some (Inl 1, [])"
    by (simp add: scan_unsigned_def starts_with_word_def lower_char_def scan_decimal_def scan_fraction_def
        scan_exponent_def value_in_base_def digit_val_def is_digit_def power_int_def)
  have one: "rnd 1 = Fin 1" by (rule rnd_eval) simp_all
  then have "\<not> out_of_double_range 1" by (simp add: out_of_double_range_def)
  with scan one show ?thesis by (simp add: stod_def is_space_def signed_number_def)
qed

lemma canonical_defaults:
  assumes entry: "entry \<in> set kConfigEntries"
  shows "\<exists>v. CanonicalizeValue entry (ce_default_value entry) = Inr v"
proof -
  have number: "\<exists>i \<in> {0..uint16_max}. ce_default_value entry = show_int i"
    if "ce_value_type entry = kInt \<or> ce_value_type entry = kUInt16"
  proof -
    have "ce_default_value entry \<in> set (map ce_default_value (filter (\<lambda>e. ce_value_type e = kInt \<or> ce_value_type e = kUInt16) kConfigEntries))"
      using entry that by (simp only: set_map set_filter) blast
    from subsetD [OF default_numbers subsetD [OF default_texts(1) this]] show ?thesis by blast
  qed
  have small: "int_min \<le> i \<and> i \<le> int_max" if "i \<in> {0..uint16_max}" for i
    using that by (simp add: int_min_def int_max_def uint16_max_def)
  show ?thesis
  proof (cases "ce_value_type entry")
    case kInt
    with number small show ?thesis by (auto simp: CanonicalizeValue_def)
  next
    case kUInt16
    then obtain i where i: "i \<in> {0..uint16_max}" "ce_default_value entry = show_int i" using number by auto
    then show ?thesis using small [OF i(1)] kUInt16 by (simp add: CanonicalizeValue_def)
  next
    case kDouble
    then have "ce_default_value entry = ''1.0''" using default_texts(2) entry by auto
    with kDouble stod_one show ?thesis by (simp add: CanonicalizeValue_def ParseDoubleValue_def)
  next
    case kBool
    then have "ce_default_value entry = ''true''" using default_texts(3) entry by auto
    with kBool Lowercase_bools show ?thesis by (simp add: CanonicalizeValue_def)
  qed (simp add: CanonicalizeValue_def)
qed

section \<open>Reads by type\<close>

definition default_text :: "ConfigEntry \<Rightarrow> string" where
  "default_text entry = projr (CanonicalizeValue entry (ce_default_value entry))"

lemma default_text: "entry \<in> set kConfigEntries \<Longrightarrow> CanonicalizeValue entry (ce_default_value entry) = Inr (default_text entry)"
  using canonical_defaults [of entry] by (auto simp: default_text_def)

lemma default_values_eq:
  assumes "set es \<subseteq> set kConfigEntries"
  shows "default_values es c =
    (Inr (), c\<lparr>gc_values := (gc_values c)(map ce_field es [\<mapsto>] map default_text es)\<rparr>)"
  using assms by (induction es arbitrary: c) (simp_all add: default_text)

lemma map_upds_at:
  assumes "distinct (map f xs)" "x \<in> set xs"
  shows "(m(map f xs [\<mapsto>] map g xs)) (f x) = Some (g x)"
  using assms
proof (induction xs arbitrary: m)
  case (Cons y ys)
  show ?case
  proof (cases "x = y")
    case True
    with Cons.prems have "f x \<notin> set (map f ys)" by auto
    with True show ?thesis by (simp add: map_upds_apply_nontin)
  next
    case False
    with Cons.prems have "x \<in> set ys" "distinct (map f ys)" by auto
    with Cons.IH show ?thesis by simp
  qed
qed simp

lemma ResetToDefaults_values:
  "fst (ResetToDefaults c) = Inr ()"
  "entry \<in> set kConfigEntries \<Longrightarrow> gc_values (snd (ResetToDefaults c)) (ce_field entry) = Some (default_text entry)"
  "gc_service_name (snd (ResetToDefaults c)) = []"
  using map_upds_at [OF table_distinct(2)] by (simp_all add: ResetToDefaults_def default_values_eq)

lemma ResetToDefaults_ok: "config_ok (snd (ResetToDefaults c))"
  unfolding config_ok_def using ResetToDefaults_values(2) default_text CanonicalizeValue_canonical by metis

lemma Key_entry: "entry \<in> set kConfigEntries \<Longrightarrow> Key (ce_field entry) = Inr (ce_key entry)"
  by (simp add: Key_def EntryForField_iff [THEN iffD2])

text \<open>The text of a field, and what the read of its type makes of it.\<close>

fun typed_read :: "GlobalConfig \<Rightarrow> Field \<Rightarrow> ValueType \<Rightarrow> string \<Rightarrow> bool" where
  "typed_read c field kString v \<longleftrightarrow> GetString c field = Inr v"
| "typed_read c field kInt v \<longleftrightarrow> (\<exists>i. GetInt c field = Inr i \<and> v = show_int i)"
| "typed_read c field kUInt16 v \<longleftrightarrow> (\<exists>p. GetUInt16 c field = Inr p \<and> v = show_nat (unat p))"
| "typed_read c field kBool v \<longleftrightarrow> (\<exists>b. GetBool c field = Inr b \<and> v = (if b then ''true'' else ''false''))"
| "typed_read c field kDouble v \<longleftrightarrow>
     (\<exists>x q a. v = to_string_double x \<and> double_value x = Fin q \<and> GetDouble c field = Inr (Fin a) \<and>
       rnd (of_int (rint (q * 1000000)) / 1000000) = Fin a)"

lemma canonical_typed_read:
  assumes "canonical_text t v" "GetString c field = Inr v" "Key field = Inr key"
  shows "typed_read c field t v"
proof (cases t)
  case kString
  with assms show ?thesis by simp
next
  case kInt
  with assms show ?thesis by (auto simp: canonical_text_def GetInt_def)
next
  case kDouble
  with assms(1) obtain x q where q: "double_value x = Fin q" "rnd q = Fin q" "v = to_string_double x"
    by (auto simp: canonical_text_def)
  from ParseDoubleValue_canonical [OF q(1,2), of key] obtain a y where a: "rnd (of_int (rint (q * 1000000)) / 1000000) = Fin a"
    "double_value y = Fin a" "ParseDoubleValue key v = Inr y" unfolding q(3) by blast
  then have "GetDouble c field = Inr (Fin a)" using assms(2,3) by (simp add: GetDouble_def)
  with q(1,3) a(1) kDouble show ?thesis by (metis typed_read.simps(5))
next
  case kUInt16
  with assms(1) obtain i where i: "0 \<le> i" "i \<le> uint16_max" "v = show_int i" by (auto simp: canonical_text_def)
  then have "GetUInt16 c field = Inr (word_of_int i)"
    using assms(2,3) by (simp add: GetUInt16_def GetInt_def int_min_def int_max_def uint16_max_def)
  moreover have "unat (word_of_int i :: 16 word) = nat i"
    using i(1,2) by (simp add: uint16_max_def unsigned_of_int take_bit_int_eq_self)
  ultimately show ?thesis using i(1,3) kUInt16 by (simp add: show_int_def)
next
  case kBool
  with assms Lowercase_bools show ?thesis by (auto simp: canonical_text_def GetBool_def)
qed

text \<open>
  C28. Every value has its type. Whatever the configuration file and the command line hold, also when
  loading them fails half way, every field of the table holds a value, and the read of its type gives it:
  an \<open>int\<close>, a port from 0 to 65535, a boolean, a finite \<open>double\<close>. So no read of a
  configuration can throw for a missing or malformed value, only for one out of the range the reader asks
  for. A \<open>double\<close> is read back rounded to six decimals, because it is kept as its \<open>to_string\<close>.
\<close>

theorem config_values_typed:
  assumes "load_configuration file_exists cwd load_file name argv (snd (ResetToDefaults GlobalConfig_empty)) = (r, c)"
    and "entry \<in> set kConfigEntries"
  shows "\<exists>v. GetString c (ce_field entry) = Inr v \<and> typed_read c (ce_field entry) (ce_value_type entry) v"
proof -
  have "config_ok c"
    using load_configuration_ok [OF ResetToDefaults_ok, of file_exists cwd load_file name argv GlobalConfig_empty] assms(1)
    by simp
  then obtain v where v: "gc_values c (ce_field entry) = Some v" "canonical_text (ce_value_type entry) v"
    using assms(2) by (auto simp: config_ok_def)
  have "GetString c (ce_field entry) = Inr v" using v(1) by (simp add: GetString_def)
  with canonical_typed_read [OF v(2) this Key_entry [OF assms(2)]] show ?thesis by blast
qed

lemma config_values_typed_witness:
  "\<exists>v. GetString (snd (load_configuration (\<lambda>_. False) ''/'' (\<lambda>_. Inl []) ''ranking'' [''svc'', ''--port=8080'']
      (snd (ResetToDefaults GlobalConfig_empty)))) kServerPort = Inr v \<and>
    typed_read (snd (load_configuration (\<lambda>_. False) ''/'' (\<lambda>_. Inl []) ''ranking'' [''svc'', ''--port=8080'']
      (snd (ResetToDefaults GlobalConfig_empty)))) kServerPort kUInt16 v"
  using config_values_typed [OF surjective_pairing,
      of "config_entry kServerPort ''server.port'' ''port'' kUInt16 ''50000''" "\<lambda>_. False" "''/''" "\<lambda>_. Inl []" "''ranking''"
        "[''svc'', ''--port=8080'']"]
  by (simp add: kConfigEntries_def config_entry_def)

end
