(* ===== verification/ConfigPrecedence.thy ===== *)
theory ConfigPrecedence
  imports ConfigContract
begin

text \<open>
  What a start of the process makes of its inputs: the command line overrides the file and the file the
  defaults; a list of rankers keeps its order; and no password is logged.
\<close>

section \<open>The command line over the file over the defaults\<close>

fun set_all :: "(Field \<times> string) list \<Rightarrow> GlobalConfig \<Rightarrow> unit throws \<times> GlobalConfig" where
  "set_all [] c = (Inr (), c)"
| "set_all ((f, v) # ss) c =
     (case GlobalConfig_Set f v c of
        (Inl e, c) \<Rightarrow> (Inl e, c)
      | (Inr _, c) \<Rightarrow> set_all ss c)"

definition canonical :: "Field \<Rightarrow> string \<Rightarrow> string throws" where
  "canonical f v = bindE (EntryForField f) (\<lambda>entry. CanonicalizeValue entry v)"

lemma GlobalConfig_Set_Inr:
  "GlobalConfig_Set f v c = (Inr u, c') \<longleftrightarrow> (\<exists>w. canonical f v = Inr w \<and> c' = c\<lparr>gc_values := (gc_values c)(f \<mapsto> w)\<rparr>)"
  by (auto simp: GlobalConfig_Set_def canonical_def split: sum.splits)

text \<open>The last setting of a field decides.\<close>

lemma set_all_last:
  assumes "set_all ss c = (Inr u, c')"
  shows "case map_of (rev ss) f of
      None \<Rightarrow> gc_values c' f = gc_values c f
    | Some v \<Rightarrow> (\<exists>w. canonical f v = Inr w \<and> gc_values c' f = Some w)"
  using assms
proof (induction ss c rule: set_all.induct)
  case (2 g v ss c)
  from "2.prems" obtain w where w: "GlobalConfig_Set g v c = (Inr (), c\<lparr>gc_values := (gc_values c)(g \<mapsto> w)\<rparr>)"
    "canonical g v = Inr w" and rest: "set_all ss (c\<lparr>gc_values := (gc_values c)(g \<mapsto> w)\<rparr>) = (Inr u, c')"
    by (auto simp: GlobalConfig_Set_Inr split: prod.splits sum.splits)
  have IH: "case map_of (rev ss) f of
      None \<Rightarrow> gc_values c' f = gc_values (c\<lparr>gc_values := (gc_values c)(g \<mapsto> w)\<rparr>) f
    | Some v \<Rightarrow> (\<exists>w. canonical f v = Inr w \<and> gc_values c' f = Some w)"
    by (rule "2.IH" [OF w(1) [symmetric] refl rest])
  show ?case
  proof (cases "map_of (rev ss) f")
    case None
    with IH w(2) show ?thesis by (cases "f = g") (simp_all add: map_add_def)
  next
    case (Some v')
    with IH show ?thesis by (simp add: map_add_def)
  qed
qed simp

lemma set_all_append:
  "set_all (ss @ ts) c =
     (case set_all ss c of (Inl e, c) \<Rightarrow> (Inl e, c) | (Inr _, c) \<Rightarrow> set_all ts c)"
  by (induction ss c rule: set_all.induct) (auto split: prod.splits sum.splits)

definition file_settings :: "string_map \<Rightarrow> (Field \<times> string) list" where
  "file_settings m =
     map (\<lambda>(key, v). (ce_field (the (FindEntryByYamlKey key)), v)) (filter (\<lambda>(key, v). ParseRankingRankerArrayIndex key = None) m)"

lemma apply_loaded_settings:
  assumes "apply_loaded m rankers c = (Inr rankers', c')"
  shows "set_all (file_settings m) c = (Inr (), c') \<and>
    (\<forall>(key, v) \<in> set m. ParseRankingRankerArrayIndex key = None \<longrightarrow> FindEntryByYamlKey key \<noteq> None)"
  using assms
proof (induction m rankers c rule: apply_loaded.induct)
  case (2 key v m rankers c)
  show ?case
  proof (cases "ParseRankingRankerArrayIndex key")
    case (Some i)
    with "2.prems" have "apply_loaded m (rankers @ [(i, v)]) c = (Inr rankers', c')" by simp
    from "2.IH"(2) [OF Some this] Some show ?thesis by (simp add: file_settings_def)
  next
    case None
    with "2.prems" obtain entry c1 where entry: "FindEntryByYamlKey key = Some entry"
      and set: "GlobalConfig_Set (ce_field entry) v c = (Inr (), c1)" and rest: "apply_loaded m rankers c1 = (Inr rankers', c')"
      by (auto split: option.splits prod.splits sum.splits)
    from "2.IH"(1) [OF None entry set [symmetric] refl rest] None entry set show ?thesis
      by (simp add: file_settings_def)
  qed
qed (simp add: file_settings_def)

section \<open>Maps of the file\<close>

lemma map_set_keys: "fst ` set (map_set k v m) = insert k (fst ` set m)"
  by (induction k v m rule: map_set.induct) auto

lemma map_set_sorted: "sorted_wrt (<) (map fst m) \<Longrightarrow> sorted_wrt (<) (map fst (map_set k v m))"
proof (induction k v m rule: map_set.induct)
  case (2 k v k' v' m)
  show ?case
  proof (cases "k = k' \<or> k < k'")
    case True
    with "2.prems" show ?thesis by auto
  next
    case False
    then have lt: "k' < k" by auto
    have "sorted_wrt (<) (map fst (map_set k v m))" using "2.IH" False "2.prems" by auto
    moreover have "\<forall>x \<in> fst ` set (map_set k v m). k' < x" using "2.prems" lt by (auto simp: map_set_keys)
    ultimately show ?thesis using False by auto
  qed
qed simp

lemma FlattenYamlNode_sorted:
  "FlattenYamlNode node prefix m = Inr m' \<Longrightarrow> sorted_wrt (<) (map fst m) \<Longrightarrow> sorted_wrt (<) (map fst m')"
  "flatten_map es prefix m = Inr m' \<Longrightarrow> sorted_wrt (<) (map fst m) \<Longrightarrow> sorted_wrt (<) (map fst m')"
  "flatten_sequence i nodes prefix m = Inr m' \<Longrightarrow> sorted_wrt (<) (map fst m) \<Longrightarrow> sorted_wrt (<) (map fst m')"
proof (induction node prefix m and es prefix m and i nodes prefix m arbitrary: m' and m' and m'
    rule: FlattenYamlNode_flatten_map_flatten_sequence.induct)
  case (3 s prefix m)
  then show ?case by (auto simp: map_set_sorted split: if_splits)
next
  case (5 nodes prefix m)
  then show ?case by (auto split: if_splits)
next
  case (7 key node es prefix m)
  then show ?case by (auto split: Yaml.splits sum.splits)
next
  case (9 i node nodes prefix m)
  then show ?case by (auto split: sum.splits)
qed auto

lemma sorted_keys_distinct: "sorted_wrt (<) xs \<Longrightarrow> distinct (xs :: string list)"
  by (induction xs) auto

section \<open>The arguments of a command line\<close>

text \<open>
  Specification: the four forms of an argument, \<open>--name=value\<close>, \<open>--name value\<close> for a field that is not
  boolean, \<open>--name\<close> and \<open>--noname\<close> for a boolean one; the words each is written with, and the setting it
  stands for. A name is the argument name or the key of an entry of the table.
\<close>

datatype Argument = WithValue string string | WithNext string string | Flag string | NoFlag string

fun argument_words :: "Argument \<Rightarrow> string list" where
  "argument_words (WithValue n v) = [''--'' @ n @ ''='' @ v]"
| "argument_words (WithNext n v) = [''--'' @ n, v]"
| "argument_words (Flag n) = [''--'' @ n]"
| "argument_words (NoFlag n) = [''--no'' @ n]"

fun argument_setting :: "Argument \<Rightarrow> string \<times> string" where
  "argument_setting (WithValue n v) = (n, v)"
| "argument_setting (WithNext n v) = (n, v)"
| "argument_setting (Flag n) = (n, ''true'')"
| "argument_setting (NoFlag n) = (n, ''false'')"

definition names_entry :: "ConfigEntry \<Rightarrow> string \<Rightarrow> bool" where
  "names_entry entry n \<longleftrightarrow> n = ce_argument_name entry \<or> n = ce_key entry"

fun argument_fits :: "Argument \<Rightarrow> ValueType \<Rightarrow> bool" where
  "argument_fits (WithValue n v) t \<longleftrightarrow> True"
| "argument_fits (WithNext n v) t \<longleftrightarrow> t \<noteq> kBool"
| "argument_fits (Flag n) t \<longleftrightarrow> t = kBool"
| "argument_fits (NoFlag n) t \<longleftrightarrow> t = kBool"

definition argument_known :: "Argument \<Rightarrow> bool" where
  "argument_known a \<longleftrightarrow>
     (\<exists>entry \<in> set kConfigEntries. names_entry entry (fst (argument_setting a)) \<and> argument_fits a (ce_value_type entry))"

text \<open>A command line is arguments up to its end or to a lone \<open>--\<close>.\<close>

definition command_line :: "string list \<Rightarrow> Argument list \<Rightarrow> bool" where
  "command_line args as \<longleftrightarrow>
     (\<forall>a \<in> set as. argument_known a) \<and>
     (\<exists>rest. args = concat (map argument_words as) @ rest \<and> (rest = [] \<or> hd rest = ''--''))"

lemma table_no_equals:
  "entry \<in> set kConfigEntries \<Longrightarrow> CHR ''='' \<notin> set (ce_key entry) \<and> CHR ''='' \<notin> set (ce_argument_name entry)"
proof -
  have "list_all (\<lambda>e. CHR ''='' \<notin> set (ce_key e) \<and> CHR ''='' \<notin> set (ce_argument_name e)) kConfigEntries" by code_simp
  then show "entry \<in> set kConfigEntries \<Longrightarrow> CHR ''='' \<notin> set (ce_key entry) \<and> CHR ''='' \<notin> set (ce_argument_name entry)"
    by (simp add: list_all_iff)
qed

lemma FindEntryByArgumentName_name:
  assumes "FindEntryByArgumentName n = Some entry"
  shows "entry \<in> set kConfigEntries" "n = ce_argument_name entry \<or> n = ce_key entry" "CHR ''='' \<notin> set n"
proof -
  show e: "entry \<in> set kConfigEntries" and n: "n = ce_argument_name entry \<or> n = ce_key entry"
    using assms by (auto simp: FindEntryByArgumentName_def find_Some_iff)
  show "CHR ''='' \<notin> set n" using table_no_equals [OF e] n by auto
qed

lemma split_argument_value:
  "CHR ''='' \<notin> set n \<Longrightarrow> split_argument (n @ ''='' @ v) = (n, Some v)"
  by (simp add: split_argument_def takeWhile_append dropWhile_append)

lemma negated_argument_value: "negated_argument (n @ ''='' @ v) = (n @ ''='' @ v, False)"
proof (cases "StartsWith (n @ ''='' @ v) ''no''")
  case True
  have "2 \<le> length n"
  proof (rule ccontr)
    assume "\<not> 2 \<le> length n"
    then have "length n = 0 \<or> length n = 1" by linarith
    then show False using True by (cases n; cases "tl n") (auto simp: StartsWith_def)
  qed
  then have "drop 2 (n @ ''='' @ v) = drop 2 n @ ''='' @ v" by simp
  then have "FindEntryByArgumentName (drop 2 (n @ ''='' @ v)) = None"
    using FindEntryByArgumentName_name(3) [of "drop 2 (n @ ''='' @ v)"]
    by (cases "FindEntryByArgumentName (drop 2 (n @ ''='' @ v))") auto
  then show ?thesis by (simp add: negated_argument_def)
qed (simp add: negated_argument_def)

definition argument_settings :: "(string \<times> string) list \<Rightarrow> (Field \<times> string) list" where
  "argument_settings ps =
     filter (\<lambda>(f, v). f \<noteq> kConfigPath) (map (\<lambda>(n, v). (ce_field (the (FindEntryByArgumentName n)), v)) ps)"

text \<open>The value the last matching argument gives.\<close>

fun last_given :: "(string \<Rightarrow> bool) \<Rightarrow> (string \<times> string) list \<Rightarrow> string option" where
  "last_given P [] = None"
| "last_given P ((n, v) # ps) =
     (case last_given P ps of
        Some w \<Rightarrow> Some w
      | None \<Rightarrow> if P n then Some v else None)"

lemma table_dots:
  "entry \<in> set kConfigEntries \<Longrightarrow> CHR ''.'' \<in> set (ce_key entry) \<and> CHR ''.'' \<notin> set (ce_argument_name entry) \<and>
     \<not> StartsWith (ce_key entry) kRankerPrefix"
proof -
  have "list_all (\<lambda>e. CHR ''.'' \<in> set (ce_key e) \<and> CHR ''.'' \<notin> set (ce_argument_name e) \<and>
      \<not> StartsWith (ce_key e) kRankerPrefix) kConfigEntries" by code_simp
  then show "entry \<in> set kConfigEntries \<Longrightarrow> CHR ''.'' \<in> set (ce_key entry) \<and> CHR ''.'' \<notin> set (ce_argument_name entry) \<and>
     \<not> StartsWith (ce_key entry) kRankerPrefix"
    by (simp add: list_all_iff)
qed

lemma names_entry_unique:
  assumes "a \<in> set kConfigEntries" "b \<in> set kConfigEntries" "names_entry a n" "names_entry b n"
  shows "a = b"
proof -
  have keys: "inj_on ce_key (set kConfigEntries)" and args: "inj_on ce_argument_name (set kConfigEntries)"
    using table_distinct by (simp_all add: distinct_map)
  show ?thesis
    using assms(3,4) table_dots [OF assms(1)] table_dots [OF assms(2)] inj_onD [OF keys _ assms(1,2)] inj_onD [OF args _ assms(1,2)]
    by (auto simp: names_entry_def)
qed

lemma FindEntryByArgumentName_iff:
  assumes "entry \<in> set kConfigEntries" "FindEntryByArgumentName n = Some e"
  shows "ce_field e = ce_field entry \<longleftrightarrow> names_entry entry n"
proof -
  have e: "e \<in> set kConfigEntries" "names_entry e n"
    using FindEntryByArgumentName_name [OF assms(2)] by (auto simp: names_entry_def)
  have "inj_on ce_field (set kConfigEntries)" using table_distinct(2) by (simp add: distinct_map)
  then have "ce_field e = ce_field entry \<Longrightarrow> e = entry" using e(1) assms(1) by (auto dest: inj_onD)
  then show ?thesis using names_entry_unique [OF e(1) assms(1) e(2)] e(2) by auto
qed

lemma FindEntryByArgumentName_Some:
  "FindEntryByArgumentName n = Some entry \<longleftrightarrow> entry \<in> set kConfigEntries \<and> names_entry entry n"
proof
  assume e: "entry \<in> set kConfigEntries \<and> names_entry entry n"
  then have "FindEntryByArgumentName n \<noteq> None"
    by (auto simp: FindEntryByArgumentName_def find_None_iff names_entry_def)
  then obtain e' where e': "FindEntryByArgumentName n = Some e'" by blast
  then have "e' = entry"
    using FindEntryByArgumentName_name [OF e'] names_entry_unique [of e' entry n] e by (auto simp: names_entry_def)
  with e' show "FindEntryByArgumentName n = Some entry" by simp
qed (use FindEntryByArgumentName_name in \<open>auto simp: names_entry_def\<close>)

lemma table_names:
  "names_entry entry n \<Longrightarrow> entry \<in> set kConfigEntries \<Longrightarrow> n \<noteq> [] \<and> \<not> StartsWith n ''no''"
proof -
  have "list_all (\<lambda>e. ce_key e \<noteq> [] \<and> ce_argument_name e \<noteq> [] \<and> \<not> StartsWith (ce_key e) ''no'' \<and>
      \<not> StartsWith (ce_argument_name e) ''no'') kConfigEntries" by code_simp
  then show "names_entry entry n \<Longrightarrow> entry \<in> set kConfigEntries \<Longrightarrow> n \<noteq> [] \<and> \<not> StartsWith n ''no''"
    by (auto simp: list_all_iff names_entry_def)
qed

lemma StartsWith_split: "StartsWith v p \<Longrightarrow> v = p @ drop (length p) v"
  by (metis StartsWith_def append_take_drop_id)

lemma split_argument_cases:
  assumes "split_argument arg = (n, inline)"
  shows "case inline of None \<Rightarrow> arg = n \<and> CHR ''='' \<notin> set n | Some v \<Rightarrow> arg = n @ ''='' @ v \<and> CHR ''='' \<notin> set n"
proof (cases "CHR ''='' \<in> set arg")
  case True
  then have "dropWhile (\<lambda>c. c \<noteq> CHR ''='') arg = CHR ''='' # tl (dropWhile (\<lambda>c. c \<noteq> CHR ''='') arg)"
    using hd_dropWhile [of "\<lambda>c. c \<noteq> CHR ''=''" arg] dropWhile_eq_Nil_conv [of "\<lambda>c. c \<noteq> CHR ''=''" arg]
    by (metis list.collapse)
  then have "arg = takeWhile (\<lambda>c. c \<noteq> CHR ''='') arg @ CHR ''='' # tl (dropWhile (\<lambda>c. c \<noteq> CHR ''='') arg)"
    by (metis takeWhile_dropWhile_id)
  with assms True show ?thesis by (auto simp: split_argument_def dest: set_takeWhileD)
qed (use assms in \<open>auto simp: split_argument_def\<close>)

text \<open>What one turn of the loop reads is one argument, and a known argument is read as its setting.\<close>

lemma read_argument_reads:
  assumes "read_argument raw rest = Inr ((entry, v), rest')"
  shows "\<exists>a. argument_known a \<and> raw # rest = argument_words a @ rest'"
proof -
  obtain arg neg where arg: "negated_argument (drop 2 raw) = (arg, neg)" by fastforce
  obtain n inline where split: "split_argument arg = (n, inline)" by fastforce
  note code = assms [unfolded read_argument_def arg prod.case split Let_def]
  from code have "StartsWith raw ''--''" by (auto split: if_splits)
  then have dashes: "raw = ''--'' @ drop 2 raw" using StartsWith_split [of raw "''--''"] by (simp add: numeral_2_eq_2)
  from code have entry: "entry \<in> set kConfigEntries" "names_entry entry n"
    by (auto split: if_splits option.splits simp: FindEntryByArgumentName_Some)
  have found: "FindEntryByArgumentName n = Some entry" using entry FindEntryByArgumentName_Some by blast
  note code = code [unfolded found option.case]
  note parts = split_argument_cases [OF split]
  show ?thesis
  proof (cases neg)
    case True
    with arg obtain e where no: "StartsWith (drop 2 raw) ''no''" "arg = drop 2 (drop 2 raw)"
      and e: "FindEntryByArgumentName arg = Some e" "ce_value_type e = kBool"
      by (auto simp: negated_argument_def split: if_splits option.splits)
    have "inline = None" "rest' = rest" using code True by (auto split: if_splits)
    with parts have "arg = n" by simp
    then have "e = entry" using e(1) found by simp
    then have "argument_known (NoFlag n)" using entry e(2) by (auto simp: argument_known_def)
    moreover have "raw # rest = argument_words (NoFlag n) @ rest'"
      using dashes StartsWith_split [OF no(1)] no(2) \<open>arg = n\<close> \<open>rest' = rest\<close> by (simp add: numeral_2_eq_2)
    ultimately show ?thesis by blast
  next
    case False
    then have raw: "raw = ''--'' @ arg" using arg dashes
      by (auto simp: negated_argument_def split: if_splits option.splits)
    have read: "ReadArgumentValue rest n inline entry = Inr (v, rest')"
      using code False by (auto split: if_splits)
    show ?thesis
    proof (cases inline)
      case (Some w)
      with read parts raw have "raw # rest = argument_words (WithValue n w) @ rest'" by (simp add: ReadArgumentValue_def)
      moreover have "argument_known (WithValue n w)" using entry by (auto simp: argument_known_def)
      ultimately show ?thesis by blast
    next
      case None
      show ?thesis
      proof (cases "ce_value_type entry = kBool")
        case True
        with read None parts raw have "raw # rest = argument_words (Flag n) @ rest'" by (simp add: ReadArgumentValue_def)
        moreover have "argument_known (Flag n)" using entry True by (auto simp: argument_known_def)
        ultimately show ?thesis by blast
      next
        case False
        with read None parts raw have "raw # rest = argument_words (WithNext n v) @ rest'"
          by (auto simp: ReadArgumentValue_def split: list.splits)
        moreover have "argument_known (WithNext n v)" using entry False by (auto simp: argument_known_def)
        ultimately show ?thesis by blast
      qed
    qed
  qed
qed

lemma read_argument_known:
  assumes "argument_known a"
  shows "\<exists>raw args entry. argument_words a @ rest = raw # args \<and> raw \<noteq> ''--'' \<and>
    FindEntryByArgumentName (fst (argument_setting a)) = Some entry \<and>
    read_argument raw args = Inr ((entry, snd (argument_setting a)), rest)"
proof -
  obtain entry where entry: "entry \<in> set kConfigEntries" "names_entry entry (fst (argument_setting a))"
    and fits: "argument_fits a (ce_value_type entry)"
    using assms by (auto simp: argument_known_def)
  have found: "FindEntryByArgumentName (fst (argument_setting a)) = Some entry"
    using entry FindEntryByArgumentName_Some by blast
  have name: "fst (argument_setting a) \<noteq> []" "\<not> StartsWith (fst (argument_setting a)) ''no''"
    using table_names [OF entry(2,1)] by simp_all
  note plain = FindEntryByArgumentName_name(3) [OF found]
  have starts: "StartsWith (CHR ''-'' # CHR ''-'' # n) ''--''" "StartsWith (CHR ''n'' # CHR ''o'' # n) ''no''" for n
    by (simp_all add: StartsWith_def)
  have split: "split_argument (fst (argument_setting a)) = (fst (argument_setting a), None)"
    using plain by (simp add: split_argument_def)
  show ?thesis
  proof (cases a)
    case (WithValue n v)
    with found plain negated_argument_value [of n v] split_argument_value [of n v] show ?thesis
      by (simp add: read_argument_def ReadArgumentValue_def StartsWith_def)
  next
    case (WithNext n v)
    have "read_argument (''--'' @ n) (v # rest) = Inr ((entry, v), rest)"
      using WithNext found fits split name(2) by (simp add: read_argument_def starts negated_argument_def ReadArgumentValue_def)
    with WithNext found name(1) show ?thesis by simp
  next
    case (Flag n)
    have "read_argument (''--'' @ n) rest = Inr ((entry, ''true''), rest)"
      using Flag found fits split name(2) by (simp add: read_argument_def starts negated_argument_def ReadArgumentValue_def)
    with Flag found name(1) show ?thesis by simp
  next
    case (NoFlag n)
    then have "negated_argument (''no'' @ n) = (n, True)"
      using found fits by (simp add: negated_argument_def starts)
    then have "read_argument (''--no'' @ n) rest = Inr ((entry, ''false''), rest)"
      using NoFlag found split by (simp add: read_argument_def starts)
    with NoFlag found show ?thesis by simp
  qed
qed

lemma ConfigArguments_Apply_reads:
  "ConfigArguments_Apply args c = (Inr u, c') \<Longrightarrow> \<exists>as. command_line args as"
proof (induction args c rule: ConfigArguments_Apply.induct)
  case (1 c)
  show ?case by (intro exI [of _ "[]"]) (simp add: command_line_def)
next
  case (2 raw rest c)
  show ?case
  proof (cases "raw = ''--''")
    case True
    then show ?thesis by (intro exI [of _ "[]"]) (simp add: command_line_def)
  next
    case False
    with "2.prems" obtain entry v rest' where read: "read_argument raw rest = Inr ((entry, v), rest')"
      by (auto split: sum.splits prod.splits)
    obtain a where a: "argument_known a" "raw # rest = argument_words a @ rest'" using read_argument_reads [OF read] by blast
    have "\<exists>as. command_line rest' as"
    proof (cases "ce_field entry = kConfigPath")
      case True
      with "2.IH"(1) [OF False read refl refl] "2.prems" False read show ?thesis by simp
    next
      case notpath: False
      with "2.prems" False read obtain c1 where set: "GlobalConfig_Set (ce_field entry) v c = (Inr (), c1)"
        and "ConfigArguments_Apply rest' c1 = (Inr u, c')" by (auto split: sum.splits prod.splits)
      with "2.IH"(2) [OF False read refl refl notpath set [symmetric] refl] show ?thesis by simp
    qed
    then obtain as where "command_line rest' as" ..
    with a have "command_line (raw # rest) (a # as)" by (auto simp: command_line_def)
    then show ?thesis ..
  qed
qed

lemma ConfigArguments_Apply_settings:
  assumes "command_line args as"
  shows "ConfigArguments_Apply args c = set_all (argument_settings (map argument_setting as)) c"
    "\<forall>(n, v) \<in> set (map argument_setting as). FindEntryByArgumentName n \<noteq> None"
proof -
  from assms obtain rest where known: "\<forall>a \<in> set as. argument_known a"
    and args: "args = concat (map argument_words as) @ rest" "rest = [] \<or> hd rest = ''--''" by (auto simp: command_line_def)
  show "\<forall>(n, v) \<in> set (map argument_setting as). FindEntryByArgumentName n \<noteq> None"
  proof -
    have "FindEntryByArgumentName (fst (argument_setting a)) \<noteq> None" if "a \<in> set as" for a
      using known read_argument_known [of a "[]"] that by auto
    then show ?thesis by (auto simp: case_prod_beta)
  qed
  show "ConfigArguments_Apply args c = set_all (argument_settings (map argument_setting as)) c"
    using known unfolding args(1)
  proof (induction as arbitrary: c)
    case Nil
    show ?case using args(2) by (cases rest) (simp_all add: argument_settings_def)
  next
    case (Cons a as)
    obtain n v where setting: "argument_setting a = (n, v)" by fastforce
    from Cons.prems read_argument_known [of a "concat (map argument_words as) @ rest"] obtain raw words entry
      where words: "argument_words a @ concat (map argument_words as) @ rest = raw # words" "raw \<noteq> ''--''"
        and found: "FindEntryByArgumentName n = Some entry"
        and read: "read_argument raw words = Inr ((entry, v), concat (map argument_words as) @ rest)"
      by (auto simp: setting)
    have args: "concat (map argument_words (a # as)) @ rest = raw # words" using words(1) by simp
    have IH: "ConfigArguments_Apply (concat (map argument_words as) @ rest) c =
        set_all (argument_settings (map argument_setting as)) c" for c using Cons by simp
    have settings: "argument_settings (map argument_setting (a # as)) =
        (if ce_field entry = kConfigPath then [] else [(ce_field entry, v)]) @ argument_settings (map argument_setting as)"
      by (simp add: argument_settings_def setting found)
    show ?case
      unfolding args ConfigArguments_Apply.simps(2) read settings using words(2)
      by (simp add: IH split: sum.splits prod.splits)
  qed
qed

lemma argument_settings_last:
  assumes "entry \<in> set kConfigEntries" "ce_field entry \<noteq> kConfigPath" "\<forall>(n, v) \<in> set ps. FindEntryByArgumentName n \<noteq> None"
  shows "map_of (rev (argument_settings ps)) (ce_field entry) = last_given (names_entry entry) ps"
  using assms(3)
proof (induction ps)
  case (Cons p ps)
  obtain n v where p: "p = (n, v)" by fastforce
  obtain e where e: "FindEntryByArgumentName n = Some e" using Cons.prems p by auto
  have IH: "map_of (rev (argument_settings ps)) (ce_field entry) = last_given (names_entry entry) ps"
    using Cons by simp
  show ?case
  proof (cases "ce_field e = kConfigPath")
    case True
    then have "\<not> names_entry entry n" using FindEntryByArgumentName_iff [OF assms(1) e] assms(2) by simp
    with IH True show ?thesis by (simp add: argument_settings_def p e split: option.splits)
  next
    case False
    have "argument_settings (p # ps) = (ce_field e, v) # argument_settings ps"
      using False by (simp add: argument_settings_def p e)
    then show ?thesis
      using IH FindEntryByArgumentName_iff [OF assms(1) e]
      by (cases "names_entry entry n") (auto simp: p map_add_def split: option.splits)
  qed
qed (simp add: argument_settings_def)

lemma FindEntryByYamlKey_iff:
  assumes "entry \<in> set kConfigEntries" "FindEntryByYamlKey k = Some e"
  shows "ce_field e = ce_field entry \<longleftrightarrow> k = ce_key entry"
proof -
  have e: "e \<in> set kConfigEntries" "names_entry e k" "ce_key e = k"
    using assms(2) by (auto simp: FindEntryByYamlKey_def find_Some_iff names_entry_def)
  have "inj_on ce_field (set kConfigEntries)" using table_distinct(2) by (simp add: distinct_map)
  then have "ce_field e = ce_field entry \<Longrightarrow> e = entry" using e(1) assms(1) by (auto dest: inj_onD)
  moreover have "k = ce_key entry \<Longrightarrow> e = entry"
    using names_entry_unique [OF e(1) assms(1) e(2)] by (simp add: names_entry_def)
  ultimately show ?thesis using e(3) by auto
qed

lemma file_settings_last:
  assumes "entry \<in> set kConfigEntries" "distinct (map fst m)"
    and "\<forall>(key, v) \<in> set m. ParseRankingRankerArrayIndex key = None \<longrightarrow> FindEntryByYamlKey key \<noteq> None"
  shows "map_of (rev (file_settings m)) (ce_field entry) = map_of m (ce_key entry)"
  using assms(2,3)
proof (induction m)
  case (Cons p m)
  obtain k v where p: "p = (k, v)" by fastforce
  have IH: "map_of (rev (file_settings m)) (ce_field entry) = map_of m (ce_key entry)" using Cons by simp
  have own: "ParseRankingRankerArrayIndex (ce_key entry) = None"
    using table_dots [OF assms(1)] by (simp add: ParseRankingRankerArrayIndex_def)
  show ?case
  proof (cases "ParseRankingRankerArrayIndex k")
    case (Some i)
    then have "k \<noteq> ce_key entry" using own by auto
    with IH Some show ?thesis by (simp add: file_settings_def p)
  next
    case None
    then obtain e where e: "FindEntryByYamlKey k = Some e" using Cons.prems p by auto
    have settings: "file_settings (p # m) = (ce_field e, v) # file_settings m"
      using None by (simp add: file_settings_def p e)
    show ?thesis
    proof (cases "k = ce_key entry")
      case True
      have "map_of m k = None" using Cons.prems(1) p by (simp add: map_of_eq_None_iff)
      with IH True FindEntryByYamlKey_iff [OF assms(1) e] show ?thesis unfolding settings by (simp add: p map_add_def)
    next
      case False
      with IH FindEntryByYamlKey_iff [OF assms(1) e] show ?thesis
        unfolding settings by (auto simp: p map_add_def split: option.splits)
    qed
  qed
qed (simp add: file_settings_def)

lemma ApplyFile_settings:
  assumes "ApplyFile load_file path c = (Inr u, c')" "load_file path = Inr yaml" "FlattenYamlNode yaml [] [] = Inr m"
  shows "\<exists>rankers. set_all (file_settings m @ rankers) c = (Inr (), c') \<and> fst ` set rankers \<subseteq> {kRankingRankers} \<and>
    (\<forall>(key, v) \<in> set m. ParseRankingRankerArrayIndex key = None \<longrightarrow> FindEntryByYamlKey key \<noteq> None)"
proof -
  obtain rs c1 where loaded: "apply_loaded m [] c = (Inr rs, c1)"
    using assms by (auto simp: ApplyFile_def split: prod.splits sum.splits)
  note settings = apply_loaded_settings [OF loaded]
  show ?thesis
  proof (cases "rs = []")
    case True
    with assms loaded have "c' = c1" by (simp add: ApplyFile_def)
    with settings show ?thesis by (intro exI [of _ "[]"]) simp
  next
    case False
    with assms loaded obtain v where v: "GlobalConfig_Set kRankingRankers v c1 = (Inr u, c')"
      by (auto simp: ApplyFile_def Let_def)
    with settings show ?thesis
      by (intro exI [of _ "[(kRankingRankers, v)]"]) (simp add: set_all_append)
  qed
qed

text \<open>
  The file of a start: the values it gives, none when there is no file to read. A file that the command line
  names is always read, another one when it is there.
\<close>

definition file_values ::
  "(string \<Rightarrow> bool) \<Rightarrow> (string \<Rightarrow> string + Yaml) \<Rightarrow> bool \<Rightarrow> string \<Rightarrow> string_map \<Rightarrow> bool" where
  "file_values file_exists load_file named path m \<longleftrightarrow>
     (if named \<or> file_exists path
      then (\<exists>yaml. load_file path = Inr yaml \<and> FlattenYamlNode yaml [] [] = Inr m)
      else m = [])"

lemma ApplyStartupFile_settings:
  assumes "ApplyStartupFile file_exists cwd load_file args exe c = (Inr u, c')"
  shows "\<exists>startup m extra. FindStartupConfigPath args c = Inr startup \<and>
    (let path = ResolveStartupConfigPath file_exists cwd startup exe;
         named = sc_from_command_line startup
     in file_values file_exists load_file named path m \<and>
       set_all (file_settings m @ extra) c = (Inr (), c') \<and> fst ` set extra \<subseteq> {kRankingRankers, kConfigPath} \<and>
       (m \<noteq> [] \<or> extra \<noteq> [] \<longrightarrow> named \<or> file_exists path) \<and>
       map_of (rev extra) kConfigPath = (if named \<or> file_exists path then Some path else None) \<and>
       (\<forall>(key, v) \<in> set m. ParseRankingRankerArrayIndex key = None \<longrightarrow> FindEntryByYamlKey key \<noteq> None))"
proof -
  obtain startup where startup: "FindStartupConfigPath args c = Inr startup"
    using assms by (auto simp: ApplyStartupFile_def split: sum.splits)
  let ?path = "ResolveStartupConfigPath file_exists cwd startup exe"
  note code = assms [unfolded ApplyStartupFile_def startup sum.case Let_def]
  show ?thesis
  proof (cases "sc_from_command_line startup \<or> file_exists ?path")
    case False
    with code have "c' = c" by simp
    with False startup show ?thesis
      by (intro exI [of _ startup] exI [of _ "[]"]) (simp add: file_values_def file_settings_def Let_def)
  next
    case True
    with code obtain c1 where loaded: "ApplyFile load_file ?path c = (Inr (), c1)"
      and set: "GlobalConfig_Set kConfigPath ?path c1 = (Inr u, c')"
      by (auto split: sum.splits prod.splits if_splits)
    then obtain yaml m where yaml: "load_file ?path = Inr yaml" "FlattenYamlNode yaml [] [] = Inr m"
      by (auto simp: ApplyFile_def split: sum.splits)
    from ApplyFile_settings [OF loaded yaml] obtain rankers where
      rankers: "set_all (file_settings m @ rankers) c = (Inr (), c1)" "fst ` set rankers \<subseteq> {kRankingRankers}"
      "\<forall>(key, v) \<in> set m. ParseRankingRankerArrayIndex key = None \<longrightarrow> FindEntryByYamlKey key \<noteq> None" by blast
    have "set_all ((file_settings m @ rankers) @ [(kConfigPath, ?path)]) c = (Inr (), c')"
      unfolding set_all_append [of "file_settings m @ rankers"] rankers(1) using set by simp
    then show ?thesis using True startup yaml rankers(2,3)
      by (intro exI [of _ startup] exI [of _ m] exI [of _ "rankers @ [(kConfigPath, ?path)]"]) (auto simp: file_values_def Let_def)
  qed
qed

text \<open>What a start of the process sets, in order.\<close>

lemma load_configuration_settings:
  assumes "load_configuration file_exists cwd load_file name (exe # args) c0 = (Inr (), c)" "gc_service_name c0 = []"
  shows "\<exists>c2. ApplyStartupFile file_exists cwd load_file args exe (c0\<lparr>gc_service_name := name\<rparr>) = (Inr (), c2) \<and>
    ConfigArguments_Apply args c2 = (Inr (), c)"
proof -
  have "name \<noteq> []" using assms(1) by (auto simp: load_configuration_def GlobalConfig_Initialize_def)
  then have init: "GlobalConfig_Initialize name c0 = (Inr (), c0\<lparr>gc_service_name := name\<rparr>)"
    using assms(2) by (simp add: GlobalConfig_Initialize_def)
  show ?thesis using assms(1) by (auto simp: load_configuration_def init split: prod.splits sum.splits)
qed

lemma config_path_default:
  "config_entry kConfigPath ''config.path'' ''config_path'' kString ''config.debug.yaml'' \<in> set kConfigEntries"
  "default_text (config_entry kConfigPath ''config.path'' ''config_path'' kString ''config.debug.yaml'') = ''config.debug.yaml''"
  by (simp_all add: kConfigEntries_def config_entry_def default_text_def CanonicalizeValue_def)

text \<open>
  C29. The command line overrides the configuration file, and the file the defaults. A start that succeeds has
  read its command line as arguments of the four forms \<open>--name=value\<close>, \<open>--name value\<close>, \<open>--flag\<close> and
  \<open>--noflag\<close>, up to its end or a lone \<open>--\<close>; and however it is read as such, every field of the table but
  the path of the file holds the canonical form of the last argument that names it, by its argument name
  or its key: the value given, true for a flag, false for a negated one. Without such an argument, every field
  but the list of rankers holds the canonical form of the value under its key in the file,
  and without that, of its default. The path is that of the file that was read, or its default.
\<close>

theorem config_precedence:
  assumes "load_configuration file_exists cwd load_file name (exe # args) (snd (ResetToDefaults GlobalConfig_empty)) = (Inr (), c)"
  shows "\<exists>startup m.
    FindStartupConfigPath args ((snd (ResetToDefaults GlobalConfig_empty))\<lparr>gc_service_name := name\<rparr>) = Inr startup \<and>
    (let path = ResolveStartupConfigPath file_exists cwd startup exe; named = sc_from_command_line startup
     in file_values file_exists load_file named path m \<and>
       GetString c kConfigPath = Inr (if named \<or> file_exists path then path else ''config.debug.yaml'')) \<and>
    (\<exists>as. command_line args as) \<and>
    (\<forall>as entry. command_line args as \<and> entry \<in> set kConfigEntries \<and> ce_field entry \<noteq> kConfigPath \<longrightarrow>
       (case last_given (names_entry entry) (map argument_setting as) of
          Some v \<Rightarrow> GetString c (ce_field entry) = CanonicalizeValue entry v
        | None \<Rightarrow> ce_field entry \<noteq> kRankingRankers \<longrightarrow>
            GetString c (ce_field entry) = CanonicalizeValue entry
              (case map_of m (ce_key entry) of Some v \<Rightarrow> v | None \<Rightarrow> ce_default_value entry)))"
proof -
  let ?c0 = "(snd (ResetToDefaults GlobalConfig_empty))\<lparr>gc_service_name := name\<rparr>"
  obtain c2 where applied: "ApplyStartupFile file_exists cwd load_file args exe ?c0 = (Inr (), c2)"
    and args: "ConfigArguments_Apply args c2 = (Inr (), c)"
    using load_configuration_settings [OF assms ResetToDefaults_values(3)] by blast
  obtain startup m extra where startup: "FindStartupConfigPath args ?c0 = Inr startup"
    and from_file: "let path = ResolveStartupConfigPath file_exists cwd startup exe; named = sc_from_command_line startup
     in file_values file_exists load_file named path m \<and>
       set_all (file_settings m @ extra) ?c0 = (Inr (), c2) \<and> fst ` set extra \<subseteq> {kRankingRankers, kConfigPath} \<and>
       (m \<noteq> [] \<or> extra \<noteq> [] \<longrightarrow> named \<or> file_exists path) \<and>
       map_of (rev extra) kConfigPath = (if named \<or> file_exists path then Some path else None) \<and>
       (\<forall>(key, v) \<in> set m. ParseRankingRankerArrayIndex key = None \<longrightarrow> FindEntryByYamlKey key \<noteq> None)"
    using ApplyStartupFile_settings [OF applied] by blast
  let ?path = "ResolveStartupConfigPath file_exists cwd startup exe"
  let ?used = "sc_from_command_line startup \<or> file_exists ?path"
  note from_file = from_file [unfolded Let_def]
  have m: "file_values file_exists load_file (sc_from_command_line startup) ?path m"
    and set: "set_all (file_settings m @ extra) ?c0 = (Inr (), c2)"
    and extra: "fst ` set extra \<subseteq> {kRankingRankers, kConfigPath}"
      "map_of (rev extra) kConfigPath = (if ?used then Some ?path else None)" "m \<noteq> [] \<or> extra \<noteq> [] \<longrightarrow> ?used"
    and keys: "\<forall>(key, v) \<in> set m. ParseRankingRankerArrayIndex key = None \<longrightarrow> FindEntryByYamlKey key \<noteq> None"
    using from_file by blast+
  obtain as where as: "command_line args as" using ConfigArguments_Apply_reads [OF args] ..
  have all: "set_all ((file_settings m @ extra) @ argument_settings (map argument_setting as)) ?c0 = (Inr (), c)"
    if "command_line args as" for as
    unfolding set_all_append [of "file_settings m @ extra"] set
    using args by (simp add: ConfigArguments_Apply_settings(1) [OF that])
  have "distinct (map fst m)"
    using m FlattenYamlNode_sorted(1) by (auto simp: file_values_def sorted_keys_distinct split: if_splits)
  note lookup_file = file_settings_last [OF _ this keys]
  have path: "GetString c kConfigPath = Inr (if ?used then ?path else ''config.debug.yaml'')"
  proof -
    have canon: "canonical kConfigPath v = Inr v" for v
      by (simp add: canonical_def EntryForField_def kConfigEntries_def config_entry_def CanonicalizeValue_def)
    have "kConfigPath \<notin> fst ` set (argument_settings ps)" for ps by (auto simp: argument_settings_def)
    then have none: "map_of (rev (argument_settings ps)) kConfigPath = None" for ps by (simp add: map_of_eq_None_iff)
    have "\<not> ?used \<Longrightarrow> map_of (rev (file_settings m)) kConfigPath = None" using extra(3) by (auto simp: file_settings_def)
    moreover have "gc_values ?c0 kConfigPath = Some ''config.debug.yaml''"
      using ResetToDefaults_values(2) [OF config_path_default(1), of GlobalConfig_empty] config_path_default(2)
      by (simp add: config_entry_def)
    ultimately show ?thesis
      using set_all_last [OF all [OF as], of kConfigPath] none extra(2) canon
      by (auto simp: GetString_def map_add_def split: if_splits option.splits)
  qed
  have settings: "case last_given (names_entry entry) (map argument_setting as) of
      Some v \<Rightarrow> GetString c (ce_field entry) = CanonicalizeValue entry v
    | None \<Rightarrow> ce_field entry \<noteq> kRankingRankers \<longrightarrow>
        GetString c (ce_field entry) = CanonicalizeValue entry
          (case map_of m (ce_key entry) of Some v \<Rightarrow> v | None \<Rightarrow> ce_default_value entry)"
    if as: "command_line args as" and entry: "entry \<in> set kConfigEntries" "ce_field entry \<noteq> kConfigPath" for as entry
  proof -
    let ?f = "ce_field entry"
    note given = argument_settings_last [OF entry ConfigArguments_Apply_settings(2) [OF as]]
    have canon: "canonical ?f v = CanonicalizeValue entry v" for v
      using entry(1) by (simp add: canonical_def EntryForField_iff [THEN iffD2])
    have none: "?f \<noteq> kRankingRankers \<Longrightarrow> map_of (rev extra) ?f = None"
      using extra(1) entry(2) by (auto simp: map_of_eq_None_iff)
    have initial: "gc_values ?c0 ?f = Some (default_text entry)" using ResetToDefaults_values(2) [OF entry(1)] by simp
    show ?thesis
      using set_all_last [OF all [OF as], of ?f] initial default_text [OF entry(1)] none
      by (auto simp: GetString_def canon map_add_def given lookup_file [OF entry(1)] split: option.splits)
  qed
  have "\<exists>as. command_line args as" using as by blast
  with startup m path settings show ?thesis unfolding Let_def by (intro exI [of _ startup] exI [of _ m]) simp
qed

text \<open>A start with a file that gives the host and a command line that gives it again, and turns a flag off.\<close>

definition example_yaml :: Yaml where
  "example_yaml = YamlMap [(YamlScalar ''server'', YamlMap [(YamlScalar ''host'', YamlScalar ''a'')])]"

definition host_entry :: ConfigEntry where
  "host_entry = config_entry kServerHost ''server.host'' ''host'' kString ''127.0.0.1''"

definition ssl_entry :: ConfigEntry where
  "ssl_entry = config_entry kElasticsearchHttpClientVerifySsl ''elasticsearch.http_client.verify_ssl''
     ''es_http_client_verify_ssl'' kBool ''true''"

definition example_args :: "string list" where
  "example_args = [''--host'', ''h'', ''--noes_http_client_verify_ssl'', ''--'', ''x'']"

lemma example_lookups:
  "FlattenYamlNode example_yaml [] [] = Inr [(''server.host'', ''a'')]"
  "ParseRankingRankerArrayIndex ''server.host'' = None"
  "FindEntryByYamlKey ''server.host'' = Some host_entry"
  "find_startup_path example_args = Inr None"
  "ssl_entry \<in> set kConfigEntries" "host_entry \<in> set kConfigEntries"
  "CanonicalizeValue ssl_entry ''false'' = Inr ''false''"
  "ce_field host_entry = kServerHost" "ce_field ssl_entry = kElasticsearchHttpClientVerifySsl"
  by code_simp+

lemma set_host_and_path:
  "GlobalConfig_Set kServerHost v c = (Inr (), c\<lparr>gc_values := (gc_values c)(kServerHost \<mapsto> v)\<rparr>)"
  "GlobalConfig_Set kConfigPath v c = (Inr (), c\<lparr>gc_values := (gc_values c)(kConfigPath \<mapsto> v)\<rparr>)"
  by (simp_all add: GlobalConfig_Set_Inr canonical_def CanonicalizeValue_def EntryForField_def kConfigEntries_def config_entry_def)

lemma set_ssl:
  "GlobalConfig_Set kElasticsearchHttpClientVerifySsl ''false'' c =
     (Inr (), c\<lparr>gc_values := (gc_values c)(kElasticsearchHttpClientVerifySsl \<mapsto> ''false'')\<rparr>)"
proof -
  have "EntryForField kElasticsearchHttpClientVerifySsl = Inr ssl_entry"
    using example_lookups(5,9) by (simp add: EntryForField_iff)
  then show ?thesis by (simp add: GlobalConfig_Set_def example_lookups(7))
qed

lemma example_command_line: "command_line example_args [WithNext ''host'' ''h'', NoFlag ''es_http_client_verify_ssl'']"
proof -
  have "argument_known (WithNext ''host'' ''h'')" "argument_known (NoFlag ''es_http_client_verify_ssl'')"
    using example_lookups(5,6) by (force simp: argument_known_def names_entry_def host_entry_def ssl_entry_def config_entry_def)+
  then show ?thesis by (simp add: command_line_def example_args_def)
qed

lemma example_names:
  "names_entry ssl_entry ''es_http_client_verify_ssl''" "\<not> names_entry ssl_entry ''host''"
  "names_entry host_entry ''host''" "\<not> names_entry host_entry ''es_http_client_verify_ssl''"
  "FindEntryByArgumentName ''host'' = Some host_entry" "FindEntryByArgumentName ''es_http_client_verify_ssl'' = Some ssl_entry"
  by code_simp+

lemma config_precedence_witness:
  "\<exists>c. load_configuration (\<lambda>_. True) ''/'' (\<lambda>_. Inr example_yaml) ''ranking'' (''/svc'' # example_args)
      (snd (ResetToDefaults GlobalConfig_empty)) = (Inr (), c) \<and>
    GetString c kElasticsearchHttpClientVerifySsl = Inr ''false'' \<and> GetString c kServerHost = CanonicalizeValue host_entry ''h''"
proof -
  let ?c0 = "snd (ResetToDefaults GlobalConfig_empty)" and ?load = "\<lambda>_. Inr example_yaml"
  define start where "start = \<lparr>sc_path = ''config.debug.yaml'', sc_from_command_line = False\<rparr>"
  have "GetConfigPath (?c0\<lparr>gc_service_name := ''ranking''\<rparr>) = Inr ''config.debug.yaml''"
    using ResetToDefaults_values(2) [OF config_path_default(1), of GlobalConfig_empty] config_path_default(2)
    by (simp add: GetConfigPath_def GetString_def config_entry_def)
  then have found: "FindStartupConfigPath example_args (?c0\<lparr>gc_service_name := ''ranking''\<rparr>) = Inr start"
    by (simp add: FindStartupConfigPath_def example_lookups start_def del: find_startup_path.simps)
  have args: "ConfigArguments_Apply example_args c =
      set_all [(kServerHost, ''h''), (kElasticsearchHttpClientVerifySsl, ''false'')] c" for c
    unfolding ConfigArguments_Apply_settings(1) [OF example_command_line]
    by (simp add: argument_settings_def example_names example_lookups)
  obtain c where started: "load_configuration (\<lambda>_. True) ''/'' ?load ''ranking'' (''/svc'' # example_args) ?c0 = (Inr (), c)"
    using found by (simp add: load_configuration_def GlobalConfig_Initialize_def ResetToDefaults_values(3) ApplyStartupFile_def
        Let_def ApplyFile_def example_lookups set_host_and_path args set_ssl)
  let ?ps = "map argument_setting [WithNext ''host'' ''h'', NoFlag ''es_http_client_verify_ssl'']"
  have given: "last_given (names_entry ssl_entry) ?ps = Some ''false''" "last_given (names_entry host_entry) ?ps = Some ''h''"
    using example_names by simp_all
  obtain m where precedence: "\<forall>as entry. command_line example_args as \<and> entry \<in> set kConfigEntries \<and> ce_field entry \<noteq> kConfigPath \<longrightarrow>
       (case last_given (names_entry entry) (map argument_setting as) of
          Some v \<Rightarrow> GetString c (ce_field entry) = CanonicalizeValue entry v
        | None \<Rightarrow> ce_field entry \<noteq> kRankingRankers \<longrightarrow>
            GetString c (ce_field entry) = CanonicalizeValue entry
              (case map_of m (ce_key entry) of Some v \<Rightarrow> v | None \<Rightarrow> ce_default_value entry))"
    using config_precedence [OF started] by blast
  note decided = precedence [rule_format, OF conjI, OF example_command_line conjI]
  have "GetString c (ce_field ssl_entry) = CanonicalizeValue ssl_entry ''false''"
    using decided [of ssl_entry] example_lookups(5,9) unfolding given by simp
  moreover have "GetString c (ce_field host_entry) = CanonicalizeValue host_entry ''h''"
    using decided [of host_entry] example_lookups(6,8) unfolding given by simp
  ultimately show ?thesis using started example_lookups(7-9) by (intro exI [of _ c]) simp
qed

section \<open>A list of rankers\<close>

lemma TrimWhitespace_idem: "TrimWhitespace (TrimWhitespace v) = TrimWhitespace v"
  by (simp add: TrimWhitespace_def)

lemma TrimWhitespace_set: "set (TrimWhitespace v) \<subseteq> set v"
  by (auto simp: TrimWhitespace_def trim_both_def trim_left_def trim_right_def dest!: set_dropWhileD)

lemma Split_join:
  assumes "\<forall>v \<in> set (v # vs). CHR '','' \<notin> set v"
  shows "SplitCommaSeparatedValues (v @ concat (map ((#) (CHR '','')) vs)) = filter (\<lambda>v. v \<noteq> []) (map TrimWhitespace (v # vs))"
  using assms
proof (induction vs arbitrary: v)
  case Nil
  then have whole: "takeWhile (\<lambda>c. c \<noteq> CHR '','') v = v" by (auto simp: takeWhile_eq_all_conv)
  show ?case using Nil.prems by (subst SplitCommaSeparatedValues.simps) (simp add: Let_def whole)
next
  case (Cons w vs)
  then have v: "takeWhile (\<lambda>c. c \<noteq> CHR '','') (v @ CHR '','' # t) = v" "dropWhile (\<lambda>c. c \<noteq> CHR '','') (v @ CHR '','' # t) = CHR '','' # t" for t
    by (auto simp: takeWhile_append dropWhile_append takeWhile_eq_all_conv)
  show ?case
    using Cons.IH [of w] Cons.prems by (subst SplitCommaSeparatedValues.simps) (simp add: Let_def v)
qed

lemma join_values_eq:
  "[] \<notin> set vs \<Longrightarrow> joined \<noteq> [] \<Longrightarrow> join_values joined vs = joined @ concat (map ((#) (CHR '','')) vs)"
  by (induction vs arbitrary: joined) auto

lemma Split_Join:
  assumes "\<forall>v \<in> set vs. CHR '','' \<notin> set v \<and> TrimWhitespace v = v \<and> v \<noteq> []"
  shows "SplitCommaSeparatedValues (JoinCommaSeparatedValues vs) = vs"
proof (cases vs)
  case Nil
  have "TrimWhitespace [] = []" using TrimWhitespace_set [of "[]"] by simp
  with Nil show ?thesis by (subst SplitCommaSeparatedValues.simps) (simp add: JoinCommaSeparatedValues_def)
next
  case (Cons v ws)
  have "JoinCommaSeparatedValues vs = v @ concat (map ((#) (CHR '','')) ws)"
    using assms Cons join_values_eq [of ws v] by (auto simp: JoinCommaSeparatedValues_def)
  moreover have "filter (\<lambda>v. v \<noteq> []) (map TrimWhitespace (v # ws)) = v # ws"
    using assms Cons by (intro trans [OF filter_True]) (auto intro: map_idI)
  ultimately show ?thesis using Split_join [of v ws] assms Cons by (metis Cons)
qed

lemma map_set_mset: "k \<notin> fst ` set m \<Longrightarrow> mset (map_set k v m) = add_mset (k, v) (mset m)"
  by (induction k v m rule: map_set.induct) auto

lemma flatten_scalars:
  assumes "\<forall>j \<ge> i. JoinKey prefix (show_nat j) \<notin> fst ` set m" "prefix \<noteq> []"
  shows "\<exists>m'. flatten_sequence i (map YamlScalar vs) prefix m = Inr m' \<and>
    mset m' = mset m + mset (map (\<lambda>(j, v). (JoinKey prefix (show_nat j), v)) (zip [i..<i + length vs] vs))"
  using assms
proof (induction vs arbitrary: i m)
  case (Cons v vs)
  let ?k = "\<lambda>j. JoinKey prefix (show_nat j)"
  have inj: "?k j \<noteq> ?k i" if "Suc i \<le> j" for j
    using that Cons.prems(2) by (auto simp: JoinKey_def show_nat_inject)
  have "\<forall>j \<ge> Suc i. ?k j \<notin> fst ` set (map_set (?k i) v m)"
    using Cons.prems(1) inj by (auto simp: map_set_keys)
  from Cons.IH [OF this Cons.prems(2)] obtain m' where m': "flatten_sequence (Suc i) (map YamlScalar vs) prefix (map_set (?k i) v m) = Inr m'"
    "mset m' = mset (map_set (?k i) v m) + mset (map (\<lambda>(j, v). (?k j, v)) (zip [Suc i..<Suc i + length vs] vs))"
    by blast
  have "?k i \<noteq> []" by (simp add: JoinKey_def)
  moreover have "zip [i..<i + length (v # vs)] (v # vs) = (i, v) # zip [Suc i..<Suc i + length vs] vs"
    by (simp add: upt_conv_Cons del: upt_Suc)
  ultimately show ?case using m' Cons.prems(1) by (simp add: map_set_mset)
qed simp

definition ranker_key :: "nat \<Rightarrow> string" where
  "ranker_key j = kRankerPrefix @ show_nat j"

lemma ParseRankingRankerArrayIndex_key:
  "int j \<le> int_max \<Longrightarrow> ParseRankingRankerArrayIndex (ranker_key j) = Some (int j)"
  using from_chars_signed_show [of int_min "int j" int_max]
  by (simp add: ParseRankingRankerArrayIndex_def StartsWith_def ranker_key_def show_int_def int_min_def)

lemma apply_loaded_rankers:
  assumes "\<forall>(k, v) \<in> set m. \<exists>i. ParseRankingRankerArrayIndex k = Some i"
  shows "apply_loaded m rankers c = (Inr (rankers @ map (\<lambda>(k, v). (the (ParseRankingRankerArrayIndex k), v)) m), c)"
  using assms by (induction m arbitrary: rankers) auto

text \<open>The list of the file in the order of the keys, sorted by the number in the key, is the list as it was written.\<close>

lemma sorted_rankers:
  assumes "mset ps = mset (zip (map int [0..<length names]) names)"
  shows "sort ps = zip (map int [0..<length names]) names"
  using assms
proof (rule properties_for_sort [OF sym])
  have "sorted_wrt (\<lambda>p q. fst p < (fst q :: int)) (zip (map int [0..<length names]) names)"
    by (simp add: sorted_wrt_iff_nth_less)
  then show "sorted (zip (map int [0..<length names]) names)"
    by (rule sorted_wrt_mono_rel [rotated]) (auto simp: less_eq_prod_def)
qed

text \<open>
  A YAML list of rankers keeps its order, although its elements are kept under the keys
  \<open>ranking.rankers.0\<close>, \<open>ranking.rankers.1\<close>, \<open>ranking.rankers.10\<close> in the order of strings: what is read
  back is the list of the file, each name trimmed and the blank ones left out.
\<close>

theorem yaml_rankers_in_order:
  assumes "load_file path = Inr (YamlMap [(YamlScalar ''ranking'',
      YamlMap [(YamlScalar ''rankers'', YamlSequence (map YamlScalar names))])])"
    and "names \<noteq> []" "int (length names) \<le> int_max" "\<forall>n \<in> set names. CHR '','' \<notin> set n"
  shows "\<exists>c'. ApplyFile load_file path c = (Inr (), c') \<and>
    GetRankingRankers c' = Inr (filter (\<lambda>n. n \<noteq> []) (map TrimWhitespace names))"
proof -
  let ?p = "''ranking.rankers''" and ?kept = "filter (\<lambda>n. n \<noteq> []) (map TrimWhitespace names)"
  let ?parse = "\<lambda>(k, v). (the (ParseRankingRankerArrayIndex k), v)"
  have key: "JoinKey ?p (show_nat j) = ranker_key j" for j by (simp add: JoinKey_def ranker_key_def kRankerPrefix_def)
  obtain m where m: "flatten_sequence 0 (map YamlScalar names) ?p [] = Inr m"
    "mset m = mset (map (\<lambda>(j, v). (ranker_key j, v)) (zip [0..<length names] names))"
    using flatten_scalars [of 0 ?p "[]" names] by (auto simp: key)
  have flat: "FlattenYamlNode (YamlMap [(YamlScalar ''ranking'',
      YamlMap [(YamlScalar ''rankers'', YamlSequence (map YamlScalar names))])]) [] [] = Inr m"
    using m(1) by (simp add: JoinKey_def)
  have keys: "\<exists>j < length names. fst p = ranker_key j" if "p \<in> set m" for p
    using that unfolding mset_eq_setD [OF m(2)] by (auto simp: in_set_zip) blast
  have parsed: "ParseRankingRankerArrayIndex (ranker_key j) = Some (int j)" if "j < length names" for j
    using that assms(3) by (simp add: ParseRankingRankerArrayIndex_key)
  have loaded: "apply_loaded m [] c = (Inr (map ?parse m), c)"
    using apply_loaded_rankers [of m "[]" c] keys parsed by fastforce
  have "mset (map ?parse m) = mset (map ?parse (map (\<lambda>(j, v). (ranker_key j, v)) (zip [0..<length names] names)))"
    unfolding mset_map [of ?parse] m(2) ..
  also have "map ?parse (map (\<lambda>(j, v). (ranker_key j, v)) (zip [0..<length names] names)) = zip (map int [0..<length names]) names"
    by (rule nth_equalityI) (simp_all add: parsed)
  finally have sorted: "sort (map ?parse m) = zip (map int [0..<length names]) names" by (rule sorted_rankers)
  have "m \<noteq> []" using m(2) assms(2) by auto
  moreover have "map (\<lambda>(i, name). TrimWhitespace name) (zip (map int [0..<length names]) names) = map TrimWhitespace names"
    by (rule nth_equalityI) simp_all
  ultimately have "ApplyFile load_file path c = GlobalConfig_Set kRankingRankers (JoinCommaSeparatedValues ?kept) c"
    using assms(1) flat loaded sorted by (simp add: ApplyFile_def)
  moreover have "canonical kRankingRankers v = Inr v" for v
    by (simp add: canonical_def EntryForField_def kConfigEntries_def config_entry_def CanonicalizeValue_def)
  moreover have "SplitCommaSeparatedValues (JoinCommaSeparatedValues ?kept) = ?kept"
    using assms(4) TrimWhitespace_set by (intro Split_Join) (fastforce simp: TrimWhitespace_idem)
  ultimately show ?thesis
    by (auto simp: GlobalConfig_Set_Inr GetRankingRankers_def GetString_def)
qed

lemma yaml_rankers_in_order_witness:
  "\<exists>c'. ApplyFile (\<lambda>_. Inr (YamlMap [(YamlScalar ''ranking'',
      YamlMap [(YamlScalar ''rankers'', YamlSequence (map YamlScalar ['' popularity'', [], ''heuristic'']))])])) [] GlobalConfig_empty = (Inr (), c') \<and>
    GetRankingRankers c' = Inr (filter (\<lambda>n. n \<noteq> []) (map TrimWhitespace ['' popularity'', [], ''heuristic'']))"
  by (rule yaml_rankers_in_order) (simp_all add: int_max_def)

section \<open>Passwords are not logged\<close>

definition password_fields :: "Field list" where
  "password_fields = [kElasticsearchPassword, kElasticsearchPasswordEnv, kRedisPassword, kRedisPasswordEnv]"

lemma sensitive_entries: "entry \<in> set kConfigEntries \<Longrightarrow> ce_field entry \<in> set password_fields \<longleftrightarrow> IsSensitiveConfigKey (ce_key entry)"
proof -
  have "list_all (\<lambda>e. (ce_field e \<in> set password_fields) = IsSensitiveConfigKey (ce_key e)) kConfigEntries"
    by code_simp
  then show "entry \<in> set kConfigEntries \<Longrightarrow> ?thesis" by (auto simp: list_all_iff)
qed

lemma resolved_alike:
  assumes "\<forall>f. f \<notin> set password_fields \<longrightarrow> gc_values c f = gc_values c' f"
    and "\<forall>f. gc_values c f = None \<longleftrightarrow> gc_values c' f = None" "set es \<subseteq> set kConfigEntries"
  defines "read \<equiv> \<lambda>c. mapE (\<lambda>entry. bindE (GetString c (ce_field entry)) (\<lambda>v. Inr (ce_key entry, v))) es"
  shows "case (read c, read c') of
      (Inl e, Inl e') \<Rightarrow> e = e'
    | (Inr vs, Inr vs') \<Rightarrow> map fst vs = map fst vs' \<and> map redacted vs = map redacted vs'
    | _ \<Rightarrow> False"
  using assms(3) unfolding read_def
proof (induction es)
  case (Cons entry es)
  then have entry: "entry \<in> set kConfigEntries" by simp
  consider (none) e where "GetString c (ce_field entry) = Inl e" "GetString c' (ce_field entry) = Inl e"
    | (some) v v' where "GetString c (ce_field entry) = Inr v" "GetString c' (ce_field entry) = Inr v'"
        "redacted (ce_key entry, v) = redacted (ce_key entry, v')"
    using assms(1,2) [rule_format, of "ce_field entry"] sensitive_entries [OF entry] Key_entry [OF entry]
    by (cases "ce_field entry \<in> set password_fields"; cases "gc_values c (ce_field entry)"; cases "gc_values c' (ce_field entry)")
      (auto simp: GetString_def redacted_def)
  then show ?case
    using Cons.IH Cons.prems by cases (auto split: sum.splits)
qed simp

text \<open>
  No password is logged: two configurations that differ only in the values of the passwords and of the
  names of the environment variables that hold them log the same fields, for the whole configuration and for
  every section of it.
\<close>

theorem passwords_not_logged:
  assumes "\<forall>f. f \<notin> set password_fields \<longrightarrow> gc_values c f = gc_values c' f"
    and "\<forall>f. gc_values c f = None \<longleftrightarrow> gc_values c' f = None"
  shows "LogResolvedConfig c = LogResolvedConfig c' \<and> LogResolvedConfigSection p c = LogResolvedConfigSection p c'"
proof -
  have section_of: "map redacted (filter (\<lambda>(key, v). BelongsToConfigSection key p) vs) =
      filter (\<lambda>(key, v). BelongsToConfigSection key p) (map redacted vs)" for vs
    by (induction vs) (auto simp: redacted_def)
  show ?thesis
    using resolved_alike [OF assms subset_refl]
    by (auto simp: LogResolvedConfig_def LogResolvedConfigSection_def GetResolvedValues_def section_of split: sum.splits)
qed

lemma passwords_not_logged_witness:
  "LogResolvedConfigSection ''redis'' (GlobalConfig_empty\<lparr>gc_values := (\<lambda>f. Some ''a'')\<rparr>) =
   LogResolvedConfigSection ''redis'' (GlobalConfig_empty\<lparr>gc_values := (\<lambda>f. Some ''a'')(kRedisPassword \<mapsto> ''secret'')\<rparr>)"
  by (rule passwords_not_logged [THEN conjunct2]) (simp_all add: password_fields_def)

end
