(* ===== verification/ServiceFactories.thy ===== *)
theory ServiceFactories
  imports ConfigPrecedence EndToEnd SimilarityStores ElasticsearchStores
begin

text \<open>
  How the services are put together from the configuration: the clients of Redis and Elasticsearch, the
  stores and the caches before them, and \<open>Create\<close> of every service. What a process finds around it is the
  record \<open>process\<close>; the gRPC stub for an address is an argument.
\<close>

section \<open>The process\<close>

record 'c process =
  pe_getenv :: "string \<Rightarrow> string option"
  pe_file_exists :: "string \<Rightarrow> bool"
  pe_cwd :: string
  pe_read_file :: "string \<Rightarrow> string option"
  pe_to_object :: "fields json_text"
  pe_to_value :: "Value json_text"
  pe_parse_profile :: "Profile json_to_message"
  pe_curl_init :: bool
  pe_easy_init :: "nat \<Rightarrow> 'c option"

definition workspace_path :: "'c process \<Rightarrow> string \<Rightarrow> string" where
  "workspace_path env p = ResolveWorkspaceRelativePath (pe_file_exists env) (pe_cwd env) p []"

text \<open>A step that throws but is never undefined.\<close>

definition thrown :: "'a throws \<Rightarrow> 'a outcome" where
  "thrown r = Some r"

section \<open>The client of Redis\<close>

record RedisConnectionOptions =
  rco_host :: string
  rco_port :: int
  rco_db :: int
  rco_user :: "string option"
  rco_password :: string
  rco_keep_alive :: bool
  rco_connect_timeout :: int
  rco_socket_timeout :: int

record RedisPoolOptions =
  rpo_size :: nat
  rpo_wait_timeout :: int
  rpo_connection_lifetime :: int
  rpo_connection_idle_time :: int

text \<open>Without a user the library's own default stays, here \<open>None\<close>.\<close>

definition BuildConnectionOptions :: "RedisConfig \<Rightarrow> RedisConnectionOptions" where
  "BuildConnectionOptions config =
     \<lparr>rco_host = rdc_host config, rco_port = rdc_port config, rco_db = rdc_db config,
      rco_user = (if rdc_user config \<noteq> [] then Some (rdc_user config) else None),
      rco_password = rdc_password config, rco_keep_alive = rdc_keep_alive config,
      rco_connect_timeout = rdc_connect_timeout config, rco_socket_timeout = rdc_socket_timeout config\<rparr>"

definition BuildConnectionPoolOptions :: "RedisConfig \<Rightarrow> RedisPoolOptions" where
  "BuildConnectionPoolOptions config =
     \<lparr>rpo_size = rdc_pool_size config, rpo_wait_timeout = rdc_pool_wait_timeout config,
      rpo_connection_lifetime = rdc_pool_connection_lifetime config,
      rpo_connection_idle_time = rdc_pool_connection_idle_time config\<rparr>"

definition RedisClient_Create :: "(string \<Rightarrow> string option) \<Rightarrow> GlobalConfig \<Rightarrow> RedisConfig throws" where
  "RedisClient_Create getenv c =
     bindE (GetRedisHost c) (\<lambda>host.
     bindE (GetRedisPort c) (\<lambda>port.
     bindE (GetRedisDb c) (\<lambda>db.
     bindE (GetRedisUsername c) (\<lambda>user.
     bindE (GetRedisPasswordEnv c) (\<lambda>password_env.
     bindE (GetRedisPassword c) (\<lambda>password.
     bindE (GetRedisConnectTimeoutMs c) (\<lambda>connect_timeout.
     bindE (GetRedisSocketTimeoutMs c) (\<lambda>socket_timeout.
     bindE (GetRedisPoolSize c) (\<lambda>pool_size.
     bindE (GetRedisPoolWaitTimeoutMs c) (\<lambda>pool_wait_timeout.
     bindE (GetRedisRetryMaxAttempts c) (\<lambda>max_attempts.
     bindE (GetRedisRetryDelayMs c) (\<lambda>delay.
     RedisClient_new (RedisConfig_new
       \<lparr>rdc_host := host, rdc_port := int (unat port), rdc_db := db, rdc_user := user,
        rdc_password := GetEnvOrDefault getenv password_env password,
        rdc_connect_timeout := connect_timeout, rdc_socket_timeout := socket_timeout,
        rdc_pool_size := nat pool_size, rdc_pool_wait_timeout := pool_wait_timeout,
        rdc_retry := \<lparr>rrc_max_attempts = max_attempts, rrc_delay = delay\<rparr>\<rparr>)))))))))))))"

section \<open>The client of Elasticsearch\<close>

definition configured_http :: "GlobalConfig \<Rightarrow> CurlConfig \<Rightarrow> CurlConfig throws" where
  "configured_http c http =
     bindE (GetElasticsearchHttpClientPoolSize c) (\<lambda>pool_size.
     bindE (GetElasticsearchHttpClientAcquireTimeoutMs c) (\<lambda>acquire_timeout.
     bindE (GetElasticsearchHttpClientRequestTimeoutMs c) (\<lambda>request_timeout.
     bindE (GetElasticsearchHttpClientConnectTimeoutMs c) (\<lambda>connect_timeout.
     bindE (GetElasticsearchHttpClientAcquireRetryMaxAttempts c) (\<lambda>acquire_attempts.
     bindE (GetElasticsearchHttpClientAcquireRetryDelayMs c) (\<lambda>acquire_delay.
     bindE (GetElasticsearchHttpClientConnectRetryMaxAttempts c) (\<lambda>connect_attempts.
     bindE (GetElasticsearchHttpClientConnectRetryDelayMs c) (\<lambda>connect_delay.
     bindE (GetElasticsearchHttpClientRequestRetryMaxAttempts c) (\<lambda>request_attempts.
     bindE (GetElasticsearchHttpClientRequestRetryDelayMs c) (\<lambda>request_delay.
     bindE (GetElasticsearchHttpClientFollowRedirects c) (\<lambda>follow_redirects.
     bindE (GetElasticsearchHttpClientVerifySsl c) (\<lambda>verify_ssl.
     bindE (GetElasticsearchHttpClientCaCertPath c) (\<lambda>ca_cert_path.
     Inr (http
       \<lparr>cc_pool_size := nat pool_size, cc_acquire_timeout := acquire_timeout,
        cc_request_timeout := request_timeout, cc_connect_timeout := connect_timeout,
        cc_acquire_retry := \<lparr>rc_max_attempts = acquire_attempts, rc_delay = acquire_delay\<rparr>,
        cc_connect_retry := \<lparr>rc_max_attempts = connect_attempts, rc_delay = connect_delay\<rparr>,
        cc_request_retry := \<lparr>rc_max_attempts = request_attempts, rc_delay = request_delay\<rparr>,
        cc_follow_redirects := follow_redirects, cc_verify_ssl := verify_ssl,
        cc_ca_cert_path := ca_cert_path\<rparr>))))))))))))))"

definition check_configured_timeouts :: "int \<Rightarrow> CurlConfig \<Rightarrow> unit throws" where
  "check_configured_timeouts budget http =
     bindE GetElasticsearchHttpClientAcquireTimeoutMsKey (\<lambda>acquire_key.
     bindE GetElasticsearchHttpClientRequestTimeoutMsKey (\<lambda>request_key.
     bindE GetElasticsearchHttpClientConnectTimeoutMsKey (\<lambda>connect_key.
     bindE GetElasticsearchRequestTimeoutMsKey (\<lambda>budget_key.
     bindE (ValidateTimeoutNotGreater acquire_key (cc_acquire_timeout http) budget_key budget) (\<lambda>_.
     bindE (ValidateTimeoutNotGreater request_key (cc_request_timeout http) budget_key budget) (\<lambda>_.
     bindE (ValidateTimeoutNotGreater connect_key (cc_connect_timeout http) request_key (cc_request_timeout http)) (\<lambda>_.
     ValidateTimeoutSumNotGreater acquire_key (cc_acquire_timeout http) request_key (cc_request_timeout http)
       budget_key budget)))))))"

definition ElasticsearchClient_Create :: "'c process \<Rightarrow> GlobalConfig \<Rightarrow> ('c CurlHttpClient \<times> ElasticsearchConfig) throws" where
  "ElasticsearchClient_Create env c =
     bindE (GetElasticsearchBaseUrl c) (\<lambda>base_url.
     bindE (GetElasticsearchUsername c) (\<lambda>username.
     bindE (GetElasticsearchPasswordEnv c) (\<lambda>password_env.
     bindE (GetElasticsearchPassword c) (\<lambda>password.
     bindE (GetElasticsearchRequestTimeoutMs c) (\<lambda>budget.
     bindE (configured_http c (ec_http_config ElasticsearchConfig_default)) (\<lambda>http.
     bindE (check_configured_timeouts budget http) (\<lambda>_.
     ElasticsearchClient_create (pe_curl_init env) (pe_easy_init env)
       (ElasticsearchConfig_default
          \<lparr>ec_base_url := base_url, ec_username := username,
           ec_password := GetEnvOrDefault (pe_getenv env) password_env password,
           ec_request_timeout := Some budget, ec_http_config := http\<rparr>))))))))"

section \<open>Stores of documents\<close>

datatype (dead 'k, dead 'v, dead 'c) document_store =
    InFile "'k \<rightharpoonup> 'v"
  | InElasticsearch "'c CurlHttpClient" ElasticsearchStore
  | Cached "('k, 'v) LruCache" "('k, 'v, 'c) document_store"

type_synonym 'c item_document_store = "(uint64, ItemIndexEntry, 'c) document_store"
type_synonym 'c profile_document_store = "(int, Profile, 'c) document_store"

definition Ranking_WrapWithLocalCacheIfConfigured :: "GlobalConfig \<Rightarrow> 'c item_document_store \<Rightarrow> 'c item_document_store throws" where
  "Ranking_WrapWithLocalCacheIfConfigured c item_index_store =
     bindE (GetLocalCacheCapacity c) (\<lambda>cap.
     bindE (GetLocalCacheTtlSeconds c) (\<lambda>ttl_seconds.
       if cap \<le> 0 then bindE GetLocalCacheCapacityKey (\<lambda>_. Inr item_index_store)
       else if ttl_seconds \<le> 0 then bindE GetLocalCacheTtlSecondsKey (\<lambda>_. Inr item_index_store)
       else bindE (CachingItemIndexStore_new False (nat cap) (1000 * ttl_seconds)) (\<lambda>cache.
              Inr (Cached cache item_index_store))))"

definition CreateUncachedItemIndexStore :: "'c process \<Rightarrow> GlobalConfig \<Rightarrow> 'c item_document_store outcome" where
  "CreateUncachedItemIndexStore env c =
     andThen (thrown (GetItemIndexStoreType c)) (\<lambda>store_type.
       if store_type = ''local'' then
         andThen (thrown (GetItemIndexStoreDataPath c)) (\<lambda>p.
         andThen (LocalFileItemIndexStore_new (pe_to_object env) (pe_to_value env) (pe_read_file env) (workspace_path env p)) (\<lambda>held.
         return (InFile held)))
       else if store_type = ''elasticsearch'' then
         thrown
           (bindE (GetElasticsearchBaseUrl c) (\<lambda>_.
            bindE (GetElasticsearchIndex c) (\<lambda>_.
            bindE (GetElasticsearchRequestTimeoutMs c) (\<lambda>_.
            bindE (ElasticsearchClient_Create env c) (\<lambda>(http, client).
            bindE (GetElasticsearchIndex c) (\<lambda>index_name.
            bindE (ElasticsearchItemIndexStore_new client index_name) (\<lambda>store.
            Inr (InElasticsearch http store))))))))
       else thrown (Inl (InvalidArgument (''Unsupported item index store type: '' @ store_type @ ''.''))))"

definition CreateItemIndexStore :: "'c process \<Rightarrow> GlobalConfig \<Rightarrow> 'c item_document_store outcome" where
  "CreateItemIndexStore env c =
     andThen (CreateUncachedItemIndexStore env c) (\<lambda>store. thrown (Ranking_WrapWithLocalCacheIfConfigured c store))"

definition Profile_WrapWithLocalCacheIfConfigured :: "GlobalConfig \<Rightarrow> 'c profile_document_store \<Rightarrow> 'c profile_document_store throws" where
  "Profile_WrapWithLocalCacheIfConfigured c profile_store =
     bindE (GetLocalCacheCapacity c) (\<lambda>cap.
     bindE (GetLocalCacheTtlSeconds c) (\<lambda>ttl_seconds.
       if cap \<le> 0 then bindE GetLocalCacheCapacityKey (\<lambda>_. Inr profile_store)
       else if ttl_seconds \<le> 0 then bindE GetLocalCacheTtlSecondsKey (\<lambda>_. Inr profile_store)
       else bindE (CachingProfileStore_new False (nat cap) (1000 * ttl_seconds)) (\<lambda>cache.
              Inr (Cached cache profile_store))))"

text \<open>The values read for the log before the client is created; a read can throw.\<close>

definition read_logged_client_settings :: "GlobalConfig \<Rightarrow> unit throws" where
  "read_logged_client_settings c =
     bindE (GetElasticsearchBaseUrl c) (\<lambda>_.
     bindE (GetElasticsearchIndex c) (\<lambda>_.
     bindE (GetElasticsearchRequestTimeoutMs c) (\<lambda>_.
     bindE (configured_http c CurlConfig_default) (\<lambda>_. Inr ()))))"

definition CreateUncachedProfileStore :: "'c process \<Rightarrow> GlobalConfig \<Rightarrow> string \<Rightarrow> 'c profile_document_store outcome" where
  "CreateUncachedProfileStore env c profile_store_type =
     (if profile_store_type = ''local'' then
        andThen (thrown (GetProfileStoreDataPath c)) (\<lambda>p.
        andThen (thrown (LocalFileProfileStore_new (pe_parse_profile env) (pe_read_file env) (workspace_path env p))) (\<lambda>profiles.
        return (InFile profiles)))
      else if profile_store_type = ''elasticsearch'' then
        thrown
          (bindE (read_logged_client_settings c) (\<lambda>_.
           bindE (ElasticsearchClient_Create env c) (\<lambda>(http, client).
           bindE (GetElasticsearchIndex c) (\<lambda>index_name.
           bindE (ElasticsearchProfileStore_new client index_name) (\<lambda>store.
           Inr (InElasticsearch http store))))))
      else thrown (Inl (InvalidArgument (''Unsupported profile store type: '' @ profile_store_type))))"

definition CreateProfileStore :: "'c process \<Rightarrow> GlobalConfig \<Rightarrow> string \<Rightarrow> 'c profile_document_store outcome" where
  "CreateProfileStore env c profile_store_type =
     andThen (CreateUncachedProfileStore env c profile_store_type) (\<lambda>store.
       thrown (Profile_WrapWithLocalCacheIfConfigured c store))"

section \<open>Stores of neighbours\<close>

datatype (dead 'n) neighbor_store = NeighborsInRedis RedisSimilarityStore | NeighborsInFile "uint64 \<rightharpoonup> 'n list"

definition CreateItemSimilarityStore :: "'c process \<Rightarrow> GlobalConfig \<Rightarrow> ItemNeighbor neighbor_store outcome" where
  "CreateItemSimilarityStore env c =
     andThen (thrown (GetSimilarityStoreType c)) (\<lambda>store_type.
       if store_type = ''redis'' then
         thrown
           (bindE (RedisClient_Create (pe_getenv env) c) (\<lambda>client.
            bindE (GetRedisKeyPrefix c) (\<lambda>key_prefix.
            bindE (RedisItemSimilarityStore_new client key_prefix) (\<lambda>store.
            Inr (NeighborsInRedis store)))))
       else if store_type = ''local'' then
         andThen (thrown (GetSimilarityDataPath c)) (\<lambda>p.
           let data_path = workspace_path env p in
           if data_path = []
           then thrown (Inl (InvalidArgument ''similarity_store.data_path must not be empty for local item_cf store''))
           else
             andThen (LocalFileItemSimilarityStore_new (pe_to_object env) (pe_read_file env) data_path) (\<lambda>neighbors.
             return (NeighborsInFile neighbors)))
       else thrown (Inl (InvalidArgument (''Unsupported item similarity store type: '' @ store_type))))"

definition CreateUserSimilarityStore :: "'c process \<Rightarrow> GlobalConfig \<Rightarrow> UserNeighbor neighbor_store outcome" where
  "CreateUserSimilarityStore env c =
     andThen (thrown (GetSimilarityStoreType c)) (\<lambda>store_type.
       if store_type = ''redis'' then
         thrown
           (bindE (RedisClient_Create (pe_getenv env) c) (\<lambda>client.
            bindE (GetRedisKeyPrefix c) (\<lambda>key_prefix.
            bindE (RedisUserSimilarityStore_new client key_prefix) (\<lambda>store.
            Inr (NeighborsInRedis store)))))
       else if store_type = ''local'' then
         andThen (thrown (GetSimilarityDataPath c)) (\<lambda>p.
           let data_path = workspace_path env p in
           if data_path = []
           then thrown (Inl (InvalidArgument ''similarity_store.data_path must not be empty for local user_cf store''))
           else
             andThen (LocalFileUserSimilarityStore_new (pe_to_object env) (pe_read_file env) data_path) (\<lambda>neighbors.
             return (NeighborsInFile neighbors)))
       else thrown (Inl (InvalidArgument (''Unsupported user similarity store type: '' @ store_type))))"

text \<open>What the retrievers ask of a store; the commands of Redis are arguments.\<close>

fun item_neighbors_in :: "pipeline_command \<Rightarrow> ItemNeighbor neighbor_store \<Rightarrow> item_similarity_store" where
  "item_neighbors_in exec (NeighborsInRedis store) = Redis_FindNeighborsByItemIds store exec"
| "item_neighbors_in exec (NeighborsInFile m) = FindNeighborsByItemIds (LocalFile_FindNeighborsByItemId m)"

fun user_neighbors_in :: "zrevrange_command \<Rightarrow> UserNeighbor neighbor_store \<Rightarrow> user_similarity_store" where
  "user_neighbors_in zrevrange (NeighborsInRedis store) = Redis_FindNeighborsByUserId store zrevrange"
| "user_neighbors_in zrevrange (NeighborsInFile m) = LocalFile_FindNeighborsByUserId m"

section \<open>The services\<close>

definition RetrieverItemCf_Create :: "'c process \<Rightarrow> pipeline_command \<Rightarrow> GlobalConfig \<Rightarrow> RetrieverItemCf outcome" where
  "RetrieverItemCf_Create env exec c =
     andThen (thrown (GetRetrieverMaxTriggerSeedCount c)) (\<lambda>max_trigger_seed_count.
     andThen (thrown (GetRedisCommandBatchSize c)) (\<lambda>redis_command_batch_size.
     andThen (thrown (GetRetrieverItemCfScoreMultiplier c)) (\<lambda>score_multiplier.
     andThen (CreateItemSimilarityStore env c) (\<lambda>store.
     thrown (RetrieverItemCf_new (Some (item_neighbors_in exec store))
       (ItemCf_default_Options
          \<lparr>ico_max_trigger_seed_count := max_trigger_seed_count,
           ico_redis_command_batch_size := redis_command_batch_size,
           ico_score_multiplier := score_multiplier\<rparr>))))))"

definition RetrieverUserCf_Create ::
  "'c process \<Rightarrow> zrevrange_command \<Rightarrow> (string \<Rightarrow> batch_profiles_stub) \<Rightarrow> GlobalConfig \<Rightarrow> RetrieverUserCf outcome" where
  "RetrieverUserCf_Create env zrevrange stub_at c =
     andThen (thrown (GetUserCfTriggerSeedUserCount c)) (\<lambda>trigger_seed_user_count.
     andThen (thrown (GetRetrieverUserCfScoreMultiplier c)) (\<lambda>score_multiplier.
     andThen (CreateUserSimilarityStore env c) (\<lambda>store.
     andThen (thrown (GetProfileServiceAddress c)) (\<lambda>address.
     thrown (RetrieverUserCf_new (Some (user_neighbors_in zrevrange store)) (Some (stub_at address))
       (UserCf_default_Options
          \<lparr>uco_trigger_seed_user_count := trigger_seed_user_count,
           uco_score_multiplier := score_multiplier\<rparr>))))))"

definition RetrievalOrchestrator_configured :: "(string \<Rightarrow> retriever_stub) \<Rightarrow> GlobalConfig \<Rightarrow> RetrievalOrchestrator throws" where
  "RetrievalOrchestrator_configured stub_at c =
     bindE (GetRetrieverItemCfAddress c) (\<lambda>item_cf_address.
     bindE (GetRetrieverUserCfAddress c) (\<lambda>user_cf_address.
     bindE (GetRetrievalRecallCandidateExpandRatio c) (\<lambda>ratio.
     RetrievalOrchestrator_Create (stub_at item_cf_address) (stub_at user_cf_address) ratio)))"

definition ProfileService_Create ::
  "'c process \<Rightarrow> ('c profile_document_store \<Rightarrow> 's profile_store) \<Rightarrow> GlobalConfig \<Rightarrow> 's profile_store outcome" where
  "ProfileService_Create env as_store c =
     andThen (thrown (GetProfileStoreType c)) (\<lambda>profile_store_type.
     andThen (CreateProfileStore env c profile_store_type) (\<lambda>store.
     thrown (ProfileService_new (Some (as_store store)))))"

definition RankingServiceImpl_Create ::
  "'c process \<Rightarrow> (float64 \<Rightarrow> float64) \<Rightarrow> ('c item_document_store \<Rightarrow> item_index_store) \<Rightarrow> GlobalConfig \<Rightarrow>
     RankingServiceImpl outcome" where
  "RankingServiceImpl_Create env log1p as_store c =
     andThen (CreateItemIndexStore env c) (\<lambda>store.
     andThen (thrown (GetRankingRankers c)) (\<lambda>ranker_names.
     andThen (thrown (CreateRankers log1p ranker_names (Some (as_store store)))) (\<lambda>rankers.
     andThen (thrown (GetRankingDefaultRanker c)) (\<lambda>default_ranker_name.
     thrown (RankingServiceImpl_new (Some (as_store store)) rankers default_ranker_name)))))"

definition GatewayService_Create ::
  "(string \<Rightarrow> profile_stub) \<Rightarrow> (string \<Rightarrow> retrieval_stub) \<Rightarrow> (string \<Rightarrow> ranking_stub) \<Rightarrow> GlobalConfig \<Rightarrow>
     GatewayService throws" where
  "GatewayService_Create profile_at retrieval_at ranking_at c =
     bindE (GetProfileServiceAddress c) (\<lambda>profile_service_address.
     bindE (GetRetrievalServiceAddress c) (\<lambda>retrieval_service_address.
     bindE (GetRankingServiceAddress c) (\<lambda>ranking_service_address.
     GatewayService_new (Some (profile_at profile_service_address)) (Some (retrieval_at retrieval_service_address))
       (Some (ranking_at ranking_service_address)))))"


section \<open>What is created\<close>

lemma andThen_returns: "andThen m f = Some (Inr y) \<longleftrightarrow> (\<exists>x. m = Some (Inr x) \<and> f x = Some (Inr y))"
  by (cases m; cases "the m") auto

lemma Ranking_Wrap_Inr:
  "Ranking_WrapWithLocalCacheIfConfigured c uncached = Inr store \<longleftrightarrow>
     (\<exists>cap seconds. GetLocalCacheCapacity c = Inr cap \<and> GetLocalCacheTtlSeconds c = Inr seconds \<and>
        store = (if 0 < cap \<and> 0 < seconds then Cached (LruCache_new (nat cap) (1000 * seconds)) uncached else uncached))"
proof -
  have "GetLocalCacheCapacityKey = Inr ''local_cache.capacity''" "GetLocalCacheTtlSecondsKey = Inr ''local_cache.ttl_seconds''"
    by code_simp+
  then show ?thesis
    by (cases "GetLocalCacheCapacity c"; cases "GetLocalCacheTtlSeconds c")
      (auto simp: Ranking_WrapWithLocalCacheIfConfigured_def CachingItemIndexStore_new_def)
qed

lemma CreateRankers_Inr:
  "CreateRankers log1p names (Some store) = Inr rankers \<longleftrightarrow>
     names \<noteq> [] \<and> set names \<subseteq> {HeuristicRanker_kName} \<and> rankers = map (\<lambda>_. Some (heuristic_ranker log1p store)) names"
proof -
  have "mapE (\<lambda>n. bindE (CreateRanker log1p n (Some store)) (\<lambda>r. Inr (Some r))) names = Inr rankers \<longleftrightarrow>
      set names \<subseteq> {HeuristicRanker_kName} \<and> rankers = map (\<lambda>_. Some (heuristic_ranker log1p store)) names" for names rankers
    by (induction names arbitrary: rankers) (auto simp: CreateRanker_def HeuristicRanker_new_def)
  then show ?thesis by (auto simp: CreateRankers_def)
qed

text \<open>
  C30. A ranking service comes out of a configuration exactly when its store can be created, the rankers
  configured are the heuristic one and nothing else, once, and it is the default; then it answers from that
  store, behind an empty cache of the configured size and time to live when both are positive, and from
  the store itself otherwise.
\<close>

theorem ranking_service_configured:
  "RankingServiceImpl_Create env log1p as_store c = Some (Inr service) \<longleftrightarrow>
     (\<exists>uncached cap seconds store.
        CreateUncachedItemIndexStore env c = Some (Inr uncached) \<and>
        GetLocalCacheCapacity c = Inr cap \<and> GetLocalCacheTtlSeconds c = Inr seconds \<and>
        store = as_store (if 0 < cap \<and> 0 < seconds then Cached (LruCache_new (nat cap) (1000 * seconds)) uncached else uncached) \<and>
        GetRankingRankers c = Inr [HeuristicRanker_kName] \<and> GetRankingDefaultRanker c = Inr HeuristicRanker_kName \<and>
        service = \<lparr>rsv_item_index_store = store,
                   rsv_rankers = [HeuristicRanker_kName \<mapsto> heuristic_ranker log1p store],
                   rsv_default_ranker_name = HeuristicRanker_kName\<rparr>)"
proof -
  have name: "rk_name (heuristic_ranker log1p store) = HeuristicRanker_kName" "HeuristicRanker_kName \<noteq> []" for store
    by (simp_all add: heuristic_ranker_def HeuristicRanker_kName_def)
  have new: "RankingServiceImpl_new (Some store) (map (\<lambda>_. Some (heuristic_ranker log1p store)) names) default_name = Inr service \<longleftrightarrow>
      names = [HeuristicRanker_kName] \<and> default_name = HeuristicRanker_kName \<and>
      service = \<lparr>rsv_item_index_store = store, rsv_rankers = [HeuristicRanker_kName \<mapsto> heuristic_ranker log1p store],
                 rsv_default_ranker_name = HeuristicRanker_kName\<rparr>"
    if "names \<noteq> []" "set names \<subseteq> {HeuristicRanker_kName}" for store names default_name
  by (cases names; cases "tl names") (use that name in \<open>auto simp: RankingServiceImpl_new_def RegisterRankers_def RegisterRanker_def RegisterDefaultRanker_def FindRanker_def\<close>)
  have service: "RankingServiceImpl_Create env log1p as_store c = Some (Inr service) \<longleftrightarrow>
      (\<exists>store. CreateItemIndexStore env c = Some (Inr store) \<and> GetRankingRankers c = Inr [HeuristicRanker_kName] \<and>
        GetRankingDefaultRanker c = Inr HeuristicRanker_kName \<and>
        service = \<lparr>rsv_item_index_store = as_store store,
                   rsv_rankers = [HeuristicRanker_kName \<mapsto> heuristic_ranker log1p (as_store store)],
                   rsv_default_ranker_name = HeuristicRanker_kName\<rparr>)"
    unfolding RankingServiceImpl_Create_def thrown_def andThen_returns option.inject CreateRankers_Inr
    using new new [of "[HeuristicRanker_kName]"] by (intro ex_cong1) auto
  have "CreateItemIndexStore env c = Some (Inr store) \<longleftrightarrow>
      (\<exists>uncached cap seconds. CreateUncachedItemIndexStore env c = Some (Inr uncached) \<and>
        GetLocalCacheCapacity c = Inr cap \<and> GetLocalCacheTtlSeconds c = Inr seconds \<and>
        store = (if 0 < cap \<and> 0 < seconds then Cached (LruCache_new (nat cap) (1000 * seconds)) uncached else uncached))" for store
    by (simp only: CreateItemIndexStore_def thrown_def andThen_returns option.inject Ranking_Wrap_Inr) blast
  with service show ?thesis by (simp only:) blast
qed

section \<open>A retriever from a configuration and a file\<close>

lemma CreateItemSimilarityStore_local:
  assumes "GetSimilarityStoreType c = Inr ''local''" "GetSimilarityDataPath c = Inr p" "workspace_path env p = path" "path \<noteq> []"
    and "pe_read_file env path = Some content"
    and "list_all2 (describes_row (pe_to_object env) ''item_id'') (filter (\<lambda>l. l \<noteq> []) (getlines content)) rows"
  shows "\<exists>held. CreateItemSimilarityStore env c = return (NeighborsInFile held) \<and>
    item_neighbors_in exec (NeighborsInFile held) = (\<lambda>ids k. mapE (\<lambda>i. Inr (ToItemNeighbors (first_neighbors rows i k))) ids)"
proof -
  let ?held = "map_of (map (\<lambda>r. (lsr_entity_id r, ToItemNeighbors (lsr_neighbors r))) (rev rows))"
  have "LocalFileItemSimilarityStore_new (pe_to_object env) (pe_read_file env) path = return ?held"
    using assms(5) load_similarity_lines_describes [OF assms(6), of ToItemNeighbors path 0 Map.empty]
    by (simp add: LocalFileItemSimilarityStore_new_def)
  then have "CreateItemSimilarityStore env c = return (NeighborsInFile ?held)"
    using assms(1-4) by (simp add: CreateItemSimilarityStore_def thrown_def)
  moreover have "LocalFile_FindNeighborsByItemId ?held i k = Inr (ToItemNeighbors (first_neighbors rows i k))" for i k
    unfolding LocalFile_FindNeighborsByItemId_def map_of_rev_find ToItemNeighbors_def first_neighbors_def
    by (simp add: take_map min_def split: option.split)
  ultimately show ?thesis by (intro exI [of _ ?held]) (simp add: FindNeighborsByItemIds_def [abs_def])
qed

text \<open>
  C31. From the configuration and the similarity file to the answer: with the store type \<open>local\<close>, a file whose
  lines describe rows and positive settings, the item-based retriever is created, and it answers a valid
  request, whose profile has seeds, with the best of the items scored over the first neighbours, in the last
  row of each seed in the file, that the user has not consumed.
\<close>

theorem item_cf_from_file:
  assumes "GetSimilarityStoreType c = Inr ''local''" "GetSimilarityDataPath c = Inr p" "workspace_path env p = path" "path \<noteq> []"
    and "pe_read_file env path = Some content"
    and "list_all2 (describes_row (pe_to_object env) ''item_id'') (filter (\<lambda>l. l \<noteq> []) (getlines content)) rows"
    and "GetRetrieverMaxTriggerSeedCount c = Inr max_seeds" "GetRedisCommandBatchSize c = Inr batch_size"
    and "GetRetrieverItemCfScoreMultiplier c = Inr multiplier"
    and "0 < sint (rvq_user_id request)" "rvq_profile request = Some profile" "CollectTriggerSeeds profile \<noteq> []"
    and "k = effective_max 10 request"
  shows "\<exists>this pool. RetrieverItemCf_Create env exec c = Some (Inr this) \<and> pool_keyed pool \<and>
    map_of pool = (\<lambda>i. pool_entry i (edges_to i (all_edges (positive_ids (consumed_items profile)) (ItemCf_seeds this profile)
      (map (\<lambda>s. ToItemNeighbors (first_neighbors rows (ts_entity_id s) k)) (ItemCf_seeds this profile))))) \<and>
    (let best = take (nat k) (SortCandidates pool)
     in ItemCf_Retrieve this request =
       (StatusOK, \<lparr>rvs_status = RETRIEVER_SUCCESS, rvs_msg = [], rvs_candidate_count = int (length best),
          rvs_candidates = map (ItemCf_candidate multiplier) best\<rparr>))"
proof -
  obtain held where held: "CreateItemSimilarityStore env c = return (NeighborsInFile held)"
    "item_neighbors_in exec (NeighborsInFile held) = (\<lambda>ids k. mapE (\<lambda>i. Inr (ToItemNeighbors (first_neighbors rows i k))) ids)"
    using CreateItemSimilarityStore_local [OF assms(1-6)] by blast
  let ?options = "ItemCf_default_Options\<lparr>ico_max_trigger_seed_count := max_seeds, ico_redis_command_batch_size := batch_size,
    ico_score_multiplier := multiplier\<rparr>"
  have positive: "0 < max_seeds" "0 < batch_size" "\<not> fle multiplier (Fin 0)"
    using assms(7-9) by (auto simp: GetRetrieverMaxTriggerSeedCount_def GetRedisCommandBatchSize_def GetPositiveInt_def
        GetRetrieverItemCfScoreMultiplier_def GetPositiveDouble_def split: if_splits)
  then obtain this where new: "RetrieverItemCf_new (Some (\<lambda>ids k. mapE (\<lambda>i. Inr (ToItemNeighbors (first_neighbors rows i k))) ids)) ?options = Inr this"
    by (simp add: RetrieverItemCf_new_def ItemCf_default_Options_def)
  then have created: "RetrieverItemCf_Create env exec c = Some (Inr this)"
    using assms(7-9) held by (simp add: RetrieverItemCf_Create_def thrown_def)
  have seeds: "ItemCf_seeds this profile \<noteq> []"
    using RetrieverItemCf_new_Inr(3) [OF new] assms(12) length_sort_by [of seed_higher_first "CollectTriggerSeeds profile"]
    by (auto simp: ItemCf_seeds_def SelectTopTriggerSeeds_def)
  have looked_up: "mapE (\<lambda>s. Inr (ToItemNeighbors (first_neighbors rows (ts_entity_id s) k))) seeds =
      Inr (map (\<lambda>s. ToItemNeighbors (first_neighbors rows (ts_entity_id s) k)) seeds)" for seeds
    by (rule mapE_total) simp
  have k: "k = effective_max (ico_default_max_candidate_count ?options) request" using assms(13) by (simp add: ItemCf_default_Options_def)
  from ItemCf_Retrieve_closed [OF new assms(10,11) refl seeds k] created show ?thesis
    by (simp add: looked_up Let_def) blast
qed

text \<open>A configuration with one file, of the row of entity 7.\<close>

definition demo_process :: "unit process" where
  "demo_process =
     \<lparr>pe_getenv = (\<lambda>_. None), pe_file_exists = (\<lambda>_. True), pe_cwd = ''/'', pe_read_file = (\<lambda>_. Some ''x''),
      pe_to_object = (\<lambda>_. Inr demo_row_fields), pe_to_value = (\<lambda>_. Inl []), pe_parse_profile = (\<lambda>_ m. (None, m)),
      pe_curl_init = True, pe_easy_init = (\<lambda>_. None)\<rparr>"

definition demo_config :: GlobalConfig where
  "demo_config = GlobalConfig_empty
     \<lparr>gc_values := [kSimilarityStoreType \<mapsto> ''local'', kSimilarityDataPath \<mapsto> ''/x'',
        kRetrieverMaxTriggerSeedCount \<mapsto> show_int 24, kRedisCommandBatchSize \<mapsto> show_int 8,
        kRetrieverItemCfScoreMultiplier \<mapsto> ''1.0'']\<rparr>"

lemma demo_config_reads:
  "GetSimilarityStoreType demo_config = Inr ''local''" "GetSimilarityDataPath demo_config = Inr ''/x''"
  "GetRetrieverMaxTriggerSeedCount demo_config = Inr 24" "GetRedisCommandBatchSize demo_config = Inr 8"
  "GetRetrieverItemCfScoreMultiplier demo_config = Inr (Fin 1)"
proof -
  obtain k1 k2 k3 where keys: "Key kRetrieverMaxTriggerSeedCount = Inr k1" "Key kRedisCommandBatchSize = Inr k2"
    "Key kRetrieverItemCfScoreMultiplier = Inr k3"
    using EntryForField_total by (metis Key_def bindE.simps(2))
  have range: "int_min \<le> 24" "24 \<le> int_max" "int_min \<le> 8" "8 \<le> int_max" by (simp_all add: int_min_def int_max_def)
  show "GetSimilarityStoreType demo_config = Inr ''local''" "GetSimilarityDataPath demo_config = Inr ''/x''"
    by (simp_all add: GetSimilarityStoreType_def GetSimilarityDataPath_def GetString_def demo_config_def)
  show "GetRetrieverMaxTriggerSeedCount demo_config = Inr 24" "GetRedisCommandBatchSize demo_config = Inr 8"
    using range
    by (simp_all add: GetRetrieverMaxTriggerSeedCount_def GetRedisCommandBatchSize_def GetPositiveInt_def GetNonNegativeInt_def
        GetInt_def GetString_def demo_config_def keys)
  show "GetRetrieverItemCfScoreMultiplier demo_config = Inr (Fin 1)"
    by (simp add: GetRetrieverItemCfScoreMultiplier_def GetPositiveDouble_def GetDouble_def GetString_def demo_config_def keys
        ParseDoubleValue_def stod_one fle_def)
qed

lemma item_cf_from_file_witness:
  "\<exists>this. RetrieverItemCf_Create demo_process (\<lambda>_ _ _ _. Inl (IoError [])) demo_config = Some (Inr this) \<and>
     fst (ItemCf_Retrieve this demo_request) = StatusOK"
proof -
  have "filter (\<lambda>l. l \<noteq> []) (getlines ''x'') = [''x'']"
    by (simp add: getlines_last newline_def)
  then have lines: "list_all2 (describes_row (pe_to_object demo_process) ''item_id'') (filter (\<lambda>l. l \<noteq> []) (getlines ''x'')) [demo_row]"
    by (simp add: demo_row_described demo_process_def)
  have path: "workspace_path demo_process ''/x'' = ''/x''"
    by (simp add: workspace_path_def ResolveWorkspaceRelativePath_def is_absolute_def is_slash_def)
  have seeds: "CollectTriggerSeeds demo_profile \<noteq> []" using demo_seeds by (auto simp: ItemCf_seeds_def SelectTopTriggerSeeds_def)
  have request: "0 < sint (rvq_user_id demo_request)" "rvq_profile demo_request = Some demo_profile"
    and content: "pe_read_file demo_process ''/x'' = Some ''x''" "''/x'' \<noteq> []"
    by (simp_all add: demo_request_def demo_process_def)
  from item_cf_from_file [OF demo_config_reads(1,2) path content(2,1) lines demo_config_reads(3-5) request seeds refl]
  show ?thesis by (metis (no_types, lifting) fst_conv)
qed

end
