(* ===== verification/StructuredLogger.thy ===== *)
theory StructuredLogger
  imports Messages Prelude RuntimeUtilities
begin

text \<open>
  The structured logger, src/src/utilities/logger/logger.cpp and logger_registry.cpp: levels, the builder of
  a JSON line, the calls of a logger, the interceptor of gRPC calls and the registry of loggers. Writing a
  line is the list of lines written; the clock, the calendar of the C library and the JSON printer of
  protobuf are arguments.
\<close>

section \<open>Levels\<close>

datatype LogLevel = kDebug | kInfo | kWarning | kError

fun LogLevel_int :: "LogLevel \<Rightarrow> int" where
  "LogLevel_int kDebug = 0"
| "LogLevel_int kInfo = 1"
| "LogLevel_int kWarning = 2"
| "LogLevel_int kError = 3"

definition ParseLogLevel :: "string \<Rightarrow> LogLevel throws" where
  "ParseLogLevel v =
     (if v = ''debug'' \<or> v = ''DEBUG'' \<or> v = ''Debug'' then Inr kDebug
      else if v = ''info'' \<or> v = ''INFO'' \<or> v = ''Info'' then Inr kInfo
      else if v = ''warning'' \<or> v = ''WARNING'' \<or> v = ''Warning'' \<or> v = ''warn'' \<or> v = ''WARN'' \<or> v = ''Warn''
      then Inr kWarning
      else if v = ''error'' \<or> v = ''ERROR'' \<or> v = ''Error'' then Inr kError
      else Inl (InvalidArgument (''Unsupported log level: '' @ v)))"

definition ShouldLog :: "LogLevel \<Rightarrow> LogLevel \<Rightarrow> bool" where
  "ShouldLog message_log_level min_log_level \<longleftrightarrow> LogLevel_int min_log_level \<le> LogLevel_int message_log_level"

definition LogLevelFromSeverity :: "string \<Rightarrow> LogLevel" where
  "LogLevelFromSeverity severity =
     (if severity = ''debug'' then kDebug
      else if severity = ''warning'' then kWarning
      else if severity = ''error'' then kError
      else kInfo)"

section \<open>A line of JSON\<close>

abbreviation quote_char :: char where "quote_char \<equiv> CHR 0x22"
abbreviation backslash :: char where "backslash \<equiv> CHR 0x5C"

definition char_code :: "char \<Rightarrow> nat" where
  "char_code c = of_char c"

definition hex_digit :: "nat \<Rightarrow> char" where
  "hex_digit n = (if n < 10 then char_of (48 + n) else char_of (87 + n))"

text \<open>\<open>std::hex\<close> with \<open>setw(4)\<close> and \<open>setfill('0')\<close>, for a number below 256.\<close>

definition four_hex :: "nat \<Rightarrow> string" where
  "four_hex n = (let digits = (if n < 16 then [hex_digit n] else [hex_digit (n div 16), hex_digit (n mod 16)])
     in replicate (4 - length digits) (CHR ''0'') @ digits)"

definition escape_char :: "char \<Rightarrow> string" where
  "escape_char c =
     (if c = backslash then [backslash, backslash]
      else if c = quote_char then [backslash, quote_char]
      else if c = CHR 0x08 then [backslash, CHR ''b'']
      else if c = CHR 0x0C then [backslash, CHR ''f'']
      else if c = CHR 0x0A then [backslash, CHR ''n'']
      else if c = CHR 0x0D then [backslash, CHR ''r'']
      else if c = CHR 0x09 then [backslash, CHR ''t'']
      else if char_code c < 0x20 then [backslash, CHR ''u''] @ four_hex (char_code c)
      else [c])"

definition EscapeJson :: "string \<Rightarrow> string" where
  "EscapeJson v = concat (map escape_char v)"

record JsonLogBuilder =
  jb_first_field :: bool
  jb_line :: string

definition JsonLogBuilder_new :: JsonLogBuilder where
  "JsonLogBuilder_new = \<lparr>jb_first_field = True, jb_line = ''{''\<rparr>"

definition AddKey :: "string \<Rightarrow> JsonLogBuilder \<Rightarrow> JsonLogBuilder" where
  "AddKey key b =
     \<lparr>jb_first_field = False,
      jb_line = jb_line b @ (if \<not> jb_first_field b then '','' else []) @ [quote_char] @ EscapeJson key @ [quote_char, CHR '':'']\<rparr>"

definition AddString :: "string \<Rightarrow> string \<Rightarrow> JsonLogBuilder \<Rightarrow> JsonLogBuilder" where
  "AddString key v b =
     (let b = AddKey key b in b\<lparr>jb_line := jb_line b @ [quote_char] @ EscapeJson v @ [quote_char]\<rparr>)"

definition AddInt :: "string \<Rightarrow> int \<Rightarrow> JsonLogBuilder \<Rightarrow> JsonLogBuilder" where
  "AddInt key v b = (let b = AddKey key b in b\<lparr>jb_line := jb_line b @ show_int v\<rparr>)"

definition AddBool :: "string \<Rightarrow> bool \<Rightarrow> JsonLogBuilder \<Rightarrow> JsonLogBuilder" where
  "AddBool key v b = (let b = AddKey key b in b\<lparr>jb_line := jb_line b @ (if v then ''true'' else ''false'')\<rparr>)"

definition Finish :: "JsonLogBuilder \<Rightarrow> string" where
  "Finish b = jb_line b @ ''}''"

text \<open>A sequence of \<open>Add\<close> calls on a new builder, and the line.\<close>

datatype json_atom = JString string | JInt int | JBool bool

fun add_atom :: "string \<times> json_atom \<Rightarrow> JsonLogBuilder \<Rightarrow> JsonLogBuilder" where
  "add_atom (key, JString v) = AddString key v"
| "add_atom (key, JInt v) = AddInt key v"
| "add_atom (key, JBool v) = AddBool key v"

definition log_line :: "(string \<times> json_atom) list \<Rightarrow> string" where
  "log_line members = Finish (fold add_atom members JsonLogBuilder_new)"

section \<open>A line and its reading\<close>

text \<open>Specification: a reader of JSON objects whose values are strings, integers and booleans.\<close>

definition hex_val :: "char \<Rightarrow> nat option" where
  "hex_val c =
     (let n = char_code c in
      if 48 \<le> n \<and> n \<le> 57 then Some (n - 48) else if 97 \<le> n \<and> n \<le> 102 then Some (n - 87) else None)"

definition read_hex :: "string \<Rightarrow> char option" where
  "read_hex cs =
     (case map hex_val cs of
        [Some a, Some b, Some c, Some d] \<Rightarrow>
          (let n = ((a * 16 + b) * 16 + c) * 16 + d in if n < 256 then Some (char_of n) else None)
      | _ \<Rightarrow> None)"

text \<open>One character of a quoted text; the characters JSON allows to be escaped.\<close>

definition short_escapes :: "(char \<times> char) list" where
  "short_escapes =
     [(quote_char, quote_char), (backslash, backslash), (CHR ''/'', CHR ''/''), (CHR ''b'', CHR 0x08),
      (CHR ''f'', CHR 0x0C), (CHR ''n'', CHR 0x0A), (CHR ''r'', CHR 0x0D), (CHR ''t'', CHR 0x09)]"

fun read_char :: "string \<Rightarrow> (char \<times> string) option" where
  "read_char [] = None"
| "read_char (c # cs) =
     (if c = quote_char \<or> char_code c < 0x20 then None
      else if c \<noteq> backslash then Some (c, cs)
      else
        (case cs of
           [] \<Rightarrow> None
         | e # cs \<Rightarrow>
             if e = CHR ''u'' then map_option (\<lambda>c. (c, drop 4 cs)) (read_hex (take 4 cs))
             else map_option (\<lambda>c. (c, cs)) (map_of short_escapes e)))"

lemma read_char_shorter: "read_char cs = Some (c, cs') \<Longrightarrow> length cs' < length cs"
  by (cases cs) (auto split: if_splits list.splits)

declare read_char.simps [simp del]

function read_quoted :: "string \<Rightarrow> (string \<times> string) option" where
  "read_quoted cs =
     (case cs of
        [] \<Rightarrow> None
      | c # rest \<Rightarrow>
          if c = quote_char then Some ([], rest)
          else
            (case read_char cs of
               None \<Rightarrow> None
             | Some (c, rest) \<Rightarrow> map_option (\<lambda>(v, rest). (c # v, rest)) (read_quoted rest)))"
  by pat_completeness auto
termination
  by (relation "measure length") (auto dest: read_char_shorter)

declare read_quoted.simps [simp del]

lemma hex_val_digit: "n < 16 \<Longrightarrow> hex_val (hex_digit n) = Some n"
  by (simp add: hex_val_def hex_digit_def char_code_def Let_def)

lemma four_hex_read:
  assumes "n < 256"
  shows "length (four_hex n) = 4" "read_hex (four_hex n) = Some (char_of n)"
proof -
  have zero: "hex_val (CHR ''0'') = Some 0" by (simp add: hex_val_def char_code_def Let_def)
  have split: "n div 16 * 16 + n mod 16 = n" by simp
  have pad: "replicate 3 (CHR ''0'') = [CHR ''0'', CHR ''0'', CHR ''0'']" "replicate 2 (CHR ''0'') = [CHR ''0'', CHR ''0'']"
    by (simp_all add: numeral_3_eq_3 numeral_2_eq_2)
  show "length (four_hex n) = 4" by (simp add: four_hex_def Let_def)
  show "read_hex (four_hex n) = Some (char_of n)"
  proof (cases "n < 16")
    case True
    then have "four_hex n = [CHR ''0'', CHR ''0'', CHR ''0'', hex_digit n]" by (simp add: four_hex_def pad)
    then show ?thesis using True by (simp add: read_hex_def zero hex_val_digit)
  next
    case False
    then have "four_hex n = [CHR ''0'', CHR ''0'', hex_digit (n div 16), hex_digit (n mod 16)]" by (simp add: four_hex_def pad)
    then show ?thesis using assms split by (simp add: read_hex_def zero hex_val_digit)
  qed
qed

lemma char_code_less: "char_code c < 256"
  by (simp add: char_code_def)

lemma char_of_code [simp]: "char_of (char_code c) = c"
  by (simp add: char_code_def)

lemma read_char_escape: "read_char (escape_char c @ cs) = Some (c, cs)"
proof (cases "c \<in> set (map snd short_escapes)")
  case True
  then have "c = quote_char \<or> c = backslash \<or> c = CHR ''/'' \<or> c = CHR 0x08 \<or> c = CHR 0x0C \<or> c = CHR 0x0A \<or>
      c = CHR 0x0D \<or> c = CHR 0x09"
    by (simp add: short_escapes_def)
  then show ?thesis
    by (elim disjE; simp add: short_escapes_def escape_char_def read_char.simps char_code_def)
next
  case other: False
  have codes: "char_code backslash = 92" "backslash \<noteq> quote_char" by (simp_all add: char_code_def)
  show ?thesis
  proof (cases "char_code c < 0x20")
    case True
    have "escape_char c = backslash # CHR ''u'' # four_hex (char_code c)"
      using other True by (simp add: escape_char_def short_escapes_def)
    then show ?thesis using four_hex_read [OF char_code_less, of c] codes by (simp add: read_char.simps)
  next
    case False
    then have "escape_char c = [c]" using other by (simp add: escape_char_def short_escapes_def)
    then show ?thesis using other False by (simp add: read_char.simps short_escapes_def)
  qed
qed

lemma escape_char_start: "\<exists>d ds. escape_char c = d # ds \<and> d \<noteq> quote_char"
  by (auto simp: escape_char_def)

lemma read_quoted_escape: "read_quoted (EscapeJson v @ quote_char # cs) = Some (v, cs)"
proof (induction v)
  case Nil
  show ?case by (simp add: EscapeJson_def read_quoted.simps)
next
  case (Cons c v)
  obtain d ds where d: "escape_char c = d # ds" "d \<noteq> quote_char" using escape_char_start by blast
  have "EscapeJson (c # v) @ quote_char # cs = escape_char c @ EscapeJson v @ quote_char # cs" by (simp add: EscapeJson_def)
  then show ?case
    using read_char_escape [of c "EscapeJson v @ quote_char # cs"] d Cons
    by (subst read_quoted.simps) simp
qed

lemma escape_char_printable: "x \<in> set (escape_char c) \<Longrightarrow> 0x20 \<le> char_code x"
proof -
  have "0x20 \<le> char_code (hex_digit n)" if "n < 16" for n using that by (simp add: hex_digit_def char_code_def)
  then have hex: "x \<in> set (four_hex n) \<Longrightarrow> n < 256 \<Longrightarrow> 0x20 \<le> char_code x" for n
    by (auto simp: four_hex_def Let_def char_code_def split: if_splits)
  assume "x \<in> set (escape_char c)"
  then show ?thesis
    using hex [OF _ char_code_less] by (auto simp: escape_char_def char_code_def split: if_splits)
qed

text \<open>A value, and the members of an object up to its closing brace.\<close>

definition read_atom :: "string \<Rightarrow> (json_atom \<times> string) option" where
  "read_atom cs =
     (if take 1 cs = [quote_char] then map_option (\<lambda>(v, rest). (JString v, rest)) (read_quoted (drop 1 cs))
      else if take 4 cs = ''true'' then Some (JBool True, drop 4 cs)
      else if take 5 cs = ''false'' then Some (JBool False, drop 5 cs)
      else
        (let neg = take 1 cs = ''-''; body = (if neg then drop 1 cs else cs);
             digits = takeWhile is_digit body
         in if digits = [] then None
            else Some (JInt (if neg then - int (digits_val digits) else int (digits_val digits)), dropWhile is_digit body)))"

function read_members :: "string \<Rightarrow> (string \<times> json_atom) list option" where
  "read_members cs =
     (if take 1 cs \<noteq> [quote_char] then None
      else
        (case read_quoted (drop 1 cs) of
           None \<Rightarrow> None
         | Some (key, rest) \<Rightarrow>
             if take 1 rest \<noteq> '':'' then None
             else
               (case read_atom (drop 1 rest) of
                  None \<Rightarrow> None
                | Some (v, rest) \<Rightarrow>
                    if rest = ''}'' then Some [(key, v)]
                    else if take 1 rest = '','' \<and> length rest < length cs
                    then map_option ((#) (key, v)) (read_members (drop 1 rest))
                    else None)))"
  by pat_completeness auto
termination
  by (relation "measure length") auto

declare read_members.simps [simp del]

definition read_log_line :: "string \<Rightarrow> (string \<times> json_atom) list option" where
  "read_log_line line = (if take 1 line = ''{'' then read_members (drop 1 line) else None)"

text \<open>The text of a value and of a member.\<close>

fun atom_text :: "json_atom \<Rightarrow> string" where
  "atom_text (JString v) = [quote_char] @ EscapeJson v @ [quote_char]"
| "atom_text (JInt i) = show_int i"
| "atom_text (JBool b) = (if b then ''true'' else ''false'')"

fun member_text :: "string \<times> json_atom \<Rightarrow> string" where
  "member_text (key, a) = [quote_char] @ EscapeJson key @ [quote_char, CHR '':''] @ atom_text a"

lemma add_atom_line:
  "jb_line (add_atom m b) = jb_line b @ (if jb_first_field b then [] else '','') @ member_text m"
  "\<not> jb_first_field (add_atom m b)"
  by (cases m rule: add_atom.cases; simp add: AddString_def AddInt_def AddBool_def AddKey_def Let_def)+

lemma fold_add_atom:
  "\<not> jb_first_field b \<Longrightarrow> jb_line (fold add_atom ms b) = jb_line b @ concat (map (\<lambda>m. '','' @ member_text m) ms)"
  by (induction ms arbitrary: b) (simp_all add: add_atom_line)

lemma log_line_eq:
  "log_line (m # ms) = ''{'' @ member_text m @ concat (map (\<lambda>m. '','' @ member_text m) ms) @ ''}''"
  using fold_add_atom [of "add_atom m JsonLogBuilder_new" ms]
  by (simp add: log_line_def Finish_def add_atom_line JsonLogBuilder_new_def)

lemma read_atom_text:
  assumes "c = CHR '','' \<or> c = CHR ''}''"
  shows "read_atom (atom_text a @ c # cs) = Some (a, c # cs)"
proof (cases a)
  case (JString v)
  then show ?thesis using read_quoted_escape [of v "c # cs"] by (simp add: read_atom_def)
next
  case (JInt i)
  have c: "\<not> is_digit c" using assms by (auto simp: is_digit_def)
  have span: "takeWhile is_digit (ds @ c # cs) = ds" "dropWhile is_digit (ds @ c # cs) = c # cs" if "\<forall>d \<in> set ds. is_digit d" for ds
    using that c by (simp_all add: takeWhile_append dropWhile_append takeWhile_eq_all_conv dropWhile_eq_Nil_conv)
  show ?thesis
  proof (cases "i < 0")
    case True
    then show ?thesis
      using span [OF show_nat_digits] by (simp add: JInt read_atom_def show_int_def digits_val_show_nat)
  next
    case False
    obtain d ds where d: "show_nat (nat i) = d # ds" by (cases "show_nat (nat i)") auto
    then have digits: "is_digit d" "\<forall>d \<in> set ds. is_digit d" using show_nat_digits [of "nat i"] by simp_all
    then have "d \<noteq> quote_char" "d \<noteq> CHR ''t''" "d \<noteq> CHR ''f''" "d \<noteq> CHR ''-''" by (auto simp: is_digit_def)
    then show ?thesis
      using False digits(1) span [OF digits(2)] digits_val_show_nat [of "nat i"]
      by (simp add: JInt read_atom_def show_int_def d)
  qed
next
  case (JBool b)
  then show ?thesis by (simp add: read_atom_def)
qed


lemma read_members_text:
  "read_members (member_text m @ concat (map (\<lambda>m. '','' @ member_text m) ms) @ ''}'') = Some (m # ms)"
proof (induction ms arbitrary: m)
  case Nil
  obtain k a where m: "m = (k, a)" by fastforce
  show ?case
    using read_quoted_escape [of k "CHR '':'' # atom_text a @ ''}''"] read_atom_text [of "CHR ''}''" a "[]"]
    by (subst read_members.simps) (simp add: m)
next
  case (Cons m' ms)
  obtain k a where m: "m = (k, a)" by fastforce
  let ?rest = "member_text m' @ concat (map (\<lambda>m. '','' @ member_text m) ms) @ ''}''"
  show ?case
    using read_quoted_escape [of k "CHR '':'' # atom_text a @ CHR '','' # ?rest"] read_atom_text [of "CHR '',''" a ?rest] Cons
    by (subst read_members.simps) (simp add: m)
qed

lemma read_log_line: "ms \<noteq> [] \<Longrightarrow> read_log_line (log_line ms) = Some ms"
  using read_members_text [of "hd ms" "tl ms"] by (cases ms) (simp_all add: log_line_eq read_log_line_def)

lemma EscapeJson_printable: "x \<in> set (EscapeJson v) \<Longrightarrow> 0x20 \<le> char_code x"
  using escape_char_printable by (auto simp: EscapeJson_def)

lemma log_line_printable: "ms \<noteq> [] \<Longrightarrow> x \<in> set (log_line ms) \<Longrightarrow> 0x20 \<le> char_code x"
proof -
  have "0x20 \<le> char_code x" if "x \<in> set (show_nat n)" for n x
    using that show_nat_digits [of n] by (auto simp: is_digit_def char_code_def)
  then have "0x20 \<le> char_code x" if "x \<in> set (show_int i)" for i x
    using that by (auto simp: show_int_def char_code_def split: if_splits)
  then have "0x20 \<le> char_code x" if "x \<in> set (atom_text a)" for a x
    using that EscapeJson_printable by (cases a) (auto simp: char_code_def split: if_splits)
  then have member: "0x20 \<le> char_code x" if "x \<in> set (member_text m)" for m x
    using that EscapeJson_printable by (cases m) (auto simp: char_code_def)
  assume "ms \<noteq> []" "x \<in> set (log_line ms)"
  then have "x \<in> {CHR ''{'', CHR '','', CHR ''}''} \<or> (\<exists>m. x \<in> set (member_text m))"
    by (cases ms) (auto simp: log_line_eq split: if_splits)
  then show ?thesis using member by (auto simp: char_code_def simp del: member_text.simps)
qed

section \<open>A logger\<close>

record Logger =
  lg_logger_name :: string
  lg_min_log_level :: LogLevel

definition Logger_new :: "string \<Rightarrow> Logger" where
  "Logger_new logger_name = \<lparr>lg_logger_name = logger_name, lg_min_log_level = kInfo\<rparr>"

definition SetMinLogLevel :: "string \<Rightarrow> Logger \<Rightarrow> Logger throws" where
  "SetMinLogLevel min_log_level logger =
     bindE (ParseLogLevel min_log_level) (\<lambda>level. Inr (logger\<lparr>lg_min_log_level := level\<rparr>))"

text \<open>The time in milliseconds since 1970, and the calendar date and time of a second.\<close>

type_synonym calendar = "nat \<Rightarrow> string"

definition FormatUtcTimestamp :: "calendar \<Rightarrow> nat \<Rightarrow> string" where
  "FormatUtcTimestamp utc_text now =
     (let milliseconds = show_nat (now mod 1000) in
      utc_text (now div 1000) @ ''.'' @ replicate (3 - length milliseconds) (CHR ''0'') @ milliseconds @ ''Z'')"

definition LogStructured ::
  "calendar \<Rightarrow> nat \<Rightarrow> LogLevel \<Rightarrow> string \<Rightarrow> string \<Rightarrow> string \<Rightarrow> (string \<times> string) list \<Rightarrow> string list" where
  "LogStructured utc_text now min_log_level severity logger_name event fs =
     (if \<not> ShouldLog (LogLevelFromSeverity severity) min_log_level then []
      else
        [log_line
          ([(''timestamp'', JString (FormatUtcTimestamp utc_text now)), (''logger_name'', JString logger_name),
            (''severity'', JString severity), (''event'', JString event)] @
           map (\<lambda>(key, v). (key, JString v)) fs)])"

definition Logger_Debug :: "calendar \<Rightarrow> nat \<Rightarrow> Logger \<Rightarrow> string \<Rightarrow> (string \<times> string) list \<Rightarrow> string list" where
  "Logger_Debug utc_text now logger event fs =
     LogStructured utc_text now (lg_min_log_level logger) ''debug'' (lg_logger_name logger) event fs"

definition Logger_Info :: "calendar \<Rightarrow> nat \<Rightarrow> Logger \<Rightarrow> string \<Rightarrow> (string \<times> string) list \<Rightarrow> string list" where
  "Logger_Info utc_text now logger event fs =
     LogStructured utc_text now (lg_min_log_level logger) ''info'' (lg_logger_name logger) event fs"

definition Logger_Warning :: "calendar \<Rightarrow> nat \<Rightarrow> Logger \<Rightarrow> string \<Rightarrow> (string \<times> string) list \<Rightarrow> string list" where
  "Logger_Warning utc_text now logger event fs =
     LogStructured utc_text now (lg_min_log_level logger) ''warning'' (lg_logger_name logger) event fs"

definition Logger_Error :: "calendar \<Rightarrow> nat \<Rightarrow> Logger \<Rightarrow> string \<Rightarrow> (string \<times> string) list \<Rightarrow> string list" where
  "Logger_Error utc_text now logger event fs =
     LogStructured utc_text now (lg_min_log_level logger) ''error'' (lg_logger_name logger) event fs"

section \<open>The interceptor of calls\<close>

datatype HookPoint = POST_RECV_MESSAGE | PRE_SEND_MESSAGE | PRE_SEND_STATUS | POST_RECV_CLOSE | OTHER_HOOK

datatype RpcType = UNARY | CLIENT_STREAMING | SERVER_STREAMING | BIDI_STREAMING

fun RpcTypeToString :: "RpcType \<Rightarrow> string" where
  "RpcTypeToString UNARY = ''unary''"
| "RpcTypeToString CLIENT_STREAMING = ''client_streaming''"
| "RpcTypeToString SERVER_STREAMING = ''server_streaming''"
| "RpcTypeToString BIDI_STREAMING = ''bidi_streaming''"

fun StatusCode_int :: "StatusCode \<Rightarrow> int" where
  "StatusCode_int CANCELLED = 1"
| "StatusCode_int UNKNOWN = 2"
| "StatusCode_int INVALID_ARGUMENT = 3"
| "StatusCode_int DEADLINE_EXCEEDED = 4"
| "StatusCode_int NOT_FOUND = 5"
| "StatusCode_int ALREADY_EXISTS = 6"
| "StatusCode_int PERMISSION_DENIED = 7"
| "StatusCode_int RESOURCE_EXHAUSTED = 8"
| "StatusCode_int FAILED_PRECONDITION = 9"
| "StatusCode_int ABORTED = 10"
| "StatusCode_int OUT_OF_RANGE = 11"
| "StatusCode_int UNIMPLEMENTED = 12"
| "StatusCode_int INTERNAL = 13"
| "StatusCode_int UNAVAILABLE = 14"
| "StatusCode_int DATA_LOSS = 15"
| "StatusCode_int UNAUTHENTICATED = 16"

fun status_code_int :: "grpc_status \<Rightarrow> int" where
  "status_code_int StatusOK = 0"
| "status_code_int (StatusError c m) = StatusCode_int c"

fun StatusCodeToString :: "grpc_status \<Rightarrow> string" where
  "StatusCodeToString StatusOK = ''OK''"
| "StatusCodeToString (StatusError CANCELLED m) = ''CANCELLED''"
| "StatusCodeToString (StatusError UNKNOWN m) = ''UNKNOWN''"
| "StatusCodeToString (StatusError INVALID_ARGUMENT m) = ''INVALID_ARGUMENT''"
| "StatusCodeToString (StatusError DEADLINE_EXCEEDED m) = ''DEADLINE_EXCEEDED''"
| "StatusCodeToString (StatusError NOT_FOUND m) = ''NOT_FOUND''"
| "StatusCodeToString (StatusError ALREADY_EXISTS m) = ''ALREADY_EXISTS''"
| "StatusCodeToString (StatusError PERMISSION_DENIED m) = ''PERMISSION_DENIED''"
| "StatusCodeToString (StatusError RESOURCE_EXHAUSTED m) = ''RESOURCE_EXHAUSTED''"
| "StatusCodeToString (StatusError FAILED_PRECONDITION m) = ''FAILED_PRECONDITION''"
| "StatusCodeToString (StatusError ABORTED m) = ''ABORTED''"
| "StatusCodeToString (StatusError OUT_OF_RANGE m) = ''OUT_OF_RANGE''"
| "StatusCodeToString (StatusError UNIMPLEMENTED m) = ''UNIMPLEMENTED''"
| "StatusCodeToString (StatusError INTERNAL m) = ''INTERNAL''"
| "StatusCodeToString (StatusError UNAVAILABLE m) = ''UNAVAILABLE''"
| "StatusCodeToString (StatusError DATA_LOSS m) = ''DATA_LOSS''"
| "StatusCodeToString (StatusError UNAUTHENTICATED m) = ''UNAUTHENTICATED''"

text \<open>What reflection says of a field of a message, and of a message; the JSON printer's answer for it.\<close>

record ReflectedField =
  rf_is_string :: bool
  rf_is_repeated :: bool
  rf_is_set :: bool
  rf_text :: string

record LoggedMessage =
  lm_descriptor :: "(string \<rightharpoonup> ReflectedField) option"
  lm_reflection :: bool
  lm_json :: "string + string"

definition ExtractId :: "LoggedMessage \<Rightarrow> string \<Rightarrow> string" where
  "ExtractId message field_name =
     (case lm_descriptor message of
        None \<Rightarrow> []
      | Some descriptor \<Rightarrow>
          (case descriptor field_name of
             None \<Rightarrow> []
           | Some field \<Rightarrow>
               if \<not> rf_is_string field \<or> rf_is_repeated field then []
               else if \<not> lm_reflection message \<or> \<not> rf_is_set field then []
               else rf_text field))"

definition kMaxPayloadJsonLength :: nat where
  "kMaxPayloadJsonLength = 4096"

definition TruncateForLog :: "string \<Rightarrow> string \<times> bool" where
  "TruncateForLog v =
     (if length v \<le> kMaxPayloadJsonLength then (v, False) else (take kMaxPayloadJsonLength v, True))"

record ServerRpcInfo =
  ri_has_context :: bool
  ri_method :: "string option"
  ri_type :: RpcType

record Interceptor =
  si_logger_name :: string
  si_min_log_level :: LogLevel
  si_has_context :: bool
  si_method :: string
  si_log_payloads :: bool
  si_rpc_type :: string
  si_trace_id :: string
  si_request_id :: string
  si_start_time :: int
  si_completion_logged :: bool
  si_has_trace_id :: bool
  si_has_request_id :: bool
  si_request_logged :: bool
  si_response_logged :: bool

definition Interceptor_new :: "string \<Rightarrow> LogLevel \<Rightarrow> ServerRpcInfo option \<Rightarrow> int \<Rightarrow> Interceptor" where
  "Interceptor_new logger_name min_log_level info start =
     \<lparr>si_logger_name = logger_name, si_min_log_level = min_log_level,
      si_has_context = (case info of None \<Rightarrow> False | Some i \<Rightarrow> ri_has_context i),
      si_method = (case info of None \<Rightarrow> [] | Some i \<Rightarrow> (case ri_method i of None \<Rightarrow> [] | Some m \<Rightarrow> m)),
      si_log_payloads = (case info of None \<Rightarrow> False | Some i \<Rightarrow> ri_type i = UNARY),
      si_rpc_type = (case info of None \<Rightarrow> ''unknown'' | Some i \<Rightarrow> RpcTypeToString (ri_type i)),
      si_trace_id = [], si_request_id = [], si_start_time = start, si_completion_logged = False,
      si_has_trace_id = False, si_has_request_id = False, si_request_logged = False, si_response_logged = False\<rparr>"

record InterceptorFactory =
  if_logger_name :: string
  if_min_log_level :: LogLevel

definition CreateServerInterceptor :: "InterceptorFactory \<Rightarrow> ServerRpcInfo option \<Rightarrow> int \<Rightarrow> Interceptor" where
  "CreateServerInterceptor factory info start =
     Interceptor_new (if_logger_name factory) (if_min_log_level factory) info start"

definition CreateServerLoggingInterceptorCreators :: "Logger \<Rightarrow> InterceptorFactory list" where
  "CreateServerLoggingInterceptorCreators logger =
     [\<lparr>if_logger_name = lg_logger_name logger, if_min_log_level = lg_min_log_level logger\<rparr>]"

text \<open>
  One call of \<open>Intercept\<close>: the hook points it is for, the messages and status, and what the clocks (the
  system clock for each of the three lines in turn) and the server's context answer when asked.
\<close>

record Interception =
  in_hooks :: "HookPoint list"
  in_recv_message :: "LoggedMessage option"
  in_send_message :: "LoggedMessage option"
  in_send_status :: grpc_status
  in_now :: "nat \<Rightarrow> nat"
  in_steady_now :: int
  in_peer :: string
  in_closed_cancelled :: bool
  in_cancelled :: bool

definition call_members :: "calendar \<Rightarrow> nat \<Rightarrow> Interception \<Rightarrow> Interceptor \<Rightarrow> string \<Rightarrow> string \<Rightarrow> (string \<times> json_atom) list" where
  "call_members utc_text now b s severity event =
     [(''timestamp'', JString (FormatUtcTimestamp utc_text now)), (''logger_name'', JString (si_logger_name s)),
      (''severity'', JString severity), (''method'', JString (si_method s))] @
     (if si_has_trace_id s then [(''trace_id'', JString (si_trace_id s))] else []) @
     (if si_has_request_id s then [(''request_id'', JString (si_request_id s))] else []) @
     [(''event'', JString event), (''rpc_type'', JString (si_rpc_type s)),
      (''peer'', JString (if si_has_context s then in_peer b else []))]"

definition LogPayloadEvent ::
  "calendar \<Rightarrow> nat \<Rightarrow> Interception \<Rightarrow> string \<Rightarrow> string \<Rightarrow> LoggedMessage \<Rightarrow> Interceptor \<Rightarrow> string list" where
  "LogPayloadEvent utc_text now b event payload_field_name message s =
     (if \<not> ShouldLog kDebug (si_min_log_level s) then []
      else
        [log_line
          (call_members utc_text now b s ''debug'' event @
           (case lm_json message of
              Inl payload_error \<Rightarrow> [(''payload_json_error'', JString payload_error)]
            | Inr payload_json \<Rightarrow>
                (case TruncateForLog payload_json of
                   (payload_for_log, payload_truncated) \<Rightarrow>
                     [(payload_field_name, JString payload_for_log), (''payload_truncated'', JBool payload_truncated)])))])"

definition LogRequestMessage :: "calendar \<Rightarrow> Interception \<Rightarrow> Interceptor \<Rightarrow> Interceptor \<times> string list" where
  "LogRequestMessage utc_text b s =
     (case in_recv_message b of
        None \<Rightarrow> (s, [])
      | Some message \<Rightarrow>
          if si_request_logged s then (s, [])
          else
            (let trace_id = ExtractId message ''trace_id''; request_id = ExtractId message ''request_id'';
                 s = s\<lparr>si_request_logged := True, si_trace_id := trace_id, si_has_trace_id := trace_id \<noteq> [],
                       si_request_id := request_id, si_has_request_id := request_id \<noteq> []\<rparr>
             in (s, LogPayloadEvent utc_text (in_now b 0) b ''request_received'' ''request_json'' message s)))"

definition LogResponseMessage :: "calendar \<Rightarrow> Interception \<Rightarrow> Interceptor \<Rightarrow> Interceptor \<times> string list" where
  "LogResponseMessage utc_text b s =
     (case in_send_message b of
        None \<Rightarrow> (s, [])
      | Some message \<Rightarrow>
          if si_response_logged s then (s, [])
          else
            (let s = s\<lparr>si_response_logged := True\<rparr>
             in (s, LogPayloadEvent utc_text (in_now b 1) b ''response_sent'' ''response_json'' message s)))"

definition LogCompletion :: "calendar \<Rightarrow> Interception \<Rightarrow> grpc_status \<Rightarrow> Interceptor \<Rightarrow> Interceptor \<times> string list" where
  "LogCompletion utc_text b status s =
     (if si_completion_logged s then (s, [])
      else
        (let s = s\<lparr>si_completion_logged := True\<rparr>;
             message_log_level = (if status = StatusOK then kInfo else kError)
         in if \<not> ShouldLog message_log_level (si_min_log_level s) then (s, [])
            else
              (s, [log_line
                 (call_members utc_text (in_now b 2) b s (if status = StatusOK then ''info'' else ''error'') ''call_completed'' @
                  [(''latency_ms'', JInt ((in_steady_now b - si_start_time s) div 1000000)),
                   (''status_code'', JInt (status_code_int status)),
                   (''status_name'', JString (StatusCodeToString status)),
                   (''status_message'', JString (error_message status)),
                   (''cancelled'', JBool (si_has_context s \<and> in_cancelled b))])])))"

definition closed_status :: "Interception \<Rightarrow> Interceptor \<Rightarrow> grpc_status" where
  "closed_status b s =
     (let cancelled = (si_has_context s \<and> in_closed_cancelled b) in
      StatusError (if cancelled then CANCELLED else UNKNOWN)
        (if cancelled then ''RPC closed after cancellation.'' else ''RPC closed before final status was observed.''))"

definition Intercept :: "calendar \<Rightarrow> Interception \<Rightarrow> Interceptor \<Rightarrow> Interceptor \<times> string list" where
  "Intercept utc_text b s =
     (let (s, request_lines) =
            (if si_log_payloads s \<and> POST_RECV_MESSAGE \<in> set (in_hooks b) then LogRequestMessage utc_text b s else (s, []));
          (s, response_lines) =
            (if si_log_payloads s \<and> PRE_SEND_MESSAGE \<in> set (in_hooks b) then LogResponseMessage utc_text b s else (s, []));
          (s, completion_lines) =
            (if PRE_SEND_STATUS \<in> set (in_hooks b) then LogCompletion utc_text b (in_send_status b) s
             else if \<not> si_completion_logged s \<and> POST_RECV_CLOSE \<in> set (in_hooks b)
             then LogCompletion utc_text b (closed_status b s) s
             else (s, []))
      in (s, request_lines @ response_lines @ completion_lines))"

text \<open>The interceptor of a call sees its batches one after the other.\<close>

fun intercept_all :: "calendar \<Rightarrow> Interception list \<Rightarrow> Interceptor \<Rightarrow> Interceptor \<times> string list" where
  "intercept_all utc_text [] s = (s, [])"
| "intercept_all utc_text (b # bs) s =
     (case Intercept utc_text b s of
        (s, lines) \<Rightarrow> (case intercept_all utc_text bs s of (s, rest) \<Rightarrow> (s, lines @ rest)))"

section \<open>What a call logs\<close>

text \<open>The members of the lines with an event.\<close>

definition events_named :: "string \<Rightarrow> string list \<Rightarrow> (string \<times> json_atom) list list" where
  "events_named event lines =
     filter (\<lambda>ms. map_of ms ''event'' = Some (JString event)) (map (\<lambda>line. case read_log_line line of None \<Rightarrow> [] | Some ms \<Rightarrow> ms) lines)"

lemma events_named_append [simp]: "events_named event (xs @ ys) = events_named event xs @ events_named event ys"
  by (simp add: events_named_def)

lemma events_named_Nil [simp]: "events_named event [] = []"
  by (simp add: events_named_def)

lemma call_members_event: "map_of (call_members utc_text now b s severity event @ ms) ''event'' = Some (JString event)"
  "call_members utc_text now b s severity event \<noteq> []"
  by (simp_all add: call_members_def)

lemma events_named_call [simp]:
  "events_named event' [log_line (call_members utc_text now b s severity event @ ms)] =
     (if event' = event then [call_members utc_text now b s severity event @ ms] else [])"
  using read_log_line [of "call_members utc_text now b s severity event @ ms"] call_members_event
  by (simp add: events_named_def)

definition completes :: "Interception \<Rightarrow> bool" where
  "completes b \<longleftrightarrow> PRE_SEND_STATUS \<in> set (in_hooks b) \<or> POST_RECV_CLOSE \<in> set (in_hooks b)"

definition brings_request :: "Interception \<Rightarrow> bool" where
  "brings_request b \<longleftrightarrow> POST_RECV_MESSAGE \<in> set (in_hooks b) \<and> in_recv_message b \<noteq> None"

definition brings_response :: "Interception \<Rightarrow> bool" where
  "brings_response b \<longleftrightarrow> PRE_SEND_MESSAGE \<in> set (in_hooks b) \<and> in_send_message b \<noteq> None"

text \<open>The status a completing batch is logged with.\<close>

definition final_status :: "bool \<Rightarrow> Interception \<Rightarrow> grpc_status" where
  "final_status has_context b =
     (if PRE_SEND_STATUS \<in> set (in_hooks b) then in_send_status b
      else if has_context \<and> in_closed_cancelled b then StatusError CANCELLED ''RPC closed after cancellation.''
      else StatusError UNKNOWN ''RPC closed before final status was observed.'')"

definition logged_status :: "(string \<times> json_atom) list \<Rightarrow> json_atom option list" where
  "logged_status ms = map (map_of ms) [''status_code'', ''status_name'', ''status_message'', ''rpc_type'']"

definition status_values :: "Interceptor \<Rightarrow> grpc_status \<Rightarrow> json_atom option list" where
  "status_values s status =
     map Some [JInt (status_code_int status), JString (StatusCodeToString status), JString (error_message status), JString (si_rpc_type s)]"

text \<open>What no batch changes.\<close>

definition static :: "Interceptor \<Rightarrow> bool \<times> LogLevel \<times> bool \<times> string" where
  "static s = (si_log_payloads s, si_min_log_level s, si_has_context s, si_rpc_type s)"

lemma logged_status_call:
  "logged_status (call_members utc_text now b s severity event @
     [(''latency_ms'', a), (''status_code'', JInt (status_code_int status)), (''status_name'', JString (StatusCodeToString status)),
      (''status_message'', JString (error_message status)), (''cancelled'', c)]) = status_values s status"
  by (simp add: logged_status_def status_values_def call_members_def)

lemma LogCompletion_step:
  assumes "LogCompletion utc_text b status s = (s', lines)"
  shows "static s' = static s" "si_request_logged s' = si_request_logged s" "si_response_logged s' = si_response_logged s"
    "si_completion_logged s'" "events_named ''request_received'' lines = []" "events_named ''response_sent'' lines = []"
    "map logged_status (events_named ''call_completed'' lines) =
       (if \<not> si_completion_logged s \<and> ShouldLog (if status = StatusOK then kInfo else kError) (si_min_log_level s)
        then [status_values s status] else [])"
proof -
  have unchanged: "status_values (s\<lparr>si_completion_logged := True\<rparr>) = status_values s" by (simp add: status_values_def fun_eq_iff)
  show "static s' = static s" "si_request_logged s' = si_request_logged s" "si_response_logged s' = si_response_logged s"
    "si_completion_logged s'" "events_named ''request_received'' lines = []" "events_named ''response_sent'' lines = []"
    using assms by (auto simp: LogCompletion_def static_def Let_def split: if_splits)
  show "map logged_status (events_named ''call_completed'' lines) =
       (if \<not> si_completion_logged s \<and> ShouldLog (if status = StatusOK then kInfo else kError) (si_min_log_level s)
        then [status_values s status] else [])"
    using assms logged_status_call [of utc_text _ b _ _ _ _ status] unchanged
    by (cases "si_completion_logged s"; cases "ShouldLog (if status = StatusOK then kInfo else kError) (si_min_log_level s)")
      (auto simp: LogCompletion_def Let_def simp del: StatusCodeToString.simps status_code_int.simps error_message.simps)
qed

lemma Intercept_step:
  assumes "Intercept utc_text b s = (s', lines)"
  shows "si_completion_logged s' = (si_completion_logged s \<or> completes b)"
    "si_request_logged s' = (si_request_logged s \<or> si_log_payloads s \<and> brings_request b)"
    "si_response_logged s' = (si_response_logged s \<or> si_log_payloads s \<and> brings_response b)"
    "static s' = static s"
    "map logged_status (events_named ''call_completed'' lines) =
       (if completes b \<and> \<not> si_completion_logged s \<and>
           ShouldLog (if final_status (si_has_context s) b = StatusOK then kInfo else kError) (si_min_log_level s)
        then [status_values s (final_status (si_has_context s) b)] else [])"
    "length (events_named ''request_received'' lines) =
       of_bool (si_log_payloads s \<and> brings_request b \<and> \<not> si_request_logged s \<and> ShouldLog kDebug (si_min_log_level s))"
    "length (events_named ''response_sent'' lines) =
       of_bool (si_log_payloads s \<and> brings_response b \<and> \<not> si_response_logged s \<and> ShouldLog kDebug (si_min_log_level s))"
proof -
  obtain s1 l1 where request: "(if si_log_payloads s \<and> POST_RECV_MESSAGE \<in> set (in_hooks b) then LogRequestMessage utc_text b s else (s, [])) = (s1, l1)"
    by fastforce
  obtain s2 l2 where response: "(if si_log_payloads s1 \<and> PRE_SEND_MESSAGE \<in> set (in_hooks b) then LogResponseMessage utc_text b s1 else (s1, [])) = (s2, l2)"
    by fastforce
  obtain s3 l3 where completion: "(if PRE_SEND_STATUS \<in> set (in_hooks b) then LogCompletion utc_text b (in_send_status b) s2
      else if \<not> si_completion_logged s2 \<and> POST_RECV_CLOSE \<in> set (in_hooks b) then LogCompletion utc_text b (closed_status b s2) s2
      else (s2, [])) = (s3, l3)"
    by fastforce
  have result: "s' = s3" "lines = l1 @ l2 @ l3"
    using assms by (simp_all add: Intercept_def request response completion)
  have step1: "static s1 = static s" "si_completion_logged s1 = si_completion_logged s" "si_response_logged s1 = si_response_logged s"
    "si_request_logged s1 = (si_request_logged s \<or> si_log_payloads s \<and> brings_request b)"
    "events_named ''call_completed'' l1 = []" "events_named ''response_sent'' l1 = []"
    "length (events_named ''request_received'' l1) =
       of_bool (si_log_payloads s \<and> brings_request b \<and> \<not> si_request_logged s \<and> ShouldLog kDebug (si_min_log_level s))"
    using request by (auto simp: LogRequestMessage_def LogPayloadEvent_def brings_request_def static_def Let_def split: if_splits option.splits)
  have step2: "static s2 = static s1" "si_completion_logged s2 = si_completion_logged s1" "si_request_logged s2 = si_request_logged s1"
    "si_response_logged s2 = (si_response_logged s1 \<or> si_log_payloads s1 \<and> brings_response b)"
    "events_named ''call_completed'' l2 = []" "events_named ''request_received'' l2 = []"
    "length (events_named ''response_sent'' l2) =
       of_bool (si_log_payloads s1 \<and> brings_response b \<and> \<not> si_response_logged s1 \<and> ShouldLog kDebug (si_min_log_level s1))"
    using response by (auto simp: LogResponseMessage_def LogPayloadEvent_def brings_response_def static_def Let_def split: if_splits option.splits)
  have closed: "final_status (si_has_context s2) b =
      (if PRE_SEND_STATUS \<in> set (in_hooks b) then in_send_status b else closed_status b s2)"
    by (auto simp: final_status_def closed_status_def Let_def)
  have step3: "static s3 = static s2" "si_request_logged s3 = si_request_logged s2" "si_response_logged s3 = si_response_logged s2"
    "si_completion_logged s3 = (si_completion_logged s2 \<or> completes b)"
    "events_named ''request_received'' l3 = []" "events_named ''response_sent'' l3 = []"
    "map logged_status (events_named ''call_completed'' l3) =
       (if completes b \<and> \<not> si_completion_logged s2 \<and>
           ShouldLog (if final_status (si_has_context s2) b = StatusOK then kInfo else kError) (si_min_log_level s2)
        then [status_values s2 (final_status (si_has_context s2) b)] else [])"
    using completion LogCompletion_step [of utc_text b "final_status (si_has_context s2) b" s2 s3 l3] closed
    by (auto simp: completes_def split: if_splits)
  note same = step1(1) step2(1) step3(1)
  show "si_completion_logged s' = (si_completion_logged s \<or> completes b)"
    "si_request_logged s' = (si_request_logged s \<or> si_log_payloads s \<and> brings_request b)"
    "si_response_logged s' = (si_response_logged s \<or> si_log_payloads s \<and> brings_response b)"
    "static s' = static s"
    using step1(1-4) step2(1-4) step3(1-4) by (auto simp: result static_def)
  have facts: "si_has_context s2 = si_has_context s" "si_min_log_level s2 = si_min_log_level s" "si_rpc_type s2 = si_rpc_type s"
    "si_log_payloads s1 = si_log_payloads s" "si_min_log_level s1 = si_min_log_level s"
    using same by (simp_all add: static_def)
  then have "status_values s2 = status_values s" by (simp add: status_values_def fun_eq_iff)
  then show "map logged_status (events_named ''call_completed'' lines) =
       (if completes b \<and> \<not> si_completion_logged s \<and>
           ShouldLog (if final_status (si_has_context s) b = StatusOK then kInfo else kError) (si_min_log_level s)
        then [status_values s (final_status (si_has_context s) b)] else [])"
    using step3(7) facts by (simp add: result step1(2,5) step2(2,5))
  show "length (events_named ''request_received'' lines) =
       of_bool (si_log_payloads s \<and> brings_request b \<and> \<not> si_request_logged s \<and> ShouldLog kDebug (si_min_log_level s))"
    by (simp add: result step1(7) step2(6) step3(5))
  show "length (events_named ''response_sent'' lines) =
       of_bool (si_log_payloads s \<and> brings_response b \<and> \<not> si_response_logged s \<and> ShouldLog kDebug (si_min_log_level s))"
    using facts by (simp add: result step1(3,6) step2(7) step3(6))
qed

definition completion_logged :: "Interceptor \<Rightarrow> grpc_status \<Rightarrow> json_atom option list list" where
  "completion_logged s status =
     (if ShouldLog (if status = StatusOK then kInfo else kError) (si_min_log_level s) then [status_values s status] else [])"

lemma static_alike:
  assumes "static s1 = static s"
  shows "si_log_payloads s1 = si_log_payloads s" "si_min_log_level s1 = si_min_log_level s"
    "si_has_context s1 = si_has_context s" "completion_logged s1 = completion_logged s"
  using assms by (simp_all add: static_def completion_logged_def status_values_def fun_eq_iff)

lemma intercept_all_completion:
  "intercept_all utc_text bs s = (s', lines) \<Longrightarrow>
    map logged_status (events_named ''call_completed'' lines) =
      (if si_completion_logged s then []
       else (case find completes bs of None \<Rightarrow> [] | Some b \<Rightarrow> completion_logged s (final_status (si_has_context s) b)))"
proof (induction bs arbitrary: s lines)
  case (Cons b bs)
  obtain s1 l1 l2 where step: "Intercept utc_text b s = (s1, l1)" and rest: "intercept_all utc_text bs s1 = (s', l2)"
    and lines: "lines = l1 @ l2"
    using Cons.prems by (auto split: prod.splits)
  note one = Intercept_step [OF step] and same = static_alike [OF Intercept_step(4) [OF step]]
  show ?case
    using Cons.IH [OF rest] by (cases "find completes bs") (simp_all add: lines one(1,5) same completion_logged_def)
qed simp

lemma intercept_all_payloads:
  "intercept_all utc_text bs s = (s', lines) \<Longrightarrow>
    length (events_named ''request_received'' lines) =
      of_bool (si_log_payloads s \<and> (\<exists>b \<in> set bs. brings_request b) \<and> \<not> si_request_logged s \<and> ShouldLog kDebug (si_min_log_level s)) \<and>
    length (events_named ''response_sent'' lines) =
      of_bool (si_log_payloads s \<and> (\<exists>b \<in> set bs. brings_response b) \<and> \<not> si_response_logged s \<and> ShouldLog kDebug (si_min_log_level s))"
proof (induction bs arbitrary: s lines)
  case (Cons b bs)
  obtain s1 l1 l2 where step: "Intercept utc_text b s = (s1, l1)" and rest: "intercept_all utc_text bs s1 = (s', l2)"
    and lines: "lines = l1 @ l2"
    using Cons.prems by (auto split: prod.splits)
  note one = Intercept_step [OF step] and same = static_alike [OF Intercept_step(4) [OF step]]
  show ?case
    using Cons.IH [OF rest] by (simp add: lines one(2,3,6,7) same)
qed simp

text \<open>Every line of a call is the line of some members.\<close>

definition is_log_line :: "string \<Rightarrow> bool" where
  "is_log_line line \<longleftrightarrow> (\<exists>ms. ms \<noteq> [] \<and> line = log_line ms)"

lemma is_log_lineI: "is_log_line (log_line (call_members utc_text now b s severity event @ ms))"
  unfolding is_log_line_def using call_members_event(2)
  by (intro exI [of _ "call_members utc_text now b s severity event @ ms"]) simp

lemma LogPayloadEvent_line: "line \<in> set (LogPayloadEvent utc_text now b event f message s) \<Longrightarrow> is_log_line line"
  by (simp add: LogPayloadEvent_def is_log_lineI split: if_splits)

lemma step_lines:
  "line \<in> set (snd (LogRequestMessage utc_text b s)) \<Longrightarrow> is_log_line line"
  "line \<in> set (snd (LogResponseMessage utc_text b s)) \<Longrightarrow> is_log_line line"
  "line \<in> set (snd (LogCompletion utc_text b status s)) \<Longrightarrow> is_log_line line"
  by (auto simp: LogRequestMessage_def LogResponseMessage_def LogCompletion_def Let_def is_log_lineI
      dest: LogPayloadEvent_line split: option.splits if_splits)

lemma intercept_all_lines: "line \<in> set (snd (intercept_all utc_text bs s)) \<Longrightarrow> is_log_line line"
proof (induction bs arbitrary: s)
  case (Cons b bs)
  have "line \<in> set (snd (Intercept utc_text b s)) \<Longrightarrow> is_log_line line"
    by (auto simp: Intercept_def Let_def case_prod_beta dest: step_lines split: if_splits)
  with Cons show ?case by (auto simp: case_prod_beta)
qed simp

text \<open>
  C33. One call, one completion. Whatever hook points gRPC reports for a call and in whatever batches, the
  interceptor logs exactly one completion, that of the first batch that sends a status or sees the call
  closed, if its level is logged: the status sent, or \<open>CANCELLED\<close> or \<open>UNKNOWN\<close> for a call closed before;
  and it logs one request and one response of a unary call that has them, at the debug level alone.
\<close>

theorem rpc_logged_once:
  "(let s = CreateServerInterceptor (hd (CreateServerLoggingInterceptorCreators logger)) info start;
        (_, lines) = intercept_all utc_text bs s;
        unary = (case info of None \<Rightarrow> False | Some i \<Rightarrow> ri_type i = UNARY); context = (case info of None \<Rightarrow> False | Some i \<Rightarrow> ri_has_context i);
        debug = (lg_min_log_level logger = kDebug)
    in map logged_status (events_named ''call_completed'' lines) =
         (case find completes bs of
            None \<Rightarrow> []
          | Some b \<Rightarrow>
              let status = final_status context b in
              if status = StatusOK \<and> LogLevel_int (lg_min_log_level logger) > 1 then []
              else [map Some [JInt (status_code_int status), JString (StatusCodeToString status), JString (error_message status),
                              JString (case info of None \<Rightarrow> ''unknown'' | Some i \<Rightarrow> RpcTypeToString (ri_type i))]]) \<and>
       length (events_named ''request_received'' lines) = of_bool (debug \<and> unary \<and> (\<exists>b \<in> set bs. brings_request b)) \<and>
       length (events_named ''response_sent'' lines) = of_bool (debug \<and> unary \<and> (\<exists>b \<in> set bs. brings_response b)))"
proof -
  let ?s = "CreateServerInterceptor (hd (CreateServerLoggingInterceptorCreators logger)) info start"
  obtain s' lines where run: "intercept_all utc_text bs ?s = (s', lines)" by fastforce
  have debug: "ShouldLog kDebug (lg_min_log_level logger) = (lg_min_log_level logger = kDebug)"
    "ShouldLog kInfo (lg_min_log_level logger) = (LogLevel_int (lg_min_log_level logger) \<le> 1)"
    "ShouldLog kError (lg_min_log_level logger)"
    by (cases "lg_min_log_level logger"; simp add: ShouldLog_def)+
  have new: "\<not> si_completion_logged ?s" "\<not> si_request_logged ?s" "\<not> si_response_logged ?s"
    "si_log_payloads ?s = (case info of None \<Rightarrow> False | Some i \<Rightarrow> ri_type i = UNARY)"
    "si_has_context ?s = (case info of None \<Rightarrow> False | Some i \<Rightarrow> ri_has_context i)"
    "si_rpc_type ?s = (case info of None \<Rightarrow> ''unknown'' | Some i \<Rightarrow> RpcTypeToString (ri_type i))"
    "si_min_log_level ?s = lg_min_log_level logger"
    by (simp_all add: Interceptor_new_def CreateServerInterceptor_def CreateServerLoggingInterceptorCreators_def)
  have completion: "completion_logged ?s status =
      (if status = StatusOK \<and> LogLevel_int (lg_min_log_level logger) > 1 then [] else [status_values ?s status])" for status
    by (cases "status = StatusOK") (simp_all add: completion_logged_def new debug)
  have "map logged_status (events_named ''call_completed'' lines) =
      (case find completes bs of None \<Rightarrow> [] | Some b \<Rightarrow> completion_logged ?s (final_status (si_has_context ?s) b))"
    using intercept_all_completion [OF run] new(1) by simp
  with intercept_all_payloads [OF run] show ?thesis
    unfolding run Let_def prod.case completion status_values_def new by (simp only: debug new simp_thms conj_ac)
qed

definition event_members :: "calendar \<Rightarrow> nat \<Rightarrow> Logger \<Rightarrow> string \<Rightarrow> string \<Rightarrow> (string \<times> string) list \<Rightarrow> (string \<times> json_atom) list" where
  "event_members utc_text now logger severity event fs =
     [(''timestamp'', JString (FormatUtcTimestamp utc_text now)), (''logger_name'', JString (lg_logger_name logger)),
      (''severity'', JString severity), (''event'', JString event)] @ map (\<lambda>(key, v). (key, JString v)) fs"

definition one_json_line :: "string \<Rightarrow> bool" where
  "one_json_line line \<longleftrightarrow>
     list_all (\<lambda>c. 0x20 \<le> char_code c) line \<and> (\<exists>ms. line = log_line ms \<and> read_log_line line = Some ms)"

text \<open>
  C32. No log line can be forged. Every line that a logger or the interceptor writes is one line: it has no
  control character, whatever bytes the event, the keys, the values, the ids and the messages hold; and it
  is read back as the JSON object of exactly the members put into it, in their order. A logger writes a line
  for an event of its level or above and nothing otherwise.
\<close>

theorem log_lines_read_back:
  "map read_log_line (Logger_Debug utc_text now logger event fs) =
     (if lg_min_log_level logger = kDebug then [Some (event_members utc_text now logger ''debug'' event fs)] else []) \<and>
   map read_log_line (Logger_Info utc_text now logger event fs) =
     (if LogLevel_int (lg_min_log_level logger) \<le> 1 then [Some (event_members utc_text now logger ''info'' event fs)] else []) \<and>
   map read_log_line (Logger_Warning utc_text now logger event fs) =
     (if LogLevel_int (lg_min_log_level logger) \<le> 2 then [Some (event_members utc_text now logger ''warning'' event fs)] else []) \<and>
   map read_log_line (Logger_Error utc_text now logger event fs) = [Some (event_members utc_text now logger ''error'' event fs)] \<and>
   list_all one_json_line
     (Logger_Debug utc_text now logger event fs @ Logger_Info utc_text now logger event fs @
      Logger_Warning utc_text now logger event fs @ Logger_Error utc_text now logger event fs @
      snd (intercept_all utc_text bs s))"
proof -
  have line: "one_json_line l" if "is_log_line l" for l
    using that read_log_line log_line_printable by (auto simp: is_log_line_def one_json_line_def list_all_iff)
  have lines: "LogStructured utc_text now level severity (lg_logger_name logger) event fs =
      (if ShouldLog (LogLevelFromSeverity severity) level then [log_line (event_members utc_text now logger severity event fs)] else [])"
    for level severity by (simp add: LogStructured_def event_members_def)
  have members: "event_members utc_text now logger severity event fs \<noteq> []" for severity by (simp add: event_members_def)
  have levels: "ShouldLog kDebug level = (level = kDebug)" "ShouldLog kInfo level = (LogLevel_int level \<le> 1)"
    "ShouldLog kWarning level = (LogLevel_int level \<le> 2)" "ShouldLog kError level" for level
    by (cases level; simp add: ShouldLog_def)+
  note calls = Logger_Debug_def Logger_Info_def Logger_Warning_def Logger_Error_def LogLevelFromSeverity_def lines
  have "is_log_line (log_line (event_members utc_text now logger severity event fs))" for severity
    using members by (auto simp: is_log_line_def)
  then show ?thesis
    using line intercept_all_lines
    by (simp add: calls levels read_log_line members list_all_iff)
qed

section \<open>The registry of loggers\<close>

text \<open>The text of an exception, \<open>what()\<close>.\<close>

fun exception_text :: "cpp_error \<Rightarrow> string" where
  "exception_text (InvalidArgument m) = m"
| "exception_text (RuntimeError m) = m"
| "exception_text (OutOfRange m) = m"

record LoggerRegistry =
  lr_loggers :: "string \<rightharpoonup> Logger"
  lr_default_logger_name :: string

definition LoggerRegistry_empty :: LoggerRegistry where
  "LoggerRegistry_empty = \<lparr>lr_loggers = Map.empty, lr_default_logger_name = []\<rparr>"

definition kBlankLoggerName :: string where
  "kBlankLoggerName = ''blank_logger''"

text \<open>What is logged on the way is the events and their fields, of the logger they go to.\<close>

type_synonym logged_event = "Logger \<times> LogLevel \<times> string \<times> (string \<times> string) list"

definition GetBlankLoggerLocked :: "LoggerRegistry \<Rightarrow> Logger \<times> LoggerRegistry \<times> logged_event list" where
  "GetBlankLoggerLocked r =
     (let (logger, r) =
            (case lr_loggers r kBlankLoggerName of
               None \<Rightarrow> (Logger_new kBlankLoggerName, r\<lparr>lr_loggers := (lr_loggers r)(kBlankLoggerName \<mapsto> Logger_new kBlankLoggerName)\<rparr>)
             | Some logger \<Rightarrow> (logger, r))
      in (logger, r,
          [(logger, kInfo, ''blank_logger_used'',
            [(''blank_logger_name'', kBlankLoggerName), (''reason'', ''logger is not registered yet'')])]))"

definition Registry_Get :: "string \<Rightarrow> LoggerRegistry \<Rightarrow> Logger \<times> LoggerRegistry \<times> logged_event list" where
  "Registry_Get logger_name r =
     (let resolved_logger_name = (if logger_name = [] then lr_default_logger_name r else logger_name) in
      if resolved_logger_name = [] \<or> resolved_logger_name = kBlankLoggerName then GetBlankLoggerLocked r
      else
        (case lr_loggers r resolved_logger_name of
           None \<Rightarrow> GetBlankLoggerLocked r
         | Some logger \<Rightarrow> (logger, r, [])))"

definition Registry_Register :: "Logger option \<Rightarrow> LoggerRegistry \<Rightarrow> LoggerRegistry \<times> logged_event list" where
  "Registry_Register logger r =
     (case logger of
        None \<Rightarrow>
          (case Registry_Get [] r of
             (blank_logger, r, events) \<Rightarrow>
               (r, events @ [(blank_logger, kInfo, ''logger_register_failed'', [(''reason'', ''logger is null'')])]))
      | Some l \<Rightarrow> (r\<lparr>lr_loggers := (lr_loggers r)(lg_logger_name l \<mapsto> l)\<rparr>, []))"

definition Registry_SetDefaultLoggerName :: "string \<Rightarrow> LoggerRegistry \<Rightarrow> LoggerRegistry \<times> logged_event list" where
  "Registry_SetDefaultLoggerName logger_name r =
     (if lr_default_logger_name r \<noteq> [] then
        (let (logger, r', events) =
               (case lr_loggers r (lr_default_logger_name r) of
                  None \<Rightarrow> GetBlankLoggerLocked r
                | Some logger \<Rightarrow> (logger, r, []))
         in (r', events @
               [(logger, kInfo, ''default_logger_name_set_ignored'',
                 [(''default_logger_name'', lr_default_logger_name r), (''logger_name_to_set'', logger_name),
                  (''reason'', ''default logger name is already set'')])]))
      else if lr_loggers r logger_name = None then
        (case GetBlankLoggerLocked r of
           (logger, r, events) \<Rightarrow>
             (r, events @
               [(logger, kError, ''default_logger_name_set_failed'',
                 [(''requested_logger_name'', logger_name), (''reason'', ''logger is not registered'')])]))
      else (r\<lparr>lr_default_logger_name := logger_name\<rparr>, []))"

text \<open>The registry as the process uses it; \<open>ClearForTest\<close> is for the tests.\<close>

definition Registry_ClearForTest :: "LoggerRegistry \<Rightarrow> LoggerRegistry" where
  "Registry_ClearForTest r = r\<lparr>lr_loggers := Map.empty, lr_default_logger_name := []\<rparr>"

inductive registry_step :: "LoggerRegistry \<Rightarrow> LoggerRegistry \<Rightarrow> bool" where
  register: "registry_step r (fst (Registry_Register logger r))"
| set_default: "registry_step r (fst (Registry_SetDefaultLoggerName name r))"
| get_logger: "registry_step r (fst (snd (Registry_Get name r)))"

definition registry_ok :: "LoggerRegistry \<Rightarrow> bool" where
  "registry_ok r \<longleftrightarrow>
     (lr_default_logger_name r \<noteq> [] \<longrightarrow> lr_loggers r (lr_default_logger_name r) \<noteq> None) \<and>
     (\<forall>name l. lr_loggers r name = Some l \<longrightarrow> lg_logger_name l = name)"

lemma GetBlankLogger_facts:
  assumes "registry_ok r" "GetBlankLoggerLocked r = (l, r', events)"
  shows "registry_ok r'" "lr_default_logger_name r' = lr_default_logger_name r" "lr_loggers r \<subseteq>\<^sub>m lr_loggers r'"
    "lg_logger_name l = kBlankLoggerName"
  using assms by (auto simp: GetBlankLoggerLocked_def registry_ok_def Logger_new_def map_le_def split: option.splits if_splits)

lemma registry_step_ok:
  assumes "registry_step r r'" "registry_ok r"
  shows "registry_ok r' \<and> (lr_default_logger_name r \<noteq> [] \<longrightarrow> lr_default_logger_name r' = lr_default_logger_name r)"
proof -
  obtain l rb events where blank: "GetBlankLoggerLocked r = (l, rb, events)" by (cases "GetBlankLoggerLocked r")
  note facts = GetBlankLogger_facts [OF assms(2) blank]
  have get: "registry_ok (fst (snd (Registry_Get name r))) \<and> lr_default_logger_name (fst (snd (Registry_Get name r))) = lr_default_logger_name r" for name
    using facts(1,2) assms(2) by (auto simp: Registry_Get_def Let_def blank split: option.splits)
  from assms(1) show ?thesis
  proof cases
    case (register logger)
    show ?thesis
    proof (cases logger)
      case None
      with get [of "[]"] show ?thesis by (simp add: register Registry_Register_def case_prod_beta)
    next
      case (Some l)
      with assms(2) show ?thesis by (auto simp: register Registry_Register_def registry_ok_def)
    qed
  next
    case (set_default name)
    have "registry_ok (r\<lparr>lr_default_logger_name := name\<rparr>)" if "lr_loggers r name \<noteq> None"
      using that assms(2) by (auto simp: registry_ok_def)
    then show ?thesis
      using facts(1,2) assms(2)
      by (auto simp: set_default Registry_SetDefaultLoggerName_def blank Let_def split: option.splits)
  next
    case (get_logger name)
    with get show ?thesis by simp
  qed
qed

lemma registry_reachable_ok:
  "registry_step\<^sup>*\<^sup>* r r' \<Longrightarrow> registry_ok r \<Longrightarrow>
    registry_ok r' \<and> (lr_default_logger_name r \<noteq> [] \<longrightarrow> lr_default_logger_name r' = lr_default_logger_name r)"
  by (induction rule: rtranclp_induct) (auto dest: registry_step_ok)

lemma registry_ok_empty: "registry_ok LoggerRegistry_empty"
  by (simp add: registry_ok_def LoggerRegistry_empty_def)

text \<open>
  C34. The default logger stays. Once a process has set the name of its default logger, no registration, no
  further attempt to set it and no lookup changes it, and every lookup without a name gives the logger that is
  registered under that name.
\<close>

theorem default_logger_stays:
  assumes "registry_step\<^sup>*\<^sup>* LoggerRegistry_empty r" "registry_step\<^sup>*\<^sup>* r r'"
    and "lr_default_logger_name r = name" "name \<noteq> []"
  shows "lr_default_logger_name r' = name \<and> lr_loggers r' name = Some (fst (Registry_Get [] r')) \<and>
    lg_logger_name (fst (Registry_Get [] r')) = name"
proof -
  have "registry_ok r" using registry_reachable_ok [OF assms(1) registry_ok_empty] by blast
  from registry_reachable_ok [OF assms(2) this] assms(3,4)
  have ok: "registry_ok r'" and name: "lr_default_logger_name r' = name" by auto
  obtain l where l: "lr_loggers r' name = Some l" using ok name assms(4) by (auto simp: registry_ok_def)
  then have "lg_logger_name l = name" using ok by (simp add: registry_ok_def)
  moreover have "fst (Registry_Get [] r') = l"
    using l name assms(4) by (cases "name = kBlankLoggerName") (auto simp: Registry_Get_def GetBlankLoggerLocked_def Let_def)
  ultimately show ?thesis using l name by simp
qed

lemma default_logger_stays_witness:
  "\<exists>r. lr_default_logger_name r = ''svc'' \<and> lg_logger_name (fst (Registry_Get [] r)) = ''svc'' \<and> lr_loggers r ''other'' \<noteq> None"
proof -
  let ?r1 = "fst (Registry_Register (Some (Logger_new ''svc'')) LoggerRegistry_empty)"
  let ?r2 = "fst (Registry_SetDefaultLoggerName ''svc'' ?r1)"
  let ?r3 = "fst (Registry_Register (Some (Logger_new ''other'')) ?r2)"
  have "registry_step LoggerRegistry_empty ?r1" "registry_step ?r1 ?r2" "registry_step ?r2 ?r3" by (rule registry_step.intros)+
  then have "registry_step\<^sup>*\<^sup>* LoggerRegistry_empty ?r2" "registry_step\<^sup>*\<^sup>* ?r2 ?r3" by auto
  moreover have "lr_default_logger_name ?r2 = ''svc''"
    by (simp add: Registry_SetDefaultLoggerName_def Registry_Register_def LoggerRegistry_empty_def Logger_new_def)
  ultimately have "lr_default_logger_name ?r3 = ''svc'' \<and> lr_loggers ?r3 ''svc'' = Some (fst (Registry_Get [] ?r3)) \<and>
      lg_logger_name (fst (Registry_Get [] ?r3)) = ''svc''"
    by (rule default_logger_stays) simp
  moreover have "lr_loggers ?r3 ''other'' \<noteq> None" by (simp add: Registry_Register_def Logger_new_def)
  ultimately show ?thesis by blast
qed

end
