(* ===== verification/ServiceStartup.thy ===== *)
theory ServiceStartup
  imports ServiceFactories StructuredLogger ConfigLoading
begin

text \<open>
  The start of a service, grpc_service_runner.h and the \<open>main\<close> of each service: the configuration is loaded,
  the logger registered, the service created, the server started. Starting the gRPC server is an argument,
  as is the creation of the service. What is logged is the list of events with their loggers.
\<close>

section \<open>Running a service\<close>

text \<open>
  What the start of the process finds: the files, the creation of the service (null is \<open>None\<close>) and whether the
  server with the interceptors for an address and a service starts; \<open>Wait\<close> returns when it is shut down.
\<close>

record 's server_start =
  ss_file_exists :: "string \<Rightarrow> bool"
  ss_cwd :: string
  ss_load_file :: "string \<Rightarrow> string + Yaml"
  ss_create :: "GlobalConfig \<Rightarrow> 's option outcome"
  ss_started :: "InterceptorFactory list \<Rightarrow> string \<Rightarrow> 's \<Rightarrow> bool"

definition EXIT_FAILURE :: int where "EXIT_FAILURE = 1"
definition EXIT_SUCCESS :: int where "EXIT_SUCCESS = 0"

type_synonym startup = "int outcome \<times> GlobalConfig \<times> LoggerRegistry \<times> logged_event list"

text \<open>The handler of exceptions.\<close>

definition startup_failed :: "cpp_error \<Rightarrow> GlobalConfig \<Rightarrow> LoggerRegistry \<Rightarrow> logged_event list \<Rightarrow> startup" where
  "startup_failed ex c r events =
     (case Registry_Get [] r of
        (logger, r, got) \<Rightarrow>
          (return EXIT_FAILURE, c, r,
           events @ got @ [(logger, kError, ''server_startup_failed'', [(''error'', exception_text ex)])]))"

definition register_service_logger ::
  "string \<Rightarrow> GlobalConfig \<Rightarrow> LoggerRegistry \<Rightarrow> unit throws \<times> LoggerRegistry \<times> logged_event list" where
  "register_service_logger service_name c r =
     (case bindE (GetLogLevel c) (\<lambda>level. SetMinLogLevel level (Logger_new service_name)) of
        Inl e \<Rightarrow> (Inl e, r, [])
      | Inr service_logger \<Rightarrow>
          (case Registry_Register (Some service_logger) r of
             (r, registered) \<Rightarrow>
               (case Registry_SetDefaultLoggerName service_name r of (r, named) \<Rightarrow> (Inr (), r, registered @ named))))"

text \<open>From the first event of the service's logger to the end of the server: the outcome and the events.\<close>

definition run_server :: "'s server_start \<Rightarrow> GlobalConfig \<Rightarrow> Logger \<Rightarrow> unit outcome \<times> logged_event list" where
  "run_server start c logger =
     (case GetConfigPath c of
        Inl e \<Rightarrow> (Some (Inl e), [])
      | Inr config_path \<Rightarrow>
          (let events = [(logger, kInfo, ''config_loaded'', [(''config_path'', config_path)])]
           in case LogResolvedConfig c of
                Inl e \<Rightarrow> (Some (Inl e), events)
              | Inr fs \<Rightarrow>
                  (let events = events @ [(logger, kInfo, ''resolved_config'', fs)]
                   in case GetListenAddress c of
                        Inl e \<Rightarrow> (Some (Inl e), events)
                      | Inr server_address \<Rightarrow>
                          (case ss_create start c of
                             None \<Rightarrow> (None, events)
                           | Some (Inl e) \<Rightarrow> (Some (Inl e), events)
                           | Some (Inr None) \<Rightarrow> (throw ''Service factory returned null.'', events)
                           | Some (Inr (Some service)) \<Rightarrow>
                               if \<not> ss_started start (CreateServerLoggingInterceptorCreators logger) server_address service
                               then (throw ''Failed to build and start gRPC server.'', events)
                               else
                                 (return (), events @ [(logger, kInfo, ''server_started'', [(''listen_address'', server_address)])])))))"

definition RunGrpcService :: "'s server_start \<Rightarrow> string \<Rightarrow> string list \<Rightarrow> GlobalConfig \<Rightarrow> LoggerRegistry \<Rightarrow> startup" where
  "RunGrpcService start service_name argv c r =
     (case load_configuration (ss_file_exists start) (ss_cwd start) (ss_load_file start) service_name argv c of
        (Inl e, c) \<Rightarrow> startup_failed e c r []
      | (Inr _, c) \<Rightarrow>
          (case register_service_logger service_name c r of
             (Inl e, r, events) \<Rightarrow> startup_failed e c r events
           | (Inr _, r, events) \<Rightarrow>
               (case Registry_Get [] r of
                  (logger, r, got) \<Rightarrow>
                    (case run_server start c logger of
                       (None, logged) \<Rightarrow> (None, c, r, events @ got @ logged)
                     | (Some (Inl e), logged) \<Rightarrow> startup_failed e c r (events @ got @ logged)
                     | (Some (Inr _), logged) \<Rightarrow> (return EXIT_SUCCESS, c, r, events @ got @ logged)))))"

section \<open>The services\<close>

text \<open>\<open>make_unique\<close> never gives a null pointer.\<close>

definition created :: "'s outcome \<Rightarrow> 's option outcome" where
  "created service = andThen service (\<lambda>s. return (Some s))"

definition gateway_main ::
  "GatewayService server_start \<Rightarrow> (string \<Rightarrow> profile_stub) \<Rightarrow> (string \<Rightarrow> retrieval_stub) \<Rightarrow> (string \<Rightarrow> ranking_stub) \<Rightarrow>
     string list \<Rightarrow> GlobalConfig \<Rightarrow> LoggerRegistry \<Rightarrow> startup" where
  "gateway_main start profile_at retrieval_at ranking_at argv =
     RunGrpcService (start\<lparr>ss_create := \<lambda>c. created (thrown (GatewayService_Create profile_at retrieval_at ranking_at c))\<rparr>)
       ''gateway'' argv"

definition ranking_main ::
  "RankingServiceImpl server_start \<Rightarrow> 'c process \<Rightarrow> (float64 \<Rightarrow> float64) \<Rightarrow> ('c item_document_store \<Rightarrow> item_index_store) \<Rightarrow>
     string list \<Rightarrow> GlobalConfig \<Rightarrow> LoggerRegistry \<Rightarrow> startup" where
  "ranking_main start env log1p as_store argv =
     RunGrpcService (start\<lparr>ss_create := \<lambda>c. created (RankingServiceImpl_Create env log1p as_store c)\<rparr>) ''ranking'' argv"

definition item_cf_main ::
  "RetrieverItemCf server_start \<Rightarrow> 'c process \<Rightarrow> pipeline_command \<Rightarrow> string list \<Rightarrow> GlobalConfig \<Rightarrow> LoggerRegistry \<Rightarrow> startup" where
  "item_cf_main start env exec argv =
     RunGrpcService (start\<lparr>ss_create := \<lambda>c. created (RetrieverItemCf_Create env exec c)\<rparr>) ''retriever_item_cf'' argv"

definition user_cf_main ::
  "RetrieverUserCf server_start \<Rightarrow> 'c process \<Rightarrow> zrevrange_command \<Rightarrow> (string \<Rightarrow> batch_profiles_stub) \<Rightarrow> string list \<Rightarrow>
     GlobalConfig \<Rightarrow> LoggerRegistry \<Rightarrow> startup" where
  "user_cf_main start env zrevrange stub_at argv =
     RunGrpcService (start\<lparr>ss_create := \<lambda>c. created (RetrieverUserCf_Create env zrevrange stub_at c)\<rparr>) ''retriever_user_cf'' argv"

definition orchestrator_main ::
  "RetrievalOrchestrator server_start \<Rightarrow> (string \<Rightarrow> retriever_stub) \<Rightarrow> string list \<Rightarrow> GlobalConfig \<Rightarrow> LoggerRegistry \<Rightarrow> startup" where
  "orchestrator_main start stub_at argv =
     RunGrpcService (start\<lparr>ss_create := \<lambda>c. created (thrown (RetrievalOrchestrator_configured stub_at c))\<rparr>)
       ''retrieval_orchestrator'' argv"

definition profile_main ::
  "'s profile_store server_start \<Rightarrow> 'c process \<Rightarrow> ('c profile_document_store \<Rightarrow> 's profile_store) \<Rightarrow> string list \<Rightarrow>
     GlobalConfig \<Rightarrow> LoggerRegistry \<Rightarrow> startup" where
  "profile_main start env as_store argv =
     RunGrpcService (start\<lparr>ss_create := \<lambda>c. created (ProfileService_Create env as_store c)\<rparr>) ''profile'' argv"

section \<open>What a start logs and returns\<close>

definition event_name :: "logged_event \<Rightarrow> string" where
  "event_name e = (case e of (logger, level, event, fs) \<Rightarrow> event)"

definition event_logger :: "logged_event \<Rightarrow> string" where
  "event_logger e = lg_logger_name (fst e)"

text \<open>The address and the service that a configuration leads to, when everything before the start succeeds.\<close>

definition ready :: "'s server_start \<Rightarrow> GlobalConfig \<Rightarrow> (string \<times> 's) option" where
  "ready start c =
     (case (GetConfigPath c, LogResolvedConfig c, GetListenAddress c, ss_create start c) of
        (Inr _, Inr _, Inr address, Some (Inr (Some service))) \<Rightarrow> Some (address, service)
      | _ \<Rightarrow> None)"

lemma run_server_cases:
  assumes "run_server start c logger = (res, events)"
  shows "res = return () \<longleftrightarrow> (\<exists>address service. ready start c = Some (address, service) \<and>
      ss_started start (CreateServerLoggingInterceptorCreators logger) address service)"
    and "list_all (\<lambda>e. fst e = logger \<and> event_name e \<noteq> ''server_startup_failed'') events"
    and "length (filter (\<lambda>e. event_name e = ''server_started'') events) = of_bool (res = return ())"
  using assms
  by (auto simp: run_server_def ready_def Let_def return_def throw_def event_name_def
      split: sum.splits option.splits if_splits)

text \<open>The registry of a process that has just started.\<close>

lemma register_service_logger_new:
  assumes "service_name \<noteq> []"
  shows "register_service_logger service_name c LoggerRegistry_empty =
    (case bindE (GetLogLevel c) ParseLogLevel of
       Inl e \<Rightarrow> (Inl e, LoggerRegistry_empty, [])
     | Inr level \<Rightarrow>
         (Inr (), \<lparr>lr_loggers = [service_name \<mapsto> \<lparr>lg_logger_name = service_name, lg_min_log_level = level\<rparr>],
                   lr_default_logger_name = service_name\<rparr>, []))"
  using assms
  by (cases "bindE (GetLogLevel c) ParseLogLevel"; cases "GetLogLevel c")
    (simp_all add: register_service_logger_def SetMinLogLevel_def Registry_Register_def Registry_SetDefaultLoggerName_def
      LoggerRegistry_empty_def Logger_new_def)

definition quiet :: "logged_event list \<Rightarrow> bool" where
  "quiet events \<longleftrightarrow> list_all (\<lambda>e. event_name e \<notin> {''server_started'', ''server_startup_failed''}) events"

lemma Registry_Get_named:
  assumes "name \<noteq> []" "lg_logger_name l = name"
  obtains got where "Registry_Get [] \<lparr>lr_loggers = [name \<mapsto> l], lr_default_logger_name = name\<rparr> =
      (l, \<lparr>lr_loggers = [name \<mapsto> l], lr_default_logger_name = name\<rparr>, got)"
    "quiet got" "list_all (\<lambda>e. event_logger e = name) got"
  using assms
  by (cases "name = kBlankLoggerName")
    (auto simp: Registry_Get_def GetBlankLoggerLocked_def Let_def quiet_def event_name_def event_logger_def)

lemma Registry_Get_empty:
  obtains r got where "Registry_Get [] LoggerRegistry_empty = (Logger_new kBlankLoggerName, r, got)"
    "quiet got" "list_all (\<lambda>e. event_logger e = kBlankLoggerName) got"
  by (auto simp: Registry_Get_def LoggerRegistry_empty_def GetBlankLoggerLocked_def Let_def quiet_def event_name_def
      event_logger_def Logger_new_def)

text \<open>The outcome and the events, with the name of the logger they all go to.\<close>

definition start_events :: "string \<Rightarrow> startup \<Rightarrow> bool" where
  "start_events name result =
     (case result of (res, c, r, events) \<Rightarrow>
        list_all (\<lambda>e. event_logger e = name) events \<and>
        length (filter (\<lambda>e. event_name e = ''server_started'') events) = of_bool (res = return EXIT_SUCCESS) \<and>
        length (filter (\<lambda>e. event_name e = ''server_startup_failed'') events) = of_bool (res = return EXIT_FAILURE) \<and>
        (res = None \<or> res = return EXIT_SUCCESS \<or> res = return EXIT_FAILURE))"

lemma quiet_filter:
  "quiet events \<Longrightarrow> filter (\<lambda>e. event_name e = ''server_started'') events = [] \<and>
     filter (\<lambda>e. event_name e = ''server_startup_failed'') events = []"
  by (auto simp: quiet_def list_all_iff filter_empty_conv)

lemma exit_codes [simp]: "EXIT_SUCCESS \<noteq> EXIT_FAILURE" "EXIT_FAILURE \<noteq> EXIT_SUCCESS"
  "return EXIT_SUCCESS \<noteq> return EXIT_FAILURE" "None \<noteq> return x" "return x \<noteq> None"
  by (simp_all add: return_def EXIT_SUCCESS_def EXIT_FAILURE_def)

lemma startup_failed_events:
  assumes "Registry_Get [] r = (logger, r', got)" "quiet got"
    and "filter (\<lambda>e. event_name e = ''server_started'') events = []"
      "filter (\<lambda>e. event_name e = ''server_startup_failed'') events = []"
    and "list_all (\<lambda>e. event_logger e = name) (events @ got)" "lg_logger_name logger = name"
  shows "start_events name (startup_failed ex c r events)" "fst (startup_failed ex c r events) = return EXIT_FAILURE"
  using assms(3-6) quiet_filter [OF assms(2)] exit_codes(3) [symmetric]
  by (simp_all add: startup_failed_def assms(1) start_events_def event_name_def [of "(_, _, _)"] event_logger_def [of "(_, _)"])

text \<open>
  C36. The start of a process. The service comes up and \<open>EXIT_SUCCESS\<close> is returned at the end exactly when the
  configuration loads, its log level is one, the service is created and the gRPC server starts with the
  interceptors of a logger of the service's name and level at the configured address; no exception leaves
  \<open>main\<close>. Success logs one \<open>server_started\<close> and failure one \<open>server_startup_failed\<close>, never both. Once
  the configuration is loaded with its level, all events go to the service's logger, else to the blank one.
\<close>

theorem server_startup:
  "let result = RunGrpcService start service_name argv c LoggerRegistry_empty;
       loaded = load_configuration (ss_file_exists start) (ss_cwd start) (ss_load_file start) service_name argv c;
       level = bindE (fst loaded) (\<lambda>_. bindE (GetLogLevel (snd loaded)) ParseLogLevel)
   in start_events (case level of Inl e \<Rightarrow> kBlankLoggerName | Inr l \<Rightarrow> service_name) result \<and>
      (fst result = return EXIT_SUCCESS \<longleftrightarrow>
         (\<exists>l address service. level = Inr l \<and> ready start (snd loaded) = Some (address, service) \<and>
            ss_started start [\<lparr>if_logger_name = service_name, if_min_log_level = l\<rparr>] address service))"
proof -
  obtain res0 c1 where loaded:
    "load_configuration (ss_file_exists start) (ss_cwd start) (ss_load_file start) service_name argv c = (res0, c1)" by fastforce
  obtain r0 got0 where blank: "Registry_Get [] LoggerRegistry_empty = (Logger_new kBlankLoggerName, r0, got0)"
    "quiet got0" "list_all (\<lambda>e. event_logger e = kBlankLoggerName) got0" by (rule Registry_Get_empty)
  have failed: "start_events kBlankLoggerName (startup_failed ex c1 LoggerRegistry_empty [])"
    "fst (startup_failed ex c1 LoggerRegistry_empty []) = return EXIT_FAILURE" for ex
    using blank by (auto intro!: startup_failed_events simp: quiet_def Logger_new_def)
  show ?thesis
  proof (cases res0)
    case (Inl e)
    then show ?thesis using failed by (simp add: RunGrpcService_def loaded)
  next
    case (Inr u)
    have name: "service_name \<noteq> []"
      using loaded Inr by (auto simp: load_configuration_def GlobalConfig_Initialize_def)
    note register = register_service_logger_new [OF name, of c1]
    show ?thesis
    proof (cases "bindE (GetLogLevel c1) ParseLogLevel")
      case (Inl e)
      then have "GetLogLevel c1 = Inr x \<Longrightarrow> ParseLogLevel x \<noteq> Inr l" for x l by auto
      then show ?thesis using failed Inl by (simp add: RunGrpcService_def loaded register \<open>res0 = Inr u\<close>)
    next
      case level: (Inr l)
      let ?logger = "\<lparr>lg_logger_name = service_name, lg_min_log_level = l\<rparr>"
      let ?r = "\<lparr>lr_loggers = [service_name \<mapsto> ?logger], lr_default_logger_name = service_name\<rparr>"
      obtain got where got: "Registry_Get [] ?r = (?logger, ?r, got)" "quiet got" "list_all (\<lambda>e. event_logger e = service_name) got"
        using Registry_Get_named [OF name, of ?logger] by auto
      obtain res events where run: "run_server start c1 ?logger = (res, events)" by fastforce
      note facts = run_server_cases [OF run]
      have events: "list_all (\<lambda>e. event_logger e = service_name) events"
        "filter (\<lambda>e. event_name e = ''server_startup_failed'') events = []"
        using facts(2) by (auto simp: list_all_iff event_logger_def filter_empty_conv)
      have ready: "res = return () \<longleftrightarrow> (\<exists>address service. ready start c1 = Some (address, service) \<and>
          ss_started start [\<lparr>if_logger_name = service_name, if_min_log_level = l\<rparr>] address service)"
        using facts(1) by (simp add: CreateServerLoggingInterceptorCreators_def)
      have "start_events service_name (RunGrpcService start service_name argv c LoggerRegistry_empty) \<and>
          (fst (RunGrpcService start service_name argv c LoggerRegistry_empty) = return EXIT_SUCCESS \<longleftrightarrow> res = return ())"
      proof (cases "\<exists>e. res = Some (Inl e)")
        case True
        then obtain e where e: "res = Some (Inl e)" ..
        have "filter (\<lambda>e. event_name e = ''server_started'') events = []" using facts(3) by (simp add: e return_def)
        then have "start_events service_name (startup_failed e c1 ?r (got @ events))"
          "fst (startup_failed e c1 ?r (got @ events)) = return EXIT_FAILURE"
          using got(3) events quiet_filter [OF got(2)] startup_failed_events [OF got(1,2), of "got @ events" service_name e c1]
          by simp_all
        then show ?thesis
          by (simp add: RunGrpcService_def loaded register level \<open>res0 = Inr u\<close> got run e) (simp add: return_def)
      next
        case False
        then have "res = None \<or> res = return ()" by (cases res; cases "the res") (auto simp: return_def)
        then show ?thesis
          using got(3) events facts(3) quiet_filter [OF got(2)]
          by (auto simp: RunGrpcService_def loaded register level \<open>res0 = Inr u\<close> got(1) run start_events_def return_def)
      qed
      moreover have "GetLogLevel c1 = Inr x \<and> ParseLogLevel x = Inr l' \<longleftrightarrow> GetLogLevel c1 = Inr x \<and> l' = l" for x l'
        using level by auto
      moreover have "\<exists>x. GetLogLevel c1 = Inr x" using level by auto
      ultimately show ?thesis using ready by (simp add: loaded \<open>res0 = Inr u\<close> level)
    qed
  qed
qed

end
