(* ===== verification/CommandLine.thy ===== *)
theory CommandLine
  imports StructuredLogger JsonParser
begin

text \<open>
  What the command line clients of src/src/clients share (common.cpp): exit codes, the text they print,
  integers of the command line, the loop over the options that \<open>getopt_long\<close> finds, and one call of a
  service. What a client prints is a string; the clocks and the calendar, \<open>getopt_long\<close>, the printer of
  messages and the services are arguments.
\<close>

section \<open>Exit codes and output\<close>

datatype ClientExitCode = kOk | kErr | kArgs

definition newline :: string where
  "newline = [CHR 0x0A]"

definition print_line :: "string \<Rightarrow> string" where
  "print_line v = v @ newline"

definition print_field :: "string \<Rightarrow> string \<Rightarrow> string" where
  "print_field name v = print_line (''  '' @ name @ '': '' @ v)"

definition bool_text :: "bool \<Rightarrow> string" where
  "bool_text b = (if b then ''true'' else ''false'')"

definition password_text :: "string \<Rightarrow> string" where
  "password_text password = (if password = [] then ''<empty>'' else ''<set>'')"

text \<open>
  \<open>operator<<\<close> of a \<open>double\<close>: \<open>%g\<close> with six significant digits, the exact value rounded to nearest, without
  trailing zeros, in scientific notation below \<open>10 ^ -4\<close> and from \<open>10 ^ 6\<close>.
\<close>

definition decimal_exponent :: "rat \<Rightarrow> int" where
  "decimal_exponent q =
     (if 1 \<le> q then int (length (show_nat (nat \<lfloor>q\<rfloor>))) - 1 else - int (length (show_nat (nat (\<lceil>1 / q\<rceil> - 1)))))"

definition six_significant :: "rat \<Rightarrow> nat \<times> int" where
  "six_significant q =
     (let x = decimal_exponent q; n = nat (rint (q * (if x \<le> 5 then 10 ^ nat (5 - x) else 1 / 10 ^ nat (x - 5))))
      in if n = 1000000 then (100000, x + 1) else (n, x))"

definition without_zeros :: "string \<Rightarrow> string" where
  "without_zeros ds = rev (dropWhile (\<lambda>c. c = CHR ''0'') (rev ds))"

definition with_fraction :: "string \<Rightarrow> string \<Rightarrow> string" where
  "with_fraction whole fraction =
     (let kept = without_zeros fraction in if kept = [] then whole else whole @ ''.'' @ kept)"

definition two_digits :: "nat \<Rightarrow> string" where
  "two_digits n = (if n < 10 then ''0'' else []) @ show_nat n"

definition print_positive :: "rat \<Rightarrow> string" where
  "print_positive q =
     (let (n, x) = six_significant q; ds = show_nat n
      in if x < -4 \<or> 6 \<le> x
         then with_fraction (take 1 ds) (drop 1 ds) @ ''e'' @ (if x < 0 then ''-'' else ''+'') @ two_digits (nat \<bar>x\<bar>)
         else if 0 \<le> x then with_fraction (take (nat x + 1) ds) (drop (nat x + 1) ds)
         else with_fraction ''0'' (replicate (nat (- x) - 1) (CHR ''0'') @ ds))"

fun print_double :: "double \<Rightarrow> string" where
  "print_double NegativeZero = ''-0''"
| "print_double (Plain (Fin q)) =
     (if q = 0 then ''0'' else if q < 0 then ''-'' @ print_positive (- q) else print_positive q)"
| "print_double (Plain PInf) = ''inf''"
| "print_double (Plain NInf) = ''-inf''"
| "print_double (Plain NaN) = ''nan''"

section \<open>Integers of the command line\<close>

text \<open>
  \<open>stoi\<close> and \<open>stoll\<close> in base 10: blanks, a sign, the longest run of digits; what follows is not looked at.
\<close>

definition strtol_value :: "string \<Rightarrow> int option" where
  "strtol_value cs =
     (let body = dropWhile is_space cs;
          neg = (take 1 body = ''-'');
          digits = takeWhile is_digit (if neg \<or> take 1 body = ''+'' then drop 1 body else body)
      in if digits = [] then None else Some (if neg then - int (digits_val digits) else int (digits_val digits)))"

definition stoi_within :: "int \<Rightarrow> int \<Rightarrow> string \<Rightarrow> int throws" where
  "stoi_within lo hi cs =
     (case strtol_value cs of
        None \<Rightarrow> Inl (InvalidArgument ''stoi'')
      | Some i \<Rightarrow> if i < lo \<or> hi < i then Inl (OutOfRange ''stoi'') else Inr i)"

definition ParseIntArg :: "string \<Rightarrow> string \<Rightarrow> int option \<times> string" where
  "ParseIntArg arg name =
     (case stoi_within int_min int_max arg of
        Inr i \<Rightarrow> (Some i, [])
      | Inl (OutOfRange _) \<Rightarrow> (None, print_line (''Error: '' @ name @ '' is out of range: '' @ arg))
      | Inl _ \<Rightarrow> (None, print_line (''Error: '' @ name @ '' is not a valid integer: '' @ arg)))"

definition ParseInt64Arg :: "string \<Rightarrow> string \<Rightarrow> int64 option \<times> string" where
  "ParseInt64Arg arg name =
     (case stoi_within (- 9223372036854775808) 9223372036854775807 arg of
        Inr i \<Rightarrow> (Some (of_int i), [])
      | Inl (OutOfRange _) \<Rightarrow> (None, print_line (''Error: '' @ name @ '' is out of range: '' @ arg))
      | Inl _ \<Rightarrow> (None, print_line (''Error: '' @ name @ '' is not a valid integer: '' @ arg)))"

section \<open>Times and calls\<close>

definition BuildTarget :: "string \<Rightarrow> string \<Rightarrow> string" where
  "BuildTarget host port = host @ '':'' @ port"

definition PrintTimestampUtc :: "calendar \<Rightarrow> nat \<Rightarrow> string \<Rightarrow> string" where
  "PrintTimestampUtc utc_text now label = print_line (label @ '': '' @ utc_text now @ ''Z'')"

definition PrintRunStartedAtUtc :: "calendar \<Rightarrow> nat \<Rightarrow> string" where
  "PrintRunStartedAtUtc utc_text now = PrintTimestampUtc utc_text now ''Run started at UTC''"

definition PrintRpcElapsed :: "string \<Rightarrow> int \<Rightarrow> string" where
  "PrintRpcElapsed rpc_name elapsed_ms = print_line (rpc_name @ '' RPC elapsed: '' @ show_int elapsed_ms @ '' ms'')"

definition PrintRpcFailure :: "grpc_status \<Rightarrow> string" where
  "PrintRpcFailure status =
     print_line (''RPC failed: '' @ show_int (status_code_int status) @ '', '' @ error_message status)"

section \<open>Options\<close>

text \<open>
  \<open>getopt_long\<close> is given the short options, the long ones and the arguments; it gives the options it finds,
  each with its argument (empty where it has none), up to the one for which it returns -1.
\<close>

record LongOption =
  lo_name :: string
  lo_has_arg :: bool
  lo_val :: int

type_synonym getopt_long = "string \<Rightarrow> LongOption list \<Rightarrow> string list \<Rightarrow> (int \<times> string) list"

definition opt_char :: "char \<Rightarrow> int" where
  "opt_char c = of_char c"

abbreviation no_argument :: "string \<Rightarrow> char \<Rightarrow> LongOption" where
  "no_argument name c \<equiv> \<lparr>lo_name = name, lo_has_arg = False, lo_val = opt_char c\<rparr>"

abbreviation required_argument :: "string \<Rightarrow> char \<Rightarrow> LongOption" where
  "required_argument name c \<equiv> \<lparr>lo_name = name, lo_has_arg = True, lo_val = opt_char c\<rparr>"

text \<open>The loop: an option changes the configuration, or ends the parsing; with what is printed.\<close>

type_synonym 'c parsed = "'c option \<times> string"

fun parse_options :: "(int \<Rightarrow> string \<Rightarrow> 'c \<Rightarrow> 'c parsed) \<Rightarrow> (int \<times> string) list \<Rightarrow> 'c \<Rightarrow> 'c parsed" where
  "parse_options step [] config = (Some config, [])"
| "parse_options step ((opt, optarg) # opts) config =
     (case step opt optarg config of
        (None, out) \<Rightarrow> (None, out)
      | (Some config, out) \<Rightarrow> (case parse_options step opts config of (r, out') \<Rightarrow> (r, out @ out')))"

definition set_parsed :: "'v option \<times> string \<Rightarrow> ('v \<Rightarrow> 'c) \<Rightarrow> 'c parsed" where
  "set_parsed p update = (case p of (None, out) \<Rightarrow> (None, out) | (Some v, out) \<Rightarrow> (Some (update v), out))"

lemma parse_options_append:
  "parse_options step (os @ os') config =
     (case parse_options step os config of
        (None, out) \<Rightarrow> (None, out)
      | (Some config, out) \<Rightarrow> (case parse_options step os' config of (r, out') \<Rightarrow> (r, out @ out')))"
  by (induction step os config rule: parse_options.induct) (auto split: prod.splits option.splits)

lemma parse_options_invariant:
  assumes "\<And>opt arg c c' out. P c \<Longrightarrow> step opt arg c = (Some c', out) \<Longrightarrow> P c'" "P config"
    and "parse_options step os config = (Some config', out)"
  shows "P config'"
  using assms(3,2,1)
proof (induction os arbitrary: config out)
  case (Cons o' os)
  then show ?case by (cases o') (auto split: prod.splits option.splits)
qed simp

section \<open>One call, and one call for each user\<close>

text \<open>
  What a client of a service sees of the world: the calendar; for its calls in order the seconds at which
  they start and end and their milliseconds; the generated ids; the answer of the service; the printed
  messages.
\<close>

record ('q, 's) rpc_world =
  rw_utc_text :: calendar
  rw_run_started :: nat
  rw_started :: "nat \<Rightarrow> nat"
  rw_received :: "nat \<Rightarrow> nat"
  rw_elapsed :: "nat \<Rightarrow> int"
  rw_guid :: "nat \<Rightarrow> string"
  rw_show_request :: "'q \<Rightarrow> string"
  rw_show_response :: "'s \<Rightarrow> string"
  rw_answer :: "nat \<Rightarrow> 'q \<Rightarrow> grpc_status \<times> 's"

definition call_service :: "('q, 's) rpc_world \<Rightarrow> string \<Rightarrow> nat \<Rightarrow> 'q \<Rightarrow> bool \<times> string" where
  "call_service w rpc_name i request =
     (case rw_answer w i request of
        (status, response) \<Rightarrow>
          (status_ok status,
           print_line (rpc_name @ '' request:'') @ print_line (rw_show_request w request) @
           PrintTimestampUtc (rw_utc_text w) (rw_started w i) (rpc_name @ '' request started at UTC'') @
           PrintTimestampUtc (rw_utc_text w) (rw_received w i) (rpc_name @ '' response received at UTC'') @
           PrintRpcElapsed rpc_name (rw_elapsed w i) @
           print_line (rpc_name @ '' response:'') @ print_line (rw_show_response w response) @
           (if \<not> status_ok status then PrintRpcFailure status else [])))"

text \<open>
  The loop of a client's \<open>main\<close>: the outcome (an exit code, an exception that leaves \<open>main\<close>, or undefined),
  what is printed and the requests sent.
\<close>

type_synonym 'q run = "ClientExitCode outcome \<times> string \<times> 'q list"

fun run_users ::
  "('u \<Rightarrow> string) \<Rightarrow> (nat \<Rightarrow> 'u \<Rightarrow> bool outcome \<times> string \<times> 'q list) \<Rightarrow> nat \<Rightarrow> 'u list \<Rightarrow> 'q run" where
  "run_users banner launch i [] = (return kOk, [], [])"
| "run_users banner launch i (u # us) =
     (case launch i u of
        (None, out, sent) \<Rightarrow> (None, banner u @ out, sent)
      | (Some (Inl e), out, sent) \<Rightarrow> (Some (Inl e), banner u @ out, sent)
      | (Some (Inr ok), out, sent) \<Rightarrow>
          if \<not> ok then (return kErr, banner u @ out, sent)
          else
            (case run_users banner launch (Suc i) us of
               (end_code, out', sent') \<Rightarrow> (end_code, banner u @ out @ out', sent @ sent')))"

definition run_parsed :: "'c parsed \<Rightarrow> ('c \<Rightarrow> string) \<Rightarrow> ('c \<Rightarrow> 'q run) \<Rightarrow> 'q run" where
  "run_parsed p header body =
     (case p of
        (None, out) \<Rightarrow> (return kArgs, out, [])
      | (Some config, out) \<Rightarrow>
          (case body config of (end_code, out', sent) \<Rightarrow> (end_code, out @ header config @ out', sent)))"

section \<open>The contract of a call for a user\<close>

text \<open>
  A launched call either sends nothing and does not succeed, or it sends one request about its user and
  succeeds exactly when that is accepted.
\<close>

locale launches_one =
  fixes launch :: "nat \<Rightarrow> 'u \<Rightarrow> bool outcome \<times> string \<times> 'q list"
    and about :: "'q \<Rightarrow> 'u"
    and accepted :: "nat \<Rightarrow> 'q \<Rightarrow> bool"
  assumes launched: "launch i u = (ok, out, sent) \<Longrightarrow>
    (sent = [] \<and> ok \<noteq> return True) \<or> (\<exists>q. sent = [q] \<and> about q = u \<and> ok = return (accepted i q))"
begin

lemma run_users_in_order:
  assumes "run_users banner launch i us = (end_code, out, sent)"
  shows "map about sent = take (length sent) us"
    and "end_code = return kOk \<longleftrightarrow> length sent = length us \<and> list_all (\<lambda>(j, q). accepted j q) (enumerate i sent)"
    and "list_all (\<lambda>(j, q). accepted j q) (butlast (enumerate i sent))"
    and "end_code \<noteq> return kArgs"
proof -
  have "map about sent = take (length sent) us \<and>
      (end_code = return kOk \<longleftrightarrow> length sent = length us \<and> list_all (\<lambda>(j, q). accepted j q) (enumerate i sent)) \<and>
      list_all (\<lambda>(j, q). accepted j q) (butlast (enumerate i sent)) \<and> end_code \<noteq> return kArgs"
    using assms
  proof (induction us arbitrary: i out sent end_code)
    case Nil
    then show ?case by (auto simp: return_def)
  next
    case (Cons u us)
    obtain ok out1 sent1 where launch: "launch i u = (ok, out1, sent1)" by (metis prod_cases3)
    show ?case
    proof (cases "ok = return True")
      case True
      then obtain q where q: "sent1 = [q]" "about q = u" "accepted i q" using launched [OF launch] by (auto simp: return_def)
      obtain e out2 sent2 where rest: "run_users banner launch (Suc i) us = (e, out2, sent2)" by (metis prod_cases3)
      then have "sent = q # sent2" "end_code = e" using Cons.prems True q by (auto simp: launch return_def)
      with Cons.IH [OF rest] q show ?thesis by (cases sent2) auto
    next
      case False
      from launched [OF launch] have some: "sent1 = [] \<or> (\<exists>q. sent1 = [q] \<and> about q = u \<and> \<not> accepted i q)"
        using False by (auto simp: return_def)
      have "sent = sent1 \<and> end_code \<noteq> return kOk \<and> end_code \<noteq> return kArgs"
        using Cons.prems False by (auto simp: launch return_def split: option.splits sum.splits if_splits)
      with some show ?thesis by auto
    qed
  qed
  then show "map about sent = take (length sent) us"
    "end_code = return kOk \<longleftrightarrow> length sent = length us \<and> list_all (\<lambda>(j, q). accepted j q) (enumerate i sent)"
    "list_all (\<lambda>(j, q). accepted j q) (butlast (enumerate i sent))" "end_code \<noteq> return kArgs" by simp_all
qed

end

text \<open>
  The whole client: it does not start its calls when its options are refused; otherwise it asks about a
  non-empty list of users in order, each request but the last one sent was accepted, and it succeeds exactly
  when all were sent and accepted.
\<close>

definition asks_in_order :: "('q \<Rightarrow> 'u) \<Rightarrow> (nat \<Rightarrow> 'q \<Rightarrow> bool) \<Rightarrow> 'u list option \<Rightarrow> 'q run \<Rightarrow> bool" where
  "asks_in_order about accepted users r =
     (case r of (end_code, out, sent) \<Rightarrow>
        (case users of
           None \<Rightarrow> end_code = return kArgs \<and> sent = []
         | Some us \<Rightarrow>
             us \<noteq> [] \<and> map about sent = take (length sent) us \<and>
             list_all (\<lambda>(j, q). accepted j q) (butlast (enumerate 0 sent)) \<and>
             (end_code = return kOk \<longleftrightarrow> length sent = length us \<and> list_all (\<lambda>(j, q). accepted j q) (enumerate 0 sent)) \<and>
             end_code \<noteq> return kArgs))"

lemma asks_in_order_parsed:
  assumes "\<And>config out. p = (Some config, out) \<Longrightarrow> asks_in_order about accepted (Some (users config)) (body config)"
  shows "asks_in_order about accepted (map_option users (fst p)) (run_parsed p header body)"
  using assms
  by (cases p; cases "fst p") (auto simp: run_parsed_def asks_in_order_def split: prod.splits)

context launches_one
begin

lemma users_in_order: "us \<noteq> [] \<Longrightarrow> asks_in_order about accepted (Some us) (run_users banner launch 0 us)"
  using run_users_in_order [of banner 0 us] by (cases "run_users banner launch 0 us") (simp add: asks_in_order_def)

end

definition answered_ok :: "('q, 's) rpc_world \<Rightarrow> nat \<Rightarrow> 'q \<Rightarrow> bool" where
  "answered_ok w i request = status_ok (fst (rw_answer w i request))"

lemma call_service_ok: "fst (call_service w rpc_name i request) = answered_ok w i request"
  by (simp add: call_service_def answered_ok_def case_prod_beta)

lemma call_service_cases:
  "call_service w rpc_name i request = (ok, out) \<Longrightarrow> ok = answered_ok w i request"
  using call_service_ok [of w rpc_name i request] by simp

end
