(* ===== verification/RpcClients.thy ===== *)
theory RpcClients
  imports CommandLine ProfileStores
begin

text \<open>
  The command line clients of the services: recommendation_engine_client.cpp,
  recommendation_engine_profile_client.cpp, recommendation_engine_retrieval_client.cpp,
  recommendation_engine_retriever_client.cpp, recommendation_engine_ranking_client.cpp and
  weather_forecast_fetcher_client.cpp. Each parses its options, prints its configuration and sends one
  request for each user, in order, up to the first failure.
\<close>

section \<open>The client of the gateway\<close>

record RecommendConfig =
  rcc_ip :: string
  rcc_port :: string
  rcc_user_ids :: "int list"
  rcc_max_results :: int

definition kDefaultUserId :: int where
  "kDefaultUserId = 85566"

definition RecommendConfig_new :: RecommendConfig where
  "RecommendConfig_new = \<lparr>rcc_ip = ''127.0.0.1'', rcc_port = ''50000'', rcc_user_ids = [], rcc_max_results = 20\<rparr>"

definition Recommend_PrintUsage :: string where
  "Recommend_PrintUsage =
     print_line ''Usage: recommendation_engine_client [options]'' @
     print_line ''Options:'' @
     print_line ''  -h, --help              Show this help message'' @
     print_line ''  -i, --ip <IP>           Set server IP (default: 127.0.0.1)'' @
     print_line ''  -p, --port <PORT>       Set server port (default: 50000)'' @
     print_line ''  -u, --user-id <USER_ID> Add user ID to recommend (repeatable; default: {85566})'' @
     print_line ''  -m, --max-results <N>   Set max results per request (default: 20)''"

definition Recommend_long_options :: "LongOption list" where
  "Recommend_long_options =
     [no_argument ''help'' (CHR ''h''), required_argument ''ip'' (CHR ''i''), required_argument ''port'' (CHR ''p''),
      required_argument ''user-id'' (CHR ''u''), required_argument ''max-results'' (CHR ''m'')]"

definition Recommend_option :: "int \<Rightarrow> string \<Rightarrow> RecommendConfig \<Rightarrow> RecommendConfig parsed" where
  "Recommend_option opt optarg config =
     (if opt = opt_char (CHR ''h'') then (None, Recommend_PrintUsage)
      else if opt = opt_char (CHR ''i'') then (Some (config\<lparr>rcc_ip := optarg\<rparr>), [])
      else if opt = opt_char (CHR ''p'') then (Some (config\<lparr>rcc_port := optarg\<rparr>), [])
      else if opt = opt_char (CHR ''u'')
      then set_parsed (ParseIntArg optarg ''user_id'') (\<lambda>user_id. config\<lparr>rcc_user_ids := rcc_user_ids config @ [user_id]\<rparr>)
      else if opt = opt_char (CHR ''m'')
      then set_parsed (ParseIntArg optarg ''max_results'') (\<lambda>v. config\<lparr>rcc_max_results := v\<rparr>)
      else (None, Recommend_PrintUsage))"

definition Recommend_ParseArgs :: "getopt_long \<Rightarrow> string list \<Rightarrow> RecommendConfig parsed" where
  "Recommend_ParseArgs getopt args =
     (case parse_options Recommend_option (getopt ''hi:p:u:m:'' Recommend_long_options args) RecommendConfig_new of
        (None, out) \<Rightarrow> (None, out)
      | (Some config, out) \<Rightarrow>
          (Some (if rcc_user_ids config = [] then config\<lparr>rcc_user_ids := [kDefaultUserId]\<rparr> else config), out))"

definition print_ids :: "string list \<Rightarrow> string" where
  "print_ids ids = concat (map (\<lambda>i. '' '' @ i) ids)"

definition Recommend_PrintConfig :: "RecommendConfig \<Rightarrow> string" where
  "Recommend_PrintConfig config =
     print_line ''Client config:'' @
     print_field ''ip'' (rcc_ip config) @ print_field ''port'' (rcc_port config) @
     print_field ''target'' (BuildTarget (rcc_ip config) (rcc_port config)) @
     print_line (''  user_ids:'' @ print_ids (map show_int (rcc_user_ids config))) @
     print_field ''max_results'' (show_int (rcc_max_results config)) @ newline"

definition Recommend_launch_request ::
  "(RecommendRequest, 's) rpc_world \<Rightarrow> int \<Rightarrow> nat \<Rightarrow> int \<Rightarrow> bool outcome \<times> string \<times> RecommendRequest list" where
  "Recommend_launch_request w max_results i user_id =
     (let request = \<lparr>req_trace_id = rw_guid w (2 * i), req_request_id = rw_guid w (2 * i + 1),
                     req_user_id = user_id, req_max_results = max_results\<rparr>
      in case call_service w ''Recommend'' i request of (ok, out) \<Rightarrow> (return ok, out, [request]))"

definition Recommend_main ::
  "(RecommendRequest, 's) rpc_world \<Rightarrow> getopt_long \<Rightarrow> string list \<Rightarrow> RecommendRequest run" where
  "Recommend_main w getopt args =
     run_parsed (Recommend_ParseArgs getopt args)
       (\<lambda>config. PrintRunStartedAtUtc (rw_utc_text w) (rw_run_started w) @ Recommend_PrintConfig config)
       (\<lambda>config. run_users (\<lambda>user_id. print_line (''Launching Recommend for user: '' @ show_int user_id))
          (Recommend_launch_request w (rcc_max_results config)) 0 (rcc_user_ids config))"

section \<open>The client of the profile service\<close>

record ProfileClientConfig =
  pcc_ip :: string
  pcc_port :: string
  pcc_user_ids :: "int list"

definition ProfileClientConfig_new :: ProfileClientConfig where
  "ProfileClientConfig_new = \<lparr>pcc_ip = ''127.0.0.1'', pcc_port = ''50100'', pcc_user_ids = []\<rparr>"

definition ProfileClient_PrintUsage :: string where
  "ProfileClient_PrintUsage =
     print_line ''Usage: profile_client [options]'' @
     print_line ''Options:'' @
     print_line ''  -h, --help              Show this help message'' @
     print_line ''  -i, --ip <IP>           Set server IP (default: 127.0.0.1)'' @
     print_line ''  -p, --port <PORT>       Set server port (default: 50100)'' @
     print_line ''  -u, --user-id <USER_ID> Add user ID to query (repeatable; default: {85566})''"

definition ProfileClient_long_options :: "LongOption list" where
  "ProfileClient_long_options =
     [no_argument ''help'' (CHR ''h''), required_argument ''ip'' (CHR ''i''), required_argument ''port'' (CHR ''p''),
      required_argument ''user-id'' (CHR ''u'')]"

definition ProfileClient_option :: "int \<Rightarrow> string \<Rightarrow> ProfileClientConfig \<Rightarrow> ProfileClientConfig parsed" where
  "ProfileClient_option opt optarg config =
     (if opt = opt_char (CHR ''h'') then (None, ProfileClient_PrintUsage)
      else if opt = opt_char (CHR ''i'') then (Some (config\<lparr>pcc_ip := optarg\<rparr>), [])
      else if opt = opt_char (CHR ''p'') then (Some (config\<lparr>pcc_port := optarg\<rparr>), [])
      else if opt = opt_char (CHR ''u'')
      then set_parsed (ParseIntArg optarg ''user_id'') (\<lambda>user_id. config\<lparr>pcc_user_ids := pcc_user_ids config @ [user_id]\<rparr>)
      else (None, ProfileClient_PrintUsage))"

definition ProfileClient_ParseArgs :: "getopt_long \<Rightarrow> string list \<Rightarrow> ProfileClientConfig parsed" where
  "ProfileClient_ParseArgs getopt args =
     (case parse_options ProfileClient_option (getopt ''hi:p:u:'' ProfileClient_long_options args) ProfileClientConfig_new of
        (None, out) \<Rightarrow> (None, out)
      | (Some config, out) \<Rightarrow>
          (Some (if pcc_user_ids config = [] then config\<lparr>pcc_user_ids := [kDefaultUserId]\<rparr> else config), out))"

definition ProfileClient_PrintConfig :: "ProfileClientConfig \<Rightarrow> string" where
  "ProfileClient_PrintConfig config =
     print_line ''Client config:'' @
     print_field ''ip'' (pcc_ip config) @ print_field ''port'' (pcc_port config) @
     print_field ''target'' (BuildTarget (pcc_ip config) (pcc_port config)) @
     print_line (''  user_ids:'' @ print_ids (map show_int (pcc_user_ids config))) @ newline"

definition ProfileClient_launch_request ::
  "(GetProfileRequest, 's) rpc_world \<Rightarrow> nat \<Rightarrow> int \<Rightarrow> bool outcome \<times> string \<times> GetProfileRequest list" where
  "ProfileClient_launch_request w i user_id =
     (let request = \<lparr>gpq_trace_id = rw_guid w (2 * i), gpq_request_id = rw_guid w (2 * i + 1), gpq_user_id = user_id\<rparr>
      in case call_service w ''GetProfile'' i request of (ok, out) \<Rightarrow> (return ok, out, [request]))"

definition ProfileClient_main ::
  "(GetProfileRequest, 's) rpc_world \<Rightarrow> getopt_long \<Rightarrow> string list \<Rightarrow> GetProfileRequest run" where
  "ProfileClient_main w getopt args =
     run_parsed (ProfileClient_ParseArgs getopt args)
       (\<lambda>config. PrintRunStartedAtUtc (rw_utc_text w) (rw_run_started w) @ ProfileClient_PrintConfig config)
       (\<lambda>config. run_users (\<lambda>user_id. print_line (''Launching GetProfile for user: '' @ show_int user_id))
          (ProfileClient_launch_request w) 0 (pcc_user_ids config))"

section \<open>The clients of the retrieval service and of a retriever\<close>

text \<open>The files of the clients that read a profile: the working directory, the files and the JSON reader.\<close>

record local_files =
  lf_cwd :: string
  lf_exists :: "string \<Rightarrow> bool"
  lf_read :: "string \<Rightarrow> string option"
  lf_profile :: "Profile json_to_message"
  lf_object :: "fields json_text"

definition kDefaultProfileDataPath :: string where
  "kDefaultProfileDataPath = ''tests/testdata/recommendation_engine/local_recommendation_fixture/profiles.jsonl''"

text \<open>The profile of a user at a path of the workspace, or the message of the error.\<close>

definition load_demo_profile :: "local_files \<Rightarrow> string \<Rightarrow> string \<Rightarrow> int64 \<Rightarrow> string + Profile" where
  "load_demo_profile files profile_data_path executable_path user_id =
     (case LoadProfileFromLocalFile (lf_profile files) (lf_read files)
             (ResolveWorkspaceRelativePath (lf_exists files) (lf_cwd files) profile_data_path executable_path)
             user_id (Some Profile_default) (Some []) of
        (True, Some profile, _) \<Rightarrow> Inr profile
      | (_, _, error_msg) \<Rightarrow> Inl (case error_msg of None \<Rightarrow> [] | Some m \<Rightarrow> m))"

record RetrievalClientConfig =
  tcc_ip :: string
  tcc_port :: string
  tcc_profile_data_path :: string
  tcc_user_ids :: "int64 list"
  tcc_max_candidate_count :: int

definition RetrievalClientConfig_new :: RetrievalClientConfig where
  "RetrievalClientConfig_new =
     \<lparr>tcc_ip = ''127.0.0.1'', tcc_port = ''50200'', tcc_profile_data_path = kDefaultProfileDataPath,
      tcc_user_ids = [], tcc_max_candidate_count = 20\<rparr>"

definition RetrievalClient_PrintUsage :: string where
  "RetrievalClient_PrintUsage =
     print_line ''Usage: retrieval_client [options]'' @
     print_line ''Options:'' @
     print_line ''  -h, --help                        Show this help message'' @
     print_line ''  -i, --ip <IP>                     Set server IP (default: 127.0.0.1)'' @
     print_line ''  -p, --port <PORT>                 Set server port (default: 50200)'' @
     print_line ''  -u, --user-id <USER_ID>           Add user ID to retrieve for (repeatable; default: {85566})'' @
     print_line ''  -c, --max-candidate-count <COUNT> Set requested max candidate count (default: 20)'' @
     print_line ''  -f, --profile-data-path <PATH>    Set demo profile jsonl path'' @
     print_line (''                                    (default: '' @ kDefaultProfileDataPath @ '')'')"

definition RetrievalClient_long_options :: "LongOption list" where
  "RetrievalClient_long_options =
     [no_argument ''help'' (CHR ''h''), required_argument ''ip'' (CHR ''i''), required_argument ''port'' (CHR ''p''),
      required_argument ''user-id'' (CHR ''u''), required_argument ''max-candidate-count'' (CHR ''c''),
      required_argument ''profile-data-path'' (CHR ''f'')]"

definition RetrievalClient_option :: "int \<Rightarrow> string \<Rightarrow> RetrievalClientConfig \<Rightarrow> RetrievalClientConfig parsed" where
  "RetrievalClient_option opt optarg config =
     (if opt = opt_char (CHR ''h'') then (None, RetrievalClient_PrintUsage)
      else if opt = opt_char (CHR ''i'') then (Some (config\<lparr>tcc_ip := optarg\<rparr>), [])
      else if opt = opt_char (CHR ''p'') then (Some (config\<lparr>tcc_port := optarg\<rparr>), [])
      else if opt = opt_char (CHR ''u'')
      then set_parsed (ParseInt64Arg optarg ''user_id'') (\<lambda>user_id. config\<lparr>tcc_user_ids := tcc_user_ids config @ [user_id]\<rparr>)
      else if opt = opt_char (CHR ''c'')
      then set_parsed (ParseIntArg optarg ''max_candidate_count'') (\<lambda>v. config\<lparr>tcc_max_candidate_count := v\<rparr>)
      else if opt = opt_char (CHR ''f'') then (Some (config\<lparr>tcc_profile_data_path := optarg\<rparr>), [])
      else (None, RetrievalClient_PrintUsage))"

definition RetrievalClient_ParseArgs :: "getopt_long \<Rightarrow> string list \<Rightarrow> RetrievalClientConfig parsed" where
  "RetrievalClient_ParseArgs getopt args =
     (case parse_options RetrievalClient_option (getopt ''hi:p:u:c:f:'' RetrievalClient_long_options args) RetrievalClientConfig_new of
        (None, out) \<Rightarrow> (None, out)
      | (Some config, out) \<Rightarrow>
          (Some (if tcc_user_ids config = [] then config\<lparr>tcc_user_ids := [of_int kDefaultUserId]\<rparr> else config), out))"

definition RetrievalClient_PrintConfig :: "RetrievalClientConfig \<Rightarrow> string" where
  "RetrievalClient_PrintConfig config =
     print_line ''Client config:'' @
     print_field ''ip'' (tcc_ip config) @ print_field ''port'' (tcc_port config) @
     print_field ''target'' (BuildTarget (tcc_ip config) (tcc_port config)) @
     print_line (''  user_ids:'' @ print_ids (map (\<lambda>i. show_int (sint i)) (tcc_user_ids config))) @
     print_field ''max_candidate_count'' (show_int (tcc_max_candidate_count config)) @
     print_field ''profile_data_path'' (tcc_profile_data_path config) @ newline"

definition RetrievalClient_launch_request ::
  "(RetrieveRequest, 's) rpc_world \<Rightarrow> local_files \<Rightarrow> int \<Rightarrow> string \<Rightarrow> string \<Rightarrow> nat \<Rightarrow> int64 \<Rightarrow>
     bool outcome \<times> string \<times> RetrieveRequest list" where
  "RetrievalClient_launch_request w files max_candidate_count profile_data_path executable_path i user_id =
     (case load_demo_profile files profile_data_path executable_path user_id of
        Inl error_msg \<Rightarrow> (return False, print_line (''Failed to load profile: '' @ error_msg), [])
      | Inr profile \<Rightarrow>
          (let request = \<lparr>rtq_trace_id = rw_guid w (2 * i), rtq_request_id = rw_guid w (2 * i + 1), rtq_user_id = user_id,
                          rtq_profile = Some profile, rtq_max_candidate_count = max_candidate_count\<rparr>
           in case call_service w ''Retrieve'' i request of (ok, out) \<Rightarrow> (return ok, out, [request])))"

text \<open>The first argument is the path of the program.\<close>

definition RetrievalClient_main ::
  "(RetrieveRequest, 's) rpc_world \<Rightarrow> local_files \<Rightarrow> getopt_long \<Rightarrow> string \<Rightarrow> string list \<Rightarrow> RetrieveRequest run" where
  "RetrievalClient_main w files getopt executable_path args =
     run_parsed (RetrievalClient_ParseArgs getopt (executable_path # args))
       (\<lambda>config. PrintRunStartedAtUtc (rw_utc_text w) (rw_run_started w) @ RetrievalClient_PrintConfig config)
       (\<lambda>config. run_users (\<lambda>user_id. print_line (''Launching Retrieve for user: '' @ show_int (sint user_id)))
          (RetrievalClient_launch_request w files (tcc_max_candidate_count config) (tcc_profile_data_path config) executable_path)
          0 (tcc_user_ids config))"

text \<open>The client of a retriever differs in its port, the name it prints and the messages.\<close>

definition RetrieverClientConfig_new :: RetrievalClientConfig where
  "RetrieverClientConfig_new =
     \<lparr>tcc_ip = ''127.0.0.1'', tcc_port = ''50210'', tcc_profile_data_path = kDefaultProfileDataPath,
      tcc_user_ids = [], tcc_max_candidate_count = 20\<rparr>"

definition RetrieverClient_PrintUsage :: string where
  "RetrieverClient_PrintUsage =
     print_line ''Usage: retriever_client [options]'' @
     print_line ''Options:'' @
     print_line ''  -h, --help                        Show this help message'' @
     print_line ''  -i, --ip <IP>                     Set server IP (default: 127.0.0.1)'' @
     print_line ''  -p, --port <PORT>                 Set server port (default: 50210)'' @
     print_line ''  -u, --user-id <USER_ID>           Add user ID to retrieve for (repeatable; default: {85566})'' @
     print_line ''  -c, --max-candidate-count <COUNT> Set requested max candidate count (default: 20)'' @
     print_line ''  -f, --profile-data-path <PATH>    Set demo profile jsonl path'' @
     print_line (''                                    (default: '' @ kDefaultProfileDataPath @ '')'')"

definition RetrieverClient_long_options :: "LongOption list" where
  "RetrieverClient_long_options =
     [no_argument ''help'' (CHR ''h''), required_argument ''ip'' (CHR ''i''), required_argument ''port'' (CHR ''p''),
      required_argument ''user-id'' (CHR ''u''), required_argument ''max-candidate-count'' (CHR ''c''),
      required_argument ''profile-data-path'' (CHR ''f'')]"

definition RetrieverClient_option :: "int \<Rightarrow> string \<Rightarrow> RetrievalClientConfig \<Rightarrow> RetrievalClientConfig parsed" where
  "RetrieverClient_option opt optarg config =
     (if opt = opt_char (CHR ''h'') then (None, RetrieverClient_PrintUsage)
      else if opt = opt_char (CHR ''i'') then (Some (config\<lparr>tcc_ip := optarg\<rparr>), [])
      else if opt = opt_char (CHR ''p'') then (Some (config\<lparr>tcc_port := optarg\<rparr>), [])
      else if opt = opt_char (CHR ''u'')
      then set_parsed (ParseInt64Arg optarg ''user_id'') (\<lambda>user_id. config\<lparr>tcc_user_ids := tcc_user_ids config @ [user_id]\<rparr>)
      else if opt = opt_char (CHR ''c'')
      then set_parsed (ParseIntArg optarg ''max_candidate_count'') (\<lambda>v. config\<lparr>tcc_max_candidate_count := v\<rparr>)
      else if opt = opt_char (CHR ''f'') then (Some (config\<lparr>tcc_profile_data_path := optarg\<rparr>), [])
      else (None, RetrieverClient_PrintUsage))"

definition RetrieverClient_ParseArgs :: "getopt_long \<Rightarrow> string list \<Rightarrow> RetrievalClientConfig parsed" where
  "RetrieverClient_ParseArgs getopt args =
     (case parse_options RetrieverClient_option (getopt ''hi:p:u:c:f:'' RetrieverClient_long_options args) RetrieverClientConfig_new of
        (None, out) \<Rightarrow> (None, out)
      | (Some config, out) \<Rightarrow>
          (Some (if tcc_user_ids config = [] then config\<lparr>tcc_user_ids := [of_int kDefaultUserId]\<rparr> else config), out))"

definition RetrieverClient_launch_request ::
  "(RetrieverRequest, 's) rpc_world \<Rightarrow> local_files \<Rightarrow> int \<Rightarrow> string \<Rightarrow> string \<Rightarrow> nat \<Rightarrow> int64 \<Rightarrow>
     bool outcome \<times> string \<times> RetrieverRequest list" where
  "RetrieverClient_launch_request w files max_candidate_count profile_data_path executable_path i user_id =
     (case load_demo_profile files profile_data_path executable_path user_id of
        Inl error_msg \<Rightarrow> (return False, print_line (''Failed to load profile: '' @ error_msg), [])
      | Inr profile \<Rightarrow>
          (let request = \<lparr>rvq_trace_id = rw_guid w (2 * i), rvq_request_id = rw_guid w (2 * i + 1), rvq_user_id = user_id,
                          rvq_profile = Some profile, rvq_max_candidate_count = max_candidate_count\<rparr>
           in case call_service w ''Retrieve'' i request of (ok, out) \<Rightarrow> (return ok, out, [request])))"

definition RetrieverClient_main ::
  "(RetrieverRequest, 's) rpc_world \<Rightarrow> local_files \<Rightarrow> getopt_long \<Rightarrow> string \<Rightarrow> string list \<Rightarrow> RetrieverRequest run" where
  "RetrieverClient_main w files getopt executable_path args =
     run_parsed (RetrieverClient_ParseArgs getopt (executable_path # args))
       (\<lambda>config. PrintRunStartedAtUtc (rw_utc_text w) (rw_run_started w) @ RetrievalClient_PrintConfig config)
       (\<lambda>config. run_users (\<lambda>user_id. print_line (''Launching Retrieve for user: '' @ show_int (sint user_id)))
          (RetrieverClient_launch_request w files (tcc_max_candidate_count config) (tcc_profile_data_path config) executable_path)
          0 (tcc_user_ids config))"

section \<open>Every client asks about its users in order\<close>

interpretation recommend_client: launches_one "Recommend_launch_request w max_results" req_user_id "answered_ok w"
  for w :: "(RecommendRequest, 's) rpc_world" and max_results
  by unfold_locales
    (auto simp: Recommend_launch_request_def Let_def return_def dest: call_service_cases split: prod.splits)

interpretation profile_client: launches_one "ProfileClient_launch_request w" gpq_user_id "answered_ok w"
  for w :: "(GetProfileRequest, 's) rpc_world"
  by unfold_locales
    (auto simp: ProfileClient_launch_request_def Let_def return_def dest: call_service_cases split: prod.splits)

interpretation retrieval_client:
  launches_one "RetrievalClient_launch_request w files max_count path executable_path" rtq_user_id "answered_ok w"
  for w :: "(RetrieveRequest, 's) rpc_world" and files max_count path executable_path
  by unfold_locales
    (auto simp: RetrievalClient_launch_request_def Let_def return_def dest: call_service_cases split: prod.splits sum.splits)

interpretation retriever_client:
  launches_one "RetrieverClient_launch_request w files max_count path executable_path" rvq_user_id "answered_ok w"
  for w :: "(RetrieverRequest, 's) rpc_world" and files max_count path executable_path
  by unfold_locales
    (auto simp: RetrieverClient_launch_request_def Let_def return_def dest: call_service_cases split: prod.splits sum.splits)

lemma Recommend_main_in_order:
  "asks_in_order req_user_id (answered_ok w) (map_option rcc_user_ids (fst (Recommend_ParseArgs getopt args)))
     (Recommend_main w getopt args)"
  unfolding Recommend_main_def
  by (intro asks_in_order_parsed recommend_client.users_in_order) (auto simp: Recommend_ParseArgs_def split: prod.splits option.splits if_splits)

lemma ProfileClient_main_in_order:
  "asks_in_order gpq_user_id (answered_ok w) (map_option pcc_user_ids (fst (ProfileClient_ParseArgs getopt args)))
     (ProfileClient_main w getopt args)"
  unfolding ProfileClient_main_def
  by (intro asks_in_order_parsed profile_client.users_in_order) (auto simp: ProfileClient_ParseArgs_def split: prod.splits option.splits if_splits)

lemma RetrievalClient_main_in_order:
  "asks_in_order rtq_user_id (answered_ok w) (map_option tcc_user_ids (fst (RetrievalClient_ParseArgs getopt (executable_path # args))))
     (RetrievalClient_main w files getopt executable_path args)"
  unfolding RetrievalClient_main_def
  by (intro asks_in_order_parsed retrieval_client.users_in_order) (auto simp: RetrievalClient_ParseArgs_def split: prod.splits option.splits if_splits)

lemma RetrieverClient_main_in_order:
  "asks_in_order rvq_user_id (answered_ok w) (map_option tcc_user_ids (fst (RetrieverClient_ParseArgs getopt (executable_path # args))))
     (RetrieverClient_main w files getopt executable_path args)"
  unfolding RetrieverClient_main_def
  by (intro asks_in_order_parsed retriever_client.users_in_order) (auto simp: RetrieverClient_ParseArgs_def split: prod.splits option.splits if_splits)

end
