(* ===== verification/RankingClient.thy ===== *)
theory RankingClient
  imports RpcClients RankingService
begin

text \<open>
  The command line client of the ranking service, recommendation_engine_ranking_client.cpp: it builds the
  request of a user from a profile file and a manifest of recalled items. Reading the manifest throws, and
  nothing catches it.
\<close>

section \<open>Configuration\<close>

record RankingClientConfig =
  kcc_ip :: string
  kcc_port :: string
  kcc_user_ids :: "int64 list"
  kcc_max_results :: int
  kcc_profile_data_path :: string
  kcc_recall_manifest_path :: string
  kcc_ranker :: string
  kcc_include_score_factors :: bool
  kcc_include_item_features :: bool

definition kDefaultRecallManifestPath :: string where
  "kDefaultRecallManifestPath = ''tests/testdata/recommendation_engine/local_recommendation_fixture/manifest.json''"

definition RankingClientConfig_new :: RankingClientConfig where
  "RankingClientConfig_new =
     \<lparr>kcc_ip = ''127.0.0.1'', kcc_port = ''50300'', kcc_user_ids = [], kcc_max_results = 20,
      kcc_profile_data_path = kDefaultProfileDataPath, kcc_recall_manifest_path = kDefaultRecallManifestPath,
      kcc_ranker = ''heuristic_v1'', kcc_include_score_factors = False, kcc_include_item_features = True\<rparr>"

definition kOptIncludeScoreFactors :: int where "kOptIncludeScoreFactors = 1001"
definition kOptIncludeItemFeatures :: int where "kOptIncludeItemFeatures = 1002"
definition kOptExcludeItemFeatures :: int where "kOptExcludeItemFeatures = 1003"

definition RankingClient_PrintUsage :: string where
  "RankingClient_PrintUsage =
     print_line ''Usage: ranking_client [options]'' @
     print_line ''Options:'' @
     print_line ''  -h, --help                      Show this help message'' @
     print_line ''  -i, --ip <IP>                   Set server IP (default: 127.0.0.1)'' @
     print_line ''  -p, --port <PORT>               Set server port (default: 50300)'' @
     print_line ''  -u, --user-id <USER_ID>         Add user ID to rank for (repeatable; default: {85566})'' @
     print_line ''  -m, --max-results <COUNT>       Set max ranking results (default: 20)'' @
     print_line ''  -f, --profile-data-path <PATH>  Set demo profile jsonl path'' @
     print_line (''                                  (default: '' @ kDefaultProfileDataPath @ '')'') @
     print_line ''  -r, --recall-manifest-path <PATH> Set recall manifest json path'' @
     print_line (''                                  (default: '' @ kDefaultRecallManifestPath @ '')'') @
     print_line ''  -k, --ranker <RANKER>           Set requested ranker (default: heuristic_v1)'' @
     print_line ''      --include-score-factors     Include score factors (default: false)'' @
     print_line ''      --include-item-features      Include item features (default: true)'' @
     print_line ''      --exclude-item-features      Exclude item features''"

definition RankingClient_long_options :: "LongOption list" where
  "RankingClient_long_options =
     [no_argument ''help'' (CHR ''h''), required_argument ''ip'' (CHR ''i''), required_argument ''port'' (CHR ''p''),
      required_argument ''user-id'' (CHR ''u''), required_argument ''max-results'' (CHR ''m''),
      required_argument ''profile-data-path'' (CHR ''f''), required_argument ''recall-manifest-path'' (CHR ''r''),
      required_argument ''ranker'' (CHR ''k''),
      \<lparr>lo_name = ''include-score-factors'', lo_has_arg = False, lo_val = kOptIncludeScoreFactors\<rparr>,
      \<lparr>lo_name = ''include-item-features'', lo_has_arg = False, lo_val = kOptIncludeItemFeatures\<rparr>,
      \<lparr>lo_name = ''exclude-item-features'', lo_has_arg = False, lo_val = kOptExcludeItemFeatures\<rparr>]"

definition RankingClient_option :: "int \<Rightarrow> string \<Rightarrow> RankingClientConfig \<Rightarrow> RankingClientConfig parsed" where
  "RankingClient_option opt optarg config =
     (if opt = opt_char (CHR ''h'') then (None, RankingClient_PrintUsage)
      else if opt = opt_char (CHR ''i'') then (Some (config\<lparr>kcc_ip := optarg\<rparr>), [])
      else if opt = opt_char (CHR ''p'') then (Some (config\<lparr>kcc_port := optarg\<rparr>), [])
      else if opt = opt_char (CHR ''u'')
      then set_parsed (ParseInt64Arg optarg ''user_id'') (\<lambda>user_id. config\<lparr>kcc_user_ids := kcc_user_ids config @ [user_id]\<rparr>)
      else if opt = opt_char (CHR ''m'')
      then set_parsed (ParseIntArg optarg ''max_results'') (\<lambda>v. config\<lparr>kcc_max_results := v\<rparr>)
      else if opt = opt_char (CHR ''f'') then (Some (config\<lparr>kcc_profile_data_path := optarg\<rparr>), [])
      else if opt = opt_char (CHR ''r'') then (Some (config\<lparr>kcc_recall_manifest_path := optarg\<rparr>), [])
      else if opt = opt_char (CHR ''k'') then (Some (config\<lparr>kcc_ranker := optarg\<rparr>), [])
      else if opt = kOptIncludeScoreFactors then (Some (config\<lparr>kcc_include_score_factors := True\<rparr>), [])
      else if opt = kOptIncludeItemFeatures then (Some (config\<lparr>kcc_include_item_features := True\<rparr>), [])
      else if opt = kOptExcludeItemFeatures then (Some (config\<lparr>kcc_include_item_features := False\<rparr>), [])
      else (None, RankingClient_PrintUsage))"

definition RankingClient_ParseArgs :: "getopt_long \<Rightarrow> string list \<Rightarrow> RankingClientConfig parsed" where
  "RankingClient_ParseArgs getopt args =
     (case parse_options RankingClient_option (getopt ''hi:p:u:m:f:r:k:'' RankingClient_long_options args) RankingClientConfig_new of
        (None, out) \<Rightarrow> (None, out)
      | (Some config, out) \<Rightarrow>
          (Some (if kcc_user_ids config = [] then config\<lparr>kcc_user_ids := [of_int kDefaultUserId]\<rparr> else config), out))"

definition RankingClient_PrintConfig :: "RankingClientConfig \<Rightarrow> string" where
  "RankingClient_PrintConfig config =
     print_line ''Client config:'' @
     print_field ''ip'' (kcc_ip config) @ print_field ''port'' (kcc_port config) @
     print_field ''target'' (BuildTarget (kcc_ip config) (kcc_port config)) @
     print_line (''  user_ids:'' @ print_ids (map (\<lambda>i. show_int (sint i)) (kcc_user_ids config))) @
     print_field ''max_results'' (show_int (kcc_max_results config)) @
     print_field ''profile_data_path'' (kcc_profile_data_path config) @
     print_field ''recall_manifest_path'' (kcc_recall_manifest_path config) @
     print_field ''ranker'' (kcc_ranker config) @
     print_field ''include_score_factors'' (bool_text (kcc_include_score_factors config)) @
     print_field ''include_item_features'' (bool_text (kcc_include_item_features config)) @ newline"

section \<open>The recalled items of a user\<close>

record RecallCandidates =
  rcl_item_cf_items :: "uint64 list"
  rcl_user_cf_items :: "uint64 list"

definition ReadUint64ListField :: "fields \<Rightarrow> string \<Rightarrow> string \<Rightarrow> uint64 list outcome" where
  "ReadUint64ListField fs field_name context =
     (case FindField fs field_name of
        None \<Rightarrow> return []
      | Some v \<Rightarrow>
          if IsNull v then return []
          else
            (case v of
               ListValue vs \<Rightarrow> read_each (\<lambda>i v. ReadUint64Value v (indexed (dotted context field_name) i)) 0 vs
             | _ \<Rightarrow> throw (dotted context field_name @ '' must be an array'')))"

definition manifest_context :: string where
  "manifest_context = ''ranking_recall_manifest''"

text \<open>The loop over the users: the first entry with the id decides.\<close>

fun find_recall :: "Value list \<Rightarrow> nat \<Rightarrow> int64 \<Rightarrow> RecallCandidates outcome" where
  "find_recall [] i user_id =
     throw (''User '' @ show_int (sint user_id) @ '' was not found in ranking recall manifest users list.'')"
| "find_recall (user # users) i user_id =
     (case user of
        StructValue user_fields \<Rightarrow>
          (let user_context = indexed (manifest_context @ ''.users'') i in
           andThen (ReadOptionalInt64 user_fields ''user_id'' user_context) (\<lambda>manifest_user_id.
             if manifest_user_id \<noteq> user_id then find_recall users (Suc i) user_id
             else
               andThen (ReadUint64ListField user_fields ''top_item_cf_items'' user_context) (\<lambda>item_cf_items.
               andThen (ReadUint64ListField user_fields ''top_user_cf_items'' user_context) (\<lambda>user_cf_items.
                 return \<lparr>rcl_item_cf_items = item_cf_items, rcl_user_cf_items = user_cf_items\<rparr>))))
      | _ \<Rightarrow> throw (indexed (manifest_context @ ''.users'') i @ '' must be an object''))"

definition LoadRecallCandidatesFromManifest :: "local_files \<Rightarrow> string \<Rightarrow> string \<Rightarrow> int64 \<Rightarrow> RecallCandidates outcome" where
  "LoadRecallCandidatesFromManifest files manifest_path executable_path user_id =
     (let resolved_manifest_path =
            ResolveWorkspaceRelativePath (lf_exists files) (lf_cwd files) manifest_path executable_path
      in case lf_read files resolved_manifest_path of
           None \<Rightarrow> throw (''Failed to open manifest file: '' @ resolved_manifest_path)
         | Some manifest_json \<Rightarrow>
             andThen (ParseObject (lf_object files) manifest_json manifest_context) (\<lambda>root_fields.
             andThen (RequiredField root_fields ''users'' manifest_context) (\<lambda>users_value.
               case users_value of
                 ListValue users \<Rightarrow> find_recall users 0 user_id
               | _ \<Rightarrow> throw (manifest_context @ ''.users must be an array''))))"

section \<open>The request\<close>

definition score_floor :: float64 where
  "score_floor = rnd (1 / 100)"

text \<open>The negation and the difference of doubles.\<close>

fun fneg :: "float64 \<Rightarrow> float64" where
  "fneg (Fin q) = Fin (- q)"
| "fneg PInf = NInf"
| "fneg NInf = PInf"
| "fneg NaN = NaN"

definition fsub :: "float64 \<Rightarrow> float64 \<Rightarrow> float64" where
  "fsub x y = fadd x (fneg y)"

definition BuildRetrieverScore :: "int \<Rightarrow> float64 \<Rightarrow> float64 \<Rightarrow> float64" where
  "BuildRetrieverScore i base step =
     (let score = fsub base (fmul (to_double i) step) in if flt score_floor score then score else score_floor)"

definition AddCandidateWithReason ::
  "uint64 \<Rightarrow> string \<Rightarrow> ReasonType \<Rightarrow> int64 \<Rightarrow> float64 \<Rightarrow> RankRequest \<Rightarrow> RankRequest" where
  "AddCandidateWithReason item_id retriever_name reason_type user_id retrieve_score request =
     request\<lparr>rkq_candidates := rkq_candidates request @
       [CandidateItem_default
          \<lparr>ci_item_id := item_id, ci_item_type := ITEM_TYPE_VIDEO, ci_retriever := retriever_name,
           ci_retrieve_score := retrieve_score,
           ci_reasons :=
             [\<lparr>rr_reason_type = reason_type,
               rr_trigger = \<lparr>te_entity_type = ENTITY_TYPE_USER, te_entity_id = user_id\<rparr>,
               rr_reason_score = retrieve_score,
               rr_description = ''demo recall from fixture manifest''\<rparr>]\<rparr>]\<rparr>"

text \<open>One of the two loops over the recalled items.\<close>

fun add_recalled :: "string \<Rightarrow> ReasonType \<Rightarrow> int64 \<Rightarrow> float64 \<Rightarrow> int \<Rightarrow> uint64 list \<Rightarrow> RankRequest \<Rightarrow> RankRequest" where
  "add_recalled retriever_name reason_type user_id base i [] request = request"
| "add_recalled retriever_name reason_type user_id base i (item # items) request =
     add_recalled retriever_name reason_type user_id base (i + 1) items
       (AddCandidateWithReason item retriever_name reason_type user_id (BuildRetrieverScore i base (rnd (3 / 100))) request)"

definition RankingClient_launch_request ::
  "(RankRequest, 's) rpc_world \<Rightarrow> local_files \<Rightarrow> RankingClientConfig \<Rightarrow> string \<Rightarrow> nat \<Rightarrow> int64 \<Rightarrow>
     bool outcome \<times> string \<times> RankRequest list" where
  "RankingClient_launch_request w files config executable_path i user_id =
     (case load_demo_profile files (kcc_profile_data_path config) executable_path user_id of
        Inl error_msg \<Rightarrow> (return False, print_line (''Failed to load profile: '' @ error_msg), [])
      | Inr profile \<Rightarrow>
          (case LoadRecallCandidatesFromManifest files (kcc_recall_manifest_path config) executable_path user_id of
             None \<Rightarrow> (None, [], [])
           | Some (Inl e) \<Rightarrow> (Some (Inl e), [], [])
           | Some (Inr recall) \<Rightarrow>
               (let request = \<lparr>rkq_trace_id = rw_guid w (2 * i), rkq_request_id = rw_guid w (2 * i + 1), rkq_user_id = user_id,
                               rkq_profile = Some profile, rkq_candidates = [], rkq_max_results = kcc_max_results config,
                               rkq_options = \<lparr>ro_ranker = kcc_ranker config,
                                             ro_include_score_factors = kcc_include_score_factors config,
                                             ro_include_item_features = kcc_include_item_features config\<rparr>\<rparr>;
                    request = add_recalled ''item_cf'' REASON_TYPE_ITEM_CF user_id (Fin 1) 0 (rcl_item_cf_items recall) request;
                    request = add_recalled ''user_cf'' REASON_TYPE_USER_CF user_id (rnd (9 / 10)) 0 (rcl_user_cf_items recall) request
                in case call_service w ''Rank'' i request of (ok, out) \<Rightarrow> (return ok, out, [request]))))"

definition RankingClient_main ::
  "(RankRequest, 's) rpc_world \<Rightarrow> local_files \<Rightarrow> getopt_long \<Rightarrow> string \<Rightarrow> string list \<Rightarrow> RankRequest run" where
  "RankingClient_main w files getopt executable_path args =
     run_parsed (RankingClient_ParseArgs getopt (executable_path # args))
       (\<lambda>config. PrintRunStartedAtUtc (rw_utc_text w) (rw_run_started w) @ RankingClient_PrintConfig config)
       (\<lambda>config. run_users (\<lambda>user_id. print_line (''Launching Rank for user: '' @ show_int (sint user_id)))
          (RankingClient_launch_request w files config executable_path) 0 (kcc_user_ids config))"

section \<open>Properties\<close>

text \<open>What a loop adds, in closed form.\<close>

definition recalled_candidate :: "string \<Rightarrow> ReasonType \<Rightarrow> int64 \<Rightarrow> float64 \<Rightarrow> nat \<times> uint64 \<Rightarrow> CandidateItem" where
  "recalled_candidate retriever_name reason_type user_id base entry =
     (let score = BuildRetrieverScore (int (fst entry)) base (rnd (3 / 100)) in
      CandidateItem_default
        \<lparr>ci_item_id := snd entry, ci_item_type := ITEM_TYPE_VIDEO, ci_retriever := retriever_name,
         ci_retrieve_score := score,
         ci_reasons :=
           [\<lparr>rr_reason_type = reason_type, rr_trigger = \<lparr>te_entity_type = ENTITY_TYPE_USER, te_entity_id = user_id\<rparr>,
             rr_reason_score = score, rr_description = ''demo recall from fixture manifest''\<rparr>]\<rparr>)"

lemma add_recalled_eq:
  "add_recalled name reason user_id base (int i) items request =
     request\<lparr>rkq_candidates := rkq_candidates request @ map (recalled_candidate name reason user_id base) (enumerate i items)\<rparr>"
proof (induction items arbitrary: i request)
  case (Cons item items)
  have "int i + 1 = int (Suc i)" by simp
  then show ?case
    by (simp only: add_recalled.simps Cons.IH) (simp add: AddCandidateWithReason_def recalled_candidate_def Let_def)
qed simp

text \<open>A profile is found under its own id.\<close>

lemma load_profile_lines_keys:
  "load_profile_lines parse n lines m error = (True, m', error') \<Longrightarrow>
    (\<And>u p. m u = Some p \<Longrightarrow> sint (pf_user_id p) = u) \<Longrightarrow> m' u = Some p \<Longrightarrow> sint (pf_user_id p) = u"
proof (induction parse n lines m error rule: load_profile_lines.induct)
  case (2 parse n line lines m error)
  show ?case
  proof (cases "IsBlank line")
    case True
    with 2 show ?thesis by (auto simp: Let_def)
  next
    case False
    obtain ok m1 error1 where add: "AddProfileFromJsonLine parse line m error = (ok, m1, error1)" by (metis prod_cases3)
    with 2(3) False have "ok" by (auto simp: Let_def split: bool.splits)
    have "\<And>u p. m1 u = Some p \<Longrightarrow> sint (pf_user_id p) = u"
      using add 2(4) \<open>ok\<close> by (auto simp: AddProfileFromJsonLine_def split: prod.splits option.splits bool.splits if_splits)
    with 2(2) [OF refl False add [symmetric]] 2(3,5) False \<open>ok\<close> show ?thesis by (auto simp: Let_def add)
  qed
qed simp

lemma load_demo_profile_id:
  assumes "load_demo_profile files path executable_path user_id = Inr profile"
  shows "pf_user_id profile = user_id"
proof -
  have "sint (pf_user_id profile) = sint user_id"
    using assms
    by (auto simp: load_demo_profile_def LoadProfileFromLocalFile_def LoadProfilesFromJsonlFile_def
        dest: load_profile_lines_keys split: prod.splits option.splits bool.splits if_splits)
  then show ?thesis by (rule signed_word_eqI)
qed

lemma launch_cases:
  assumes "RankingClient_launch_request w files config executable_path i user_id = (ok, out, sent)" "sent \<noteq> []"
  obtains profile recall q where "load_demo_profile files (kcc_profile_data_path config) executable_path user_id = Inr profile"
    "LoadRecallCandidatesFromManifest files (kcc_recall_manifest_path config) executable_path user_id = return recall"
    "sent = [q]" "ok = return (answered_ok w i q)" "rkq_user_id q = user_id" "rkq_profile q = Some profile"
    "rkq_max_results q = kcc_max_results config" "ro_ranker (rkq_options q) = kcc_ranker config"
    "rkq_candidates q =
       map (recalled_candidate ''item_cf'' REASON_TYPE_ITEM_CF user_id (Fin 1)) (enumerate 0 (rcl_item_cf_items recall)) @
       map (recalled_candidate ''user_cf'' REASON_TYPE_USER_CF user_id (rnd (9 / 10))) (enumerate 0 (rcl_user_cf_items recall))"
  using assms add_recalled_eq [where i = 0]
  by (auto simp: RankingClient_launch_request_def Let_def return_def dest: call_service_cases
      split: prod.splits sum.splits option.splits)

interpretation ranking_client: launches_one "RankingClient_launch_request w files config executable_path" rkq_user_id "answered_ok w"
  for w :: "(RankRequest, 's) rpc_world" and files config executable_path
proof
  fix i u ok out sent
  assume launch: "RankingClient_launch_request w files config executable_path i u = (ok, out, sent)"
  show "sent = [] \<and> ok \<noteq> return True \<or> (\<exists>q. sent = [q] \<and> rkq_user_id q = u \<and> ok = return (answered_ok w i q))"
  proof (cases "sent = []")
    case True
    with launch show ?thesis
      by (auto simp: RankingClient_launch_request_def Let_def return_def split: prod.splits sum.splits option.splits)
  next
    case False
    with launch show ?thesis by (rule launch_cases) auto
  qed
qed

lemma RankingClient_main_in_order:
  "asks_in_order rkq_user_id (answered_ok w) (map_option kcc_user_ids (fst (RankingClient_ParseArgs getopt (executable_path # args))))
     (RankingClient_main w files getopt executable_path args)"
  unfolding RankingClient_main_def
  by (intro asks_in_order_parsed ranking_client.users_in_order) (auto simp: RankingClient_ParseArgs_def split: prod.splits option.splits if_splits)

text \<open>The scores fall with the position and stay between a hundredth and the base.\<close>

lemma fneg_antimono: "x \<noteq> NaN \<Longrightarrow> x \<le> y \<Longrightarrow> fneg y \<le> fneg x"
  by (cases x; cases y) auto

lemma NInf_le: "x \<noteq> NaN \<Longrightarrow> NInf \<le> x"
  by (cases x) (auto simp: less_eq_float64_def)

lemma fadd_mono_right: "x \<noteq> NaN \<Longrightarrow> x \<le> y \<Longrightarrow> fadd (Fin b) x \<le> fadd (Fin b) y"
  by (cases x; cases y) (auto intro: rnd_mono simp: NInf_le)

lemma step_mono:
  assumes "0 \<le> i" "i \<le> j" "0 < c"
  shows "Fin 0 \<le> fmul (to_double i) (Fin c)" "fmul (to_double i) (Fin c) \<le> fmul (to_double j) (Fin c)"
proof -
  have le: "to_double i \<le> to_double j" "Fin 0 \<le> to_double i"
    unfolding to_double_def using assms by (auto intro: rnd_mono rnd_nonneg)
  show "Fin 0 \<le> fmul (to_double i) (Fin c)"
    using le(2) assms(3) by (cases "to_double i") (auto simp: signed_inf_def intro!: rnd_nonneg)
  show "fmul (to_double i) (Fin c) \<le> fmul (to_double j) (Fin c)"
    using le assms(3)
    by (cases "to_double i"; cases "to_double j") (auto simp: signed_inf_def intro!: rnd_mono mult_right_mono)
qed

lemma BuildRetrieverScore_le:
  assumes "0 \<le> i" "i \<le> j" "0 < c" "rnd b = Fin b" "score_floor \<le> Fin b"
  shows "score_floor \<le> BuildRetrieverScore j (Fin b) (Fin c)" "BuildRetrieverScore i (Fin b) (Fin c) \<le> Fin b"
    "BuildRetrieverScore j (Fin b) (Fin c) \<le> BuildRetrieverScore i (Fin b) (Fin c)"
proof -
  let ?x = "\<lambda>i. fmul (to_double i) (Fin c)" and ?s = "\<lambda>i. fsub (Fin b) (fmul (to_double i) (Fin c))"
  note step = step_mono [OF assms(1-3)]
  have nan: "?x i \<noteq> NaN" using step(1) by auto
  then have "fneg (?x j) \<noteq> NaN" using step by (cases "?x j") auto
  then have mono: "?s j \<le> ?s i" unfolding fsub_def using fneg_antimono [OF nan step(2)] by (rule fadd_mono_right)
  have base: "?s i \<le> Fin b"
    using step(1) assms(4) rnd_mono [of "b + - q" b for q] by (cases "?x i") (auto simp: fsub_def)
  have floor: "score_floor \<noteq> NaN" by (simp add: score_floor_def)
  then have eq: "BuildRetrieverScore i (Fin b) (Fin c) = max score_floor (?s i)" for i
    by (auto simp: BuildRetrieverScore_def Let_def flt_less max_def)
  show "score_floor \<le> BuildRetrieverScore j (Fin b) (Fin c)" "BuildRetrieverScore i (Fin b) (Fin c) \<le> Fin b"
    "BuildRetrieverScore j (Fin b) (Fin c) \<le> BuildRetrieverScore i (Fin b) (Fin c)"
    using mono base assms(5) by (auto simp: eq max_def)
qed

lemma literals:
  "rnd (3 / 100) = Fin (1080863910568919 / 36028797018963968)" "rnd (9 / 10) = Fin (8106479329266893 / 9007199254740992)"
  "rnd (1 / 100) = Fin (5764607523034235 / 576460752303423488)" "rnd 1 = Fin 1"
  by (simp_all add: float_eval)

lemma recalled_candidate_simps [simp]:
  "ci_item_id (recalled_candidate name reason u base e) = snd e" "ci_retriever (recalled_candidate name reason u base e) = name"
  "ci_retrieve_score (recalled_candidate name reason u base e) = BuildRetrieverScore (int (fst e)) base (rnd (3 / 100))"
  "map rr_reason_score (ci_reasons (recalled_candidate name reason u base e)) = [BuildRetrieverScore (int (fst e)) base (rnd (3 / 100))]"
  by (simp_all add: recalled_candidate_def Let_def)

lemma recalled_ids: "map ci_item_id (map (recalled_candidate name reason u base) (enumerate i items)) = items"
  by (induction items arbitrary: i) simp_all

definition scores_ok :: "CandidateItem list \<Rightarrow> bool" where
  "scores_ok cs \<longleftrightarrow>
     sorted_wrt (\<lambda>x y. y \<le> x) (map ci_retrieve_score cs) \<and>
     list_all (\<lambda>c. rnd (1 / 100) \<le> ci_retrieve_score c \<and> ci_retrieve_score c \<le> Fin 1 \<and>
                   map rr_reason_score (ci_reasons c) = [ci_retrieve_score c]) cs"

lemma recalled_scores:
  assumes "rnd b = Fin b" "score_floor \<le> Fin b" "b \<le> 1"
  shows "scores_ok (map (recalled_candidate name reason u (Fin b)) (enumerate i items))"
proof (induction items arbitrary: i)
  case (Cons item items)
  have c: "0 < (1080863910568919 / 36028797018963968 :: rat)" by simp
  note range = BuildRetrieverScore_le [OF _ _ c assms(1,2), folded literals]
  have "BuildRetrieverScore (int j) (Fin b) (rnd (3 / 100)) \<le> BuildRetrieverScore (int i) (Fin b) (rnd (3 / 100))"
    if "(j, item') \<in> set (enumerate (Suc i) items)" for j item'
    using that by (intro range(3)) (auto simp: in_set_enumerate_eq)
  moreover have "rnd (1 / 100) \<le> BuildRetrieverScore (int i) (Fin b) (rnd (3 / 100))"
    using range(1) [of "int i" "int i"] by (simp add: score_floor_def)
  moreover have "BuildRetrieverScore (int i) (Fin b) (rnd (3 / 100)) \<le> Fin 1"
    using order_trans [OF range(2) [of "int i" "int i"], of "Fin 1"] assms(3) by simp
  ultimately show ?case using Cons.IH [of "Suc i"] by (auto simp: scores_ok_def)
qed (simp add: scores_ok_def)

text \<open>
  C38. What the client sends to the ranking service. Its request for a user has the items that the manifest
  recalls for the user, first those of the item-based retriever and then those of the user-based one, each
  with one reason that carries its score; the scores of a retriever do not rise with the position and lie
  between 0.01 and 1; and the service validates the request, for the profile is the user's own.
\<close>

theorem ranking_client_request:
  assumes "RankingClient_launch_request w files config executable_path i user_id = (ok, out, [q])"
    and "0 < sint user_id" "0 < kcc_max_results config"
  shows "ValidateRankRequest q response = (StatusOK, response) \<and>
    (\<exists>recall item_cf user_cf.
       LoadRecallCandidatesFromManifest files (kcc_recall_manifest_path config) executable_path user_id = return recall \<and>
       rkq_candidates q = item_cf @ user_cf \<and>
       map ci_item_id item_cf = rcl_item_cf_items recall \<and> map ci_item_id user_cf = rcl_user_cf_items recall \<and>
       list_all (\<lambda>c. ci_retriever c = ''item_cf'') item_cf \<and> list_all (\<lambda>c. ci_retriever c = ''user_cf'') user_cf \<and>
       scores_ok item_cf \<and> scores_ok user_cf)"
proof -
  obtain profile recall where request:
    "load_demo_profile files (kcc_profile_data_path config) executable_path user_id = Inr profile"
    "LoadRecallCandidatesFromManifest files (kcc_recall_manifest_path config) executable_path user_id = return recall"
    "rkq_user_id q = user_id" "rkq_profile q = Some profile" "rkq_max_results q = kcc_max_results config"
    "rkq_candidates q =
       map (recalled_candidate ''item_cf'' REASON_TYPE_ITEM_CF user_id (Fin 1)) (enumerate 0 (rcl_item_cf_items recall)) @
       map (recalled_candidate ''user_cf'' REASON_TYPE_USER_CF user_id (rnd (9 / 10))) (enumerate 0 (rcl_user_cf_items recall))"
    using launch_cases [OF assms(1)] by (metis list.distinct(1) list.inject)
  have "ValidateRankRequest q response = (StatusOK, response)"
    using load_demo_profile_id [OF request(1)] request(3-5) assms(2,3) by (simp add: ValidateRankRequest_def)
  moreover have "scores_ok (map (recalled_candidate name reason user_id (Fin 1)) (enumerate 0 items))" for name reason items
    by (rule recalled_scores) (simp_all add: literals score_floor_def)
  moreover have "rnd (8106479329266893 / 9007199254740992) = Fin (8106479329266893 / 9007199254740992)"
    using representable_rnd [of "9 / 10"] by (simp add: literals)
  then have "scores_ok (map (recalled_candidate name reason user_id (rnd (9 / 10))) (enumerate 0 items))" for name reason items
    unfolding literals by (rule recalled_scores) (simp_all add: literals score_floor_def)
  ultimately show ?thesis
    using request(2,6) recalled_ids by (intro conjI exI [of _ recall] exI) (auto simp: list_all_iff)
qed

lemma launch_sends:
  assumes "load_demo_profile files (kcc_profile_data_path config) executable_path user_id = Inr profile"
    and "LoadRecallCandidatesFromManifest files (kcc_recall_manifest_path config) executable_path user_id = return recall"
  shows "\<exists>ok out q. RankingClient_launch_request w files config executable_path i user_id = (ok, out, [q])"
  using assms by (auto simp: RankingClient_launch_request_def return_def Let_def split: prod.splits)

text \<open>A manifest and a profile of user 7, and the request for it.\<close>

lemma ranking_client_request_witness:
  "\<exists>q. ValidateRankRequest q RankResponse_default = (StatusOK, RankResponse_default) \<and>
     rkq_user_id q = 7 \<and> map ci_item_id (rkq_candidates q) = [3, 5, 3]"
proof -
  let ?manifest = "[(''users'', ListValue [StructValue [(''user_id'', StringValue (show_int 7)),
      (''top_item_cf_items'', ListValue [StringValue (show_nat 3), StringValue (show_nat 5)]),
      (''top_user_cf_items'', ListValue [StringValue (show_nat 3)])]])]"
  let ?files = "\<lparr>lf_cwd = [], lf_exists = \<lambda>_. True, lf_read = \<lambda>_. Some ''x'',
      lf_profile = \<lambda>_ m. (None, m\<lparr>pf_user_id := 7\<rparr>), lf_object = \<lambda>_. Inr ?manifest\<rparr>"
  let ?config = "RankingClientConfig_new\<lparr>kcc_profile_data_path := ''/p'', kcc_recall_manifest_path := ''/m''\<rparr>"
  let ?w = "\<lparr>rw_utc_text = \<lambda>_. [], rw_run_started = 0, rw_started = \<lambda>_. 0, rw_received = \<lambda>_. 0, rw_elapsed = \<lambda>_. 0,
      rw_guid = \<lambda>_. ''g'', rw_show_request = \<lambda>_. [], rw_show_response = \<lambda>_. [], rw_answer = \<lambda>_ _. (StatusOK, ())\<rparr>"
  let ?recall = "\<lparr>rcl_item_cf_items = [3, 5], rcl_user_cf_items = [3 :: uint64]\<rparr>"
  have paths: "is_absolute ''/p''" "is_absolute ''/m''" by (simp_all add: is_absolute_def is_slash_def)
  have seven: "from_chars_signed (- 9223372036854775808) 9223372036854775807 (show_int 7) = ([], Ok, 7)"
    by (rule from_chars_signed_show) simp_all
  have items: "ParseUint64String (show_nat n) place = return (of_nat n)" if "n < 2 ^ 64" for n place
    using that by (simp add: ParseUint64String_def from_chars_unsigned_show)
  have lines: "load_profile_lines (\<lambda>_ m. (None, m\<lparr>pf_user_id := 7\<rparr>)) 0 (getlines ''x'') Map.empty (Some []) =
      (True, [7 \<mapsto> Profile_default\<lparr>pf_user_id := 7\<rparr>], Some [])"
    by (simp add: TextLines.newline_def IsBlank_def is_blank_char_def AddProfileFromJsonLine_def JsonToPB_def Let_def int_min_def int_max_def)
  have profile: "load_demo_profile ?files ''/p'' [] 7 = Inr (Profile_default\<lparr>pf_user_id := 7\<rparr>)"
    by (simp add: load_demo_profile_def LoadProfileFromLocalFile_def LoadProfilesFromJsonlFile_def ResolveWorkspaceRelativePath_def
        paths lines int_min_def int_max_def del: getlines.simps load_profile_lines.simps)
  have recall: "LoadRecallCandidatesFromManifest ?files ''/m'' [] 7 = return ?recall"
    by (simp add: LoadRecallCandidatesFromManifest_def ResolveWorkspaceRelativePath_def paths ParseObject_def RequiredField_def
        FindField_def ReadOptionalInt64_def optional_field_def seven ReadUint64ListField_def items)
  obtain ok out q where launch: "RankingClient_launch_request ?w ?files ?config [] 0 7 = (ok, out, [q])"
    using launch_sends [of ?files ?config "[]" 7 _ ?recall ?w 0] profile recall by auto
  have "0 < sint (7 :: int64)" "0 < kcc_max_results ?config" by (simp, simp add: RankingClientConfig_new_def)
  note sent = ranking_client_request [OF launch this, of RankResponse_default]
  have "ValidateRankRequest q RankResponse_default = (StatusOK, RankResponse_default)" by (rule conjunct1 [OF sent])
  moreover from sent obtain r item_cf user_cf where
    r: "LoadRecallCandidatesFromManifest ?files (kcc_recall_manifest_path ?config) [] 7 = return r"
    and q: "rkq_candidates q = item_cf @ user_cf" "map ci_item_id item_cf = rcl_item_cf_items r"
      "map ci_item_id user_cf = rcl_user_cf_items r"
    by blast
  have "r = ?recall" using r recall by (simp add: return_def)
  with q have "map ci_item_id (rkq_candidates q) = [3, 5, 3]" by simp
  moreover have "rkq_user_id q = 7" using ranking_client.launched [OF launch] by blast
  ultimately show ?thesis by (intro exI [of _ q] conjI)
qed

text \<open>
  C37. Every client of a service asks about its users in order and stops at the first failure: with options
  that are refused it sends nothing and ends with \<open>kArgs\<close>; otherwise it has at least one user, sends one
  request for each up to the first that is not accepted or cannot be built, and ends with \<open>kOk\<close> exactly when
  all were sent and accepted.
\<close>

theorem rpc_clients_ask_in_order:
  "asks_in_order req_user_id (answered_ok w1) (map_option rcc_user_ids (fst (Recommend_ParseArgs getopt (exe # args))))
     (Recommend_main w1 getopt (exe # args)) \<and>
   asks_in_order gpq_user_id (answered_ok w2) (map_option pcc_user_ids (fst (ProfileClient_ParseArgs getopt (exe # args))))
     (ProfileClient_main w2 getopt (exe # args)) \<and>
   asks_in_order rtq_user_id (answered_ok w3) (map_option tcc_user_ids (fst (RetrievalClient_ParseArgs getopt (exe # args))))
     (RetrievalClient_main w3 files getopt exe args) \<and>
   asks_in_order rvq_user_id (answered_ok w4) (map_option tcc_user_ids (fst (RetrieverClient_ParseArgs getopt (exe # args))))
     (RetrieverClient_main w4 files getopt exe args) \<and>
   asks_in_order rkq_user_id (answered_ok w5) (map_option kcc_user_ids (fst (RankingClient_ParseArgs getopt (exe # args))))
     (RankingClient_main w5 files getopt exe args)"
  using Recommend_main_in_order ProfileClient_main_in_order RetrievalClient_main_in_order
    RetrieverClient_main_in_order RankingClient_main_in_order by (intro conjI)

end
