(* ===== verification/RedisCommandClient.thy ===== *)
theory RedisCommandClient
  imports CommandLine RedisClient
begin

text \<open>
  The command line client redis_client.cpp, which reads the neighbours of items from Redis. The environment
  and the commands of the Redis library, for each call and attempt, are arguments.
\<close>

section \<open>Configuration\<close>

definition kDefaultRedisHost :: string where
  "kDefaultRedisHost = ''redis-write.recommendation-engine-redis.svc.cluster.local''"
definition kDefaultKeyPrefix :: string where "kDefaultKeyPrefix = ''rec:item_cf:v1:neighbors''"
definition kDefaultItemIds :: string where "kDefaultItemIds = ''8893,113705,5733''"

record RedisClientConfig =
  dcc_host :: string
  dcc_port :: int
  dcc_db :: int
  dcc_username :: string
  dcc_password :: string
  dcc_key_prefix :: string
  dcc_item_ids :: "string list"
  dcc_top_k :: int
  dcc_connect_timeout_ms :: int
  dcc_socket_timeout_ms :: int
  dcc_pool_size :: int
  dcc_pool_wait_timeout_ms :: int
  dcc_retry_max_attempts :: int
  dcc_retry_delay_ms :: int

definition RedisClientConfig_new :: RedisClientConfig where
  "RedisClientConfig_new =
     \<lparr>dcc_host = [], dcc_port = 6379, dcc_db = 0, dcc_username = [], dcc_password = [], dcc_key_prefix = [],
      dcc_item_ids = [], dcc_top_k = 5, dcc_connect_timeout_ms = 2000, dcc_socket_timeout_ms = 2000,
      dcc_pool_size = 4, dcc_pool_wait_timeout_ms = 2000, dcc_retry_max_attempts = 2, dcc_retry_delay_ms = 10\<rparr>"

text \<open>Unlike the one of the utilities, this keeps an empty value.\<close>

definition Client_GetEnvOrDefault :: "(string \<Rightarrow> string option) \<Rightarrow> string \<Rightarrow> string \<Rightarrow> string" where
  "Client_GetEnvOrDefault getenv name default_value =
     (case getenv name of None \<Rightarrow> default_value | Some v \<Rightarrow> v)"

definition GetEnvIntText :: "(string \<Rightarrow> string option) \<Rightarrow> string \<Rightarrow> int \<Rightarrow> string" where
  "GetEnvIntText getenv name default_value = Client_GetEnvOrDefault getenv name (show_int default_value)"

text \<open>The turn of the loop at each comma.\<close>

function SplitCsv :: "string \<Rightarrow> string list" where
  "SplitCsv csv =
     (let v = trim_both (\<lambda>c. c = CHR 0x20) (takeWhile (\<lambda>c. c \<noteq> CHR '','') csv);
          kept = (if v \<noteq> [] then [v] else [])
      in if CHR '','' \<notin> set csv then kept
         else kept @ SplitCsv (tl (dropWhile (\<lambda>c. c \<noteq> CHR '','') csv)))"
  by pat_completeness auto
termination
proof (relation "measure length")
  fix csv :: string and v kept
  assume "\<not> CHR '','' \<notin> set csv"
  then have ne: "dropWhile (\<lambda>c. c \<noteq> CHR '','') csv \<noteq> []" by auto
  then have "length (tl (dropWhile (\<lambda>c. c \<noteq> CHR '','') csv)) < length (dropWhile (\<lambda>c. c \<noteq> CHR '','') csv)" by simp
  also have "\<dots> \<le> length csv" by (rule length_dropWhile_le)
  finally show "(tl (dropWhile (\<lambda>c. c \<noteq> CHR '','') csv), csv) \<in> measure length" by simp
qed simp

declare SplitCsv.simps [simp del]

text \<open>An environment variable that is not a number is reported and the value stays.\<close>

definition LoadIntEnv :: "(string \<Rightarrow> string option) \<Rightarrow> string \<Rightarrow> string \<Rightarrow> int \<Rightarrow> int \<times> string" where
  "LoadIntEnv getenv env_name config_name v =
     (case ParseIntArg (GetEnvIntText getenv env_name v) config_name of
        (None, out) \<Rightarrow> (v, out)
      | (Some parsed, out) \<Rightarrow> (parsed, out))"

definition Redis_LoadDefaultConfig :: "(string \<Rightarrow> string option) \<Rightarrow> RedisClientConfig \<times> string" where
  "Redis_LoadDefaultConfig getenv =
     (let config = RedisClientConfig_new;
          (port, out1) = LoadIntEnv getenv ''REDIS_PORT'' ''REDIS_PORT'' (dcc_port config);
          (db, out2) = LoadIntEnv getenv ''REDIS_DB'' ''REDIS_DB'' (dcc_db config);
          (top_k, out3) = LoadIntEnv getenv ''REDIS_TOP_K'' ''REDIS_TOP_K'' (dcc_top_k config);
          (connect_timeout_ms, out4) =
            LoadIntEnv getenv ''REDIS_CONNECT_TIMEOUT_MS'' ''REDIS_CONNECT_TIMEOUT_MS'' (dcc_connect_timeout_ms config);
          (socket_timeout_ms, out5) =
            LoadIntEnv getenv ''REDIS_SOCKET_TIMEOUT_MS'' ''REDIS_SOCKET_TIMEOUT_MS'' (dcc_socket_timeout_ms config);
          (pool_size, out6) = LoadIntEnv getenv ''REDIS_POOL_SIZE'' ''REDIS_POOL_SIZE'' (dcc_pool_size config);
          (pool_wait_timeout_ms, out7) =
            LoadIntEnv getenv ''REDIS_POOL_WAIT_TIMEOUT_MS'' ''REDIS_POOL_WAIT_TIMEOUT_MS'' (dcc_pool_wait_timeout_ms config);
          (retry_max_attempts, out8) =
            LoadIntEnv getenv ''REDIS_RETRY_MAX_ATTEMPTS'' ''REDIS_RETRY_MAX_ATTEMPTS'' (dcc_retry_max_attempts config);
          (retry_delay_ms, out9) =
            LoadIntEnv getenv ''REDIS_RETRY_DELAY_MS'' ''REDIS_RETRY_DELAY_MS'' (dcc_retry_delay_ms config)
      in (\<lparr>dcc_host = Client_GetEnvOrDefault getenv ''REDIS_HOST'' kDefaultRedisHost, dcc_port = port, dcc_db = db,
           dcc_username = Client_GetEnvOrDefault getenv ''REDIS_USERNAME'' [],
           dcc_password = Client_GetEnvOrDefault getenv ''REDIS_PASSWORD'' [],
           dcc_key_prefix = Client_GetEnvOrDefault getenv ''REDIS_KEY_PREFIX'' kDefaultKeyPrefix,
           dcc_item_ids = SplitCsv (Client_GetEnvOrDefault getenv ''REDIS_ITEM_IDS'' kDefaultItemIds),
           dcc_top_k = top_k, dcc_connect_timeout_ms = connect_timeout_ms, dcc_socket_timeout_ms = socket_timeout_ms,
           dcc_pool_size = pool_size, dcc_pool_wait_timeout_ms = pool_wait_timeout_ms,
           dcc_retry_max_attempts = retry_max_attempts, dcc_retry_delay_ms = retry_delay_ms\<rparr>,
          out1 @ out2 @ out3 @ out4 @ out5 @ out6 @ out7 @ out8 @ out9))"

definition Redis_PrintUsage :: string where
  "Redis_PrintUsage =
     print_line ''Usage: redis_client [options]'' @
     print_line ''Options:'' @
     print_line ''  -h, --help                         Show this help message'' @
     print_line ''  -H, --redis-host <HOST>            Redis host'' @
     print_line (''                                     (default: '' @ kDefaultRedisHost @ '')'') @
     print_line ''  -p, --redis-port <PORT>            Redis port (default: 6379)'' @
     print_line ''  -d, --redis-db <DB>                Redis DB (default: 0)'' @
     print_line ''  -U, --username <USERNAME>          Optional Redis ACL username'' @
     print_line ''  -P, --password <PASSWORD>          Redis password (default: REDIS_PASSWORD)'' @
     print_line ''  -k, --key-prefix <PREFIX>          Item-CF key prefix'' @
     print_line (''                                     (default: '' @ kDefaultKeyPrefix @ '')'') @
     print_line ''  -i, --item-ids <IDS>               Comma-separated item ids'' @
     print_line (''                                     (default: '' @ kDefaultItemIds @ '')'') @
     print_line ''  -n, --top-k <N>                    Number of neighbors per item'' @
     print_line ''                                     (default: 5)'' @
     print_line ''  -t, --connect-timeout-ms <MILLIS>  Redis connect timeout'' @
     print_line ''  -s, --socket-timeout-ms <MILLIS>   Redis socket timeout'' @
     newline @
     print_line ''Environment variables with matching names are also supported:'' @
     print_line ''  REDIS_HOST, REDIS_PORT, REDIS_DB, REDIS_USERNAME, REDIS_PASSWORD,'' @
     print_line ''  REDIS_KEY_PREFIX, REDIS_ITEM_IDS, REDIS_TOP_K,'' @
     print_line ''  REDIS_CONNECT_TIMEOUT_MS, REDIS_SOCKET_TIMEOUT_MS,'' @
     print_line ''  REDIS_POOL_SIZE, REDIS_POOL_WAIT_TIMEOUT_MS,'' @
     print_line ''  REDIS_RETRY_MAX_ATTEMPTS, REDIS_RETRY_DELAY_MS''"

definition Redis_long_options :: "LongOption list" where
  "Redis_long_options =
     [no_argument ''help'' (CHR ''h''), required_argument ''redis-host'' (CHR ''H''),
      required_argument ''redis-port'' (CHR ''p''), required_argument ''redis-db'' (CHR ''d''),
      required_argument ''username'' (CHR ''U''), required_argument ''password'' (CHR ''P''),
      required_argument ''key-prefix'' (CHR ''k''), required_argument ''item-ids'' (CHR ''i''),
      required_argument ''top-k'' (CHR ''n''), required_argument ''connect-timeout-ms'' (CHR ''t''),
      required_argument ''socket-timeout-ms'' (CHR ''s'')]"

definition Redis_option :: "int \<Rightarrow> string \<Rightarrow> RedisClientConfig \<Rightarrow> RedisClientConfig parsed" where
  "Redis_option opt optarg config =
     (if opt = opt_char (CHR ''h'') then (None, Redis_PrintUsage)
      else if opt = opt_char (CHR ''H'') then (Some (config\<lparr>dcc_host := optarg\<rparr>), [])
      else if opt = opt_char (CHR ''p'')
      then set_parsed (ParseIntArg optarg ''redis_port'') (\<lambda>v. config\<lparr>dcc_port := v\<rparr>)
      else if opt = opt_char (CHR ''d'')
      then set_parsed (ParseIntArg optarg ''redis_db'') (\<lambda>v. config\<lparr>dcc_db := v\<rparr>)
      else if opt = opt_char (CHR ''U'') then (Some (config\<lparr>dcc_username := optarg\<rparr>), [])
      else if opt = opt_char (CHR ''P'') then (Some (config\<lparr>dcc_password := optarg\<rparr>), [])
      else if opt = opt_char (CHR ''k'') then (Some (config\<lparr>dcc_key_prefix := optarg\<rparr>), [])
      else if opt = opt_char (CHR ''i'') then (Some (config\<lparr>dcc_item_ids := SplitCsv optarg\<rparr>), [])
      else if opt = opt_char (CHR ''n'')
      then set_parsed (ParseIntArg optarg ''top_k'') (\<lambda>v. config\<lparr>dcc_top_k := v\<rparr>)
      else if opt = opt_char (CHR ''t'')
      then set_parsed (ParseIntArg optarg ''connect_timeout_ms'') (\<lambda>v. config\<lparr>dcc_connect_timeout_ms := v\<rparr>)
      else if opt = opt_char (CHR ''s'')
      then set_parsed (ParseIntArg optarg ''socket_timeout_ms'') (\<lambda>v. config\<lparr>dcc_socket_timeout_ms := v\<rparr>)
      else (None, Redis_PrintUsage))"

definition Redis_ParseArgs :: "getopt_long \<Rightarrow> string list \<Rightarrow> RedisClientConfig \<Rightarrow> RedisClientConfig parsed" where
  "Redis_ParseArgs getopt args config =
     parse_options Redis_option (getopt ''hH:p:d:U:P:k:i:n:t:s:'' Redis_long_options args) config"

definition Redis_ValidateConfig :: "RedisClientConfig \<Rightarrow> bool \<times> string" where
  "Redis_ValidateConfig config =
     (if dcc_host config = [] then (False, print_line ''Error: Redis host is required.'')
      else if dcc_key_prefix config = [] then (False, print_line ''Error: Redis key prefix is required.'')
      else if dcc_item_ids config = [] then (False, print_line ''Error: At least one item id is required.'')
      else if dcc_top_k config \<le> 0 then (False, print_line ''Error: top_k must be greater than zero.'')
      else (True, []))"

definition BuildRedisClientConfig :: "RedisClientConfig \<Rightarrow> RedisConfig" where
  "BuildRedisClientConfig config =
     RedisConfig_new\<lparr>rdc_host := dcc_host config, rdc_port := dcc_port config, rdc_db := dcc_db config,
       rdc_user := dcc_username config, rdc_password := dcc_password config,
       rdc_connect_timeout := dcc_connect_timeout_ms config, rdc_socket_timeout := dcc_socket_timeout_ms config,
       rdc_pool_size := nat (dcc_pool_size config mod 2 ^ 64),
       rdc_pool_wait_timeout := dcc_pool_wait_timeout_ms config,
       rdc_retry := \<lparr>rrc_max_attempts = dcc_retry_max_attempts config, rrc_delay = dcc_retry_delay_ms config\<rparr>\<rparr>"

definition Redis_PrintConfig :: "RedisClientConfig \<Rightarrow> string" where
  "Redis_PrintConfig config =
     print_line ''Client config:'' @
     print_field ''host'' (dcc_host config) @
     print_field ''port'' (show_int (dcc_port config)) @
     print_field ''db'' (show_int (dcc_db config)) @
     print_field ''username'' (dcc_username config) @
     print_field ''password'' (password_text (dcc_password config)) @
     print_field ''key_prefix'' (dcc_key_prefix config) @
     print_line (''  item_ids:'' @ concat (map (\<lambda>i. '' '' @ i) (dcc_item_ids config))) @
     print_field ''top_k'' (show_int (dcc_top_k config)) @
     print_field ''connect_timeout_ms'' (show_int (dcc_connect_timeout_ms config)) @
     print_field ''socket_timeout_ms'' (show_int (dcc_socket_timeout_ms config)) @
     print_field ''pool_size'' (show_int (dcc_pool_size config)) @
     print_field ''pool_wait_timeout_ms'' (show_int (dcc_pool_wait_timeout_ms config)) @
     print_field ''retry_max_attempts'' (show_int (dcc_retry_max_attempts config)) @
     print_field ''retry_delay_ms'' (show_int (dcc_retry_delay_ms config)) @ newline"

fun RedisErrorCodeName :: "RedisErrorCode \<Rightarrow> string" where
  "RedisErrorCodeName kNone = ''none''"
| "RedisErrorCodeName kInvalidArgument = ''invalid_argument''"
| "RedisErrorCodeName kIoError = ''io_error''"
| "RedisErrorCodeName kTimeout = ''timeout''"
| "RedisErrorCodeName kClosed = ''closed''"
| "RedisErrorCodeName kReplyError = ''reply_error''"
| "RedisErrorCodeName kProtocolError = ''protocol_error''"
| "RedisErrorCodeName kUnknown = ''unknown''"

definition PrintRedisStatus :: "string \<Rightarrow> RedisStatus \<Rightarrow> string" where
  "PrintRedisStatus title status =
     print_line (title @ '':'') @
     print_field ''ok'' (bool_text (rst_ok status)) @
     print_field ''error_code'' (RedisErrorCodeName (rst_error_code status)) @
     print_field ''error_message'' (rst_error_message status) @
     print_field ''attempts'' (show_int (rst_attempts status))"

definition BuildItemSimilarityKey :: "string \<Rightarrow> string \<Rightarrow> string" where
  "BuildItemSimilarityKey key_prefix item_id =
     (if key_prefix \<noteq> [] \<and> last key_prefix = CHR '':'' then key_prefix @ item_id else key_prefix @ '':'' @ item_id)"

text \<open>
  What the client sees of the world: the clocks of its calls in order and the commands of the library, for
  each call and attempt.
\<close>

record redis_world =
  dw_utc_text :: calendar
  dw_run_started :: nat
  dw_started :: "nat \<Rightarrow> nat"
  dw_received :: "nat \<Rightarrow> nat"
  dw_elapsed :: "nat \<Rightarrow> int"
  dw_ping :: "int \<Rightarrow> redis_exception + unit"
  dw_zrevrange :: "nat \<Rightarrow> int \<Rightarrow> string \<Rightarrow> int \<Rightarrow> int \<Rightarrow> redis_exception + string list"

definition call_times :: "redis_world \<Rightarrow> nat \<Rightarrow> string \<Rightarrow> string" where
  "call_times w i name =
     PrintTimestampUtc (dw_utc_text w) (dw_started w i) (name @ '' request started at UTC'') @
     PrintTimestampUtc (dw_utc_text w) (dw_received w i) (name @ '' response received at UTC'') @
     print_line (name @ '' elapsed: '' @ show_int (dw_elapsed w i) @ '' ms'')"

definition print_neighbor :: "RedisScoredMember \<Rightarrow> string" where
  "print_neighbor n = print_line (''  item_id='' @ rsm_member n @ '' score='' @ print_double (rsm_score n))"

text \<open>The loop over the item ids: whether it ran to its end, the number of keys with neighbours, the keys asked for.\<close>

fun query_items ::
  "redis_world \<Rightarrow> RedisConfig \<Rightarrow> string \<Rightarrow> int \<Rightarrow> nat \<Rightarrow> nat \<Rightarrow> string list \<Rightarrow> (bool \<times> nat) \<times> string \<times> string list" where
  "query_items w client key_prefix top_k i non_empty_keys [] = ((True, non_empty_keys), [], [])"
| "query_items w client key_prefix top_k i non_empty_keys (item_id # item_ids) =
     (let key = BuildItemSimilarityKey key_prefix item_id;
          result = fst (ZRevRangeWithScores client (dw_zrevrange w i) key 0 (top_k - 1));
          out = print_line ''Redis ZREVRANGE request:'' @ print_field ''key'' key @ print_field ''start'' ''0'' @
                print_field ''stop'' (show_int (top_k - 1)) @ call_times w i ''Redis ZREVRANGE'' @
                PrintRedisStatus ''Redis ZREVRANGE response status'' (rr_status result)
      in if \<not> rst_ok (rr_status result) then ((False, non_empty_keys), out, [key])
         else
           (let out = out @ print_line (''Redis ZREVRANGE response values for key '' @ key @ '':'');
                found = (rr_values result \<noteq> []);
                out = out @ (if found then concat (map print_neighbor (rr_values result)) else print_line ''  <no neighbors>'')
            in case query_items w client key_prefix top_k (Suc i) (if found then Suc non_empty_keys else non_empty_keys) item_ids of
                 (r, out', keys) \<Rightarrow> (r, out @ out', key # keys)))"

definition Redis_launch_request ::
  "redis_world \<Rightarrow> RedisConfig \<Rightarrow> string \<Rightarrow> int \<Rightarrow> string list \<Rightarrow> bool \<times> string \<times> string list" where
  "Redis_launch_request w client key_prefix top_k item_ids =
     (let ping = rr_status (fst (Redis_Ping client (dw_ping w)));
          out = print_line ''Redis PING request: PING'' @ call_times w 0 ''Redis PING'' @
                PrintRedisStatus ''Redis PING response'' ping
      in if \<not> rst_ok ping then (False, out, [])
         else
           (case query_items w client key_prefix top_k 1 0 item_ids of
              ((completed, non_empty_keys), out', keys) \<Rightarrow>
                if \<not> completed then (False, out @ out', keys)
                else if non_empty_keys = 0
                then (False, out @ out' @ print_line ''No configured item ids returned neighbors.'', keys)
                else (True, out @ out' @ newline @ print_line ''Redis item_cf client completed successfully.'', keys)))"

definition Redis_main ::
  "redis_world \<Rightarrow> (string \<Rightarrow> string option) \<Rightarrow> getopt_long \<Rightarrow> string list \<Rightarrow> ClientExitCode \<times> string \<times> string list" where
  "Redis_main w getenv getopt args =
     (case Redis_LoadDefaultConfig getenv of
        (config, out) \<Rightarrow>
          (case Redis_ParseArgs getopt args config of
             (None, out1) \<Rightarrow> (kArgs, out @ out1, [])
           | (Some config, out1) \<Rightarrow>
               (let out = out @ out1 @ PrintRunStartedAtUtc (dw_utc_text w) (dw_run_started w) @ Redis_PrintConfig config
                in case Redis_ValidateConfig config of
                     (False, out2) \<Rightarrow> (kErr, out @ out2, [])
                   | (True, out2) \<Rightarrow>
                       (case RedisClient_new (BuildRedisClientConfig config) of
                          Inl e \<Rightarrow>
                            (kErr, out @ print_line (''Redis item_cf client failed with exception: '' @ exception_text e), [])
                        | Inr client \<Rightarrow>
                            (case Redis_launch_request w client (dcc_key_prefix config) (dcc_top_k config) (dcc_item_ids config) of
                               (ok, out3, keys) \<Rightarrow> (if ok then ClientExitCode.kOk else kErr, out @ out3, keys))))))"

section \<open>Properties\<close>

text \<open>Trimming a blank, and the pieces of a text between commas.\<close>

fun pieces :: "string \<Rightarrow> string list" where
  "pieces [] = [[]]"
| "pieces (c # cs) =
     (if c = CHR '','' then [] # pieces cs
      else (case pieces cs of [] \<Rightarrow> [[c]] | p # ps \<Rightarrow> (c # p) # ps))"

lemma pieces_eq:
  "pieces cs = takeWhile (\<lambda>c. c \<noteq> CHR '','') cs #
     (if CHR '','' \<in> set cs then pieces (tl (dropWhile (\<lambda>c. c \<noteq> CHR '','') cs)) else [])"
  by (induction cs) (auto split: list.splits)

lemma SplitCsv_pieces: "SplitCsv csv = filter (\<lambda>v. v \<noteq> []) (map (trim_both (\<lambda>c. c = CHR 0x20)) (pieces csv))"
proof (induction csv rule: SplitCsv.induct)
  case (1 csv)
  show ?case
    using 1 [OF refl refl] by (subst SplitCsv.simps, subst pieces_eq) (simp add: Let_def)
qed

text \<open>The loop over the items.\<close>

definition item_answer :: "redis_world \<Rightarrow> RedisConfig \<Rightarrow> string \<Rightarrow> int \<Rightarrow> nat \<times> string \<Rightarrow> RedisScoredMemberListResult" where
  "item_answer w client key_prefix top_k entry =
     fst (ZRevRangeWithScores client (dw_zrevrange w (fst entry)) (BuildItemSimilarityKey key_prefix (snd entry)) 0 (top_k - 1))"

definition answer_ok :: "RedisScoredMemberListResult \<Rightarrow> bool" where
  "answer_ok result = rst_ok (rr_status result)"

lemma query_items_eq:
  assumes "query_items w client key_prefix top_k i n ids = ((completed, n'), out, keys)"
  shows "completed \<longleftrightarrow> list_all answer_ok (map (item_answer w client key_prefix top_k) (enumerate i ids))"
    and "completed \<Longrightarrow> n' = n + length (filter (\<lambda>r. rr_values r \<noteq> []) (map (item_answer w client key_prefix top_k) (enumerate i ids)))"
    and "keys = map (BuildItemSimilarityKey key_prefix)
       (take (Suc (length (takeWhile answer_ok (map (item_answer w client key_prefix top_k) (enumerate i ids))))) ids)"
proof -
  have "(completed \<longleftrightarrow> list_all answer_ok (map (item_answer w client key_prefix top_k) (enumerate i ids))) \<and>
      (completed \<longrightarrow> n' = n + length (filter (\<lambda>r. rr_values r \<noteq> []) (map (item_answer w client key_prefix top_k) (enumerate i ids)))) \<and>
      keys = map (BuildItemSimilarityKey key_prefix)
        (take (Suc (length (takeWhile answer_ok (map (item_answer w client key_prefix top_k) (enumerate i ids))))) ids)"
    using assms
  proof (induction ids arbitrary: i n out keys)
    case (Cons x ids)
    show ?case
    proof (cases "answer_ok (item_answer w client key_prefix top_k (i, x))")
      case True
      obtain r out2 keys2 where rest: "query_items w client key_prefix top_k (Suc i)
          (if rr_values (item_answer w client key_prefix top_k (i, x)) \<noteq> [] then Suc n else n) ids = (r, out2, keys2)"
        by (metis prod_cases3)
      then have "r = (completed, n')" "keys = BuildItemSimilarityKey key_prefix x # keys2"
        using Cons.prems True by (auto simp: Let_def item_answer_def answer_ok_def)
      with Cons.IH [OF rest [unfolded this(1)]] True show ?thesis by auto
    next
      case False
      then show ?thesis using Cons.prems by (auto simp: Let_def item_answer_def answer_ok_def)
    qed
  qed simp
  then show "completed \<longleftrightarrow> list_all answer_ok (map (item_answer w client key_prefix top_k) (enumerate i ids))"
    "completed \<Longrightarrow> n' = n + length (filter (\<lambda>r. rr_values r \<noteq> []) (map (item_answer w client key_prefix top_k) (enumerate i ids)))"
    "keys = map (BuildItemSimilarityKey key_prefix)
       (take (Suc (length (takeWhile answer_ok (map (item_answer w client key_prefix top_k) (enumerate i ids))))) ids)"
    by simp_all
qed

lemma Redis_launch_request_eq:
  assumes "Redis_launch_request w client key_prefix top_k ids = (ok, out, keys)"
    and "answers = map (item_answer w client key_prefix top_k) (enumerate 1 ids)"
    and "ping = rst_ok (rr_status (fst (Redis_Ping client (dw_ping w))))"
  shows "ok \<longleftrightarrow> ping \<and> list_all answer_ok answers \<and> list_ex (\<lambda>r. rr_values r \<noteq> []) answers"
    and "keys = (if ping then map (BuildItemSimilarityKey key_prefix) (take (Suc (length (takeWhile answer_ok answers))) ids) else [])"
proof -
  obtain completed n out' keys' where q: "query_items w client key_prefix top_k 1 0 ids = ((completed, n), out', keys')"
    by (metis surj_pair)
  note query = query_items_eq [OF q, folded assms(2)]
  have some: "completed \<Longrightarrow> n = 0 \<longleftrightarrow> \<not> list_ex (\<lambda>r. rr_values r \<noteq> []) answers"
    using query(2) by (auto simp: list_ex_iff filter_empty_conv)
  have "(ok, keys) = (if ping then (completed \<and> n \<noteq> 0, keys') else (False, []))"
    using assms(1) by (cases ping; cases completed; cases "n = 0") (simp_all add: Redis_launch_request_def Let_def q [unfolded One_nat_def] assms(3))
  then have result: "ok = (ping \<and> completed \<and> n \<noteq> 0)" "keys = (if ping then keys' else [])" by (auto split: if_splits)
  show "ok \<longleftrightarrow> ping \<and> list_all answer_ok answers \<and> list_ex (\<lambda>r. rr_values r \<noteq> []) answers"
    using query(1) some by (auto simp: result)
  show "keys = (if ping then map (BuildItemSimilarityKey key_prefix) (take (Suc (length (takeWhile answer_ok answers))) ids) else [])"
    using query(3) by (simp add: result)
qed

text \<open>
  The outcome of the Redis client. With options that are refused it ends with \<open>kArgs\<close>; otherwise it
  succeeds exactly when its configuration is valid, the server answers the ping, every key is answered
  without an error and one of them has neighbours. It asks for the keys of its items in order, up to the
  first that is not answered, and for none when the configuration is not valid or the ping fails.
\<close>

theorem redis_client_outcome:
  "case Redis_main w getenv getopt args of (code, out, keys) \<Rightarrow>
     (case fst (Redis_ParseArgs getopt args (fst (Redis_LoadDefaultConfig getenv))) of
        None \<Rightarrow> code = ClientExitCode.kArgs \<and> keys = []
      | Some config \<Rightarrow>
          (let client = BuildRedisClientConfig config; ids = dcc_item_ids config;
               usable = (fst (Redis_ValidateConfig config) \<and> ValidateRedisConfig client = Inr () \<and>
                         rst_ok (rr_status (fst (Redis_Ping client (dw_ping w)))));
               answers = map (item_answer w client (dcc_key_prefix config) (dcc_top_k config)) (enumerate 1 ids)
           in code = (if usable \<and> list_all answer_ok answers \<and> list_ex (\<lambda>r. rr_values r \<noteq> []) answers
                      then ClientExitCode.kOk else kErr) \<and>
              keys = (if usable
                      then map (BuildItemSimilarityKey (dcc_key_prefix config)) (take (Suc (length (takeWhile answer_ok answers))) ids)
                      else [])))"
proof -
  obtain config0 out0 where load: "Redis_LoadDefaultConfig getenv = (config0, out0)" by fastforce
  obtain parsed out1 where parse: "Redis_ParseArgs getopt args config0 = (parsed, out1)" by fastforce
  show ?thesis
  proof (cases parsed)
    case None
    then show ?thesis by (simp add: Redis_main_def load parse)
  next
    case (Some config)
    let ?client = "BuildRedisClientConfig config"
    obtain valid out2 where valid: "Redis_ValidateConfig config = (valid, out2)" by fastforce
    obtain ok out3 keys3 where launch:
      "Redis_launch_request w ?client (dcc_key_prefix config) (dcc_top_k config) (dcc_item_ids config) = (ok, out3, keys3)"
      by (metis prod_cases3)
    note outcome = Redis_launch_request_eq [OF launch refl refl]
    show ?thesis
    proof (cases "ValidateRedisConfig ?client")
      case (Inl e)
      then show ?thesis by (cases valid) (simp_all add: Redis_main_def load parse Some valid RedisClient_new_def)
    next
      case (Inr u)
      then show ?thesis
        by (cases valid) (simp_all add: Redis_main_def load parse Some valid RedisClient_new_def launch outcome Let_def)
    qed
  qed
qed

text \<open>
  C39. The client checks the keys that the services read: its key of an item is the one that the similarity
  store builds, for every prefix but those that end in two colons, from which the store strips both and the
  client none.
\<close>

theorem redis_client_keys:
  "BuildItemSimilarityKey key_prefix (show_nat (unat item_id)) = BuildRedisKey key_prefix item_id \<longleftrightarrow>
     \<not> (\<exists>p. key_prefix = p @ ''::'')"
proof (cases key_prefix rule: rev_cases)
  case Nil
  then show ?thesis by (simp add: BuildItemSimilarityKey_def BuildRedisKey_def)
next
  case (snoc p c)
  show ?thesis
  proof (cases "c = CHR '':''")
    case False
    then show ?thesis by (auto simp: snoc BuildItemSimilarityKey_def BuildRedisKey_def Let_def)
  next
    case colon: True
    show ?thesis
    proof (cases p rule: rev_cases)
      case Nil
      then show ?thesis by (simp add: snoc colon BuildItemSimilarityKey_def BuildRedisKey_def Let_def)
    next
      case p: (snoc p' d)
      show ?thesis
      proof (cases "d = CHR '':''")
        case True
        let ?kept = "rev (dropWhile (\<lambda>c. c = CHR '':'') (rev p'))"
        have "length ?kept \<le> length p'" using length_dropWhile_le [of _ "rev p'"] by simp
        then have "length (BuildRedisKey key_prefix item_id) < length (BuildItemSimilarityKey key_prefix (show_nat (unat item_id)))"
          by (simp add: snoc colon p True BuildItemSimilarityKey_def BuildRedisKey_def Let_def)
        then have "BuildItemSimilarityKey key_prefix (show_nat (unat item_id)) \<noteq> BuildRedisKey key_prefix item_id" by auto
        then show ?thesis by (simp add: snoc colon p True)
      next
        case False
        then show ?thesis by (simp add: snoc colon p BuildItemSimilarityKey_def BuildRedisKey_def Let_def)
      qed
    qed
  qed
qed

end
