(* ===== verification/ElasticsearchCommandClient.thy ===== *)
theory ElasticsearchCommandClient
  imports CommandLine ElasticsearchStores ProfileStores RuntimeUtilities
begin

text \<open>
  The command line client elasticsearch_client.cpp, which fetches a profile from Elasticsearch. The
  environment, the JSON library and the execution of requests by the curl client are arguments.
\<close>

section \<open>Configuration\<close>

definition kDefaultEsUrl :: string where
  "kDefaultEsUrl = ''https://item-index-es-http.recommendation-engine-es.svc:9200''"
definition kDefaultProfileIndex :: string where "kDefaultProfileIndex = ''movielens_32m_user_profile''"
definition kDefaultCaCertPath :: string where "kDefaultCaCertPath = ''/mnt/elasticsearch-ca/ca.crt''"

record EsClientConfig =
  scc_es_url :: string
  scc_username :: string
  scc_password :: string
  scc_ca_cert_path :: string
  scc_profile_index :: string
  scc_user_id :: string
  scc_verify_ssl :: bool
  scc_timeout_ms :: int
  scc_acquire_timeout_ms :: int
  scc_http_request_timeout_ms :: int
  scc_connect_timeout_ms :: int

definition Es_LoadDefaultConfig :: "(string \<Rightarrow> string option) \<Rightarrow> EsClientConfig" where
  "Es_LoadDefaultConfig getenv =
     \<lparr>scc_es_url = GetEnvOrDefault getenv ''ES_BASE_URL'' kDefaultEsUrl,
      scc_username = GetEnvOrDefault getenv ''ES_USERNAME'' ''elastic'',
      scc_password = GetEnvOrDefault getenv ''ES_PASSWORD'' [],
      scc_ca_cert_path = GetEnvOrDefault getenv ''ES_CA_CERT_PATH'' kDefaultCaCertPath,
      scc_profile_index = GetEnvOrDefault getenv ''ES_PROFILE_INDEX'' kDefaultProfileIndex,
      scc_user_id = GetEnvOrDefault getenv ''ES_PROFILE_USER_ID'' ''1'',
      scc_verify_ssl = GetEnvFlagOrDefault getenv ''ES_VERIFY_SSL'' True,
      scc_timeout_ms = 4000, scc_acquire_timeout_ms = 2000, scc_http_request_timeout_ms = 2000,
      scc_connect_timeout_ms = 2000\<rparr>"

definition Es_PrintUsage :: string where
  "Es_PrintUsage =
     print_line ''Usage: elasticsearch_client [options]'' @
     print_line ''Options:'' @
     print_line ''  -h, --help                    Show this help message'' @
     print_line ''  -e, --es-url <URL>            Elasticsearch URL'' @
     print_line (''                                (default: '' @ kDefaultEsUrl @ '')'') @
     print_line ''  -U, --username <USERNAME>     Elasticsearch username (default: elastic)'' @
     print_line ''  -P, --password <PASSWORD>     Elasticsearch password (default: ES_PASSWORD)'' @
     print_line ''  -a, --ca-cert-path <PATH>     CA certificate path'' @
     print_line (''                                (default: '' @ kDefaultCaCertPath @ '')'') @
     print_line ''  -k, --no-verify-ssl           Disable TLS certificate verification'' @
     print_line ''  -i, --index <INDEX>           Profile index'' @
     print_line (''                                (default: '' @ kDefaultProfileIndex @ '')'') @
     print_line ''  -u, --user-id <USER_ID>       Profile document _id (default: 1)'' @
     print_line ''  -t, --timeout-ms <MILLIS>     ES client operation budget (default: 4000)'' @
     newline @
     print_line ''Environment variables with matching names are also supported:'' @
     print_line ''  ES_BASE_URL, ES_USERNAME, ES_PASSWORD, ES_CA_CERT_PATH,'' @
     print_line ''  ES_VERIFY_SSL, ES_PROFILE_INDEX, ES_PROFILE_USER_ID''"

definition Es_long_options :: "LongOption list" where
  "Es_long_options =
     [no_argument ''help'' (CHR ''h''), required_argument ''es-url'' (CHR ''e''),
      required_argument ''username'' (CHR ''U''), required_argument ''password'' (CHR ''P''),
      required_argument ''ca-cert-path'' (CHR ''a''), no_argument ''no-verify-ssl'' (CHR ''k''),
      required_argument ''index'' (CHR ''i''), required_argument ''user-id'' (CHR ''u''),
      required_argument ''timeout-ms'' (CHR ''t'')]"

definition Es_option :: "int \<Rightarrow> string \<Rightarrow> EsClientConfig \<Rightarrow> EsClientConfig parsed" where
  "Es_option opt optarg config =
     (if opt = opt_char (CHR ''h'') then (None, Es_PrintUsage)
      else if opt = opt_char (CHR ''e'') then (Some (config\<lparr>scc_es_url := optarg\<rparr>), [])
      else if opt = opt_char (CHR ''U'') then (Some (config\<lparr>scc_username := optarg\<rparr>), [])
      else if opt = opt_char (CHR ''P'') then (Some (config\<lparr>scc_password := optarg\<rparr>), [])
      else if opt = opt_char (CHR ''a'') then (Some (config\<lparr>scc_ca_cert_path := optarg\<rparr>), [])
      else if opt = opt_char (CHR ''k'') then (Some (config\<lparr>scc_verify_ssl := False\<rparr>), [])
      else if opt = opt_char (CHR ''i'') then (Some (config\<lparr>scc_profile_index := optarg\<rparr>), [])
      else if opt = opt_char (CHR ''u'') then (Some (config\<lparr>scc_user_id := optarg\<rparr>), [])
      else if opt = opt_char (CHR ''t'')
      then set_parsed (ParseIntArg optarg ''timeout_ms'') (\<lambda>v. config\<lparr>scc_timeout_ms := v\<rparr>)
      else (None, Es_PrintUsage))"

definition Es_ParseArgs :: "getopt_long \<Rightarrow> string list \<Rightarrow> EsClientConfig \<Rightarrow> EsClientConfig parsed" where
  "Es_ParseArgs getopt args config = parse_options Es_option (getopt ''he:U:P:a:ki:u:t:'' Es_long_options args) config"

definition Es_ValidateConfig :: "EsClientConfig \<Rightarrow> bool \<times> string" where
  "Es_ValidateConfig config =
     (if scc_password config = []
      then (False, print_line ''Error: ES password is required. Set ES_PASSWORD or pass --password.'')
      else (True, []))"

definition BuildElasticsearchClientConfig :: "EsClientConfig \<Rightarrow> ElasticsearchConfig" where
  "BuildElasticsearchClientConfig config =
     ElasticsearchConfig_default
       \<lparr>ec_base_url := scc_es_url config, ec_username := scc_username config, ec_password := scc_password config,
        ec_request_timeout := Some (scc_timeout_ms config),
        ec_http_config := (ec_http_config ElasticsearchConfig_default)
          \<lparr>cc_acquire_timeout := scc_acquire_timeout_ms config, cc_request_timeout := scc_http_request_timeout_ms config,
           cc_connect_timeout := scc_connect_timeout_ms config, cc_verify_ssl := scc_verify_ssl config,
           cc_ca_cert_path := scc_ca_cert_path config\<rparr>\<rparr>"

definition Es_PrintConfig :: "EsClientConfig \<Rightarrow> string" where
  "Es_PrintConfig config =
     print_line ''Client config:'' @
     print_field ''es_url'' (scc_es_url config) @
     print_field ''username'' (scc_username config) @
     print_field ''password'' (password_text (scc_password config)) @
     print_field ''ca_cert_path'' (scc_ca_cert_path config) @
     print_field ''profile_index'' (scc_profile_index config) @
     print_field ''user_id'' (scc_user_id config) @
     print_field ''verify_ssl'' (bool_text (scc_verify_ssl config)) @
     print_field ''timeout_ms'' (show_int (scc_timeout_ms config)) @
     print_field ''acquire_timeout_ms'' (show_int (scc_acquire_timeout_ms config)) @
     print_field ''http_request_timeout_ms'' (show_int (scc_http_request_timeout_ms config)) @
     print_field ''connect_timeout_ms'' (show_int (scc_connect_timeout_ms config)) @ newline"

definition PrintElasticsearchResult :: "string \<Rightarrow> ElasticsearchResult \<Rightarrow> string" where
  "PrintElasticsearchResult title result =
     print_line (title @ '':'') @
     print_field ''ok'' (bool_text (er_ok result)) @
     print_field ''status_code'' (show_int (er_status_code result)) @
     print_field ''error_message'' (er_error_message result) @
     print_field ''body'' (er_body result)"

definition Client_RequireField :: "fields \<Rightarrow> string \<Rightarrow> Value option \<times> string" where
  "Client_RequireField fs name =
     (case FindField fs name of
        None \<Rightarrow> (None, print_line (''Elasticsearch response is missing JSON field: '' @ name))
      | Some v \<Rightarrow> (Some v, []))"

text \<open>
  What the client sees of the world: clocks of its two calls, the JSON library (to an object, from an object,
  to a profile) and the printer of profiles.
\<close>

record es_world =
  sw_utc_text :: calendar
  sw_run_started :: nat
  sw_started :: "nat \<Rightarrow> nat"
  sw_received :: "nat \<Rightarrow> nat"
  sw_elapsed :: "nat \<Rightarrow> int"
  sw_object :: "fields json_text"
  sw_print :: "fields \<Rightarrow> string + string"
  sw_profile :: "Profile json_to_message"
  sw_show_profile :: "Profile \<Rightarrow> string"

definition Client_ParseProfileFromGetResponse :: "es_world \<Rightarrow> string \<Rightarrow> Profile option \<times> string" where
  "Client_ParseProfileFromGetResponse w response_body =
     (case sw_object w response_body of
        Inl parse_status \<Rightarrow> (None, print_line (''Failed to parse Elasticsearch JSON response: '' @ parse_status))
      | Inr response_fields \<Rightarrow>
          (case Client_RequireField response_fields ''found'' of
             (None, out) \<Rightarrow> (None, out)
           | (Some found, _) \<Rightarrow>
               if \<not> bool_value found then (None, print_line ''Elasticsearch document was not found.'')
               else
                 (case Client_RequireField response_fields ''_source'' of
                    (None, out) \<Rightarrow> (None, out)
                  | (Some (StructValue source), _) \<Rightarrow>
                      (case sw_print w source of
                         Inl serialize_status \<Rightarrow>
                           (None, print_line (''Failed to serialize Elasticsearch _source JSON: '' @ serialize_status))
                       | Inr profile_json \<Rightarrow>
                           (case JsonToPB (sw_profile w) profile_json (Some Profile_default) (Some []) of
                              (True, profile, _) \<Rightarrow> (profile, [])
                            | (False, _, error) \<Rightarrow>
                                (None, print_line (''Failed to parse Profile protobuf: '' @ (case error of None \<Rightarrow> [] | Some e \<Rightarrow> e)))))
                  | (Some _, _) \<Rightarrow> (None, print_line ''Elasticsearch _source field is not a JSON object.''))))"

definition es_call_times :: "es_world \<Rightarrow> nat \<Rightarrow> string \<Rightarrow> string" where
  "es_call_times w i name =
     PrintTimestampUtc (sw_utc_text w) (sw_started w i) (name @ '' request started at UTC'') @
     PrintTimestampUtc (sw_utc_text w) (sw_received w i) (name @ '' response received at UTC'') @
     print_line (name @ '' elapsed: '' @ show_int (sw_elapsed w i) @ '' ms'')"

definition print_profile :: "es_world \<Rightarrow> Profile \<Rightarrow> string" where
  "print_profile w profile =
     print_line ''Fetched profile protobuf:'' @ print_line (sw_show_profile w profile) @
     print_line ''Fetched profile summary:'' @
     print_field ''user_id'' (show_int (sint (pf_user_id profile))) @
     print_field ''username'' (de_username (pf_demographics profile)) @
     print_field ''rated_items'' (show_nat (length (be_rated_items (pf_behaviors profile)))) @
     print_field ''rating_count'' (show_int (ps_rating_count (pf_stats profile))) @
     print_field ''profile_confidence'' (print_double (ps_profile_confidence (pf_stats profile)))"

definition Es_launch_request ::
  "es_world \<Rightarrow> ElasticsearchConfig \<Rightarrow> 's http_execute \<Rightarrow> string \<Rightarrow> string \<Rightarrow> 's \<Rightarrow> bool \<times> string \<times> 's" where
  "Es_launch_request w client http profile_index user_id s =
     (case ParseInt64Arg user_id ''user_id'' of
        (None, out) \<Rightarrow> (False, out, s)
      | (Some expected_user_id, _) \<Rightarrow>
          (case Es_Health client http s of
             (health, s) \<Rightarrow>
               let out = print_line ''Elasticsearch Health request:'' @ print_line ''  endpoint: GET /_cluster/health'' @
                         es_call_times w 0 ''Elasticsearch Health'' @ PrintElasticsearchResult ''Elasticsearch Health response'' health
               in if \<not> er_ok health then (False, out, s)
                  else
                    (case Es_Get client http profile_index user_id s of
                       (get_result, s) \<Rightarrow>
                         let out = out @ print_line ''Elasticsearch Get request:'' @ print_field ''index'' profile_index @
                                   print_field ''id'' user_id @ es_call_times w 1 ''Elasticsearch Get'' @
                                   PrintElasticsearchResult ''Elasticsearch Get response'' get_result
                         in if \<not> er_ok get_result then (False, out, s)
                            else
                              (case Client_ParseProfileFromGetResponse w (er_body get_result) of
                                 (None, out') \<Rightarrow> (False, out @ out', s)
                               | (Some profile, out') \<Rightarrow>
                                   let out = out @ out' @ print_profile w profile
                                   in if pf_user_id profile \<noteq> expected_user_id
                                      then (False, out @ print_line ''Fetched profile user_id does not match requested id.'', s)
                                      else if be_rated_items (pf_behaviors profile) = [] \<or> ps_rating_count (pf_stats profile) \<le> 0 \<or>
                                              fle (double_value (ps_profile_confidence (pf_stats profile))) (Fin 0)
                                      then (False, out @ print_line ''Fetched profile does not look like generated MovieLens data.'', s)
                                      else (True, out @ newline @
                                              print_line ''Elasticsearch profile client completed successfully.'', s)))))"

text \<open>The client of a configuration: the curl client that is made, and how it executes requests.\<close>

definition Es_main ::
  "es_world \<Rightarrow> bool \<Rightarrow> (nat \<Rightarrow> 'c option) \<Rightarrow> ('c CurlHttpClient \<Rightarrow> 's http_execute) \<Rightarrow> (string \<Rightarrow> string option) \<Rightarrow>
     getopt_long \<Rightarrow> string list \<Rightarrow> 's \<Rightarrow> ClientExitCode \<times> string \<times> 's" where
  "Es_main w init_ok easy_init execute getenv getopt args s =
     (case Es_ParseArgs getopt args (Es_LoadDefaultConfig getenv) of
        (None, out) \<Rightarrow> (kArgs, out, s)
      | (Some config, out) \<Rightarrow>
          (let out = out @ PrintRunStartedAtUtc (sw_utc_text w) (sw_run_started w) @ Es_PrintConfig config
           in case Es_ValidateConfig config of
                (False, out1) \<Rightarrow> (kErr, out @ out1, s)
              | (True, out1) \<Rightarrow>
                  (case ElasticsearchClient_create init_ok easy_init (BuildElasticsearchClientConfig config) of
                     Inl e \<Rightarrow>
                       (kErr, out @ print_line (''Elasticsearch profile client failed with exception: '' @ exception_text e), s)
                   | Inr (http_client, client) \<Rightarrow>
                       (case Es_launch_request w client (execute http_client) (scc_profile_index config) (scc_user_id config) s of
                          (ok, out2, s) \<Rightarrow> (if ok then ClientExitCode.kOk else kErr, out @ out2, s)))))"

section \<open>Agreement with the profile store\<close>

lemma strtol_show_int: "strtol_value (show_int i) = Some i"
proof -
  have digits: "takeWhile is_digit (show_nat n) = show_nat n" for n
    using show_nat_digits [of n] by (simp add: takeWhile_eq_all_conv)
  obtain d ds where d: "show_nat (nat i) = d # ds" by (cases "show_nat (nat i)") auto
  then have "is_digit d" using show_nat_digits [of "nat i"] by simp
  then have first: "\<not> is_space d" "d \<noteq> CHR ''-''" "d \<noteq> CHR ''+''" by (auto simp: is_digit_def is_space_def Let_def)
  have minus: "\<not> is_space (CHR ''-'')" by (simp add: is_space_def)
  show ?thesis
  proof (cases "i < 0")
    case True
    then show ?thesis by (simp add: strtol_value_def show_int_def minus digits digits_val_show_nat)
  next
    case False
    then show ?thesis
      using first digits [of "nat i"] digits_val_show_nat [of "nat i"] by (simp add: strtol_value_def show_int_def d)
  qed
qed

lemma ParseInt64Arg_show_int:
  "fst (ParseInt64Arg (show_int i) name) =
     (if - 9223372036854775808 \<le> i \<and> i \<le> 9223372036854775807 then Some (of_int i) else None)"
  by (auto simp: ParseInt64Arg_def stoi_within_def strtol_show_int)

lemma Client_RequireField_eq:
  "fst (Client_RequireField fs name) = (case RequireField fs name of Inl e \<Rightarrow> None | Inr v \<Rightarrow> Some v)"
  by (simp add: Client_RequireField_def RequireField_def FindField_def split: option.splits)

lemma JsonToPB_some: "JsonToPB parse json (Some m) e = (True, p, e') \<Longrightarrow> \<exists>q. p = Some q"
  by (auto simp: JsonToPB_def split: prod.splits option.splits)

lemma Client_Parse_eq:
  "fst (Client_ParseProfileFromGetResponse w body) = Some p \<longleftrightarrow>
     ParseProfileFromGetResponse (sw_object w) (sw_print w) (sw_profile w) body Profile_default = Inr (True, p)"
  by (auto simp: Client_ParseProfileFromGetResponse_def ParseProfileFromGetResponse_def Client_RequireField_def RequireField_def
      FindField_def kEsFoundField_def kEsSourceField_def dest: JsonToPB_some
      split: sum.splits prod.splits option.splits Value.splits bool.splits if_splits)

text \<open>The client refuses what is not a 64-bit id, before it asks anything.\<close>

lemma elasticsearch_client_range:
  assumes "\<not> (- 9223372036854775808 \<le> i \<and> i \<le> 9223372036854775807)"
  shows "\<exists>out. Es_launch_request w client http profile_index (show_int i) s = (False, out, s)"
proof -
  have "fst (ParseInt64Arg (show_int i) ''user_id'') = None" using assms by (auto simp: ParseInt64Arg_show_int)
  then show ?thesis by (cases "ParseInt64Arg (show_int i) ''user_id''") (auto simp: Es_launch_request_def)
qed

text \<open>
  C40. The client accepts exactly what the profile service would serve: asked for an id that the service can look
  up, a 32-bit \<open>int\<close>, in decimal, it succeeds exactly when the cluster is healthy and the profile store of the
  service, over the same server, finds a profile of that user that has rated items, ratings and confidence.
\<close>

theorem elasticsearch_client_agrees:
  "fst (Es_launch_request w client http profile_index (show_int (sint user_id)) s) \<longleftrightarrow>
     (case Es_Health client http s of
        (health, s') \<Rightarrow>
          er_ok health \<and>
          (case fst (ElasticsearchProfileStore_FindByUserId (sw_object w) (sw_print w) (sw_profile w)
                       \<lparr>es_client = client, es_index = profile_index\<rparr> http user_id s') of
             Inr (Some p) \<Rightarrow>
               sint (pf_user_id p) = sint user_id \<and> be_rated_items (pf_behaviors p) \<noteq> [] \<and>
               0 < ps_rating_count (pf_stats p) \<and>
               \<not> fle (double_value (ps_profile_confidence (pf_stats p))) (Fin 0)
           | _ \<Rightarrow> False))"
proof -
  let ?i = "sint (user_id :: int32)"
  have "- (2 ^ 31) \<le> ?i" "?i < 2 ^ 31" using sint_ge [of user_id] sint_lt [of user_id] by simp_all
  then have range: "- 9223372036854775808 \<le> ?i" "?i \<le> 9223372036854775807" by simp_all
  then obtain out where parsed: "ParseInt64Arg (show_int ?i) ''user_id'' = (Some (of_int ?i), out)"
    using ParseInt64Arg_show_int [of ?i "''user_id''"] by (cases "ParseInt64Arg (show_int ?i) ''user_id''") auto
  have "sint (of_int i :: 64 word) = i" if "- 9223372036854775808 \<le> i" "i \<le> 9223372036854775807" for i
    using that by (simp add: signed_of_int signed_take_bit_int_eq_self)
  from this [OF range] have same: "sint (pf_user_id p) = ?i \<longleftrightarrow> pf_user_id p = of_int ?i" for p by (metis signed_word_eqI)
  obtain health s1 where health: "Es_Health client http s = (health, s1)" by fastforce
  obtain result s2 where result: "Es_Get client http profile_index (show_int ?i) s1 = (result, s2)" by fastforce
  let ?client = "Client_ParseProfileFromGetResponse w (er_body result)"
  let ?store = "ParseProfileFromGetResponse (sw_object w) (sw_print w) (sw_profile w) (er_body result) Profile_default"
  show ?thesis
  proof (cases "fst ?client")
    case None
    then have "?store \<noteq> Inr (True, p)" for p using Client_Parse_eq [of w "er_body result"] by auto
    then show ?thesis using None
      by (cases ?client)
        (auto simp: Es_launch_request_def parsed health result Let_def ElasticsearchProfileStore_FindByUserId_def split: sum.splits)
  next
    case (Some p)
    then have "?store = Inr (True, p)" using Client_Parse_eq by blast
    then show ?thesis using Some same [of p]
      by (cases ?client) (auto simp: Es_launch_request_def parsed health result Let_def ElasticsearchProfileStore_FindByUserId_def)
  qed
qed

end
