(* ===== verification/WeatherForecast.thy ===== *)
theory WeatherForecast
  imports CommandLine ServiceStartup
begin

text \<open>
  The weather service of src/src/weather_forecast, its messages, and its command line client
  weather_forecast_fetcher_client.cpp.
\<close>

section \<open>Messages\<close>

datatype WeatherCondition = WEATHER_UNKNOWN | SUNNY | CLOUDY | RAINY | SNOWY

datatype WeatherServiceStatus = WEATHER_SUCCESS | WEATHER_CITY_NOT_FOUND | WEATHER_SYSTEM_ERROR

record WeatherData =
  wd_condition :: WeatherCondition
  wd_temperature :: float64

record GetWeatherRequest =
  gwq_city :: string

record GetWeatherResponse =
  gws_status :: WeatherServiceStatus
  gws_msg :: string
  gws_data :: "WeatherData option"

definition GetWeatherResponse_default :: GetWeatherResponse where
  "GetWeatherResponse_default = \<lparr>gws_status = WEATHER_SUCCESS, gws_msg = [], gws_data = None\<rparr>"

section \<open>The service\<close>

type_synonym WeatherDataMap = "(string \<times> WeatherCondition) list"

definition CreateDefaultWeatherDataMap :: WeatherDataMap where
  "CreateDefaultWeatherDataMap =
     [(''San Francisco'', SUNNY), (''New York'', CLOUDY), (''Seattle'', RAINY), (''Denver'', SNOWY)]"

definition FetcherService_new :: "WeatherDataMap \<Rightarrow> WeatherDataMap throws" where
  "FetcherService_new weather_data_map =
     (if weather_data_map = []
      then Inl (InvalidArgument ''FetcherServiceImpl weather_data_map must not be empty.'')
      else Inr weather_data_map)"

definition FetcherService_Create :: "WeatherDataMap throws" where
  "FetcherService_Create = FetcherService_new CreateDefaultWeatherDataMap"

text \<open>The status, the response and what is printed.\<close>

definition GetWeather ::
  "WeatherDataMap \<Rightarrow> GetWeatherRequest \<Rightarrow> GetWeatherResponse \<Rightarrow> (grpc_status \<times> GetWeatherResponse) \<times> string" where
  "GetWeather weather_data_map request response =
     (let response = response\<lparr>gws_msg := []\<rparr>; city = gwq_city request in
      case map_of weather_data_map city of
        None \<Rightarrow>
          ((StatusError NOT_FOUND ''City not found.'',
            response\<lparr>gws_status := WEATHER_CITY_NOT_FOUND, gws_msg := ''City not found.''\<rparr>), [])
      | Some condition \<Rightarrow>
          ((StatusOK,
            response\<lparr>gws_data := Some \<lparr>wd_condition = condition, wd_temperature = Fin 22\<rparr>,
                     gws_status := WEATHER_SUCCESS, gws_msg := []\<rparr>),
           print_line (''Requested weather for city: '' @ city)))"

definition fetcher_main :: "WeatherDataMap server_start \<Rightarrow> string list \<Rightarrow> GlobalConfig \<Rightarrow> LoggerRegistry \<Rightarrow> startup" where
  "fetcher_main start argv =
     RunGrpcService (start\<lparr>ss_create := \<lambda>c. created (thrown FetcherService_Create)\<rparr>) ''fetcher'' argv"

section \<open>The client\<close>

record WeatherClientConfig =
  wcc_ip :: string
  wcc_port :: string
  wcc_city :: string

definition WeatherClientConfig_new :: WeatherClientConfig where
  "WeatherClientConfig_new = \<lparr>wcc_ip = ''127.0.0.1'', wcc_port = ''40000'', wcc_city = ''Denver''\<rparr>"

definition WeatherClient_PrintUsage :: string where
  "WeatherClient_PrintUsage =
     print_line ''Usage: weather_client [options]'' @
     print_line ''Options:'' @
     print_line ''  -h, --help           Show this help message'' @
     print_line ''  -i, --ip <IP>        Set server IP (default: 127.0.0.1)'' @
     print_line ''  -p, --port <PORT>    Set server port (default: 40000)'' @
     print_line ''  -c, --city <CITY>    Set city name for weather query (default: Denver)''"

definition WeatherClient_long_options :: "LongOption list" where
  "WeatherClient_long_options =
     [no_argument ''help'' (CHR ''h''), required_argument ''ip'' (CHR ''i''), required_argument ''port'' (CHR ''p''),
      required_argument ''city'' (CHR ''c'')]"

definition WeatherClient_option :: "int \<Rightarrow> string \<Rightarrow> WeatherClientConfig \<Rightarrow> WeatherClientConfig parsed" where
  "WeatherClient_option opt optarg config =
     (if opt = opt_char (CHR ''h'') then (None, WeatherClient_PrintUsage)
      else if opt = opt_char (CHR ''i'') then (Some (config\<lparr>wcc_ip := optarg\<rparr>), [])
      else if opt = opt_char (CHR ''p'') then (Some (config\<lparr>wcc_port := optarg\<rparr>), [])
      else if opt = opt_char (CHR ''c'') then (Some (config\<lparr>wcc_city := optarg\<rparr>), [])
      else (None, WeatherClient_PrintUsage))"

definition WeatherClient_ParseArgs :: "getopt_long \<Rightarrow> string list \<Rightarrow> WeatherClientConfig parsed" where
  "WeatherClient_ParseArgs getopt args =
     parse_options WeatherClient_option (getopt ''hi:p:c:'' WeatherClient_long_options args) WeatherClientConfig_new"

definition WeatherClient_PrintConfig :: "WeatherClientConfig \<Rightarrow> string" where
  "WeatherClient_PrintConfig config =
     print_line ''Client config:'' @
     print_field ''ip'' (wcc_ip config) @ print_field ''port'' (wcc_port config) @
     print_field ''target'' (BuildTarget (wcc_ip config) (wcc_port config)) @
     print_field ''city'' (wcc_city config) @ newline"

definition WeatherClient_launch_request ::
  "(GetWeatherRequest, GetWeatherResponse) rpc_world \<Rightarrow> string \<Rightarrow> bool \<times> string" where
  "WeatherClient_launch_request w city = call_service w ''GetWeather'' 0 \<lparr>gwq_city = city\<rparr>"

definition WeatherClient_main ::
  "(GetWeatherRequest, GetWeatherResponse) rpc_world \<Rightarrow> getopt_long \<Rightarrow> string list \<Rightarrow> ClientExitCode \<times> string" where
  "WeatherClient_main w getopt args =
     (case WeatherClient_ParseArgs getopt args of
        (None, out) \<Rightarrow> (kArgs, out)
      | (Some config, out) \<Rightarrow>
          (case WeatherClient_launch_request w (wcc_city config) of
             (ok, out') \<Rightarrow>
               (if ok then kOk else kErr,
                out @ PrintRunStartedAtUtc (rw_utc_text w) (rw_run_started w) @ WeatherClient_PrintConfig config @ out')))"

section \<open>Client and service together\<close>

text \<open>
  Against the service as it is created, the client succeeds exactly for one of the four cities the service
  knows.
\<close>

definition serves_weather :: "(GetWeatherRequest, GetWeatherResponse) rpc_world \<Rightarrow> bool" where
  "serves_weather w \<longleftrightarrow>
     (\<exists>m. FetcherService_Create = Inr m \<and> rw_answer w = (\<lambda>i request. fst (GetWeather m request GetWeatherResponse_default)))"

lemma weather_client_outcome:
  assumes "serves_weather w"
  shows "fst (WeatherClient_main w getopt args) =
    (case fst (WeatherClient_ParseArgs getopt args) of
       None \<Rightarrow> kArgs
     | Some config \<Rightarrow>
         if wcc_city config \<in> {''San Francisco'', ''New York'', ''Seattle'', ''Denver''} then kOk else kErr)"
proof -
  obtain parsed out where parse: "WeatherClient_ParseArgs getopt args = (parsed, out)" by fastforce
  have served: "fst (call_service w ''GetWeather'' 0 \<lparr>gwq_city = city\<rparr>) \<longleftrightarrow>
      city \<in> {''San Francisco'', ''New York'', ''Seattle'', ''Denver''}" for city
    using assms
    by (auto simp: serves_weather_def FetcherService_Create_def FetcherService_new_def CreateDefaultWeatherDataMap_def
        call_service_ok answered_ok_def GetWeather_def Let_def)
  show ?thesis
  proof (cases parsed)
    case (Some config)
    obtain ok out' where call: "call_service w ''GetWeather'' 0 \<lparr>gwq_city = wcc_city config\<rparr> = (ok, out')" by fastforce
    then show ?thesis
      using served [of "wcc_city config"] by (simp add: WeatherClient_main_def parse Some WeatherClient_launch_request_def)
  qed (simp add: WeatherClient_main_def parse)
qed

end
