(* ===== verification/Spec2Isabelle.thy ===== *)
theory Spec2Isabelle
  imports EndToEnd SimilarityStores ElasticsearchStores PoolWakeups ServiceStartup
    RankingClient RedisCommandClient ElasticsearchCommandClient WeatherForecast
begin

text \<open>
  A model of the ShootingStar recommendation engine (src/src/recommendation_engine and the
  utilities under src/src/utilities that it rests on).

  The program is a set of gRPC services. The gateway takes a user id and calls the profile service,
  then the retrieval orchestrator, then the ranking service. The orchestrator calls the retrievers
  (item-based and user-based collaborative filtering) and merges what they return; the user-based
  retriever calls the profile service again for the profiles of similar users. Stores answer the
  lookups of the services from files, Redis or Elasticsearch, some behind an LRU cache.

  Theories, in the order of the imports:
    \<^item> \<open>Prelude\<close>: machine integers, exceptions as values, decimal text, \<open>std::sort\<close> and the
      orders it needs (locales \<open>strict_weak_order\<close>, \<open>keyed_order\<close>).
    \<^item> \<open>Binary64\<close>: binary64 as exact rationals, rounded, with NaN and infinities (\<open>float64\<close>), and with
      the negative zero beside them (\<open>double\<close>); \<open>TextDouble\<close>: text to \<open>double\<close>; \<open>TextLines\<close>: lines, blanks, trimming.
    \<^item> \<open>LruCache\<close> (lru_cache.h): list, index and clock, refining an association list in recency order;
      locales \<open>ttl_cache\<close> and \<open>read_through\<close> for the stores that cache another store.
    \<^item> \<open>JsonParser\<close> (json_parser.cpp): typed reads from \<open>google.protobuf.Value\<close>.
    \<^item> \<open>Messages\<close>: the protobuf messages.
    \<^item> \<open>RetrieverBase\<close>, \<open>CandidatePool\<close>, \<open>RetrieverItemCf\<close>, \<open>RetrieverUserCf\<close>: the retrievers.
    \<^item> \<open>CandidateMerge\<close>, \<open>Orchestrator\<close>: merging candidates and the retrieval orchestrator.
    \<^item> \<open>HeuristicRanker\<close>, \<open>RankingService\<close>: the ranker and the ranking service.
    \<^item> \<open>RedisClient\<close> (redis_client.cpp): the commands with their retries; \<open>SimilarityStores\<close>: the
      similarity stores over files and over Redis, single and in one pipeline.
    \<^item> \<open>ItemIndexStore\<close>: entries of the item index, their JSON, the caching and the file store.

    \<^item> \<open>ProfileStores\<close>, \<open>ProfileService\<close> (profile/, local_profile_loader, pb_data_handler): the store
      loaded from a file, the cache, the two handlers; locale \<open>answering_store\<close>.
    \<^item> \<open>RuntimeUtilities\<close> (runtime_utilities.cpp): deadlines of server calls, base64 and its decoder,
      paths, timeouts, generated ids.
    \<^item> \<open>ResourcePools\<close> (resource_pool.h, curl_handle_pool.cpp): a pool and its leases as a step relation
      with the ownership invariant; \<open>HttpClient\<close> (http_client.h, curl_http_client.cpp): transfers with
      their retries, over the list of events of a call; every wait, transfer and sleep within the
      timeout or the delay configured for it and the deadline.
    \<^item> \<open>ElasticsearchStores\<close> (elasticsearch_client.cpp and the two stores over it): the client over any
      HTTP client (locale \<open>http_transport\<close>, interpreted on the curl client), its requests, and the
      stores, which over a server that holds the documents of the files (\<open>serves\<close>) answer as the stores
      loaded from these files do, and which take no failure for an answer.
    \<^item> \<open>Configuration\<close>, \<open>ConfigLoading\<close>, \<open>ConfigContract\<close>, \<open>ConfigPrecedence\<close> (global_config.cpp): the
      table of fields, canonical values and accessors; the YAML file, the command line and what is
      logged; the types of the values; which source decides a value, for
      command lines of all four forms of argument (\<open>command_line\<close>).
    \<^item> \<open>ServiceFactories\<close>: \<open>Create\<close> of every service and client from the configuration, with the choice
      of store and cache.
    \<^item> \<open>StructuredLogger\<close> (logger.cpp, logger_registry.cpp): the JSON lines and their reading back, the
      interceptor of gRPC calls as a state machine, the registry as a step relation with its invariant.
    \<^item> \<open>PoolWakeups\<close>: the threads that wait at a pool, as a step relation in which no wake-up is lost.
    \<^item> \<open>ServiceStartup\<close> (grpc_service_runner.h, the mains): from the configuration to the running server.
    \<^item> \<open>CommandLine\<close> (clients/common.cpp): options, printed text, calls, and the loop over users with its
      contract (locale \<open>launches_one\<close>); \<open>RpcClients\<close>, \<open>RankingClient\<close>: the clients of the services;
      \<open>RedisCommandClient\<close>, \<open>ElasticsearchCommandClient\<close>: the clients of the stores, against the stores the
      services use; \<open>WeatherForecast\<close>: the weather service and its client.
    \<^item> \<open>Gateway\<close> (gateway_service.cpp): the pipeline; \<open>EndToEnd\<close>: the services put together, and what
      a recommendation is from end to end.

  Conventions. A 64-bit id is a word, as is the 32-bit \<open>int\<close> id of a user in the Elasticsearch store;
  a C++ \<open>double\<close> is \<open>float64\<close> where it is compared and computed with, which cannot tell the two zeros apart,
  and the type \<open>double\<close> where it is read from text to be printed again; a string is a list of characters; an
  \<open>unordered_map\<close> that is iterated is an association list with distinct keys (and its order is
  shown not to matter), any other one a map. Exceptions are \<open>Inl\<close>, undefined behaviour is an outer
  \<open>None\<close>. A handler takes its request and the fresh response and returns the gRPC status and the
  response. What a handler logs has no effect on its result and is left out of it; the logger has its own
  theory. What is not under src/ is an
  argument: gRPC stubs, the JSON text parser, the file system, the clock, generated ids.

  What is not modelled: what is not C++ of the program (the Python tools, the deployment files), and what
  the program only calls: gRPC and its server, protobuf, curl, redis-plus-plus, the YAML library,
  \<open>getopt_long\<close>, clocks and files. These are arguments.
\<close>

end
